(* ===== verification/Prelude.thy ===== *)
theory Prelude imports Complex_Main "HOL-Library.Word" begin

text \<open>
  What the components share: the development's collections of facts, Go's machine integers
  (\<open>int\<close> and \<open>int64\<close> as integers with the wrap-around written out where it can happen,
  division truncating towards zero), stable sorting, and list facts.
\<close>

text \<open>\<open>go_defs\<close>: the definitions of a component's small helpers, unfolded together.\<close>

named_theorems go_defs

section \<open>Machine integers\<close>

text \<open>The two's complement value of the low 64 bits: what \<open>int64\<close> arithmetic leaves.\<close>

definition wrap64 :: "int \<Rightarrow> int" where
  "wrap64 x = signed_take_bit 63 x"

definition int64_max :: int where "int64_max = 2 ^ 63 - 1"

definition int64_min :: int where "int64_min = - (2 ^ 63)"

lemma wrap64_id: "int64_min \<le> x \<Longrightarrow> x \<le> int64_max \<Longrightarrow> wrap64 x = x"
  by (simp add: wrap64_def int64_min_def int64_max_def signed_take_bit_int_eq_self)

lemma wrap64_range: "int64_min \<le> wrap64 x \<and> wrap64 x \<le> int64_max"
  using signed_take_bit_int_greater_eq_minus_exp[of 63 x] signed_take_bit_int_less_exp[of 63 x]
  by (simp add: wrap64_def int64_min_def int64_max_def)

text \<open>\<open>a / b\<close> and \<open>a % b\<close> on integers; every use in the model has a constant non-zero divisor.\<close>

definition go_quot :: "int \<Rightarrow> int \<Rightarrow> int" where
  "go_quot a b = sgn a * sgn b * (\<bar>a\<bar> div \<bar>b\<bar>)"

definition go_rem :: "int \<Rightarrow> int \<Rightarrow> int" where
  "go_rem a b = a - b * go_quot a b"

lemma go_quot_nonneg [simp]: "0 \<le> a \<Longrightarrow> 0 < b \<Longrightarrow> go_quot a b = a div b"
  by (cases "a = 0") (simp_all add: go_quot_def sgn_if)

lemma go_rem_nonneg [simp]: "0 \<le> a \<Longrightarrow> 0 < b \<Longrightarrow> go_rem a b = a mod b"
  by (simp add: go_rem_def minus_mult_div_eq_mod)

section \<open>Stable sorting\<close>

text \<open>
  \<open>sort.SliceStable\<close> with a comparison \<open>lt\<close> that is a strict weak order: insertion of each
  element before the first later one that it does not follow, from the right, so equal elements
  keep their order. With \<open>lt a b = (key a < key b)\<close> this is \<open>sort_key\<close>.
\<close>

abbreviation sort_stable_by :: "('a \<Rightarrow> 'k::linorder) \<Rightarrow> 'a list \<Rightarrow> 'a list" where
  "sort_stable_by key xs \<equiv> sort_key key xs"

lemma last_sorted_max: "x \<in> set ys \<Longrightarrow> sorted (map f ys) \<Longrightarrow> f x \<le> f (last ys)"
  by (cases ys rule: rev_cases) (auto simp: sorted_append)

lemma last_sort_key_max: "x \<in> set xs \<Longrightarrow> f x \<le> f (last (sort_key f xs))"
  by (rule last_sorted_max) simp_all

fun insert_by :: "('a \<Rightarrow> 'a \<Rightarrow> bool) \<Rightarrow> 'a \<Rightarrow> 'a list \<Rightarrow> 'a list" where
  "insert_by lt x [] = [x]"
| "insert_by lt x (y # ys) = (if lt y x then y # insert_by lt x ys else x # y # ys)"

definition sort_stable :: "('a \<Rightarrow> 'a \<Rightarrow> bool) \<Rightarrow> 'a list \<Rightarrow> 'a list" where
  "sort_stable lt xs = foldr (insert_by lt) xs []"

lemma set_insert_by [simp]: "set (insert_by lt x ys) = insert x (set ys)"
  by (induction ys) auto

lemma length_insert_by [simp]: "length (insert_by lt x ys) = Suc (length ys)"
  by (induction ys) auto

lemma set_sort_stable [simp]: "set (sort_stable lt xs) = set xs"
  by (induction xs) (auto simp: sort_stable_def)

lemma length_sort_stable [simp]: "length (sort_stable lt xs) = length xs"
  by (induction xs) (auto simp: sort_stable_def)

lemma distinct_insert_by: "distinct (insert_by lt x ys) = (x \<notin> set ys \<and> distinct ys)"
  by (induction ys) auto

lemma distinct_sort_stable [simp]: "distinct (sort_stable lt xs) = distinct xs"
proof (induction xs)
  case (Cons x xs)
  then show ?case using set_sort_stable[of lt xs]
    by (simp add: sort_stable_def distinct_insert_by)
qed (simp add: sort_stable_def)

lemma sorted_insert_by:
  assumes "\<And>a b. lt a b \<Longrightarrow> \<not> lt b a" "\<And>a b c. \<not> lt b a \<Longrightarrow> \<not> lt c b \<Longrightarrow> \<not> lt c a"
  shows "sorted_wrt (\<lambda>a b. \<not> lt b a) ys \<Longrightarrow> sorted_wrt (\<lambda>a b. \<not> lt b a) (insert_by lt x ys)"
  by (induction ys) (auto dest: assms)

lemma sorted_sort_stable:
  assumes "\<And>a b. lt a b \<Longrightarrow> \<not> lt b a" "\<And>a b c. \<not> lt b a \<Longrightarrow> \<not> lt c b \<Longrightarrow> \<not> lt c a"
  shows "sorted_wrt (\<lambda>a b. \<not> lt b a) (sort_stable lt xs)"
  by (induction xs) (simp_all add: sort_stable_def sorted_insert_by[OF assms])

text \<open>Filtering commutes with stable sorting.\<close>

lemma insert_by_first: "\<forall>y\<in>set ys. \<not> lt y x \<Longrightarrow> insert_by lt x ys = x # ys"
  by (cases ys) auto

lemma filter_insert_by:
  assumes "\<And>a b c. \<not> lt b a \<Longrightarrow> \<not> lt c b \<Longrightarrow> \<not> lt c a"
  shows "sorted_wrt (\<lambda>a b. \<not> lt b a) ys \<Longrightarrow>
    filter P (insert_by lt x ys) = (if P x then insert_by lt x (filter P ys) else filter P ys)"
proof (induction ys)
  case (Cons y ys)
  show ?case
  proof (cases "lt y x")
    case True
    then show ?thesis using Cons by simp
  next
    case False
    then have "\<forall>z\<in>set (y # ys). \<not> lt z x" using Cons.prems assms by fastforce
    then have "insert_by lt x (filter P (y # ys)) = x # filter P (y # ys)" by (intro insert_by_first) auto
    then show ?thesis using False by simp
  qed
qed simp

lemma filter_sort_stable:
  assumes "\<And>a b. lt a b \<Longrightarrow> \<not> lt b a" "\<And>a b c. \<not> lt b a \<Longrightarrow> \<not> lt c b \<Longrightarrow> \<not> lt c a"
  shows "filter P (sort_stable lt xs) = sort_stable lt (filter P xs)"
proof (induction xs)
  case (Cons x xs)
  have "sorted_wrt (\<lambda>a b. \<not> lt b a) (sort_stable lt xs)" by (rule sorted_sort_stable[OF assms])
  from filter_insert_by[OF assms(2) this] Cons show ?case by (simp add: sort_stable_def)
qed (simp add: sort_stable_def)

section \<open>Errors\<close>

text \<open>A fallible operation returns \<open>Inl\<close> of its error or \<open>Inr\<close> of its result.\<close>

fun bind_result :: "'e + 'a \<Rightarrow> ('a \<Rightarrow> 'e + 'b) \<Rightarrow> 'e + 'b" where
  "bind_result (Inl e) f = Inl e"
| "bind_result (Inr x) f = f x"

lemma bind_result_Inr [simp]: "bind_result r f = Inr y \<longleftrightarrow> (\<exists>x. r = Inr x \<and> f x = Inr y)"
  by (cases r) auto

end
