(* ===== verification/Binary64.thy ===== *)
theory Binary64 imports Complex_Main "HOL-Library.Log_Nat" begin

text \<open>
  Go's \<open>float64\<close> on finite values. A finite double is the rational number it denotes; every
  arithmetic operation of the source is the exact operation followed by \<open>f64\<close>, the IEEE 754
  round-to-nearest-even to a 53-bit significand with gradual underflow (exponents from -1074).
  Left out: overflow to infinity (magnitudes of 2 powi 1024 and more), NaN and the sign of zero.
  The locale \<open>rounding\<close> states what the grading arithmetic relies on; it is interpreted
  on \<open>f64\<close> at the end.
\<close>

section \<open>Round half to even\<close>

definition rne :: "rat \<Rightarrow> int" where
  "rne y = (let n = \<lfloor>y\<rfloor>; d = y - of_int n in
     if d < 1/2 then n else if d > 1/2 then n + 1 else if even n then n else n + 1)"

lemma rne_of_int [simp]: "rne (of_int n) = n"
  by (simp add: rne_def)

lemma rne_bounds: "\<lfloor>y\<rfloor> \<le> rne y" "rne y \<le> \<lfloor>y\<rfloor> + 1"
  by (simp_all add: rne_def Let_def)

lemma rne_mono: "y \<le> z \<Longrightarrow> rne y \<le> rne z"
proof -
  assume yz: "y \<le> z"
  then have fl: "\<lfloor>y\<rfloor> \<le> \<lfloor>z\<rfloor>" by (rule floor_mono)
  show ?thesis
  proof (cases "\<lfloor>y\<rfloor> = \<lfloor>z\<rfloor>")
    case True
    with yz show ?thesis by (auto simp: rne_def Let_def)
  next
    case False
    with fl have "\<lfloor>y\<rfloor> + 1 \<le> \<lfloor>z\<rfloor>" by simp
    with rne_bounds[of y] rne_bounds[of z] show ?thesis by linarith
  qed
qed

lemma floor_minus_frac:
  fixes y :: rat
  assumes "y \<noteq> of_int \<lfloor>y\<rfloor>"
  shows "\<lfloor>- y\<rfloor> = - \<lfloor>y\<rfloor> - 1"
  using assms by (intro floor_unique) (auto, linarith+)

lemma rne_minus: "rne (- y) = - rne y"
proof (cases "y = of_int \<lfloor>y\<rfloor>")
  case True
  then obtain n where "y = of_int n" by blast
  then have "rne (- y) = rne (of_int (- n))" by simp
  with \<open>y = of_int n\<close> show ?thesis by (simp only: rne_of_int)
next
  case False
  define n d where "n = \<lfloor>y\<rfloor>" and "d = y - of_int n"
  have fl: "\<lfloor>- y\<rfloor> = - n - 1" unfolding n_def by (rule floor_minus_frac[OF False])
  have "rne (- y) = (if 1 - d < 1/2 then - n - 1 else if 1 - d > 1/2 then - n
      else if even (- n - 1) then - n - 1 else - n)"
    by (simp add: rne_def fl d_def Let_def)
  also have "\<dots> = - rne y"
    unfolding rne_def Let_def n_def[symmetric] d_def by auto
  finally show ?thesis .
qed

section \<open>The binary exponent of a positive rational\<close>

definition ilog2 :: "rat \<Rightarrow> int" where
  "ilog2 x = (let (p, q) = quotient_of x; e = bitlen p - bitlen q in
     if 2 powi e \<le> x then e else e - 1)"

lemma bitlen_powi_bounds:
  assumes "0 < (p::int)"
  shows "2 powi (bitlen p - 1) \<le> (of_int p :: rat)" "(of_int p :: rat) < 2 powi (bitlen p)"
proof -
  have b: "0 < bitlen p" using assms by (simp add: bitlen_alt_def)
  have "(of_int (2 ^ nat (bitlen p - 1)) :: rat) \<le> of_int p"
    using bitlen_bounds[OF assms] of_int_le_iff by blast
  then show "2 powi (bitlen p - 1) \<le> (of_int p :: rat)"
    using b by (simp add: power_int_def)
  have "(of_int p :: rat) < of_int (2 ^ nat (bitlen p))"
    using bitlen_bounds[OF assms] of_int_less_iff by blast
  then show "(of_int p :: rat) < 2 powi (bitlen p)"
    using b by (simp add: power_int_def)
qed

lemma ilog2_bounds:
  assumes "0 < x"
  shows "2 powi (ilog2 x) \<le> x" "x < 2 powi (ilog2 x + 1)"
proof -
  obtain p q where pq: "quotient_of x = (p, q)" by fastforce
  then have q: "0 < q" and x: "x = of_int p / of_int q"
    by (auto simp: quotient_of_denom_pos quotient_of_div)
  have p: "0 < p" using assms x q by (simp add: zero_less_divide_iff)
  note P = bitlen_powi_bounds[OF p] and Q = bitlen_powi_bounds[OF q]
  have up: "x < 2 powi (bitlen p - bitlen q + 1)"
  proof -
    have "x * 2 powi (bitlen q - 1) \<le> x * of_int q"
      using assms Q(1) by (intro mult_left_mono) auto
    also have "\<dots> = of_int p" using x q by simp
    also have "\<dots> < 2 powi (bitlen p)" by (rule P(2))
    finally have "x < 2 powi (bitlen p) / 2 powi (bitlen q - 1)"
      by (simp add: field_simps)
    then show ?thesis by (simp flip: power_int_diff add: algebra_simps)
  qed
  have lo: "2 powi (bitlen p - bitlen q - 1) \<le> x"
  proof -
    have "2 powi (bitlen p - 1) \<le> (of_int p :: rat)" by (rule P(1))
    also have "\<dots> = x * of_int q" using x q by simp
    also have "\<dots> \<le> x * 2 powi (bitlen q)"
      using assms Q(2) by (intro mult_left_mono) auto
    finally have "2 powi (bitlen p - 1) / 2 powi (bitlen q) \<le> x"
      by (simp add: field_simps)
    then show ?thesis by (simp flip: power_int_diff add: algebra_simps)
  qed
  show "2 powi (ilog2 x) \<le> x" using lo by (simp add: ilog2_def pq Let_def)
  show "x < 2 powi (ilog2 x + 1)" using up by (simp add: ilog2_def pq Let_def)
qed

lemma powi2_less_iff: "(2::rat) powi a < 2 powi b \<longleftrightarrow> a < b"
  by (metis linorder_neq_iff one_less_numeral_iff power_int_strict_increasing semiring_norm(76)
      order_less_asym)

lemma powi2_le_iff: "(2::rat) powi a \<le> 2 powi b \<longleftrightarrow> a \<le> b"
  using powi2_less_iff[of b a] by (simp add: linorder_not_less[symmetric])

lemma ilog2_less: "0 < x \<Longrightarrow> x < 2 powi k \<Longrightarrow> ilog2 x < k"
  by (meson ilog2_bounds(1) le_less_trans powi2_less_iff)

lemma ilog2_ge: "0 < x \<Longrightarrow> 2 powi k \<le> x \<Longrightarrow> k \<le> ilog2 x"
  by (metis ilog2_bounds(2) le_less_trans powi2_less_iff zless_add1_eq order_le_less)

lemma ilog2_mono: "0 < x \<Longrightarrow> x \<le> y \<Longrightarrow> ilog2 x \<le> ilog2 y"
  by (meson ilog2_bounds(1) ilog2_ge order_less_le_trans order_trans)

section \<open>Rounding to binary64\<close>

definition ulp_exp :: "rat \<Rightarrow> int" where
  "ulp_exp x = max (ilog2 \<bar>x\<bar> - 52) (-1074)"

definition f64 :: "rat \<Rightarrow> rat" where
  "f64 x = (if x = 0 then 0 else of_int (rne (x / 2 powi ulp_exp x)) * 2 powi ulp_exp x)"

lemma f64_0 [simp]: "f64 0 = 0"
  by (simp add: f64_def)

lemma f64_minus [simp]: "f64 (- x) = - f64 x"
  by (simp add: f64_def ulp_exp_def rne_minus flip: minus_divide_left)

lemma f64_representable:
  assumes m: "\<bar>m\<bar> \<le> 2 ^ 53" and k: "-1074 \<le> k"
  shows "f64 (of_int m * 2 powi k) = of_int m * 2 powi k"
proof (cases "m = 0")
  case False
  let ?r = "of_int m * 2 powi k :: rat"
  have r: "\<bar>?r\<bar> = of_int \<bar>m\<bar> * 2 powi k" and r0: "?r \<noteq> 0"
    using False by (auto simp: abs_mult)
  have scale: "\<exists>j. ?r / 2 powi ulp_exp ?r = of_int j"
  proof (cases "ulp_exp ?r \<le> k")
    case True
    have "?r / 2 powi ulp_exp ?r = of_int m * 2 powi (k - ulp_exp ?r)"
      by (simp add: power_int_diff)
    also have "\<dots> = of_int (m * 2 ^ nat (k - ulp_exp ?r))"
      using True by (simp add: power_int_def)
    finally show ?thesis by blast
  next
    case nle: False
    have "(of_int \<bar>m\<bar> :: rat) \<le> of_int (2 ^ 53)" using m of_int_le_iff by blast
    then have ub: "\<bar>?r\<bar> \<le> 2 powi (k + 53)"
      by (simp add: r power_int_add mult.commute)
    have m53: "\<bar>m\<bar> = 2 ^ 53"
    proof (rule ccontr)
      assume "\<bar>m\<bar> \<noteq> 2 ^ 53"
      then have "(of_int \<bar>m\<bar> :: rat) < of_int (2 ^ 53)" using m by (subst of_int_less_iff) simp
      then have "\<bar>?r\<bar> < 2 powi (k + 53)" by (simp add: r power_int_add mult.commute)
      then have "ilog2 \<bar>?r\<bar> < k + 53" using r0 by (intro ilog2_less) simp_all
      then show False using nle k by (simp add: ulp_exp_def)
    qed
    have "\<bar>?r\<bar> < 2 powi (k + 54)"
      using ub by (rule le_less_trans) (simp add: powi2_less_iff)
    then have "ilog2 \<bar>?r\<bar> < k + 54" using r0 by (intro ilog2_less) simp_all
    then have e: "ulp_exp ?r = k + 1" using nle k by (simp add: ulp_exp_def)
    obtain s :: int where s: "m = s * 2 * 2 ^ 52" 
      using m53 by (cases "m \<ge> 0") (auto intro: that[of 1] that[of "-1"])
    have "?r / 2 powi ulp_exp ?r = of_int (s * 2 ^ 52)"
      unfolding e by (simp add: s power_int_add)
    then show ?thesis by blast
  qed
  then obtain j where j: "?r / 2 powi ulp_exp ?r = of_int j" by blast
  then have "f64 ?r = of_int j * 2 powi ulp_exp ?r" using r0 by (simp add: f64_def)
  also have "\<dots> = ?r" by (simp flip: j)
  finally show ?thesis .
qed simp

lemma f64_of_int: "\<bar>n\<bar> \<le> 2 ^ 53 \<Longrightarrow> f64 (of_int n) = of_int n"
  using f64_representable[of n 0] by simp

lemma f64_powi: "-1074 \<le> k \<Longrightarrow> f64 (2 powi k) = 2 powi k"
  using f64_representable[of 1 k] by simp

lemma ulp_exp_mono: "0 < x \<Longrightarrow> x \<le> y \<Longrightarrow> ulp_exp x \<le> ulp_exp y"
  using ilog2_mono[of x y] by (simp add: ulp_exp_def)

text \<open>Rounding at one fixed exponent is monotone and exact on that exponent's grid.\<close>

lemma rne_scale_mono:
  "x \<le> y \<Longrightarrow> of_int (rne (x / 2 powi e)) * (2::rat) powi e \<le> of_int (rne (y / 2 powi e)) * 2 powi e"
  by (intro mult_right_mono) (auto intro!: rne_mono divide_right_mono)

lemma rne_scale_exact:
  "e \<le> k \<Longrightarrow> of_int (rne (2 powi k / 2 powi e)) * (2::rat) powi e = 2 powi k"
proof -
  assume "e \<le> k"
  then have "(2::rat) powi (k - e) = of_int (2 ^ nat (k - e))"
    by (simp add: power_int_def)
  moreover have "(2::rat) powi k / 2 powi e = 2 powi (k - e)"
    by (simp add: power_int_diff)
  ultimately have eq: "(2::rat) powi k / 2 powi e = of_int (2 ^ nat (k - e))" by simp
  have "of_int (rne (2 powi k / 2 powi e)) * (2::rat) powi e = 2 powi k / 2 powi e * 2 powi e"
    unfolding eq rne_of_int ..
  then show ?thesis by simp
qed

lemma f64_mono_pos:
  assumes x: "0 < x" and xy: "x \<le> y"
  shows "f64 x \<le> f64 y"
proof (cases "ulp_exp x = ulp_exp y")
  case True
  with assms show ?thesis by (simp add: f64_def rne_scale_mono)
next
  case False
  with ulp_exp_mono[OF assms] have lt: "ulp_exp x < ulp_exp y" by simp
  then have lx: "ilog2 x < ilog2 y" and ey: "ulp_exp y = ilog2 y - 52"
    using x xy by (auto simp: ulp_exp_def max_def split: if_splits)
  let ?B = "2 powi (ilog2 y) :: rat"
  have "x < 2 powi (ilog2 x + 1)" by (rule ilog2_bounds(2)[OF x])
  also have "\<dots> \<le> ?B" using lx by (simp add: powi2_le_iff)
  finally have xB: "x \<le> ?B" by simp
  have "f64 x = of_int (rne (x / 2 powi ulp_exp x)) * 2 powi ulp_exp x"
    using x by (simp add: f64_def)
  also have "\<dots> \<le> of_int (rne (?B / 2 powi ulp_exp x)) * 2 powi ulp_exp x"
    using xB by (rule rne_scale_mono)
  also have "\<dots> = ?B" using lt ey by (intro rne_scale_exact) linarith
  also have "\<dots> = of_int (rne (?B / 2 powi ulp_exp y)) * 2 powi ulp_exp y"
    using ey by (intro rne_scale_exact[symmetric]) linarith
  also have "\<dots> \<le> of_int (rne (y / 2 powi ulp_exp y)) * 2 powi ulp_exp y"
    using ilog2_bounds(1)[of y] x xy by (intro rne_scale_mono) simp
  also have "\<dots> = f64 y" using x xy by (simp add: f64_def)
  finally show ?thesis .
qed

lemma f64_nonneg_pos: "0 < x \<Longrightarrow> 0 \<le> f64 x"
proof -
  assume x: "0 < x"
  have "of_int (rne (0 / 2 powi ulp_exp x)) * (2::rat) powi ulp_exp x
      \<le> of_int (rne (x / 2 powi ulp_exp x)) * 2 powi ulp_exp x"
    using x by (intro rne_scale_mono) simp
  moreover have "rne 0 = 0" using rne_of_int[of 0] by simp
  ultimately show ?thesis using x by (simp add: f64_def)
qed

theorem f64_mono: "x \<le> y \<Longrightarrow> f64 x \<le> f64 y"
proof -
  assume xy: "x \<le> y"
  consider "0 < x" | "x = 0" | "x < 0" "y \<ge> 0" | "y < 0" using xy by linarith
  then show ?thesis
  proof cases
    case 1 then show ?thesis using xy by (rule f64_mono_pos)
  next
    case 2 then show ?thesis using xy f64_nonneg_pos[of y] by (cases "y = 0") auto
  next
    case 3
    then have "f64 x \<le> 0" using f64_nonneg_pos[of "- x"] by simp
    also have "0 \<le> f64 y" using 3 f64_nonneg_pos[of y] by (cases "y = 0") auto
    finally show ?thesis .
  next
    case 4 then show ?thesis using f64_mono_pos[of "- y" "- x"] xy by simp
  qed
qed

text \<open>Every rounded value is a significand of at most 53 bits, so rounding again changes nothing.\<close>

lemma f64_significand:
  obtains m where "f64 x = of_int m * 2 powi ulp_exp x" "\<bar>m\<bar> \<le> 2 ^ 53"
proof (cases "x = 0")
  case True
  then show ?thesis by (intro that[of 0]) simp_all
next
  case False
  let ?e = "ulp_exp x" and ?m = "rne (x / 2 powi ulp_exp x)"
  have "\<bar>x\<bar> < 2 powi (ilog2 \<bar>x\<bar> + 1)" using False by (intro ilog2_bounds(2)) simp
  also have "\<dots> \<le> 2 powi (?e + 53)" by (simp add: powi2_le_iff ulp_exp_def)
  finally have "\<bar>x\<bar> < 2 powi ?e * 2 ^ 53" by (simp add: power_int_add)
  then have q: "\<bar>x / 2 powi ?e\<bar> \<le> of_int (2 ^ 53)"
    by (simp add: abs_divide field_simps)
  then have "?m \<le> 2 ^ 53" "- (2 ^ 53) \<le> ?m"
    using rne_mono[of "x / 2 powi ?e" "of_int (2 ^ 53)"]
      rne_mono[of "of_int (- (2 ^ 53))" "x / 2 powi ?e"]
    unfolding rne_of_int abs_le_iff by (simp_all add: minus_le_iff)
  then have "\<bar>?m\<bar> \<le> 2 ^ 53" by linarith
  with False show ?thesis by (intro that[of ?m]) (simp_all add: f64_def)
qed

theorem f64_idem [simp]: "f64 (f64 x) = f64 x"
proof -
  obtain m where m: "f64 x = of_int m * 2 powi ulp_exp x" "\<bar>m\<bar> \<le> 2 ^ 53"
    by (rule f64_significand)
  then show ?thesis by (simp add: f64_representable ulp_exp_def)
qed

section \<open>The operations of the source\<close>

definition fadd :: "rat \<Rightarrow> rat \<Rightarrow> rat" where "fadd x y = f64 (x + y)"

definition fsub :: "rat \<Rightarrow> rat \<Rightarrow> rat" where "fsub x y = f64 (x - y)"

definition fmul :: "rat \<Rightarrow> rat \<Rightarrow> rat" where "fmul x y = f64 (x * y)"

text \<open>Division; every call site of the model guards against a zero divisor as the code does.\<close>

definition fdiv :: "rat \<Rightarrow> rat \<Rightarrow> rat" where "fdiv x y = f64 (x / y)"

text \<open>\<open>float64(n)\<close> of an integer, \<open>int(f)\<close> of a double (truncation), and \<open>math.Round\<close>
  (half away from zero), \<open>math.Floor\<close>, \<open>math.Ceil\<close>, which are exact.\<close>

definition float_of_int :: "int \<Rightarrow> rat" where "float_of_int n = f64 (of_int n)"

definition int_of_float :: "rat \<Rightarrow> int" where
  "int_of_float x = (if x < 0 then - \<lfloor>- x\<rfloor> else \<lfloor>x\<rfloor>)"

definition math_Round :: "rat \<Rightarrow> rat" where
  "math_Round x = (if x < 0 then - of_int \<lfloor>- x + 1/2\<rfloor> else of_int \<lfloor>x + 1/2\<rfloor>)"

definition math_Floor :: "rat \<Rightarrow> rat" where "math_Floor x = of_int \<lfloor>x\<rfloor>"

definition math_Ceil :: "rat \<Rightarrow> rat" where "math_Ceil x = of_int \<lceil>x\<rceil>"

lemmas float_ops = fadd_def fsub_def fmul_def fdiv_def

lemma math_Round_nonneg: "0 \<le> x \<Longrightarrow> 0 \<le> math_Round x"
  by (simp add: math_Round_def)

lemma math_Round_mono: "x \<le> y \<Longrightarrow> math_Round x \<le> math_Round y"
proof -
  assume xy: "x \<le> y"
  consider "x < 0" "y < 0" | "x < 0" "0 \<le> y" | "0 \<le> x" by linarith
  then show ?thesis
  proof cases
    case 1 then show ?thesis using xy by (simp add: math_Round_def floor_mono)
  next
    case 2
    then have "(0::rat) \<le> of_int \<lfloor>- x + 1/2\<rfloor>" "(0::rat) \<le> of_int \<lfloor>y + 1/2\<rfloor>" by simp_all
    then have "- of_int \<lfloor>- x + 1/2\<rfloor> \<le> (of_int \<lfloor>y + 1/2\<rfloor> :: rat)" by linarith
    with 2 show ?thesis by (simp only: math_Round_def if_True if_False not_less[symmetric]) simp
  next
    case 3 then show ?thesis using xy by (simp add: math_Round_def floor_mono)
  qed
qed

lemma math_Round_of_int [simp]: "math_Round (of_int n) = of_int n"
  by (auto simp: math_Round_def floor_unique)

section \<open>What the grading arithmetic relies on\<close>

text \<open>
  The contract between the arithmetic and its clients: a rounding is monotone, odd and exact on
  the integers up to \<open>bound\<close>. The client lemmas bound a rounded value by the exact one.
\<close>

locale rounding =
  fixes rnd :: "rat \<Rightarrow> rat" and bound :: int
  assumes mono: "x \<le> y \<Longrightarrow> rnd x \<le> rnd y"
    and exact: "\<bar>n\<bar> \<le> bound \<Longrightarrow> rnd (of_int n) = of_int n"
    and bound_pos: "1 \<le> bound"
begin

lemma rnd_0: "rnd 0 = 0"
  using exact[of 0] bound_pos by simp

lemma rnd_1: "rnd 1 = 1"
  using exact[of 1] bound_pos by simp

lemma nonneg: "0 \<le> x \<Longrightarrow> 0 \<le> rnd x"
  using mono[of 0 x] by (simp add: rnd_0)

lemma nonpos: "x \<le> 0 \<Longrightarrow> rnd x \<le> 0"
  using mono[of x 0] by (simp add: rnd_0)

lemma le_int: "\<bar>n\<bar> \<le> bound \<Longrightarrow> x \<le> of_int n \<Longrightarrow> rnd x \<le> of_int n"
  using mono[of x "of_int n"] exact[of n] by simp

lemma ge_int: "\<bar>n\<bar> \<le> bound \<Longrightarrow> of_int n \<le> x \<Longrightarrow> of_int n \<le> rnd x"
  using mono[of "of_int n" x] exact[of n] by simp

lemma unit: "0 \<le> x \<Longrightarrow> x \<le> 1 \<Longrightarrow> 0 \<le> rnd x \<and> rnd x \<le> 1"
  using nonneg[of x] mono[of x 1] by (simp add: rnd_1)

text \<open>A rounded quotient of a part by its whole, and a rounded product with a unit factor.\<close>

lemma ratio_unit: "0 \<le> x \<Longrightarrow> x \<le> y \<Longrightarrow> 0 < y \<Longrightarrow> 0 \<le> rnd (x / y) \<and> rnd (x / y) \<le> 1"
  by (rule unit) (simp_all add: field_simps)

lemma shrink: "rnd y = y \<Longrightarrow> 0 \<le> y \<Longrightarrow> 0 \<le> w \<Longrightarrow> w \<le> 1 \<Longrightarrow> rnd (y * w) \<le> y"
  using mono[of "y * w" y] by (simp add: mult_left_le)

end

interpretation ieee: rounding f64 "2 ^ 53"
  by unfold_locales (auto simp: f64_mono f64_of_int)

end
