(* ===== verification/Go_Time.thy ===== *)
theory Go_Time imports Prelude Binary64 begin

text \<open>
  The instants and durations of Go's \<open>time\<close> package. An instant is its number of nanoseconds
  since the Unix epoch (unbounded: \<open>time.Time\<close> holds years far beyond what is used); a duration
  is an \<open>int64\<close> of nanoseconds. \<open>t.After(u)\<close>, \<open>t.Before(u)\<close> and \<open>t.Equal(u)\<close> are the
  comparisons of the integers; \<open>t.Sub(u)\<close> saturates. Monotonic clock readings are left out.
\<close>

type_synonym instant = int

type_synonym duration = int

definition second :: duration where "second = 1000000000"

definition minute :: duration where "minute = 60 * second"

definition hour :: duration where "hour = 60 * minute"

definition day :: duration where "day = 24 * hour"

lemmas time_units = second_def minute_def hour_def day_def

text \<open>The zero \<open>time.Time\<close>: midnight UTC, 1 January of year 1.\<close>

definition zero_time :: instant where "zero_time = - 62135596800 * second"

definition is_zero :: "instant \<Rightarrow> bool" where "is_zero t = (t = zero_time)"

definition time_sub :: "instant \<Rightarrow> instant \<Rightarrow> duration" where
  "time_sub t u = max int64_min (min int64_max (t - u))"

lemma time_sub_self [simp]: "time_sub t t = 0"
  by (simp add: time_sub_def int64_min_def int64_max_def)

lemma time_sub_nonneg_iff: "0 \<le> time_sub t u \<longleftrightarrow> u \<le> t"
  by (auto simp: time_sub_def int64_min_def int64_max_def)

lemma time_sub_pos_iff: "0 < time_sub t u \<longleftrightarrow> u < t"
  by (auto simp: time_sub_def int64_min_def int64_max_def)

lemma time_sub_mono: "t \<le> t' \<Longrightarrow> time_sub t u \<le> time_sub t' u"
  by (auto simp: time_sub_def)

lemma time_sub_exact: "int64_min \<le> t - u \<Longrightarrow> t - u \<le> int64_max \<Longrightarrow> time_sub t u = t - u"
  by (simp add: time_sub_def)

text \<open>\<open>d * time.Second\<close> in \<open>int64\<close>, which wraps, and \<open>d.Hours()\<close>, \<open>d.Seconds()\<close>.\<close>

definition dur_mul :: "int \<Rightarrow> duration \<Rightarrow> duration" where
  "dur_mul n d = wrap64 (n * d)"

definition dur_hours :: "duration \<Rightarrow> rat" where
  "dur_hours d = fadd (float_of_int (go_quot d hour)) (fdiv (float_of_int (go_rem d hour)) (of_int hour))"

definition dur_seconds :: "duration \<Rightarrow> rat" where
  "dur_seconds d = fadd (float_of_int (go_quot d second)) (fdiv (float_of_int (go_rem d second)) (of_int second))"

text \<open>\<open>int(f)\<close> in \<open>int64\<close>: a value outside the range is the least integer, as the conversion yields on amd64.\<close>

definition int_conv :: "rat \<Rightarrow> int" where
  "int_conv f = (let i = int_of_float f in if int64_min \<le> i \<and> i \<le> int64_max then i else int64_min)"

lemma dur_hours_0 [simp]: "dur_hours 0 = 0"
  by (simp add: dur_hours_def go_quot_def go_rem_def float_of_int_def float_ops)

end
