(* ===== verification/Mastery.thy ===== *)
theory Mastery imports Go_Time begin

text \<open>
  The six mastery calculators of \<open>internal/service/gamification/mastery\<close> and the level buckets
  they share. A calculator maps the recorded attempts (\<open>Event\<close>) and the dial settings
  (\<open>Params\<close>) to a \<open>State\<close>; the interface \<open>Calculator\<close> is the locale
  \<open>calculator\<close>, interpreted on each of the six.
\<close>

section \<open>Events, parameters, states\<close>

record mastery_event =
  OccurredAt :: instant
  EvScore :: rat
  EvWeight :: rat

record mastery_params =
  PNow :: instant
  DecayingAverageRecentWeight :: rat
  NTimesRequired :: int
  NTimesThreshold :: rat
  HalfLifeDays :: rat
  ReattemptThreshold :: rat

record mastery_state =
  MValue :: rat
  MLevel :: string
  MAsOf :: instant

text \<open>\<open>State{}\<close>: what a calculator returns when nothing is known.\<close>

definition zero_state :: mastery_state where
  "zero_state = \<lparr>MValue = 0, MLevel = '''', MAsOf = zero_time\<rparr>"

definition default_params :: mastery_params where
  "default_params = \<lparr>PNow = zero_time, DecayingAverageRecentWeight = 0, NTimesRequired = 0,
     NTimesThreshold = 0, HalfLifeDays = 0, ReattemptThreshold = 0\<rparr>"

section \<open>Levels\<close>

definition LevelNovice :: string where "LevelNovice = ''novice''"

definition LevelFamiliar :: string where "LevelFamiliar = ''familiar''"

definition LevelProficient :: string where "LevelProficient = ''proficient''"

definition LevelMastered :: string where "LevelMastered = ''mastered''"

lemmas level_names = LevelNovice_def LevelFamiliar_def LevelProficient_def LevelMastered_def

definition LevelOrdinal :: "string \<Rightarrow> int" where
  "LevelOrdinal level =
     (if level = LevelNovice then 0
      else if level = LevelFamiliar then 1
      else if level = LevelProficient then 2
      else if level = LevelMastered then 3
      else -1)"

definition LevelFor :: "rat \<Rightarrow> string" where
  "LevelFor value =
     (if value < f64 (40/100) then LevelNovice
      else if value < f64 (65/100) then LevelFamiliar
      else if value < f64 (85/100) then LevelProficient
      else LevelMastered)"

definition clamp01 :: "rat \<Rightarrow> rat" where
  "clamp01 v = (if v < 0 then 0 else if v > 1 then 1 else v)"

lemma clamp01_unit: "0 \<le> clamp01 v" "clamp01 v \<le> 1"
  by (simp_all add: clamp01_def)

lemma clamp01_mono: "v \<le> w \<Longrightarrow> clamp01 v \<le> clamp01 w"
  by (simp add: clamp01_def)

lemma level_ordinals [simp]:
  "LevelOrdinal LevelNovice = 0" "LevelOrdinal LevelFamiliar = 1"
  "LevelOrdinal LevelProficient = 2" "LevelOrdinal LevelMastered = 3" "LevelOrdinal '''' = -1"
  by (simp_all add: LevelOrdinal_def level_names)

lemma LevelFor_ordinal_nonneg: "0 \<le> LevelOrdinal (LevelFor v)"
  by (simp add: LevelFor_def)

text \<open>A higher value never has a lower level: the cut-offs are in order.\<close>

lemma LevelFor_mono: "v \<le> w \<Longrightarrow> LevelOrdinal (LevelFor v) \<le> LevelOrdinal (LevelFor w)"
proof -
  assume "v \<le> w"
  moreover have "f64 (40/100) \<le> f64 (65/100)" "f64 (65/100) \<le> f64 (85/100)"
    by (rule f64_mono; simp)+
  ultimately show ?thesis by (auto simp: LevelFor_def)
qed

text \<open>The common tail of the calculators: clamp, bucket, stamp.\<close>

definition state_of :: "rat \<Rightarrow> instant \<Rightarrow> mastery_state" where
  "state_of x t = (let v = clamp01 x in \<lparr>MValue = v, MLevel = LevelFor v, MAsOf = t\<rparr>)"

lemma state_of_sel [simp]:
  "MValue (state_of x t) = clamp01 x" "MLevel (state_of x t) = LevelFor (clamp01 x)" "MAsOf (state_of x t) = t"
  by (simp_all add: state_of_def Let_def)

lemma zero_state_sel [simp]: "MValue zero_state = 0" "MLevel zero_state = ''''" "MAsOf zero_state = zero_time"
  by (simp_all add: zero_state_def)

section \<open>The calculators\<close>

text \<open>\<open>sum += x\<close> over a slice.\<close>

definition sum_float :: "rat list \<Rightarrow> rat" where
  "sum_float xs = foldl fadd 0 xs"

abbreviation by_time :: "mastery_event list \<Rightarrow> mastery_event list" where
  "by_time es \<equiv> sort_stable_by OccurredAt es"

definition MostRecent :: "mastery_event list \<Rightarrow> mastery_params \<Rightarrow> mastery_state" where
  "MostRecent events params =
     (case events of [] \<Rightarrow> zero_state
      | e0 # rest \<Rightarrow>
          let latest = foldl (\<lambda>latest e. if \<not> OccurredAt e < OccurredAt latest then e else latest) e0 rest
          in state_of (EvScore latest) (OccurredAt latest))"

definition better :: "mastery_event \<Rightarrow> mastery_event \<Rightarrow> mastery_event" where
  "better best e = (if EvScore e > EvScore best \<or> EvScore e = EvScore best \<and> OccurredAt e > OccurredAt best
     then e else best)"

definition Highest :: "mastery_event list \<Rightarrow> mastery_params \<Rightarrow> mastery_state" where
  "Highest events params =
     (case events of [] \<Rightarrow> zero_state
      | e0 # rest \<Rightarrow>
          let best = foldl better e0 rest
          in state_of (EvScore best) (OccurredAt best))"

definition DecayingAverage :: "mastery_event list \<Rightarrow> mastery_params \<Rightarrow> mastery_state" where
  "DecayingAverage events params =
     (if events = [] then zero_state else
      let w0 = DecayingAverageRecentWeight params;
          w1 = (if w0 \<le> 0 then f64 (65/100) else w0);
          w = (if w1 > 1 then 1 else w1);
          sorted = by_time events;
          recent = last sorted
      in if length sorted = 1 then state_of (EvScore recent) (OccurredAt recent)
         else
           let priors = butlast sorted;
               priorAvg = fdiv (sum_float (map EvScore priors)) (float_of_int (int (length priors)))
           in state_of (fadd (fmul (EvScore recent) w) (fmul priorAvg (fsub 1 w))) (OccurredAt recent))"

text \<open>The loop of \<open>NTimes\<close>: \<open>None\<close> when an attempt falls below the threshold.\<close>

fun n_times_sum :: "rat \<Rightarrow> rat \<Rightarrow> mastery_event list \<Rightarrow> rat option" where
  "n_times_sum thr acc [] = Some acc"
| "n_times_sum thr acc (e # es) =
     (if EvScore e < thr then None else n_times_sum thr (fadd acc (EvScore e)) es)"

definition NTimes :: "mastery_event list \<Rightarrow> mastery_params \<Rightarrow> mastery_state" where
  "NTimes events params =
     (let n = (if NTimesRequired params \<le> 0 then 3 else NTimesRequired params);
          thr = (if NTimesThreshold params \<le> 0 then f64 (8/10) else NTimesThreshold params)
      in if int (length events) < n then zero_state
         else
           let sorted = by_time events;
               last_n = drop (length sorted - nat n) sorted
           in case n_times_sum thr 0 last_n of
                None \<Rightarrow> zero_state
              | Some s \<Rightarrow> state_of (fdiv s (float_of_int n)) (OccurredAt (last last_n)))"

definition WeightedAverage :: "mastery_event list \<Rightarrow> mastery_params \<Rightarrow> mastery_state" where
  "WeightedAverage events params =
     (case events of [] \<Rightarrow> zero_state
      | e0 # _ \<Rightarrow>
          let (num, den, latest) = foldl (\<lambda>(num, den, latest) e.
                let w = (if EvWeight e \<le> 0 then 1 else EvWeight e)
                in (fadd num (fmul (EvScore e) w), fadd den w,
                    if OccurredAt e > latest then OccurredAt e else latest))
                (0, 0, OccurredAt e0) events
          in if den = 0 then zero_state\<lparr>MAsOf := latest\<rparr>
             else state_of (fdiv num den) latest)"

text \<open>
  \<open>KhanSpacedRetrieval\<close>. The parameter \<open>m_exp\<close> stands for \<open>math.Exp\<close>; the decayed score inside
  the loop is computed and discarded by the code, so it does not appear in the step.
\<close>

definition Ln2 :: rat where
  "Ln2 = f64 (693147180559945309417232121458176568 / 10 ^ 36)"

definition khan_decay :: "(rat \<Rightarrow> rat) \<Rightarrow> rat \<Rightarrow> duration \<Rightarrow> rat" where
  "khan_decay m_exp halfLife d =
     (let deltaDays0 = fdiv (dur_hours d) 24;
          deltaDays = (if deltaDays0 < 0 then 0 else deltaDays0)
      in m_exp (fdiv (fmul (- Ln2) deltaDays) halfLife))"

definition khan_step :: "rat \<Rightarrow> rat \<times> instant \<Rightarrow> mastery_event \<Rightarrow> rat \<times> instant" where
  "khan_step thr s e = (if EvScore e \<ge> thr then 1 else EvScore e, OccurredAt e)"

definition KhanSpacedRetrieval ::
    "(rat \<Rightarrow> rat) \<Rightarrow> mastery_event list \<Rightarrow> mastery_params \<Rightarrow> mastery_state" where
  "KhanSpacedRetrieval m_exp events params =
     (if events = [] then zero_state else
      let halfLife = (if HalfLifeDays params \<le> 0 then 7 else HalfLifeDays params);
          thr = (if ReattemptThreshold params \<le> 0 then f64 (8/10) else ReattemptThreshold params);
          sorted = by_time events;
          first = hd sorted;
          start = (if EvScore first \<ge> thr then 1 else EvScore first, OccurredAt first);
          (currentScore, anchor) = foldl (khan_step thr) start (tl sorted);
          now = (if is_zero (PNow params) then OccurredAt (last sorted) else PNow params)
      in state_of (fmul currentScore (khan_decay m_exp halfLife (time_sub now anchor))) now)"

section \<open>The interface and its implementations\<close>

text \<open>
  Every calculator returns the zero state on no events, a value in the unit interval, and as
  level either none or the bucket of its value; what clients derive is proved once here.
\<close>

locale calculator =
  fixes calculate :: "mastery_event list \<Rightarrow> mastery_params \<Rightarrow> mastery_state"
  assumes no_events: "calculate [] p = zero_state"
    and unit: "0 \<le> MValue (calculate es p) \<and> MValue (calculate es p) \<le> 1"
    and bucket: "MLevel (calculate es p) = '''' \<or> MLevel (calculate es p) = LevelFor (MValue (calculate es p))"
begin

lemma level_known:
  "MLevel (calculate es p) \<in> {'''', LevelNovice, LevelFamiliar, LevelProficient, LevelMastered}"
  using bucket[of es p] by (auto simp: LevelFor_def split: if_splits)

lemma ordinal_of_value:
  "MLevel (calculate es p) \<noteq> '''' \<Longrightarrow>
     LevelOrdinal (MLevel (calculate es p)) = LevelOrdinal (LevelFor (MValue (calculate es p)))"
  using bucket[of es p] by auto

lemma mastered_needs_value:
  "LevelOrdinal (MLevel (calculate es p)) \<ge> 3 \<Longrightarrow> f64 (85/100) \<le> MValue (calculate es p)"
  using bucket[of es p] by (auto simp: LevelFor_def split: if_splits)

lemma monotone:
  "MLevel (calculate es p) \<noteq> '''' \<Longrightarrow> MLevel (calculate es' p') \<noteq> '''' \<Longrightarrow>
   MValue (calculate es p) \<le> MValue (calculate es' p') \<Longrightarrow>
     LevelOrdinal (MLevel (calculate es p)) \<le> LevelOrdinal (MLevel (calculate es' p'))"
  by (simp add: ordinal_of_value LevelFor_mono)

end

interpretation most_recent: calculator MostRecent
  by unfold_locales (auto simp: MostRecent_def clamp01_unit Let_def split: list.split)

interpretation highest: calculator Highest
  by unfold_locales (auto simp: Highest_def clamp01_unit Let_def split: list.split)

interpretation decaying: calculator DecayingAverage
  by unfold_locales (auto simp: DecayingAverage_def clamp01_unit Let_def)

interpretation n_times: calculator NTimes
  by unfold_locales (auto simp: NTimes_def clamp01_unit Let_def split: option.split)

interpretation weighted: calculator WeightedAverage
  by unfold_locales (auto simp: WeightedAverage_def clamp01_unit Let_def split: list.split prod.split)

interpretation khan: calculator "KhanSpacedRetrieval m_exp" for m_exp
  by unfold_locales (auto simp: KhanSpacedRetrieval_def clamp01_unit Let_def split: prod.split)

section \<open>What the methods compute\<close>

text \<open>Folding the "keep the better" step of \<open>Highest\<close> over the attempts.\<close>

definition beats :: "mastery_event \<Rightarrow> mastery_event \<Rightarrow> bool" where
  "beats b e \<longleftrightarrow> EvScore e < EvScore b \<or> EvScore e = EvScore b \<and> OccurredAt e \<le> OccurredAt b"

lemma beats_refl: "beats b b"
  by (simp add: beats_def)

lemma beats_trans: "beats a b \<Longrightarrow> beats b c \<Longrightarrow> beats a c"
  by (auto simp: beats_def)

lemma better_beats: "beats (better b e) b" "beats (better b e) e"
  by (auto simp: better_def beats_def)

lemma highest_fold: "foldl better e0 es \<in> set (e0 # es) \<and> (\<forall>e\<in>set (e0 # es). beats (foldl better e0 es) e)"
proof (induction es arbitrary: e0)
  case (Cons e es)
  let ?b = "foldl better (better e0 e) es"
  from Cons[of "better e0 e"] have IH: "?b \<in> set (better e0 e # es)"
    "beats ?b (better e0 e)" "\<forall>x\<in>set es. beats ?b x" by auto
  have "beats ?b e0" "beats ?b e" using IH(2) better_beats beats_trans by blast+
  moreover have "better e0 e \<in> {e0, e}" by (simp add: better_def)
  ultimately show ?case using IH by auto
qed (simp add: beats_refl)

text \<open>
  The \<open>highest\<close> method reports the greatest score among the attempts, clamped to the unit
  interval, dated by the latest attempt that reached it; so the order of the attempts is irrelevant.
\<close>

theorem highest_is_latest_maximum:
  assumes "es \<noteq> []"
  shows "MValue (Highest es p) = clamp01 (Max (EvScore ` set es)) \<and>
    MAsOf (Highest es p) = Max (OccurredAt ` {e \<in> set es. EvScore e = Max (EvScore ` set es)})"
proof -
  obtain e0 rest where es: "es = e0 # rest" using assms by (cases es) auto
  define b where "b = foldl better e0 rest"
  have mem: "b \<in> set es" and beats: "\<And>e. e \<in> set es \<Longrightarrow> beats b e"
    using highest_fold[of e0 rest] unfolding b_def es by blast+
  have b: "b \<in> set es" "\<And>e. e \<in> set es \<Longrightarrow> EvScore e \<le> EvScore b"
    "\<And>e. e \<in> set es \<Longrightarrow> EvScore e = EvScore b \<Longrightarrow> OccurredAt e \<le> OccurredAt b"
    using mem beats unfolding beats_def by fastforce+
  have m: "Max (EvScore ` set es) = EvScore b" using b by (intro Max_eqI) auto
  have H: "Highest es p = state_of (EvScore b) (OccurredAt b)"
    by (simp add: Highest_def es b_def Let_def)
  have "Max (OccurredAt ` {e \<in> set es. EvScore e = EvScore b}) = OccurredAt b"
    using b by (intro Max_eqI) auto
  then show ?thesis
    by (simp add: H m)
qed

theorem highest_is_latest_maximum_witness:
  "MValue (Highest [\<lparr>OccurredAt = 5, EvScore = 1/2, EvWeight = 1\<rparr>, \<lparr>OccurredAt = 9, EvScore = 3/4, EvWeight = 1\<rparr>,
     \<lparr>OccurredAt = 7, EvScore = 3/4, EvWeight = 1\<rparr>] default_params) = 3/4 \<and>
   MAsOf (Highest [\<lparr>OccurredAt = 5, EvScore = 1/2, EvWeight = 1\<rparr>, \<lparr>OccurredAt = 9, EvScore = 3/4, EvWeight = 1\<rparr>,
     \<lparr>OccurredAt = 7, EvScore = 3/4, EvWeight = 1\<rparr>] default_params) = 9"
proof -
  let ?es = "[\<lparr>OccurredAt = 5, EvScore = 1/2, EvWeight = 1\<rparr>, \<lparr>OccurredAt = 9, EvScore = 3/4, EvWeight = 1\<rparr>,
     \<lparr>OccurredAt = 7, EvScore = 3/4, EvWeight = 1\<rparr>] :: mastery_event list"
  have m: "Max (EvScore ` set ?es) = 3/4" by simp
  have s: "{e \<in> set ?es. EvScore e = 3/4} = {\<lparr>OccurredAt = 9, EvScore = 3/4, EvWeight = 1\<rparr>,
     \<lparr>OccurredAt = 7, EvScore = 3/4, EvWeight = 1\<rparr>}" by auto
  show ?thesis
    using highest_is_latest_maximum[of ?es default_params] unfolding m s by (simp add: clamp01_def)
qed

lemma khan_foldl:
  "foldl (khan_step thr) (if EvScore e \<ge> thr then 1 else EvScore e, OccurredAt e) es =
     (let l = last (e # es) in (if EvScore l \<ge> thr then 1 else EvScore l, OccurredAt l))"
  by (induction es rule: rev_induct) (auto simp: khan_step_def Let_def split: prod.split)

lemma by_time_Nil_iff [simp]: "by_time es = [] \<longleftrightarrow> es = []"
  by (metis length_0_conv length_sort)

text \<open>
  Spaced retrieval: although the loop replays every attempt, the result is the decay of
  the last attempt alone (1 when it passed the threshold, its own score otherwise) from its own time to now.
\<close>

theorem khan_only_last_attempt:
  assumes "es \<noteq> []"
  shows "KhanSpacedRetrieval m_exp es p =
    (let l = last (by_time es);
         thr = (if ReattemptThreshold p \<le> 0 then f64 (8/10) else ReattemptThreshold p);
         halfLife = (if HalfLifeDays p \<le> 0 then 7 else HalfLifeDays p);
         now = (if is_zero (PNow p) then OccurredAt l else PNow p)
     in state_of (fmul (if EvScore l \<ge> thr then 1 else EvScore l)
          (khan_decay m_exp halfLife (time_sub now (OccurredAt l)))) now)"
proof -
  obtain f r where s: "by_time es = f # r" using assms by (cases "by_time es") auto
  show ?thesis using assms by (simp add: KhanSpacedRetrieval_def s khan_foldl Let_def)
qed

theorem khan_only_last_attempt_witness:
  "KhanSpacedRetrieval (\<lambda>x. 1 / (1 - x)) [\<lparr>OccurredAt = 9, EvScore = 1/2, EvWeight = 1\<rparr>,
     \<lparr>OccurredAt = 5, EvScore = 9/10, EvWeight = 1\<rparr>] default_params
   = \<lparr>MValue = 1/2, MLevel = LevelFamiliar, MAsOf = 9\<rparr>"
  by (subst khan_only_last_attempt) (simp, code_simp)

lemma n_times_sum_Some: "(\<exists>s. n_times_sum thr acc es = Some s) \<longleftrightarrow> (\<forall>e\<in>set es. thr \<le> EvScore e)"
  by (induction es arbitrary: acc) auto

text \<open>
  The \<open>n_times\<close> method has a level exactly when there are at least n attempts and each of the
  last n in time reaches the threshold.
\<close>

theorem n_times_known_iff:
  "MLevel (NTimes es p) \<noteq> '''' \<longleftrightarrow>
     (let n = (if NTimesRequired p \<le> 0 then 3 else NTimesRequired p);
          thr = (if NTimesThreshold p \<le> 0 then f64 (8/10) else NTimesThreshold p)
      in n \<le> int (length es) \<and> list_all (\<lambda>e. thr \<le> EvScore e) (drop (length es - nat n) (by_time es)))"
proof -
  have lvl: "LevelFor v \<noteq> ''''" for v by (simp add: LevelFor_def level_names)
  define n where "n = (if NTimesRequired p \<le> 0 then 3 else NTimesRequired p)"
  define thr where "thr = (if NTimesThreshold p \<le> 0 then f64 (8/10) else NTimesThreshold p)"
  define l where "l = drop (length es - nat n) (by_time es)"
  have "MLevel (NTimes es p) \<noteq> '''' \<longleftrightarrow> n \<le> int (length es) \<and> (\<exists>s. n_times_sum thr 0 l = Some s)"
    unfolding NTimes_def Let_def n_def[symmetric] thr_def[symmetric] length_sort l_def[symmetric]
    by (simp add: lvl not_less split: option.split)
  then show ?thesis
    unfolding Let_def n_def[symmetric] thr_def[symmetric] l_def[symmetric]
    by (simp add: n_times_sum_Some list_all_iff)
qed

lemma insort_key_snoc: "f x \<le> f e \<Longrightarrow> insort_key f x (ys @ [e]) = insort_key f x ys @ [e]"
  by (induction ys) auto

lemma sort_key_snoc: "\<forall>x\<in>set xs. f x \<le> f e \<Longrightarrow> sort_key f (xs @ [e]) = sort_key f xs @ [e]"
  by (induction xs) (auto simp: insort_key_snoc)

text \<open>
  Decaying average: a better latest attempt never lowers the mastery value, with every
  operation rounded to binary64.
\<close>

theorem decaying_average_monotone:
  assumes "\<forall>x\<in>set es. OccurredAt x \<le> t"
    and "s \<le> s'"
  shows "MValue (DecayingAverage (es @ [\<lparr>OccurredAt = t, EvScore = s, EvWeight = w\<rparr>]) p)
       \<le> MValue (DecayingAverage (es @ [\<lparr>OccurredAt = t, EvScore = s', EvWeight = w\<rparr>]) p)"
proof -
  define rw where "rw = (let w0 = DecayingAverageRecentWeight p; w1 = (if w0 \<le> 0 then f64 (65/100) else w0)
      in if w1 > 1 then 1 else w1)"
  have "0 \<le> f64 (65/100)" by (rule ieee.nonneg) simp
  then have rw: "0 \<le> rw" by (simp add: rw_def Let_def)
  have sorted: "by_time (es @ [\<lparr>OccurredAt = t, EvScore = v, EvWeight = w\<rparr>]) =
      by_time es @ [\<lparr>OccurredAt = t, EvScore = v, EvWeight = w\<rparr>]" for v
    using assms(1) by (intro sort_key_snoc) simp
  have m: "MValue (DecayingAverage (es @ [\<lparr>OccurredAt = t, EvScore = v, EvWeight = w\<rparr>]) p) =
      clamp01 (if es = [] then v else fadd (fmul v rw)
        (fmul (fdiv (sum_float (map EvScore (by_time es))) (float_of_int (int (length es)))) (fsub 1 rw)))" for v
    by (simp add: DecayingAverage_def sorted rw_def Let_def)
  show ?thesis
    unfolding m using assms(2) rw
    by (auto intro!: clamp01_mono f64_mono mult_right_mono add_right_mono simp: float_ops)
qed

theorem decaying_average_monotone_witness:
  "MValue (DecayingAverage ([\<lparr>OccurredAt = 1, EvScore = 1/2, EvWeight = 1\<rparr>] @ [\<lparr>OccurredAt = 2, EvScore = 1/4, EvWeight = 1\<rparr>]) default_params)
   \<le> MValue (DecayingAverage ([\<lparr>OccurredAt = 1, EvScore = 1/2, EvWeight = 1\<rparr>] @ [\<lparr>OccurredAt = 2, EvScore = 1, EvWeight = 1\<rparr>]) default_params)"
  by (rule decaying_average_monotone) simp_all

end
