(* ===== verification/Predicates.thy ===== *)
theory Predicates imports Mastery "HOL-Library.Multiset" "HOL-Library.List_Lexorder" "HOL-Library.Char_ord" begin

text \<open>
  The predicate vocabulary of the gamification rules engine
  (\<open>internal/service/gamification/predicates\<close>): the snapshot a predicate reads, the needs it
  declares, the eight predicate types as one datatype with the struct fields as arguments, and
  \<open>Evaluate\<close> with its trace. Reasons are a datatype with one constructor per message of the code.
  The locale \<open>snapshot_reader\<close> is the contract the snapshot loader relies on: a predicate
  depends only on the slices it declares.
\<close>

section \<open>The actor snapshot\<close>

record submission_fact =
  sf_SubmittedAt :: "instant option"
  sf_Score :: "rat option"
  sf_PointsPossible :: rat
  sf_WorkflowState :: string
  sf_OnTime :: bool
  sf_AttemptCount :: int

record quiz_fact =
  qf_SubmittedAt :: "instant option"
  qf_Score :: "rat option"
  qf_PointsPossible :: rat
  qf_WorkflowState :: string
  qf_AttemptCount :: int

record view_fact =
  vf_ViewCount :: int
  vf_TotalSeconds :: int
  vf_FirstViewedAt :: instant
  vf_LastViewedAt :: instant

record mastery_fact =
  mf_Value :: rat
  mf_Level :: string
  mf_CalcMethod :: string
  mf_AsOf :: instant

record actor_snapshot =
  as_UserID :: nat
  as_TenantID :: nat
  as_Now :: instant
  as_Submissions :: "nat \<rightharpoonup> submission_fact"
  as_QuizAttempts :: "nat \<rightharpoonup> quiz_fact"
  as_ViewedContent :: "nat \<rightharpoonup> view_fact"
  as_OutcomeMastery :: "nat \<rightharpoonup> mastery_fact"
  as_WalletBalances :: "nat \<rightharpoonup> int"
  as_CurrencyByCode :: "string \<rightharpoonup> nat"
  as_EarnedBadges :: "nat list"

section \<open>Needs and their union\<close>

record needs =
  AssignmentIDs :: "nat list"
  QuizIDs :: "nat list"
  ContentIDs :: "nat list"
  OutcomeIDs :: "nat list"
  BadgeIDs :: "nat list"
  CurrencyCodes :: "string list"
  WantEnrollments :: bool
  WantLastLogin :: bool

definition no_needs :: needs where
  "no_needs = \<lparr>AssignmentIDs = [], QuizIDs = [], ContentIDs = [], OutcomeIDs = [], BadgeIDs = [],
     CurrencyCodes = [], WantEnrollments = False, WantLastLogin = False\<rparr>"

text \<open>
  \<open>sortUints\<close> and \<open>sortStrings\<close>: the same insertion sort, swapping element j leftwards while its
  left neighbour is greater. \<open>swap_down j s\<close> is the inner loop started at index j.
\<close>

fun swap_down :: "nat \<Rightarrow> 'a::linorder list \<Rightarrow> 'a list" where
  "swap_down 0 s = s"
| "swap_down (Suc j) s =
     (if s ! j > s ! Suc j then swap_down j (s[j := s ! Suc j, Suc j := s ! j]) else s)"

definition sort_slice :: "'a::linorder list \<Rightarrow> 'a list" where
  "sort_slice s = fold swap_down [1..<length s] s"

text \<open>The \<open>seen\<close> loop: keep the first occurrence of every value.\<close>

fun append_unseen :: "'a list \<Rightarrow> 'a list \<Rightarrow> 'a list" where
  "append_unseen out [] = out"
| "append_unseen out (v # vs) = append_unseen (if v \<in> set out then out else out @ [v]) vs"

definition merge_slices :: "'a::linorder list \<Rightarrow> 'a list \<Rightarrow> 'a list" where
  "merge_slices a b =
     (if a = [] \<and> b = [] then [] else sort_slice (append_unseen (append_unseen [] a) b))"

definition Union_needs :: "needs \<Rightarrow> needs \<Rightarrow> needs" where
  "Union_needs a b =
     \<lparr>AssignmentIDs = merge_slices (AssignmentIDs a) (AssignmentIDs b),
      QuizIDs = merge_slices (QuizIDs a) (QuizIDs b),
      ContentIDs = merge_slices (ContentIDs a) (ContentIDs b),
      OutcomeIDs = merge_slices (OutcomeIDs a) (OutcomeIDs b),
      BadgeIDs = merge_slices (BadgeIDs a) (BadgeIDs b),
      CurrencyCodes = merge_slices (CurrencyCodes a) (CurrencyCodes b),
      WantEnrollments = (WantEnrollments a \<or> WantEnrollments b),
      WantLastLogin = (WantLastLogin a \<or> WantLastLogin b)\<rparr>"

section \<open>Predicates and traces\<close>

datatype predicate =
  SubmittedAssignment nat "rat option" "rat option" bool
| SubmittedQuiz nat "rat option" "rat option"
| ViewedContent nat int int
| OutcomeMastery nat string string
| CurrencyThreshold string int
| EarnedBadge nat
| ReputationThreshold int
| ConditionSet string int "predicate list"

definition OpAND :: string where "OpAND = ''AND''"

definition OpOR :: string where "OpOR = ''OR''"

definition OpNOfM :: string where "OpNOfM = ''N_OF_M''"

lemmas op_names = OpAND_def OpOR_def OpNOfM_def

lemma op_distinct [simp]: "OpAND \<noteq> OpOR" "OpAND \<noteq> OpNOfM" "OpOR \<noteq> OpNOfM"
  "OpOR \<noteq> OpAND" "OpNOfM \<noteq> OpAND" "OpNOfM \<noteq> OpOR"
  by (simp_all add: op_names)

definition ReputationCode :: string where "ReputationCode = ''reputation''"

datatype param = PUint nat | PInt int | PFloat rat | PStr string | PBool bool

datatype reason =
  NoReason
| NoSubmissionForAssignment | NoSubmissionForQuiz | SubmissionLate | NoScoreYet
| ScoreBelowMin | ScoreAboveMax
| NoRecordedView | ViewCountBelow | SecondsBelow
| InvalidMinLevel | NoCachedMastery | CachedLevelUnknown | MasteryBelow
| CurrencyNotPresent | BalanceBelow | BadgeNotEarned
| AndStopped string | OrSatisfied string | NReached int int | NCannotReach int int int
| NEnded int int | UnknownOp string

text \<open>\<open>Trace\<close>: kind, result, reason, children and the parameter map as the list of its bindings.\<close>

datatype trace =
  Trace (tr_kind: string) (tr_result: bool) (tr_reason: reason) (tr_children: "trace list")
    (tr_params: "(string \<times> param) list")

definition opt_param :: "string \<Rightarrow> rat option \<Rightarrow> (string \<times> param) list" where
  "opt_param name v = (case v of None \<Rightarrow> [] | Some x \<Rightarrow> [(name, PFloat x)])"

section \<open>Evaluation of the atomic predicates\<close>

text \<open>The two score bounds, shared by the submission predicates: the first failing check's reason.\<close>

definition score_bounds :: "rat option \<Rightarrow> rat option \<Rightarrow> rat option \<Rightarrow> reason" where
  "score_bounds mn mx score =
     (case (mn, score) of
        (Some _, None) \<Rightarrow> NoScoreYet
      | (Some lo, Some s) \<Rightarrow>
          if s < lo then ScoreBelowMin
          else (case mx of Some hi \<Rightarrow> if s > hi then ScoreAboveMax else NoReason | None \<Rightarrow> NoReason)
      | (None, None) \<Rightarrow> (case mx of Some _ \<Rightarrow> NoScoreYet | None \<Rightarrow> NoReason)
      | (None, Some s) \<Rightarrow> (case mx of Some hi \<Rightarrow> if s > hi then ScoreAboveMax else NoReason | None \<Rightarrow> NoReason))"

definition eval_SubmittedAssignment ::
    "nat \<Rightarrow> rat option \<Rightarrow> rat option \<Rightarrow> bool \<Rightarrow> actor_snapshot \<Rightarrow> bool \<times> trace" where
  "eval_SubmittedAssignment aid mn mx onTime actor =
     (let params = [(''assignment_id'', PUint aid), (''require_on_time'', PBool onTime)]
            @ opt_param ''min_score'' mn @ opt_param ''max_score'' mx;
          fail = (\<lambda>r. (False, Trace ''SubmittedAssignment'' False r [] params))
      in case as_Submissions actor aid of
           None \<Rightarrow> fail NoSubmissionForAssignment
         | Some sub \<Rightarrow>
             if sf_SubmittedAt sub = None then fail NoSubmissionForAssignment
             else if onTime \<and> \<not> sf_OnTime sub then fail SubmissionLate
             else (case score_bounds mn mx (sf_Score sub) of
                 NoReason \<Rightarrow> (True, Trace ''SubmittedAssignment'' True NoReason [] params)
               | r \<Rightarrow> fail r))"

definition eval_SubmittedQuiz ::
    "nat \<Rightarrow> rat option \<Rightarrow> rat option \<Rightarrow> actor_snapshot \<Rightarrow> bool \<times> trace" where
  "eval_SubmittedQuiz qid mn mx actor =
     (let params = [(''quiz_id'', PUint qid)] @ opt_param ''min_score'' mn @ opt_param ''max_score'' mx;
          fail = (\<lambda>r. (False, Trace ''SubmittedQuiz'' False r [] params))
      in case as_QuizAttempts actor qid of
           None \<Rightarrow> fail NoSubmissionForQuiz
         | Some att \<Rightarrow>
             if qf_SubmittedAt att = None then fail NoSubmissionForQuiz
             else (case score_bounds mn mx (qf_Score att) of
                 NoReason \<Rightarrow> (True, Trace ''SubmittedQuiz'' True NoReason [] params)
               | r \<Rightarrow> fail r))"

definition eval_ViewedContent :: "nat \<Rightarrow> int \<Rightarrow> int \<Rightarrow> actor_snapshot \<Rightarrow> bool \<times> trace" where
  "eval_ViewedContent cid minViews minSeconds actor =
     (let required = (if minViews \<le> 0 then 1 else minViews);
          params = [(''content_id'', PUint cid), (''min_views'', PInt required)]
            @ (if minSeconds > 0 then [(''min_seconds_viewed'', PInt minSeconds)] else [])
      in case as_ViewedContent actor cid of
           None \<Rightarrow> (False, Trace ''ViewedContent'' False NoRecordedView [] params)
         | Some st \<Rightarrow>
             let params' = params @ [(''view_count'', PInt (vf_ViewCount st)), (''total_seconds'', PInt (vf_TotalSeconds st))]
             in if vf_ViewCount st < required
                then (False, Trace ''ViewedContent'' False ViewCountBelow [] params')
                else if minSeconds > 0 \<and> vf_TotalSeconds st < minSeconds
                then (False, Trace ''ViewedContent'' False SecondsBelow [] params')
                else (True, Trace ''ViewedContent'' True NoReason [] params'))"

definition eval_OutcomeMastery :: "nat \<Rightarrow> string \<Rightarrow> string \<Rightarrow> actor_snapshot \<Rightarrow> bool \<times> trace" where
  "eval_OutcomeMastery oid minLevel calcMethod actor =
     (let params = [(''outcome_id'', PUint oid), (''min_level'', PStr minLevel)]
            @ (if calcMethod \<noteq> '''' then [(''calc_method'', PStr calcMethod)] else []);
          fail = (\<lambda>r. (False, Trace ''OutcomeMastery'' False r [] params));
          want = LevelOrdinal minLevel
      in if want < 0 then fail InvalidMinLevel
         else (case as_OutcomeMastery actor oid of
             None \<Rightarrow> fail NoCachedMastery
           | Some st \<Rightarrow>
               let have_ord = LevelOrdinal (mf_Level st)
               in if have_ord < 0 then fail CachedLevelUnknown
                  else if have_ord < want then fail MasteryBelow
                  else (True, Trace ''OutcomeMastery'' True NoReason [] params)))"

definition eval_CurrencyThreshold :: "string \<Rightarrow> string \<Rightarrow> int \<Rightarrow> actor_snapshot \<Rightarrow> bool \<times> trace" where
  "eval_CurrencyThreshold kind code minAmount actor =
     (let params = [(''code'', PStr code), (''min_amount'', PInt minAmount)]
      in case as_CurrencyByCode actor code of
           None \<Rightarrow> (False, Trace kind False CurrencyNotPresent [] params)
         | Some cid \<Rightarrow>
             let balance = (case as_WalletBalances actor cid of None \<Rightarrow> 0 | Some b \<Rightarrow> b);
                 params' = params @ [(''balance'', PInt balance)]
             in if balance < minAmount then (False, Trace kind False BalanceBelow [] params')
                else (True, Trace kind True NoReason [] params'))"

definition eval_EarnedBadge :: "nat \<Rightarrow> actor_snapshot \<Rightarrow> bool \<times> trace" where
  "eval_EarnedBadge bid actor =
     (let params = [(''badge_id'', PUint bid)]
      in if bid \<in> set (as_EarnedBadges actor) then (True, Trace ''EarnedBadge'' True NoReason [] params)
         else (False, Trace ''EarnedBadge'' False BadgeNotEarned [] params))"

section \<open>Condition sets\<close>

text \<open>
  \<open>ConditionSet.Evaluate\<close>: the three loops return the result, the reason and the traces of
  the children visited. \<open>n_loop hits needed cs\<close> is the N\_OF\_M loop with \<open>hits\<close> true children so
  far; \<open>remaining\<close> after the current child is the length of the rest.
\<close>

fun evaluate :: "predicate \<Rightarrow> actor_snapshot \<Rightarrow> bool \<times> trace"
  and and_loop :: "predicate list \<Rightarrow> actor_snapshot \<Rightarrow> bool \<times> reason \<times> trace list"
  and or_loop :: "predicate list \<Rightarrow> actor_snapshot \<Rightarrow> bool \<times> reason \<times> trace list"
  and n_loop :: "int \<Rightarrow> int \<Rightarrow> predicate list \<Rightarrow> actor_snapshot \<Rightarrow> bool \<times> reason \<times> trace list"
where
  "evaluate (SubmittedAssignment aid mn mx ot) actor = eval_SubmittedAssignment aid mn mx ot actor"
| "evaluate (SubmittedQuiz qid mn mx) actor = eval_SubmittedQuiz qid mn mx actor"
| "evaluate (ViewedContent cid v s) actor = eval_ViewedContent cid v s actor"
| "evaluate (OutcomeMastery oid l m) actor = eval_OutcomeMastery oid l m actor"
| "evaluate (CurrencyThreshold code n) actor = eval_CurrencyThreshold ''CurrencyThreshold'' code n actor"
| "evaluate (EarnedBadge bid) actor = eval_EarnedBadge bid actor"
| "evaluate (ReputationThreshold n) actor = eval_CurrencyThreshold ''ReputationThreshold'' ReputationCode n actor"
| "evaluate (ConditionSet op threshold cs) actor =
     (let params = [(''op'', PStr op)] @ (if op = OpNOfM then [(''threshold'', PInt threshold)] else []);
          (res, why, ts) =
            (if op = OpAND then and_loop cs actor
             else if op = OpOR then or_loop cs actor
             else if op = OpNOfM then n_loop 0 threshold cs actor
             else (False, UnknownOp op, []))
      in (res, Trace ''ConditionSet'' res why ts params))"
| "and_loop [] actor = (True, NoReason, [])"
| "and_loop (c # cs) actor =
     (let (ok, t) = evaluate c actor
      in if \<not> ok then (False, AndStopped (tr_kind t), [t])
         else let (res, why, ts) = and_loop cs actor in (res, why, t # ts))"
| "or_loop [] actor = (False, NoReason, [])"
| "or_loop (c # cs) actor =
     (let (ok, t) = evaluate c actor
      in if ok then (True, OrSatisfied (tr_kind t), [t])
         else let (res, why, ts) = or_loop cs actor in (res, why, t # ts))"
| "n_loop hits needed [] actor = (False, NEnded hits needed, [])"
| "n_loop hits needed (c # cs) actor =
     (let (ok, t) = evaluate c actor;
          hits' = (if ok then hits + 1 else hits);
          remaining = int (length cs)
      in if ok \<and> hits' \<ge> needed then (True, NReached hits' needed, [t])
         else if hits' + remaining < needed then (False, NCannotReach needed hits' remaining, [t])
         else let (res, why, ts) = n_loop hits' needed cs actor in (res, why, t # ts))"

text \<open>\<open>Needs\<close> of every predicate; a condition set unions its children's from left to right.\<close>

fun Needs :: "predicate \<Rightarrow> needs" where
  "Needs (SubmittedAssignment aid mn mx ot) = no_needs\<lparr>AssignmentIDs := [aid]\<rparr>"
| "Needs (SubmittedQuiz qid mn mx) = no_needs\<lparr>QuizIDs := [qid]\<rparr>"
| "Needs (ViewedContent cid v s) = no_needs\<lparr>ContentIDs := [cid]\<rparr>"
| "Needs (OutcomeMastery oid l m) = no_needs\<lparr>OutcomeIDs := [oid]\<rparr>"
| "Needs (CurrencyThreshold code n) = no_needs\<lparr>CurrencyCodes := [code]\<rparr>"
| "Needs (EarnedBadge bid) = no_needs\<lparr>BadgeIDs := [bid]\<rparr>"
| "Needs (ReputationThreshold n) = no_needs\<lparr>CurrencyCodes := [ReputationCode]\<rparr>"
| "Needs (ConditionSet op threshold cs) = foldl Union_needs no_needs (map Needs cs)"

section \<open>Needs: sorted unions\<close>

lemma insort_sort: "insort x (sort xs) = sort (xs @ [x])"
  by (rule properties_for_sort[symmetric]) (simp_all add: sorted_insort)

lemma swap_down_insort: "sorted xs \<Longrightarrow> swap_down (length xs) (xs @ x # rest) = insort x xs @ rest"
proof (induction xs arbitrary: rest rule: rev_induct)
  case (snoc y xs)
  then have srt: "sorted xs" and le: "\<forall>z\<in>set xs. z \<le> y" by (simp_all add: sorted_append)
  have upd: "(xs @ x # x # rest)[Suc (length xs) := y] = xs @ x # y # rest"
    by (simp add: list_update_append)
  have nth: "(xs @ y # x # rest) ! length xs = y" "(xs @ y # x # rest) ! Suc (length xs) = x"
    by (simp_all add: nth_append)
  show ?case
  proof (cases "y > x")
    case True
    then have "insort x (xs @ [y]) = insort x xs @ [y]" by (intro insort_key_snoc[where f = "\<lambda>x. x"]) simp
    then show ?thesis using True snoc.IH[OF srt, of "y # rest"] by (simp add: nth upd)
  next
    case False
    then have "sorted (xs @ [y, x])" using le srt by (auto simp: sorted_append)
    then have "insort x (xs @ [y]) = xs @ [y, x]"
      using insort_sort[of x "xs @ [y]"] snoc.prems by (simp add: sorted_sort_id)
    then show ?thesis using False by (simp add: nth)
  qed
qed simp

lemma sort_slice_step:
  "i < length s \<Longrightarrow> fold swap_down [1..<Suc i] s = sort (take (Suc i) s) @ drop (Suc i) s"
proof (induction i)
  case 0
  then show ?case by (cases s) auto
next
  case (Suc i)
  let ?t = "take (Suc i) s"
  have "drop (Suc i) s = s ! Suc i # drop (Suc (Suc i)) s" using Suc.prems by (simp add: Cons_nth_drop_Suc)
  moreover have "swap_down (Suc i) (sort ?t @ s ! Suc i # drop (Suc (Suc i)) s)
      = insort (s ! Suc i) (sort ?t) @ drop (Suc (Suc i)) s"
    using swap_down_insort[of "sort ?t"] Suc.prems by simp
  ultimately show ?case using Suc by (simp add: take_Suc_conv_app_nth insort_sort)
qed

lemma sort_slice_sort: "sort_slice s = sort s"
proof (cases s)
  case (Cons x xs)
  then show ?thesis using sort_slice_step[of "length s - 1" s] by (simp add: sort_slice_def)
qed (simp add: sort_slice_def)

lemma append_unseen: "distinct out \<Longrightarrow> distinct (append_unseen out vs) \<and> set (append_unseen out vs) = set out \<union> set vs"
  by (induction vs arbitrary: out) auto

text \<open>
  Merging two slices of needs gives the sorted, duplicate-free list of the values of both,
  although the code sorts by swapping and filters by a seen-set.
\<close>

theorem merge_slices_sorted_union: "merge_slices a b = sorted_list_of_set (set a \<union> set b)"
proof -
  let ?m = "append_unseen (append_unseen [] a) b"
  have m: "distinct ?m" "set ?m = set a \<union> set b"
    using append_unseen[of "append_unseen [] a" b] append_unseen[of "[]" a] by auto
  have "sort ?m = sorted_list_of_set (set ?m)"
    using m(1) by (simp add: sorted_list_of_set_sort_remdups distinct_remdups_id)
  then show ?thesis using m(2) by (auto simp: merge_slices_def sort_slice_sort)
qed

lemma set_merge_slices [simp]: "set (merge_slices a b) = set a \<union> set b"
  using append_unseen[of "append_unseen [] a" b] append_unseen[of "[]" a]
  by (auto simp: merge_slices_def sort_slice_sort)

section \<open>What a predicate means\<close>

text \<open>The meaning of a predicate as a condition on the snapshot, with no traces and no short cuts.\<close>

definition in_bounds :: "rat option \<Rightarrow> rat option \<Rightarrow> rat option \<Rightarrow> bool" where
  "in_bounds mn mx score =
     ((case mn of None \<Rightarrow> True | Some lo \<Rightarrow> (case score of None \<Rightarrow> False | Some s \<Rightarrow> lo \<le> s)) \<and>
      (case mx of None \<Rightarrow> True | Some hi \<Rightarrow> (case score of None \<Rightarrow> False | Some s \<Rightarrow> s \<le> hi)))"

definition balance_at_least :: "string \<Rightarrow> int \<Rightarrow> actor_snapshot \<Rightarrow> bool" where
  "balance_at_least code n a =
     (case as_CurrencyByCode a code of None \<Rightarrow> False
      | Some cid \<Rightarrow> (case as_WalletBalances a cid of None \<Rightarrow> n \<le> 0 | Some b \<Rightarrow> n \<le> b))"

fun holds :: "predicate \<Rightarrow> actor_snapshot \<Rightarrow> bool" where
  "holds (SubmittedAssignment aid mn mx ot) a =
     (case as_Submissions a aid of None \<Rightarrow> False
      | Some s \<Rightarrow> sf_SubmittedAt s \<noteq> None \<and> (ot \<longrightarrow> sf_OnTime s) \<and> in_bounds mn mx (sf_Score s))"
| "holds (SubmittedQuiz qid mn mx) a =
     (case as_QuizAttempts a qid of None \<Rightarrow> False
      | Some q \<Rightarrow> qf_SubmittedAt q \<noteq> None \<and> in_bounds mn mx (qf_Score q))"
| "holds (ViewedContent cid v s) a =
     (case as_ViewedContent a cid of None \<Rightarrow> False
      | Some f \<Rightarrow> max 1 v \<le> vf_ViewCount f \<and> (0 < s \<longrightarrow> s \<le> vf_TotalSeconds f))"
| "holds (OutcomeMastery oid l m) a =
     (case as_OutcomeMastery a oid of None \<Rightarrow> False
      | Some f \<Rightarrow> 0 \<le> LevelOrdinal l \<and> LevelOrdinal l \<le> LevelOrdinal (mf_Level f))"
| "holds (CurrencyThreshold code n) a = balance_at_least code n a"
| "holds (EarnedBadge bid) a = (bid \<in> set (as_EarnedBadges a))"
| "holds (ReputationThreshold n) a = balance_at_least ReputationCode n a"
| "holds (ConditionSet op threshold cs) a =
     (if op = OpAND then list_all (\<lambda>c. holds c a) cs
      else if op = OpOR then list_ex (\<lambda>c. holds c a) cs
      else if op = OpNOfM then max 1 threshold \<le> int (length (filter (\<lambda>c. holds c a) cs))
      else False)"

lemma score_bounds_in_bounds: "score_bounds mn mx s = NoReason \<longleftrightarrow> in_bounds mn mx s"
  by (auto simp: score_bounds_def in_bounds_def split: option.splits)

lemma eval_CurrencyThreshold_fst: "fst (eval_CurrencyThreshold k code n a) = balance_at_least code n a"
  by (auto simp: eval_CurrencyThreshold_def balance_at_least_def Let_def split: option.split)

lemma reason_case_fst:
  "fst (case r of NoReason \<Rightarrow> (True, t) | _ \<Rightarrow> (False, t' r)) = (r = NoReason)"
  by (cases r) auto

lemma atoms_holds:
  "fst (eval_SubmittedAssignment aid mn mx ot a) = holds (SubmittedAssignment aid mn mx ot) a"
  "fst (eval_SubmittedQuiz qid mn mx a) = holds (SubmittedQuiz qid mn mx) a"
  "fst (eval_ViewedContent cid v sec a) = holds (ViewedContent cid v sec) a"
  "fst (eval_OutcomeMastery oid l m a) = holds (OutcomeMastery oid l m) a"
  "fst (eval_EarnedBadge bid a) = holds (EarnedBadge bid) a"
  by (auto simp: eval_SubmittedAssignment_def eval_SubmittedQuiz_def eval_ViewedContent_def
      eval_OutcomeMastery_def eval_EarnedBadge_def Let_def score_bounds_in_bounds[symmetric]
      split: option.split reason.split)

text \<open>The three loops, given that the children evaluate to \<open>h\<close>.\<close>

lemma and_loop_fst: "\<forall>c\<in>set cs. fst (evaluate c a) = h c \<Longrightarrow> fst (and_loop cs a) = list_all h cs"
  by (induction cs) (auto split: prod.split)

lemma or_loop_fst: "\<forall>c\<in>set cs. fst (evaluate c a) = h c \<Longrightarrow> fst (or_loop cs a) = list_ex h cs"
  by (induction cs) (auto split: prod.split)

lemma n_loop_fst:
  "\<forall>c\<in>set cs. fst (evaluate c a) = h c \<Longrightarrow> 0 \<le> hits \<Longrightarrow> hits < max 1 needed \<Longrightarrow>
     fst (n_loop hits needed cs a) = (max 1 needed \<le> hits + int (length (filter h cs)))"
proof (induction cs arbitrary: hits)
  case (Cons c cs)
  obtain ok t where e: "evaluate c a = (ok, t)" by (cases "evaluate c a")
  then have ok: "ok = h c" using Cons.prems by simp
  define f where "f = int (length (filter h cs))"
  have fl: "0 \<le> f" "f \<le> int (length cs)" by (simp_all add: f_def)
  have IH: "0 \<le> k \<Longrightarrow> k < max 1 needed \<Longrightarrow>
      fst (n_loop k needed cs a) = (max 1 needed \<le> k + int (length (filter h cs)))" for k
    using Cons by simp
  show ?case
    using Cons.prems(2,3) fl IH[of hits, folded f_def] IH[of "hits + 1", folded f_def]
    by (auto simp: e ok[symmetric] f_def[symmetric] Let_def max_def split: prod.split if_splits)
qed auto

lemma evaluate_fst: "fst (evaluate p a) = holds p a"
proof (induction p)
  case (ConditionSet op n cs)
  then show ?case
    using and_loop_fst[of cs a "\<lambda>c. holds c a"] or_loop_fst[of cs a "\<lambda>c. holds c a"]
      n_loop_fst[of cs a "\<lambda>c. holds c a" 0 n]
    by (auto split: prod.split)
qed (simp_all only: evaluate.simps atoms_holds, simp_all add: eval_CurrencyThreshold_fst)

text \<open>
  C16. \<open>Evaluate\<close> decides the meaning of the predicate: the early exits of AND, OR and
  N\_OF\_M never change the verdict, and N\_OF\_M with a threshold below one behaves as with one.
\<close>

theorem evaluate_holds: "fst (evaluate p a) = holds p a"
  by (rule evaluate_fst)

section \<open>Traces\<close>

text \<open>A trace is faithful to an evaluation when its result is the verdict and its children are
  the traces of the first children, in order.\<close>

definition leading_traces :: "actor_snapshot \<Rightarrow> predicate list \<Rightarrow> trace list \<Rightarrow> bool" where
  "leading_traces a cs ts \<longleftrightarrow> ts = map (\<lambda>c. snd (evaluate c a)) (take (length ts) cs)"

lemma leading_traces_simps [simp]:
  "leading_traces a cs []"
  "leading_traces a (c # cs) (t # ts) \<longleftrightarrow> t = snd (evaluate c a) \<and> leading_traces a cs ts"
  by (simp_all add: leading_traces_def)

lemma and_loop_traces: "leading_traces a cs (snd (snd (and_loop cs a)))"
  by (induction cs) (auto split: prod.split)

lemma or_loop_traces: "leading_traces a cs (snd (snd (or_loop cs a)))"
  by (induction cs) (auto split: prod.split)

lemma n_loop_traces: "leading_traces a cs (snd (snd (n_loop k n cs a)))"
proof (induction cs arbitrary: k)
  case (Cons c cs)
  show ?case using Cons[of k] Cons[of "k + 1"] by (auto simp: Let_def split: prod.split)
qed simp

lemma tr_result_verdict: "tr_result (snd (evaluate p a)) = fst (evaluate p a)"
  by (cases p) (auto simp: eval_SubmittedAssignment_def eval_SubmittedQuiz_def eval_ViewedContent_def
      eval_OutcomeMastery_def eval_EarnedBadge_def eval_CurrencyThreshold_def Let_def
      split: option.split reason.split prod.split)

text \<open>
  The trace shown to teachers is honest: its result is the verdict, and the children it
  lists are exactly the traces of the leading children of the set, none reordered or invented,
  each with its own verdict.
\<close>

theorem condition_trace_honest:
  "let tr = snd (evaluate (ConditionSet op n cs) a); ts = tr_children tr in
     tr_result tr = holds (ConditionSet op n cs) a \<and>
     ts = map (\<lambda>c. snd (evaluate c a)) (take (length ts) cs) \<and>
     map tr_result ts = map (\<lambda>c. holds c a) (take (length ts) cs)"
proof -
  let ?ts = "tr_children (snd (evaluate (ConditionSet op n cs) a))"
  have "leading_traces a cs ?ts"
    using and_loop_traces[of a cs] or_loop_traces[of a cs] n_loop_traces[of a cs 0 n]
    by (auto split: prod.split)
  then have ts: "?ts = map (\<lambda>c. snd (evaluate c a)) (take (length ?ts) cs)"
    by (simp only: leading_traces_def)
  have "map tr_result ?ts = map (\<lambda>c. holds c a) (take (length ?ts) cs)"
    using arg_cong[OF ts, of "map tr_result"] by (simp only: map_map comp_def tr_result_verdict evaluate_fst)
  with ts show ?thesis unfolding Let_def tr_result_verdict evaluate_fst by blast
qed

section \<open>A predicate reads only what it declares\<close>

text \<open>\<open>agree n a b\<close>: the two snapshots hold the same facts under every key that \<open>n\<close> lists.\<close>

definition agree :: "needs \<Rightarrow> actor_snapshot \<Rightarrow> actor_snapshot \<Rightarrow> bool" where
  "agree n a b \<longleftrightarrow>
     (\<forall>i\<in>set (AssignmentIDs n). as_Submissions a i = as_Submissions b i) \<and>
     (\<forall>i\<in>set (QuizIDs n). as_QuizAttempts a i = as_QuizAttempts b i) \<and>
     (\<forall>i\<in>set (ContentIDs n). as_ViewedContent a i = as_ViewedContent b i) \<and>
     (\<forall>i\<in>set (OutcomeIDs n). as_OutcomeMastery a i = as_OutcomeMastery b i) \<and>
     (\<forall>i\<in>set (BadgeIDs n). i \<in> set (as_EarnedBadges a) \<longleftrightarrow> i \<in> set (as_EarnedBadges b)) \<and>
     (\<forall>c\<in>set (CurrencyCodes n). as_CurrencyByCode a c = as_CurrencyByCode b c \<and>
        (\<forall>i. as_CurrencyByCode a c = Some i \<longrightarrow> as_WalletBalances a i = as_WalletBalances b i))"

text \<open>\<open>covers n m\<close>: loading \<open>n\<close> loads everything that \<open>m\<close> asks for.\<close>

definition covers :: "needs \<Rightarrow> needs \<Rightarrow> bool" where
  "covers n m \<longleftrightarrow> set (AssignmentIDs m) \<subseteq> set (AssignmentIDs n) \<and> set (QuizIDs m) \<subseteq> set (QuizIDs n) \<and>
     set (ContentIDs m) \<subseteq> set (ContentIDs n) \<and> set (OutcomeIDs m) \<subseteq> set (OutcomeIDs n) \<and>
     set (BadgeIDs m) \<subseteq> set (BadgeIDs n) \<and> set (CurrencyCodes m) \<subseteq> set (CurrencyCodes n)"

lemma covers_refl [simp]: "covers n n"
  by (simp add: covers_def)

lemma covers_trans: "covers a b \<Longrightarrow> covers b c \<Longrightarrow> covers a c"
  by (auto simp: covers_def)

lemma agree_mono: "covers n m \<Longrightarrow> agree n a b \<Longrightarrow> agree m a b"
  by (auto simp: agree_def covers_def)

lemma covers_Union_needs [simp]: "covers (Union_needs a b) a" "covers (Union_needs a b) b"
  by (auto simp: covers_def Union_needs_def)

lemma covers_fold_Union: "covers (foldl Union_needs n ns) n" "m \<in> set ns \<Longrightarrow> covers (foldl Union_needs n ns) m"
proof (induction ns arbitrary: n)
  case (Cons k ns)
  { case 1
    show ?case using Cons.IH(1)[of "Union_needs n k"] covers_trans covers_Union_needs by fastforce
  next
    case 2
    then show ?case using Cons.IH(1)[of "Union_needs n k"] Cons.IH(2)[of "Union_needs n k"]
        covers_trans covers_Union_needs by fastforce }
qed simp_all

text \<open>
  The interface between the rules and the snapshot loader: a reader's verdict and trace are a
  function of the facts it declares. What the loader needs is proved once, here.
\<close>

locale snapshot_reader =
  fixes eval :: "'p \<Rightarrow> actor_snapshot \<Rightarrow> bool \<times> trace"
    and declared :: "'p \<Rightarrow> needs"
  assumes frame: "agree (declared p) a b \<Longrightarrow> eval p a = eval p b"
begin

lemma eval_covered: "covers n (declared p) \<Longrightarrow> agree n a b \<Longrightarrow> eval p a = eval p b"
  by (rule frame, rule agree_mono)

lemma eval_batch:
  "p \<in> set ps \<Longrightarrow> agree (foldl Union_needs n (map declared ps)) a b \<Longrightarrow> eval p a = eval p b"
  by (rule eval_covered[OF covers_fold_Union(2)]) auto

lemma verdicts_batch:
  "agree (foldl Union_needs n (map declared ps)) a b \<Longrightarrow> map (\<lambda>p. eval p a) ps = map (\<lambda>p. eval p b) ps"
  by (simp add: eval_batch)

end

lemma evaluate_loops_cong:
  assumes "\<forall>c\<in>set cs. evaluate c a = evaluate c b"
  shows "and_loop cs a = and_loop cs b \<and> or_loop cs a = or_loop cs b \<and> n_loop k n cs a = n_loop k n cs b"
  using assms by (induction cs arbitrary: k) (auto simp: Let_def split: prod.split)

lemma needs_atoms [simp]: "AssignmentIDs no_needs = []" "QuizIDs no_needs = []" "ContentIDs no_needs = []"
  "OutcomeIDs no_needs = []" "BadgeIDs no_needs = []" "CurrencyCodes no_needs = []"
  by (simp_all add: no_needs_def)

lemma evaluate_frame: "agree (Needs p) a b \<Longrightarrow> evaluate p a = evaluate p b"
proof (induction p)
  case (ConditionSet op n cs)
  have "evaluate c a = evaluate c b" if "c \<in> set cs" for c
  proof (rule ConditionSet.IH[OF that])
    have "covers (Needs (ConditionSet op n cs)) (Needs c)" using that covers_fold_Union(2) by simp
    then show "agree (Needs c) a b" using ConditionSet.prems by (rule agree_mono)
  qed
  then show ?case using evaluate_loops_cong[of cs a b] by (simp split: prod.split)
next
  case (CurrencyThreshold code n)
  then show ?case by (auto simp: agree_def eval_CurrencyThreshold_def Let_def split: option.split)
next
  case (ReputationThreshold n)
  then show ?case by (auto simp: agree_def eval_CurrencyThreshold_def Let_def split: option.split)
qed (auto simp: agree_def eval_SubmittedAssignment_def eval_SubmittedQuiz_def eval_ViewedContent_def
    eval_OutcomeMastery_def eval_EarnedBadge_def Let_def)

interpretation rules: snapshot_reader evaluate Needs
  by unfold_locales (rule evaluate_frame)

end
