(* ===== verification/Go_Json.thy ===== *)
theory Go_Json imports Prelude Binary64 "HOL-Library.Char_ord" begin

text \<open>
  What the program uses of \<open>encoding/json\<close>: decoding of a parsed document into struct fields.
  A document is its syntax tree, with numbers as their literal text and objects as the list of
  their members in order. The scanner from text to tree is a parameter of the definitions that
  read text. Decoding follows the package: a member goes to the field of that exact name, else to
  the first field equal to it up to case folding, else nowhere; later members overwrite earlier
  ones; \<open>null\<close> leaves a scalar as it was and empties a pointer or slice; a value of the wrong type
  or out of range makes the whole call fail.
\<close>

datatype json =
  JNull
| JBool bool
| JNum string
| JStr string
| JArr "json list"
| JObj "(string \<times> json) list"

section \<open>Numbers\<close>

definition is_digit :: "char \<Rightarrow> bool" where
  "is_digit c = (of_char c \<ge> (48::int) \<and> of_char c \<le> (57::int))"

definition digits_val :: "string \<Rightarrow> int" where
  "digits_val s = foldl (\<lambda>a c. 10 * a + (of_char c - 48)) 0 s"

text \<open>\<open>strconv.ParseUint(s, 10, 64)\<close> and \<open>strconv.ParseInt(s, 10, 64)\<close>.\<close>

definition parse_uint :: "string \<Rightarrow> nat option" where
  "parse_uint s = (if s \<noteq> [] \<and> list_all is_digit s \<and> digits_val s < 2 ^ 64 then Some (nat (digits_val s)) else None)"

fun strip_sign :: "string \<Rightarrow> int \<times> string" where
  "strip_sign [] = (1, [])"
| "strip_sign (c # cs) = (if c = CHR ''-'' then (-1, cs) else if c = CHR ''+'' then (1, cs) else (1, c # cs))"

definition parse_int :: "string \<Rightarrow> int option" where
  "parse_int s =
     (let (sg, ds) = strip_sign s; v = sg * digits_val ds
      in if ds \<noteq> [] \<and> list_all is_digit ds \<and> int64_min \<le> v \<and> v \<le> int64_max then Some v else None)"

text \<open>
  \<open>strconv.ParseFloat\<close> on a JSON number: the exact decimal value rounded to binary64; a value
  that rounds beyond the largest finite number is an error.
\<close>

definition pow10 :: "int \<Rightarrow> rat" where
  "pow10 e = (if e \<ge> 0 then 10 ^ nat e else 1 / 10 ^ nat (- e))"

definition parse_float :: "string \<Rightarrow> rat option" where
  "parse_float s =
     (let (sg, u) = strip_sign s;
          mant = takeWhile (\<lambda>c. c \<noteq> CHR ''e'' \<and> c \<noteq> CHR ''E'') u;
          ex = drop (length mant + 1) u;
          (esg, eds) = strip_sign ex;
          ip = takeWhile (\<lambda>c. c \<noteq> CHR ''.'') mant;
          fp = drop (length ip + 1) mant;
          v = of_int sg * of_int (digits_val (ip @ fp)) * pow10 (esg * digits_val eds - int (length fp))
      in if ip @ fp \<noteq> [] \<and> list_all is_digit (ip @ fp @ eds) \<and> (length mant < length u \<longrightarrow> eds \<noteq> [])
            \<and> \<bar>f64 v\<bar> < of_int (2 ^ 1024)
         then Some (f64 v) else None)"

section \<open>Field names\<close>

text \<open>\<open>foldName\<close>: ASCII letters to upper case; the long s and the Kelvin sign fold to S and K.\<close>

definition upper_char :: "char \<Rightarrow> char" where
  "upper_char c =
     (case map_of (zip ''abcdefghijklmnopqrstuvwxyz'' ''ABCDEFGHIJKLMNOPQRSTUVWXYZ'') c of Some u \<Rightarrow> u | None \<Rightarrow> c)"

fun fold_name :: "string \<Rightarrow> string" where
  "fold_name (a # b # c # cs) =
     (if a = CHR 0xE2 \<and> b = CHR 0x84 \<and> c = CHR 0xAA then CHR ''K'' # fold_name cs
      else if a = CHR 0xC5 \<and> b = CHR 0xBF then CHR ''S'' # fold_name (c # cs)
      else upper_char a # fold_name (b # c # cs))"
| "fold_name [a, b] =
     (if a = CHR 0xC5 \<and> b = CHR 0xBF then [CHR ''S''] else [upper_char a, upper_char b])"
| "fold_name [a] = [upper_char a]"
| "fold_name [] = []"

type_synonym 's field = "string \<times> (json \<Rightarrow> 's \<Rightarrow> 's option)"

fun find_field :: "(string \<Rightarrow> bool) \<Rightarrow> 's field list \<Rightarrow> (json \<Rightarrow> 's \<Rightarrow> 's option) option" where
  "find_field ok [] = None"
| "find_field ok ((n, d) # fs) = (if ok n then Some d else find_field ok fs)"

definition field_for :: "'s field list \<Rightarrow> string \<Rightarrow> (json \<Rightarrow> 's \<Rightarrow> 's option) option" where
  "field_for fs k =
     (case find_field (\<lambda>n. n = k) fs of Some d \<Rightarrow> Some d | None \<Rightarrow> find_field (\<lambda>n. fold_name n = fold_name k) fs)"

fun decode_members :: "'s field list \<Rightarrow> (string \<times> json) list \<Rightarrow> 's \<Rightarrow> 's option" where
  "decode_members fs [] s = Some s"
| "decode_members fs ((k, v) # kvs) s =
     (case field_for fs k of
        None \<Rightarrow> decode_members fs kvs s
      | Some d \<Rightarrow> (case d v s of None \<Rightarrow> None | Some s' \<Rightarrow> decode_members fs kvs s'))"

fun decode_struct :: "'s field list \<Rightarrow> 's \<Rightarrow> json \<Rightarrow> 's option" where
  "decode_struct fs s (JObj kvs) = decode_members fs kvs s"
| "decode_struct fs s JNull = Some s"
| "decode_struct fs s j = None"

section \<open>Field types\<close>

text \<open>A field decoder takes the value and the update of the field it fills.\<close>

definition into_string :: "(string \<Rightarrow> 's \<Rightarrow> 's) \<Rightarrow> json \<Rightarrow> 's \<Rightarrow> 's option" where
  "into_string put v s = (case v of JStr x \<Rightarrow> Some (put x s) | JNull \<Rightarrow> Some s | _ \<Rightarrow> None)"

definition into_bool :: "(bool \<Rightarrow> 's \<Rightarrow> 's) \<Rightarrow> json \<Rightarrow> 's \<Rightarrow> 's option" where
  "into_bool put v s = (case v of JBool x \<Rightarrow> Some (put x s) | JNull \<Rightarrow> Some s | _ \<Rightarrow> None)"

definition into_uint :: "(nat \<Rightarrow> 's \<Rightarrow> 's) \<Rightarrow> json \<Rightarrow> 's \<Rightarrow> 's option" where
  "into_uint put v s = (case v of JNum t \<Rightarrow> map_option (\<lambda>x. put x s) (parse_uint t) | JNull \<Rightarrow> Some s | _ \<Rightarrow> None)"

definition into_int :: "(int \<Rightarrow> 's \<Rightarrow> 's) \<Rightarrow> json \<Rightarrow> 's \<Rightarrow> 's option" where
  "into_int put v s = (case v of JNum t \<Rightarrow> map_option (\<lambda>x. put x s) (parse_int t) | JNull \<Rightarrow> Some s | _ \<Rightarrow> None)"

definition into_float_ptr :: "(rat option \<Rightarrow> 's \<Rightarrow> 's) \<Rightarrow> json \<Rightarrow> 's \<Rightarrow> 's option" where
  "into_float_ptr put v s =
     (case v of JNum t \<Rightarrow> map_option (\<lambda>x. put (Some x) s) (parse_float t) | JNull \<Rightarrow> Some (put None s) | _ \<Rightarrow> None)"

definition into_raw_slice :: "(json list \<Rightarrow> 's \<Rightarrow> 's) \<Rightarrow> json \<Rightarrow> 's \<Rightarrow> 's option" where
  "into_raw_slice put v s = (case v of JArr xs \<Rightarrow> Some (put xs s) | JNull \<Rightarrow> Some (put [] s) | _ \<Rightarrow> None)"

lemmas into_defs = into_string_def into_bool_def into_uint_def into_int_def into_float_ptr_def into_raw_slice_def

text \<open>An invariant of the struct that every field decoder keeps holds of the decoded struct.\<close>

lemma find_field_mem: "find_field ok fs = Some d \<Longrightarrow> \<exists>n. (n, d) \<in> set fs"
  by (induction fs) (auto split: if_splits)

lemma field_for_mem: "field_for fs k = Some d \<Longrightarrow> \<exists>n. (n, d) \<in> set fs"
  by (auto simp: field_for_def dest: find_field_mem split: option.splits)

lemma decode_members_inv:
  assumes "\<And>n d v s s'. (n, d) \<in> set fs \<Longrightarrow> v \<in> snd ` set kvs \<Longrightarrow> P s \<Longrightarrow> d v s = Some s' \<Longrightarrow> P s'"
  shows "P s \<Longrightarrow> decode_members fs kvs s = Some r \<Longrightarrow> P r"
  using assms
proof (induction kvs arbitrary: s)
  case (Cons kv kvs)
  obtain k v where kv: "kv = (k, v)" by (cases kv)
  have IH: "P t \<Longrightarrow> decode_members fs kvs t = Some r \<Longrightarrow> P r" for t
    by (rule Cons.IH) (assumption | erule (2) Cons.prems(3)[rotated 2] | simp)+
  show ?case
  proof (cases "field_for fs k")
    case None
    then show ?thesis using IH Cons.prems(1,2) by (simp add: kv)
  next
    case (Some d)
    then obtain n where "(n, d) \<in> set fs" using field_for_mem by blast
    moreover obtain s' where "d v s = Some s'" "decode_members fs kvs s' = Some r"
      using Cons.prems(2) Some by (auto simp: kv split: option.splits)
    moreover have "v \<in> snd ` set (kv # kvs)" by (simp add: kv)
    ultimately show ?thesis using Cons.prems(1,3) IH by blast
  qed
qed simp

section \<open>Decimal text of a natural number\<close>

fun show_nat :: "nat \<Rightarrow> string" where
  "show_nat n = (if n < 10 then [char_of (48 + n)] else show_nat (n div 10) @ [char_of (48 + n mod 10)])"

declare show_nat.simps [simp del]

lemma digit_char: "d < 10 \<Longrightarrow> is_digit (char_of (48 + d)) \<and> of_char (char_of (48 + d)) = (48 + int d)"
proof -
  assume "d < 10"
  then have "of_char (char_of (48 + d)) = (48 + d :: nat)" by simp
  then have "of_char (char_of (48 + d)) = 48 + int d" by (metis of_nat_add of_nat_numeral of_nat_of_char)
  then show ?thesis using \<open>d < 10\<close> by (simp add: is_digit_def)
qed

lemma show_nat_digits: "show_nat n \<noteq> [] \<and> list_all is_digit (show_nat n)"
  by (induction n rule: show_nat.induct) (subst (1 2) show_nat.simps, auto simp: digit_char)

lemma digits_val_snoc: "digits_val (s @ [c]) = 10 * digits_val s + (of_char c - 48)"
  by (simp add: digits_val_def)

lemma digits_val_show_nat [simp]: "digits_val (show_nat n) = int n"
proof (induction n rule: show_nat.induct)
  case (1 n)
  show ?case
  proof (cases "n < 10")
    case True
    then show ?thesis by (subst show_nat.simps) (simp add: digits_val_def digit_char)
  next
    case False
    then show ?thesis using 1
      by (subst show_nat.simps) (simp add: digits_val_snoc digit_char zmod_int zdiv_int)
  qed
qed

lemma parse_uint_show_nat [simp]: "n < 2 ^ 64 \<Longrightarrow> parse_uint (show_nat n) = Some n"
  using show_nat_digits[of n] by (simp add: parse_uint_def)

definition show_int :: "int \<Rightarrow> string" where
  "show_int i = (if i < 0 then CHR ''-'' # show_nat (nat (- i)) else show_nat (nat i))"

lemma strip_sign_show_nat [simp]: "strip_sign (show_nat n) = (1, show_nat n)"
proof -
  obtain c cs where s: "show_nat n = c # cs" using show_nat_digits by (cases "show_nat n") auto
  then have "is_digit c" using show_nat_digits[of n] by simp
  then have "c \<noteq> CHR ''-''" "c \<noteq> CHR ''+''" by (auto simp: is_digit_def)
  then show ?thesis by (simp add: s)
qed

lemma parse_int_show_int [simp]: "int64_min \<le> i \<Longrightarrow> i \<le> int64_max \<Longrightarrow> parse_int (show_int i) = Some i"
  using show_nat_digits[of "nat i"] show_nat_digits[of "nat (- i)"]
  by (auto simp: parse_int_def show_int_def)

end
