(* ===== verification/Rule_Codec.thy ===== *)
theory Rule_Codec imports Predicates Go_Json begin

text \<open>
  Decoding and validation of rule documents: \<open>DecodePredicate\<close>
  (\<open>predicates/factory.go\<close>), \<open>DecodeEffect(s)\<close> (\<open>effects/factory.go\<close>) and the create/patch
  validator of \<open>rule_service.go\<close> with the vocabulary of \<open>vocabulary.go\<close>. The JSON scanner is the
  parameter \<open>parse\<close>; a \<open>json.RawMessage\<close> inside a parsed document is its subtree.
\<close>

section \<open>Predicates\<close>

datatype decode_error =
  EmptyPredicateJSON
| PredicateJSON
| MissingKind
| FieldMismatch string
| RequiresPositive string
| InvalidMinLevelText string
| RequiresCode string
| InvalidOp string
| RequiresThreshold int
| InChild nat decode_error
| UnknownKind string

text \<open>Each struct is decoded into the tuple of its fields, which start at their zero values.\<close>

definition decode_kind :: "json \<Rightarrow> string option" where
  "decode_kind = decode_struct [(''kind'', into_string (\<lambda>x _. x))] ''''"

definition decode_SubmittedAssignment :: "json \<Rightarrow> (nat \<times> rat option \<times> rat option \<times> bool) option" where
  "decode_SubmittedAssignment = decode_struct
     [(''assignment_id'', into_uint (\<lambda>x (a, b, c, d). (x, b, c, d))),
      (''min_score'', into_float_ptr (\<lambda>x (a, b, c, d). (a, x, c, d))),
      (''max_score'', into_float_ptr (\<lambda>x (a, b, c, d). (a, b, x, d))),
      (''require_on_time'', into_bool (\<lambda>x (a, b, c, d). (a, b, c, x)))] (0, None, None, False)"

definition decode_SubmittedQuiz :: "json \<Rightarrow> (nat \<times> rat option \<times> rat option) option" where
  "decode_SubmittedQuiz = decode_struct
     [(''quiz_id'', into_uint (\<lambda>x (a, b, c). (x, b, c))),
      (''min_score'', into_float_ptr (\<lambda>x (a, b, c). (a, x, c))),
      (''max_score'', into_float_ptr (\<lambda>x (a, b, c). (a, b, x)))] (0, None, None)"

definition decode_ViewedContent :: "json \<Rightarrow> (nat \<times> int \<times> int) option" where
  "decode_ViewedContent = decode_struct
     [(''content_id'', into_uint (\<lambda>x (a, b, c). (x, b, c))),
      (''min_views'', into_int (\<lambda>x (a, b, c). (a, x, c))),
      (''min_seconds_viewed'', into_int (\<lambda>x (a, b, c). (a, b, x)))] (0, 0, 0)"

definition decode_OutcomeMastery :: "json \<Rightarrow> (nat \<times> string \<times> string) option" where
  "decode_OutcomeMastery = decode_struct
     [(''outcome_id'', into_uint (\<lambda>x (a, b, c). (x, b, c))),
      (''min_level'', into_string (\<lambda>x (a, b, c). (a, x, c))),
      (''calc_method'', into_string (\<lambda>x (a, b, c). (a, b, x)))] (0, '''', '''')"

definition decode_CurrencyThreshold :: "json \<Rightarrow> (string \<times> int) option" where
  "decode_CurrencyThreshold = decode_struct
     [(''code'', into_string (\<lambda>x (a, b). (x, b))), (''min_amount'', into_int (\<lambda>x (a, b). (a, x)))] ('''', 0)"

definition decode_EarnedBadge :: "json \<Rightarrow> nat option" where
  "decode_EarnedBadge = decode_struct [(''badge_id'', into_uint (\<lambda>x _. x))] 0"

definition decode_ReputationThreshold :: "json \<Rightarrow> int option" where
  "decode_ReputationThreshold = decode_struct [(''min_amount'', into_int (\<lambda>x _. x))] 0"

definition decode_shell :: "json \<Rightarrow> (string \<times> int \<times> json list) option" where
  "decode_shell = decode_struct
     [(''op'', into_string (\<lambda>x (a, b, c). (x, b, c))),
      (''threshold'', into_int (\<lambda>x (a, b, c). (a, x, c))),
      (''children'', into_raw_slice (\<lambda>x (a, b, c). (a, b, x)))] ('''', 0, [])"

text \<open>The children of the shell are strictly inside the document, so the recursion terminates.\<close>

lemma decode_shell_size: "decode_shell j = Some (op, t, cs) \<Longrightarrow> size_list size cs \<le> size j"
proof (cases j)
  case (JObj kvs)
  assume a: "decode_shell j = Some (op, t, cs)"
  let ?P = "\<lambda>s :: string \<times> int \<times> json list. size_list size (snd (snd s)) \<le> size_list (size_prod (\<lambda>_. 0) size) kvs"
  have "?P (op, t, cs)"
  proof (rule decode_members_inv[where P = ?P])
    show "?P ('''', 0, [])" by simp
    show "decode_members [(''op'', into_string (\<lambda>x (a, b, c). (x, b, c))),
      (''threshold'', into_int (\<lambda>x (a, b, c). (a, x, c))),
      (''children'', into_raw_slice (\<lambda>x (a, b, c). (a, b, x)))] kvs ('''', 0, []) = Some (op, t, cs)"
      using a JObj by (simp add: decode_shell_def)
  next
    fix n d v and s s' :: "string \<times> int \<times> json list"
    assume d: "(n, d) \<in> set [(''op'', into_string (\<lambda>x (a, b, c). (x, b, c))),
      (''threshold'', into_int (\<lambda>x (a, b, c). (a, x, c))),
      (''children'', into_raw_slice (\<lambda>x (a, b, c). (a, b, x)))]"
      and v: "v \<in> snd ` set kvs" and P: "?P s" and s': "d v s = Some s'"
    obtain k where k: "(k, v) \<in> set kvs" using v by auto
    have "size_prod (\<lambda>_. 0) size (k, v) \<le> size_list (size_prod (\<lambda>_. 0) size) kvs"
      by (rule size_list_estimation'[OF k]) simp
    then have "size v \<le> size_list (size_prod (\<lambda>_. 0) size) kvs" by simp
    then show "?P s'" using d P s' by (cases s) (auto simp: into_defs split: json.splits)
  qed
  then show ?thesis using JObj by simp
qed (auto simp: decode_shell_def)

function decode_predicate :: "json \<Rightarrow> decode_error + predicate"
  and decode_children :: "nat \<Rightarrow> json list \<Rightarrow> decode_error + predicate list" where
  "decode_predicate j =
     (case decode_kind j of
        None \<Rightarrow> Inl PredicateJSON
      | Some k \<Rightarrow>
          if k = '''' then Inl MissingKind
          else if k = ''SubmittedAssignment'' then
            (case decode_SubmittedAssignment j of None \<Rightarrow> Inl (FieldMismatch k)
             | Some (i, mn, mx, ot) \<Rightarrow> if i = 0 then Inl (RequiresPositive k) else Inr (SubmittedAssignment i mn mx ot))
          else if k = ''SubmittedQuiz'' then
            (case decode_SubmittedQuiz j of None \<Rightarrow> Inl (FieldMismatch k)
             | Some (i, mn, mx) \<Rightarrow> if i = 0 then Inl (RequiresPositive k) else Inr (SubmittedQuiz i mn mx))
          else if k = ''ViewedContent'' then
            (case decode_ViewedContent j of None \<Rightarrow> Inl (FieldMismatch k)
             | Some (i, v, s) \<Rightarrow> if i = 0 then Inl (RequiresPositive k) else Inr (ViewedContent i v s))
          else if k = ''OutcomeMastery'' then
            (case decode_OutcomeMastery j of None \<Rightarrow> Inl (FieldMismatch k)
             | Some (i, l, m) \<Rightarrow> if i = 0 then Inl (RequiresPositive k)
                 else if LevelOrdinal l < 0 then Inl (InvalidMinLevelText l) else Inr (OutcomeMastery i l m))
          else if k = ''CurrencyThreshold'' then
            (case decode_CurrencyThreshold j of None \<Rightarrow> Inl (FieldMismatch k)
             | Some (c, n) \<Rightarrow> if c = '''' then Inl (RequiresCode k) else Inr (CurrencyThreshold c n))
          else if k = ''EarnedBadge'' then
            (case decode_EarnedBadge j of None \<Rightarrow> Inl (FieldMismatch k)
             | Some i \<Rightarrow> if i = 0 then Inl (RequiresPositive k) else Inr (EarnedBadge i))
          else if k = ''ReputationThreshold'' then
            (case decode_ReputationThreshold j of None \<Rightarrow> Inl (FieldMismatch k)
             | Some n \<Rightarrow> Inr (ReputationThreshold n))
          else if k = ''ConditionSet'' then
            (case decode_shell j of None \<Rightarrow> Inl (FieldMismatch k)
             | Some (op, t, cs) \<Rightarrow>
                 if op \<noteq> OpAND \<and> op \<noteq> OpOR \<and> op \<noteq> OpNOfM then Inl (InvalidOp op)
                 else if op = OpNOfM \<and> t \<le> 0 then Inl (RequiresThreshold t)
                 else (case decode_children 0 cs of
                     Inl e \<Rightarrow> Inl e
                   | Inr ps \<Rightarrow> Inr (ConditionSet op t ps)))
          else Inl (UnknownKind k))"
| "decode_children i [] = Inr []"
| "decode_children i (c # cs) =
     (case decode_predicate c of
        Inl e \<Rightarrow> Inl (InChild i e)
      | Inr p \<Rightarrow> (case decode_children (i + 1) cs of Inl e \<Rightarrow> Inl e | Inr ps \<Rightarrow> Inr (p # ps)))"
  by pat_completeness auto

termination
  by (relation "measure (case_sum (\<lambda>j. 2 * size j + 1) (\<lambda>(i, cs). 2 * size_list size cs))")
    (auto dest: decode_shell_size)

declare decode_predicate.simps [simp del]

definition DecodePredicate :: "(string \<Rightarrow> json option) \<Rightarrow> string \<Rightarrow> decode_error + predicate" where
  "DecodePredicate parse raw =
     (if raw = [] then Inl EmptyPredicateJSON
      else case parse raw of None \<Rightarrow> Inl PredicateJSON | Some j \<Rightarrow> decode_predicate j)"

section \<open>Decoded predicates are well formed\<close>

fun wf_predicate :: "predicate \<Rightarrow> bool" where
  "wf_predicate (SubmittedAssignment i mn mx ot) = (0 < i)"
| "wf_predicate (SubmittedQuiz i mn mx) = (0 < i)"
| "wf_predicate (ViewedContent i v s) = (0 < i)"
| "wf_predicate (OutcomeMastery i l m) = (0 < i \<and> 0 \<le> LevelOrdinal l)"
| "wf_predicate (CurrencyThreshold c n) = (c \<noteq> '''')"
| "wf_predicate (EarnedBadge i) = (0 < i)"
| "wf_predicate (ReputationThreshold n) = True"
| "wf_predicate (ConditionSet op t cs) =
     ((op = OpAND \<or> op = OpOR \<or> op = OpNOfM \<and> 0 < t) \<and> list_all wf_predicate cs)"

lemma decode_atom_wf:
  assumes k: "decode_kind j = Some k" and F: "k \<noteq> ''ConditionSet''" and d: "decode_predicate j = Inr p"
  shows "wf_predicate p"
  using d unfolding decode_predicate.simps[of j] k option.case
  by (simp only: F if_False split: if_split_asm) (auto split: option.split_asm prod.split_asm if_split_asm)

lemma decode_wf:
  "decode_predicate j = Inr p \<Longrightarrow> wf_predicate p"
  "decode_children i cs = Inr ps \<Longrightarrow> list_all wf_predicate ps"
proof (induction j and i cs arbitrary: p and ps rule: decode_predicate_decode_children.induct)
  case (1 j)
  obtain k where k: "decode_kind j = Some k" using 1(2)
    by (subst (asm) decode_predicate.simps) (simp split: option.split_asm)
  show ?case
  proof (cases "k = ''ConditionSet''")
    case True
    then obtain op t cs ps where *: "decode_shell j = Some (op, t, cs)" "op = OpAND \<or> op = OpOR \<or> op = OpNOfM"
      "op = OpNOfM \<longrightarrow> \<not> t \<le> 0" "decode_children 0 cs = Inr ps" "p = ConditionSet op t ps"
      using 1(2) k by (subst (asm) decode_predicate.simps)
        (auto split: option.split_asm if_split_asm sum.split_asm)
    have "list_all wf_predicate ps"
      by (rule 1(1)[OF k _ _ _ _ _ _ _ _ True *(1) refl refl]) (use * True in auto)
    then show ?thesis using * by auto
  next
    case False
    then show ?thesis using 1(2) k by (rule decode_atom_wf[rotated])
  qed
qed (auto split: sum.splits)

text \<open>A well-formed predicate evaluates without reaching the malformed-rule branches.\<close>

definition why_malformed :: "reason \<Rightarrow> bool" where
  "why_malformed why = (case why of UnknownOp _ \<Rightarrow> True | InvalidMinLevel \<Rightarrow> True | _ \<Rightarrow> False)"

fun malformed :: "trace \<Rightarrow> bool" where
  "malformed (Trace k r why ts ps) = (why_malformed why \<or> list_ex malformed ts)"

lemma loops_not_malformed:
  assumes "\<forall>c\<in>set cs. \<not> malformed (snd (evaluate c a))"
  shows "\<not> list_ex malformed (snd (snd (and_loop cs a))) \<and> \<not> why_malformed (fst (snd (and_loop cs a)))"
    "\<not> list_ex malformed (snd (snd (or_loop cs a))) \<and> \<not> why_malformed (fst (snd (or_loop cs a)))"
    "\<not> list_ex malformed (snd (snd (n_loop k n cs a))) \<and> \<not> why_malformed (fst (snd (n_loop k n cs a)))"
proof -
  show "\<not> list_ex malformed (snd (snd (and_loop cs a))) \<and> \<not> why_malformed (fst (snd (and_loop cs a)))"
    using assms by (induction cs) (auto simp: why_malformed_def split: prod.splits)
  show "\<not> list_ex malformed (snd (snd (or_loop cs a))) \<and> \<not> why_malformed (fst (snd (or_loop cs a)))"
    using assms by (induction cs) (auto simp: why_malformed_def split: prod.splits)
  show "\<not> list_ex malformed (snd (snd (n_loop k n cs a))) \<and> \<not> why_malformed (fst (snd (n_loop k n cs a)))"
    using assms
  proof (induction cs arbitrary: k)
    case (Cons c cs)
    show ?case using Cons.IH[of k] Cons.IH[of "k + 1"] Cons.prems
      by (auto simp: why_malformed_def Let_def split: prod.splits)
  qed (simp add: why_malformed_def)
qed

lemma wf_not_malformed: "wf_predicate p \<Longrightarrow> \<not> malformed (snd (evaluate p a))"
proof (induction p)
  case (ConditionSet op t cs)
  then have "\<forall>c\<in>set cs. \<not> malformed (snd (evaluate c a))" by (auto simp: list_all_iff)
  from loops_not_malformed(1,2)[OF this] loops_not_malformed(3)[OF this, of 0 t] ConditionSet.prems show ?case
    by (auto simp: op_names split: prod.splits)
qed (auto simp: eval_SubmittedAssignment_def eval_SubmittedQuiz_def eval_ViewedContent_def why_malformed_def
    eval_OutcomeMastery_def eval_EarnedBadge_def eval_CurrencyThreshold_def score_bounds_def Let_def
    split: option.splits reason.splits)

text \<open>
  C32. What the decoder accepts can be evaluated: every predicate it returns is well formed
  (positive ids, known levels and operators, a positive threshold for N\_OF\_M, at every depth), and
  no evaluation of it ends in the unknown-operator or invalid-level branch.
\<close>

theorem decoded_predicate_evaluates:
  assumes "DecodePredicate parse raw = Inr p"
  shows "wf_predicate p \<and> \<not> malformed (snd (evaluate p a))"
  using assms decode_wf(1) wf_not_malformed
  by (auto simp: DecodePredicate_def split: if_splits option.splits)

theorem decoded_predicate_evaluates_witness:
  "wf_predicate (ConditionSet OpNOfM 1 [EarnedBadge 7]) \<and>
   \<not> malformed (snd (evaluate (ConditionSet OpNOfM 1 [EarnedBadge 7])
     \<lparr>as_UserID = 1, as_TenantID = 1, as_Now = 0, as_Submissions = Map.empty, as_QuizAttempts = Map.empty,
      as_ViewedContent = Map.empty, as_OutcomeMastery = Map.empty, as_WalletBalances = Map.empty,
      as_CurrencyByCode = Map.empty, as_EarnedBadges = []\<rparr>))"
  by (rule decoded_predicate_evaluates[where raw = "''{}''" and parse = "\<lambda>_. Some (JObj [(''kind'', JStr ''ConditionSet''), (''op'', JStr ''N_OF_M''),
      (''Threshold'', JNum ''1''), (''children'', JArr [JObj [(''kind'', JStr ''EarnedBadge''), (''badge_id'', JNum ''7'')]])])"])
    code_simp

section \<open>The documents that rule authors write\<close>

text \<open>
  The canonical document of a predicate: its kind and the snake-case members of its struct,
  optional ones left out when empty; \<open>fmt\<close> prints a float.
\<close>

definition score_member :: "(rat \<Rightarrow> string) \<Rightarrow> string \<Rightarrow> rat option \<Rightarrow> (string \<times> json) list" where
  "score_member fmt name v = (case v of None \<Rightarrow> [] | Some x \<Rightarrow> [(name, JNum (fmt x))])"

fun doc_of :: "(rat \<Rightarrow> string) \<Rightarrow> predicate \<Rightarrow> json" where
  "doc_of fmt (SubmittedAssignment i mn mx ot) = JObj ([(''kind'', JStr ''SubmittedAssignment''), (''assignment_id'', JNum (show_nat i))]
     @ score_member fmt ''min_score'' mn @ score_member fmt ''max_score'' mx @ [(''require_on_time'', JBool ot)])"
| "doc_of fmt (SubmittedQuiz i mn mx) = JObj ([(''kind'', JStr ''SubmittedQuiz''), (''quiz_id'', JNum (show_nat i))]
     @ score_member fmt ''min_score'' mn @ score_member fmt ''max_score'' mx)"
| "doc_of fmt (ViewedContent i v s) = JObj [(''kind'', JStr ''ViewedContent''), (''content_id'', JNum (show_nat i)),
     (''min_views'', JNum (show_int v)), (''min_seconds_viewed'', JNum (show_int s))]"
| "doc_of fmt (OutcomeMastery i l m) = JObj ([(''kind'', JStr ''OutcomeMastery''), (''outcome_id'', JNum (show_nat i)),
     (''min_level'', JStr l)] @ (if m = '''' then [] else [(''calc_method'', JStr m)]))"
| "doc_of fmt (CurrencyThreshold c n) = JObj [(''kind'', JStr ''CurrencyThreshold''), (''code'', JStr c), (''min_amount'', JNum (show_int n))]"
| "doc_of fmt (EarnedBadge i) = JObj [(''kind'', JStr ''EarnedBadge''), (''badge_id'', JNum (show_nat i))]"
| "doc_of fmt (ReputationThreshold n) = JObj [(''kind'', JStr ''ReputationThreshold''), (''min_amount'', JNum (show_int n))]"
| "doc_of fmt (ConditionSet op t cs) = JObj [(''kind'', JStr ''ConditionSet''), (''op'', JStr op), (''threshold'', JNum (show_int t)),
     (''children'', JArr (map (doc_of fmt) cs))]"

definition int64_ok :: "int \<Rightarrow> bool" where
  "int64_ok n = (int64_min \<le> n \<and> n \<le> int64_max)"

text \<open>The fields hold machine integers, and \<open>fmt\<close> prints each score so that it reads back.\<close>

definition score_ok :: "(rat \<Rightarrow> string) \<Rightarrow> rat option \<Rightarrow> bool" where
  "score_ok fmt v = (case v of None \<Rightarrow> True | Some x \<Rightarrow> parse_float (fmt x) = Some x)"

fun fields_ok :: "(rat \<Rightarrow> string) \<Rightarrow> predicate \<Rightarrow> bool" where
  "fields_ok fmt (SubmittedAssignment i mn mx ot) = (i < 2 ^ 64 \<and> score_ok fmt mn \<and> score_ok fmt mx)"
| "fields_ok fmt (SubmittedQuiz i mn mx) = (i < 2 ^ 64 \<and> score_ok fmt mn \<and> score_ok fmt mx)"
| "fields_ok fmt (ViewedContent i v s) = (i < 2 ^ 64 \<and> int64_ok v \<and> int64_ok s)"
| "fields_ok fmt (OutcomeMastery i l m) = (i < 2 ^ 64)"
| "fields_ok fmt (CurrencyThreshold c n) = int64_ok n"
| "fields_ok fmt (EarnedBadge i) = (i < 2 ^ 64)"
| "fields_ok fmt (ReputationThreshold n) = int64_ok n"
| "fields_ok fmt (ConditionSet op t cs) = (int64_ok t \<and> list_all (fields_ok fmt) cs)"

text \<open>The folded field names, computed once.\<close>

declare fold_name.simps [simp del]

lemma fold_names [simp]:
  "fold_name ''kind'' = ''KIND''" "fold_name ''assignment_id'' = ''ASSIGNMENT_ID''" "fold_name ''quiz_id'' = ''QUIZ_ID''"
  "fold_name ''content_id'' = ''CONTENT_ID''" "fold_name ''outcome_id'' = ''OUTCOME_ID''" "fold_name ''badge_id'' = ''BADGE_ID''"
  "fold_name ''min_score'' = ''MIN_SCORE''" "fold_name ''max_score'' = ''MAX_SCORE''"
  "fold_name ''require_on_time'' = ''REQUIRE_ON_TIME''" "fold_name ''min_views'' = ''MIN_VIEWS''"
  "fold_name ''min_seconds_viewed'' = ''MIN_SECONDS_VIEWED''" "fold_name ''min_level'' = ''MIN_LEVEL''"
  "fold_name ''calc_method'' = ''CALC_METHOD''" "fold_name ''code'' = ''CODE''" "fold_name ''min_amount'' = ''MIN_AMOUNT''"
  "fold_name ''op'' = ''OP''" "fold_name ''threshold'' = ''THRESHOLD''" "fold_name ''children'' = ''CHILDREN''"
  by (simp_all add: fold_name.simps upper_char_def)

lemma parse_int_show_int64 [simp]: "int64_ok i \<Longrightarrow> parse_int (show_int i) = Some i"
  by (simp add: int64_ok_def)

lemmas decode_field_defs = decode_kind_def decode_SubmittedAssignment_def decode_SubmittedQuiz_def
  decode_ViewedContent_def decode_OutcomeMastery_def decode_CurrencyThreshold_def decode_EarnedBadge_def
  decode_ReputationThreshold_def decode_shell_def field_for_def into_defs score_member_def score_ok_def

lemma decode_doc_fields:
  assumes "fields_ok fmt p"
  shows "(case p of
      SubmittedAssignment i mn mx ot \<Rightarrow> decode_kind (doc_of fmt p) = Some ''SubmittedAssignment'' \<and>
        decode_SubmittedAssignment (doc_of fmt p) = Some (i, mn, mx, ot)
    | SubmittedQuiz i mn mx \<Rightarrow> decode_kind (doc_of fmt p) = Some ''SubmittedQuiz'' \<and>
        decode_SubmittedQuiz (doc_of fmt p) = Some (i, mn, mx)
    | ViewedContent i v s \<Rightarrow> decode_kind (doc_of fmt p) = Some ''ViewedContent'' \<and>
        decode_ViewedContent (doc_of fmt p) = Some (i, v, s)
    | OutcomeMastery i l m \<Rightarrow> decode_kind (doc_of fmt p) = Some ''OutcomeMastery'' \<and>
        decode_OutcomeMastery (doc_of fmt p) = Some (i, l, m)
    | CurrencyThreshold c n \<Rightarrow> decode_kind (doc_of fmt p) = Some ''CurrencyThreshold'' \<and>
        decode_CurrencyThreshold (doc_of fmt p) = Some (c, n)
    | EarnedBadge i \<Rightarrow> decode_kind (doc_of fmt p) = Some ''EarnedBadge'' \<and> decode_EarnedBadge (doc_of fmt p) = Some i
    | ReputationThreshold n \<Rightarrow> decode_kind (doc_of fmt p) = Some ''ReputationThreshold'' \<and>
        decode_ReputationThreshold (doc_of fmt p) = Some n
    | ConditionSet op t cs \<Rightarrow> decode_kind (doc_of fmt p) = Some ''ConditionSet'' \<and>
        decode_shell (doc_of fmt p) = Some (op, t, map (doc_of fmt) cs))"
proof (cases p)
  case (SubmittedAssignment i mn mx ot)
  then show ?thesis using assms by (cases mn; cases mx; simp add: decode_field_defs)
next
  case (SubmittedQuiz i mn mx)
  then show ?thesis using assms by (cases mn; cases mx; simp add: decode_field_defs)
qed (use assms in \<open>simp add: decode_field_defs\<close>)+

lemma decode_children_docs:
  "\<forall>c\<in>set cs. decode_predicate (doc_of fmt c) = Inr c \<Longrightarrow> decode_children i (map (doc_of fmt) cs) = Inr cs"
  by (induction cs arbitrary: i) auto

text \<open>
  C31. The decoder reads back what a rule author means: the canonical document of any well-formed
  predicate, nested to any depth, decodes to that predicate.
\<close>

theorem decode_of_document:
  assumes "wf_predicate p" "fields_ok fmt p"
  shows "decode_predicate (doc_of fmt p) = Inr p"
  using assms
proof (induction p)
  case (ConditionSet op t cs)
  have "decode_children 0 (map (doc_of fmt) cs) = Inr cs"
    using ConditionSet by (intro decode_children_docs) (auto simp: list_all_iff)
  then show ?case using decode_doc_fields[OF ConditionSet.prems(2)] ConditionSet.prems(1)
    by (subst decode_predicate.simps) auto
qed (subst decode_predicate.simps, drule decode_doc_fields, simp)+

theorem decode_of_document_witness:
  "decode_predicate (doc_of (\<lambda>x. ''0.5'') (ConditionSet OpAND 0
     [SubmittedAssignment 42 (Some (1/2)) None True, OutcomeMastery 7 LevelProficient '''', CurrencyThreshold ''xp'' (-3)]))
   = Inr (ConditionSet OpAND 0
     [SubmittedAssignment 42 (Some (1/2)) None True, OutcomeMastery 7 LevelProficient '''', CurrencyThreshold ''xp'' (-3)])"
proof (rule decode_of_document)
  have "parse_float ''0.5'' = Some (1/2)" by code_simp
  then show "fields_ok (\<lambda>x. ''0.5'') (ConditionSet OpAND 0
     [SubmittedAssignment 42 (Some (1/2)) None True, OutcomeMastery 7 LevelProficient '''', CurrencyThreshold ''xp'' (-3)])"
    by (simp add: score_ok_def int64_ok_def int64_min_def int64_max_def)
qed simp

end
