(* ===== verification/Tables.thy ===== *)
theory Tables imports Prelude begin

text \<open>
  The contract of a table keyed by an auto-increment id, as the services use it through the
  repository interfaces: what a lookup returns after an insert, an update and a delete. Facts about
  all rows of a table are proved once, here, and used at every table of the model.
\<close>

locale keyed_table =
  fixes find_row :: "'t \<Rightarrow> nat \<Rightarrow> 'r option"
    and create_row :: "'t \<Rightarrow> 'r \<Rightarrow> 't \<times> 'r"
    and update_row :: "'t \<Rightarrow> 'r \<Rightarrow> 't"
    and delete_row :: "'t \<Rightarrow> nat \<Rightarrow> 't"
    and key :: "'r \<Rightarrow> nat"
    and next_key :: "'t \<Rightarrow> nat"
    and stamp :: "'r \<Rightarrow> nat \<Rightarrow> 'r"
  assumes create_find: "find_row (fst (create_row t r)) i = (if i = next_key t then Some (stamp r (next_key t)) else find_row t i)"
    and create_row_stamped: "snd (create_row t r) = stamp r (next_key t)"
    and create_next: "next_key (fst (create_row t r)) = next_key t + 1"
    and update_find: "find_row (update_row t r) i = (if i = key r then Some r else find_row t i)"
    and update_next: "next_key (update_row t r) = next_key t"
    and delete_find: "find_row (delete_row t k) i = (if i = k then None else find_row t i)"
    and delete_next: "next_key (delete_row t k) = next_key t"
    and key_stamp: "key (stamp r k) = k"
begin

definition all_rows :: "('r \<Rightarrow> bool) \<Rightarrow> 't \<Rightarrow> bool" where
  "all_rows P t \<longleftrightarrow> (\<forall>i r. find_row t i = Some r \<longrightarrow> key r = i \<and> i < next_key t \<and> P r)"

lemma all_rowsD: "all_rows P t \<Longrightarrow> find_row t i = Some r \<Longrightarrow> key r = i \<and> i < next_key t \<and> P r"
  by (auto simp: all_rows_def)

lemma all_rows_create: "all_rows P t \<Longrightarrow> P (stamp r (next_key t)) \<Longrightarrow> all_rows P (fst (create_row t r))"
  by (auto simp: all_rows_def create_find create_next key_stamp split: if_splits dest: less_SucI)

lemma all_rows_update: "all_rows P t \<Longrightarrow> find_row t (key r) \<noteq> None \<Longrightarrow> P r \<Longrightarrow> all_rows P (update_row t r)"
  by (auto simp: all_rows_def update_find update_next split: if_splits)

lemma all_rows_delete: "all_rows P t \<Longrightarrow> all_rows P (delete_row t k)"
  by (auto simp: all_rows_def delete_find delete_next split: if_splits)

text \<open>Ids are never reused and a created row is found under the id it was given.\<close>

lemma create_fresh: "all_rows P t \<Longrightarrow> find_row t (next_key t) = None"
  by (metis all_rowsD less_irrefl option.exhaust)

lemma create_then_find: "find_row (fst (create_row t r)) (key (snd (create_row t r))) = Some (snd (create_row t r))"
  by (simp add: create_find create_row_stamped key_stamp)

lemma create_keeps: "all_rows P t \<Longrightarrow> find_row t i = Some r' \<Longrightarrow> find_row (fst (create_row t r)) i = Some r'"
  using all_rowsD by (fastforce simp: create_find)

end

section \<open>Tables that grow\<close>

text \<open>
  A later version of a table: each old row is followed, in its place, by a row it may become, and
  new rows come after them.
\<close>

definition grown :: "('r \<Rightarrow> 'r \<Rightarrow> bool) \<Rightarrow> 'r list \<Rightarrow> 'r list \<Rightarrow> bool" where
  "grown R xs ys = (length xs \<le> length ys \<and> list_all2 R xs (take (length xs) ys))"

lemma grown_append: "grown R xs (ys @ zs)" if "list_all2 R xs ys"
  using that list_all2_lengthD[OF that] by (simp add: grown_def)

lemma grown_split:
  assumes "grown R xs ys"
  obtains us vs where "ys = us @ vs" "list_all2 R xs us"
  using assms that[of "take (length xs) ys" "drop (length xs) ys"] by (simp add: grown_def)

locale row_versions =
  fixes ident :: "'r \<Rightarrow> nat" and becomes :: "'r \<Rightarrow> 'r \<Rightarrow> bool"
  assumes becomes_refl: "becomes r r"
    and becomes_trans: "becomes r s \<Longrightarrow> becomes s t \<Longrightarrow> becomes r t"
    and becomes_ident: "becomes r s \<Longrightarrow> ident s = ident r"
begin

lemma grown_refl: "grown becomes xs xs"
  using becomes_refl by (simp add: grown_def list_all2_refl)

lemma grown_trans: "grown becomes xs ys \<Longrightarrow> grown becomes ys zs \<Longrightarrow> grown becomes xs zs"
proof -
  assume xy: "grown becomes xs ys" and yz: "grown becomes ys zs"
  let ?n = "length xs"
  have "list_all2 becomes (take ?n ys) (take ?n (take (length ys) zs))"
    using yz by (intro list_all2_takeI) (simp add: grown_def)
  then have "list_all2 becomes (take ?n ys) (take ?n zs)"
    using xy by (simp add: grown_def min_absorb1)
  then have "list_all2 becomes xs (take ?n zs)"
    using xy by (auto simp: grown_def elim: list_all2_trans[rotated, where ?P1.0 = becomes] intro: becomes_trans)
  then show ?thesis using xy yz by (simp add: grown_def)
qed

lemma grown_new: "grown becomes xs (xs @ ys)"
  by (rule grown_append) (simp add: list_all2_refl becomes_refl)

lemma grown_map: "(\<And>r. r \<in> set xs \<Longrightarrow> becomes r (f r)) \<Longrightarrow> grown becomes xs (map f xs)"
  by (simp add: grown_def list_all2_conv_all_nth)

lemma grown_put:
  "(\<And>r. r \<in> set xs \<Longrightarrow> ident r = ident s \<Longrightarrow> becomes r s) \<Longrightarrow> grown becomes xs (map (\<lambda>r. if ident r = ident s then s else r) xs)"
  by (rule grown_map) (simp add: becomes_refl)

lemma grown_idents:
  assumes "grown becomes xs ys" obtains zs where "map ident ys = map ident xs @ map ident zs" "set zs \<subseteq> set ys"
proof (rule grown_split[OF assms])
  fix us vs assume "ys = us @ vs" "list_all2 becomes xs us"
  moreover from this(2) have "map ident us = map ident xs"
    by (induction rule: list_all2_induct) (simp_all add: becomes_ident)
  ultimately show ?thesis by (intro that[of vs]) auto
qed

lemma grown_member: "grown becomes xs ys \<Longrightarrow> r \<in> set xs \<Longrightarrow> \<exists>s \<in> set ys. becomes r s"
  by (elim grown_split) (fastforce simp: list_all2_conv_all_nth in_set_conv_nth)

lemma grown_found:
  assumes "grown becomes xs ys" "find (\<lambda>r. ident r = i) xs = Some r"
  obtains s where "find (\<lambda>r. ident r = i) ys = Some s" "becomes r s"
proof (rule grown_split[OF assms(1)])
  fix us vs assume ys: "ys = us @ vs" and all: "list_all2 becomes xs us"
  from all assms(2) have "\<exists>s. find (\<lambda>r. ident r = i) (us @ vs) = Some s \<and> becomes r s"
    by (induction rule: list_all2_induct) (auto simp: becomes_ident split: if_splits)
  with ys that show ?thesis by blast
qed

end

end
