(* ===== verification/Rule_Service.thy ===== *)
theory Rule_Service imports Rule_Codec Go_Strings Tables begin

text \<open>
  The effect decoder (\<open>effects/factory.go\<close>), the validator of rule bodies with its vocabulary
  (\<open>vocabulary.go\<close>) and the rule create/get/patch/delete operations of \<open>rule_service.go\<close> over the
  rule table. The table is a map from ids; \<open>Create\<close> takes the next id of the sequence. Failures
  of the database itself are left out, and a stored document is the text that was passed (the
  \<open>jsonb\<close> column's reformatting is not modelled).
\<close>

section \<open>Effects\<close>

datatype effect_spec =
  AwardCurrency (ac_Code: string) (ac_Amount: int) (ac_Multiplier: "rat option")
| AwardBadge (ab_Code: string) (ab_Evidence: string)

datatype effect_error =
  EffectKindJSON | EffectFields string | EffectCodeEmpty string | EffectAmount int | UnknownEffect string
| EffectsArray | EffectAt nat effect_error

definition decode_AwardCurrency :: "json \<Rightarrow> (string \<times> int \<times> rat option) option" where
  "decode_AwardCurrency = decode_struct
     [(''code'', into_string (\<lambda>x (a, b, c). (x, b, c))),
      (''amount'', into_int (\<lambda>x (a, b, c). (a, x, c))),
      (''multiplier'', into_float_ptr (\<lambda>x (a, b, c). (a, b, x)))] ('''', 0, None)"

definition decode_AwardBadge :: "json \<Rightarrow> (string \<times> string) option" where
  "decode_AwardBadge = decode_struct
     [(''code'', into_string (\<lambda>x (a, b). (x, b))), (''evidence'', into_string (\<lambda>x (a, b). (a, x)))] ('''', '''')"

definition DecodeEffect :: "json \<Rightarrow> effect_error + effect_spec" where
  "DecodeEffect j =
     (case decode_kind j of
        None \<Rightarrow> Inl EffectKindJSON
      | Some k \<Rightarrow>
          if k = ''AwardCurrency'' then
            (case decode_AwardCurrency j of None \<Rightarrow> Inl (EffectFields k)
             | Some (c, n, m) \<Rightarrow> if c = '''' then Inl (EffectCodeEmpty k)
                 else if n \<le> 0 then Inl (EffectAmount n) else Inr (AwardCurrency c n m))
          else if k = ''AwardBadge'' then
            (case decode_AwardBadge j of None \<Rightarrow> Inl (EffectFields k)
             | Some (c, e) \<Rightarrow> if c = '''' then Inl (EffectCodeEmpty k) else Inr (AwardBadge c e))
          else Inl (UnknownEffect k))"

fun decode_effect_items :: "nat \<Rightarrow> json list \<Rightarrow> effect_error + effect_spec list" where
  "decode_effect_items i [] = Inr []"
| "decode_effect_items i (j # js) =
     (case DecodeEffect j of
        Inl e \<Rightarrow> Inl (EffectAt i e)
      | Inr x \<Rightarrow> (case decode_effect_items (i + 1) js of Inl e \<Rightarrow> Inl e | Inr xs \<Rightarrow> Inr (x # xs)))"

definition DecodeEffects :: "(string \<Rightarrow> json option) \<Rightarrow> string \<Rightarrow> effect_error + effect_spec list" where
  "DecodeEffects parse raw =
     (case parse raw of
        Some (JArr js) \<Rightarrow> decode_effect_items 0 js
      | Some JNull \<Rightarrow> decode_effect_items 0 []
      | _ \<Rightarrow> Inl EffectsArray)"

fun wf_effect :: "effect_spec \<Rightarrow> bool" where
  "wf_effect (AwardCurrency c n m) = (c \<noteq> '''' \<and> 0 < n)"
| "wf_effect (AwardBadge c e) = (c \<noteq> '''')"

lemma DecodeEffect_wf: "DecodeEffect j = Inr e \<Longrightarrow> wf_effect e"
  unfolding DecodeEffect_def by (auto split: option.split_asm if_split_asm prod.split_asm)

lemma decode_effect_items_wf: "decode_effect_items i js = Inr es \<Longrightarrow> list_all wf_effect es"
  by (induction js arbitrary: i es) (auto simp: DecodeEffect_wf split: sum.splits)

lemma DecodeEffects_wf: "DecodeEffects parse raw = Inr es \<Longrightarrow> list_all wf_effect es"
  by (auto simp: DecodeEffects_def dest: decode_effect_items_wf split: option.splits json.splits)

section \<open>The vocabulary\<close>

definition VerbCatalog :: "string list" where
  "VerbCatalog = [''submitted'', ''graded'', ''completed'', ''viewed'', ''enrolled'', ''mastered'',
     ''progressed'', ''posted'', ''assessed'', ''earned'']"

definition ObjectCatalog :: "string list" where
  "ObjectCatalog = [''Assignment'', ''Submission'', ''Quiz'', ''Page'', ''ModuleItem'', ''Module'', ''Course'',
     ''Outcome'', ''DiscussionEntry'', ''Rubric'', ''Badge'']"

definition AudienceLevels :: "string list" where
  "AudienceLevels = [''k5'', ''m68'', ''h912'', ''higher_ed'', ''corp'', ''pro'']"

definition WindowKinds :: "string list" where
  "WindowKinds = [''day'', ''week'', ''lifetime'']"

section \<open>Validation\<close>

datatype rule_error =
  RuleNotFound | RuleOutOfScope | InvalidRuleName | InvalidRuleDescription
| BadAudience | TriggerRequired | TriggerJSON | BadVerb string | BadObjectType string | CronEmpty | HandleEmpty
| TriggerKindMissing | UnknownTrigger string
| ConditionRequired | BadCondition decode_error | EffectsRequired | BadEffects effect_error
| BadCooldown int | WindowJSON | BadWindow string | BadCount int

definition ValidateAudience :: "string \<Rightarrow> rule_error + unit" where
  "ValidateAudience level = (if level \<in> set AudienceLevels then Inr () else Inl BadAudience)"

definition decode_OnEvent :: "json \<Rightarrow> (string \<times> string) option" where
  "decode_OnEvent = decode_struct
     [(''verb'', into_string (\<lambda>x (a, b). (x, b))), (''object_type'', into_string (\<lambda>x (a, b). (a, x)))] ('''', '''')"

definition decode_one_string :: "string \<Rightarrow> json \<Rightarrow> string option" where
  "decode_one_string name = decode_struct [(name, into_string (\<lambda>x _. x))] ''''"

definition ValidateTriggerEvent :: "(string \<Rightarrow> json option) \<Rightarrow> string \<Rightarrow> rule_error + unit" where
  "ValidateTriggerEvent parse raw =
     (if raw = [] then Inl TriggerRequired
      else case parse raw of None \<Rightarrow> Inl TriggerJSON
      | Some j \<Rightarrow>
         (case decode_kind j of None \<Rightarrow> Inl TriggerJSON
          | Some k \<Rightarrow>
             if k = ''OnEvent'' then
               (case decode_OnEvent j of None \<Rightarrow> Inl TriggerJSON
                | Some (verb, obj) \<Rightarrow>
                    if verb \<notin> set VerbCatalog then Inl (BadVerb verb)
                    else if obj \<notin> set ObjectCatalog then Inl (BadObjectType obj) else Inr ())
             else if k = ''OnSchedule'' then
               (case decode_one_string ''cron'' j of None \<Rightarrow> Inl TriggerJSON
                | Some c \<Rightarrow> if TrimSpace c = '''' then Inl CronEmpty else Inr ())
             else if k = ''OnManualTrigger'' then
               (case decode_one_string ''handle'' j of None \<Rightarrow> Inl TriggerJSON
                | Some h \<Rightarrow> if TrimSpace h = '''' then Inl HandleEmpty else Inr ())
             else if k = '''' then Inl TriggerKindMissing
             else Inl (UnknownTrigger k)))"

definition decode_window :: "json \<Rightarrow> (string \<times> int) option" where
  "decode_window = decode_struct
     [(''window'', into_string (\<lambda>x (a, b). (x, b))), (''count'', into_int (\<lambda>x (a, b). (a, x)))] ('''', 0)"

definition ValidateMaxPerWindow :: "(string \<Rightarrow> json option) \<Rightarrow> string \<Rightarrow> rule_error + unit" where
  "ValidateMaxPerWindow parse raw =
     (if raw = [] then Inr ()
      else case parse raw of None \<Rightarrow> Inl WindowJSON
      | Some j \<Rightarrow>
         (case decode_window j of None \<Rightarrow> Inl WindowJSON
          | Some (w, n) \<Rightarrow>
              if w \<notin> set WindowKinds then Inl (BadWindow w)
              else if n \<le> 0 then Inl (BadCount n) else Inr ()))"

definition ValidateRuleBody ::
    "(string \<Rightarrow> json option) \<Rightarrow> string \<Rightarrow> string \<Rightarrow> string \<Rightarrow> string \<Rightarrow> string \<Rightarrow> int option \<Rightarrow> rule_error + unit" where
  "ValidateRuleBody parse audience trigger condition effectsRaw maxPerWindow cooldown =
     bind_result (ValidateAudience audience) (\<lambda>_.
     bind_result (ValidateTriggerEvent parse trigger) (\<lambda>_.
     if condition = [] then Inl ConditionRequired
     else case DecodePredicate parse condition of Inl e \<Rightarrow> Inl (BadCondition e)
     | Inr _ \<Rightarrow>
         if effectsRaw = [] then Inl EffectsRequired
         else case DecodeEffects parse effectsRaw of Inl e \<Rightarrow> Inl (BadEffects e)
         | Inr _ \<Rightarrow>
             (case cooldown of
                Some c \<Rightarrow> if c \<le> 0 then Inl (BadCooldown c) else ValidateMaxPerWindow parse maxPerWindow
              | None \<Rightarrow> ValidateMaxPerWindow parse maxPerWindow)))"

section \<open>Rules and their table\<close>

record rule =
  r_ID :: nat
  r_TenantID :: nat
  r_ScopeType :: string
  r_ScopeID :: nat
  r_AudienceLevel :: string
  r_Name :: string
  r_Description :: string
  r_Enabled :: bool
  r_TriggerEvent :: string
  r_ConditionSet :: string
  r_Effects :: string
  r_CooldownSeconds :: "int option"
  r_MaxPerWindow :: string
  r_CreatedBy :: "nat option"

record rule_table =
  rt_rows :: "nat \<rightharpoonup> rule"
  rt_next :: nat

definition rule_FindByID :: "rule_table \<Rightarrow> nat \<Rightarrow> rule option" where
  "rule_FindByID t i = rt_rows t i"

definition rule_Create :: "rule_table \<Rightarrow> rule \<Rightarrow> rule_table \<times> rule" where
  "rule_Create t row =
     (let row' = row\<lparr>r_ID := rt_next t\<rparr>
      in (\<lparr>rt_rows = (rt_rows t)(rt_next t \<mapsto> row'), rt_next = rt_next t + 1\<rparr>, row'))"

text \<open>\<open>Save\<close> updates the row of that id, or inserts it when there is none.\<close>

definition rule_Update :: "rule_table \<Rightarrow> rule \<Rightarrow> rule_table" where
  "rule_Update t row = t\<lparr>rt_rows := (rt_rows t)(r_ID row \<mapsto> row)\<rparr>"

definition rule_Delete :: "rule_table \<Rightarrow> nat \<Rightarrow> rule_table" where
  "rule_Delete t i = t\<lparr>rt_rows := (rt_rows t)(i := None)\<rparr>"

section \<open>The service\<close>

record rule_create_input =
  ci_Name :: string
  ci_Description :: string
  ci_AudienceLevel :: string
  ci_Enabled :: bool
  ci_TriggerEvent :: string
  ci_ConditionSet :: string
  ci_Effects :: string
  ci_CooldownSeconds :: "int option"
  ci_MaxPerWindow :: string

record rule_patch_input =
  pi_Name :: "string option"
  pi_Description :: "string option"
  pi_Enabled :: "bool option"
  pi_TriggerEvent :: string
  pi_ConditionSet :: string
  pi_Effects :: string
  pi_CooldownSeconds :: "int option"
  pi_MaxPerWindow :: string
  pi_ClearCooldown :: bool
  pi_ClearMaxPerWindow :: bool

definition ruleMatchesScope :: "rule \<Rightarrow> nat \<Rightarrow> string \<Rightarrow> nat \<Rightarrow> bool" where
  "ruleMatchesScope row tenant scopeType scopeID =
     (r_TenantID row = tenant \<and> r_ScopeType row = scopeType \<and> r_ScopeID row = scopeID)"

definition rule_service_Get :: "rule_table \<Rightarrow> nat \<Rightarrow> nat \<Rightarrow> string \<Rightarrow> nat \<Rightarrow> rule_error + rule" where
  "rule_service_Get t i tenant scopeType scopeID =
     (case rule_FindByID t i of
        None \<Rightarrow> Inl RuleNotFound
      | Some row \<Rightarrow> if ruleMatchesScope row tenant scopeType scopeID then Inr row else Inl RuleOutOfScope)"

definition new_rule :: "nat \<Rightarrow> string \<Rightarrow> nat \<Rightarrow> nat \<Rightarrow> rule_create_input \<Rightarrow> rule" where
  "new_rule tenant scopeType scopeID creator inp =
     \<lparr>r_ID = 0, r_TenantID = tenant, r_ScopeType = scopeType, r_ScopeID = scopeID,
      r_AudienceLevel = ci_AudienceLevel inp, r_Name = TrimSpace (ci_Name inp),
      r_Description = TrimSpace (ci_Description inp), r_Enabled = ci_Enabled inp,
      r_TriggerEvent = ci_TriggerEvent inp, r_ConditionSet = ci_ConditionSet inp, r_Effects = ci_Effects inp,
      r_CooldownSeconds = ci_CooldownSeconds inp, r_MaxPerWindow = ci_MaxPerWindow inp,
      r_CreatedBy = (if creator > 0 then Some creator else None)\<rparr>"

definition rule_service_Create ::
    "(string \<Rightarrow> json option) \<Rightarrow> rule_table \<Rightarrow> nat \<Rightarrow> string \<Rightarrow> nat \<Rightarrow> nat \<Rightarrow> rule_create_input
      \<Rightarrow> rule_error + rule_table \<times> rule" where
  "rule_service_Create parse t tenant scopeType scopeID creator inp =
     (if TrimSpace (ci_Name inp) = '''' \<or> length (ci_Name inp) > 200 then Inl InvalidRuleName
      else if length (ci_Description inp) > 2000 then Inl InvalidRuleDescription
      else bind_result (ValidateRuleBody parse (ci_AudienceLevel inp) (ci_TriggerEvent inp) (ci_ConditionSet inp)
              (ci_Effects inp) (ci_MaxPerWindow inp) (ci_CooldownSeconds inp)) (\<lambda>_.
        Inr (rule_Create t (new_rule tenant scopeType scopeID creator inp))))"

text \<open>The merge of the patch into the row: \<open>Inl\<close> on the early returns for the name and description.\<close>

definition merge_patch :: "rule \<Rightarrow> rule_patch_input \<Rightarrow> rule_error + rule" where
  "merge_patch row inp =
     bind_result
       (case pi_Name inp of None \<Rightarrow> Inr row
        | Some n \<Rightarrow> if TrimSpace n = '''' \<or> length (TrimSpace n) > 200 then Inl InvalidRuleName
                    else Inr (row\<lparr>r_Name := TrimSpace n\<rparr>)) (\<lambda>row.
     bind_result
       (case pi_Description inp of None \<Rightarrow> Inr row
        | Some d \<Rightarrow> if length d > 2000 then Inl InvalidRuleDescription
                    else Inr (row\<lparr>r_Description := TrimSpace d\<rparr>)) (\<lambda>row.
     let row = (case pi_Enabled inp of None \<Rightarrow> row | Some b \<Rightarrow> row\<lparr>r_Enabled := b\<rparr>);
         row = (if pi_TriggerEvent inp \<noteq> [] then row\<lparr>r_TriggerEvent := pi_TriggerEvent inp\<rparr> else row);
         row = (if pi_ConditionSet inp \<noteq> [] then row\<lparr>r_ConditionSet := pi_ConditionSet inp\<rparr> else row);
         row = (if pi_Effects inp \<noteq> [] then row\<lparr>r_Effects := pi_Effects inp\<rparr> else row);
         row = (if pi_ClearCooldown inp then row\<lparr>r_CooldownSeconds := None\<rparr>
                else if pi_CooldownSeconds inp \<noteq> None then row\<lparr>r_CooldownSeconds := pi_CooldownSeconds inp\<rparr> else row);
         row = (if pi_ClearMaxPerWindow inp then row\<lparr>r_MaxPerWindow := []\<rparr>
                else if pi_MaxPerWindow inp \<noteq> [] then row\<lparr>r_MaxPerWindow := pi_MaxPerWindow inp\<rparr> else row)
     in Inr row))"

definition validate_rule :: "(string \<Rightarrow> json option) \<Rightarrow> rule \<Rightarrow> rule_error + unit" where
  "validate_rule parse row = ValidateRuleBody parse (r_AudienceLevel row) (r_TriggerEvent row) (r_ConditionSet row)
     (r_Effects row) (r_MaxPerWindow row) (r_CooldownSeconds row)"

definition rule_service_Patch ::
    "(string \<Rightarrow> json option) \<Rightarrow> rule_table \<Rightarrow> nat \<Rightarrow> nat \<Rightarrow> string \<Rightarrow> nat \<Rightarrow> rule_patch_input
      \<Rightarrow> rule_error + rule_table \<times> rule" where
  "rule_service_Patch parse t i tenant scopeType scopeID inp =
     bind_result (rule_service_Get t i tenant scopeType scopeID) (\<lambda>row.
     bind_result (merge_patch row inp) (\<lambda>row.
     bind_result (validate_rule parse row) (\<lambda>_. Inr (rule_Update t row, row))))"

definition rule_service_Delete :: "rule_table \<Rightarrow> nat \<Rightarrow> nat \<Rightarrow> string \<Rightarrow> nat \<Rightarrow> rule_error + rule_table" where
  "rule_service_Delete t i tenant scopeType scopeID =
     bind_result (rule_service_Get t i tenant scopeType scopeID) (\<lambda>row. Inr (rule_Delete t (r_ID row)))"

interpretation rules_db: keyed_table rule_FindByID rule_Create rule_Update rule_Delete r_ID rt_next "\<lambda>r k. r\<lparr>r_ID := k\<rparr>"
  by unfold_locales (auto simp: rule_FindByID_def rule_Create_def rule_Update_def rule_Delete_def Let_def)

section \<open>Every stored rule is valid\<close>

definition valid_rule :: "(string \<Rightarrow> json option) \<Rightarrow> rule \<Rightarrow> bool" where
  "valid_rule parse row \<longleftrightarrow> validate_rule parse row = Inr () \<and> r_Name row \<noteq> '''' \<and>
     length (r_Name row) \<le> 200 \<and> length (r_Description row) \<le> 2000"

text \<open>The requests that change the rule table, one step each; a rejected request changes nothing.\<close>

inductive rule_step :: "(string \<Rightarrow> json option) \<Rightarrow> rule_table \<Rightarrow> rule_table \<Rightarrow> bool" for parse where
  step_create: "rule_service_Create parse t tenant st sid creator inp = Inr (t', row) \<Longrightarrow> rule_step parse t t'"
| step_patch: "rule_service_Patch parse t i tenant st sid pinp = Inr (t', row) \<Longrightarrow> rule_step parse t t'"
| step_delete: "rule_service_Delete t i tenant st sid = Inr t' \<Longrightarrow> rule_step parse t t'"

inductive_cases rule_stepE: "rule_step parse t t'"

lemma validate_rule_id [simp]: "validate_rule parse (row\<lparr>r_ID := k\<rparr>) = validate_rule parse row"
  by (simp add: validate_rule_def)

lemma Create_result:
  assumes "rule_service_Create parse t tenant st sid creator inp = Inr (t', row)"
  shows "\<exists>r. (t', row) = rule_Create t r \<and> valid_rule parse (r\<lparr>r_ID := rt_next t\<rparr>)"
proof (intro exI conjI)
  let ?r = "new_rule tenant st sid creator inp"
  from assms show "(t', row) = rule_Create t ?r"
    unfolding rule_service_Create_def by (simp split: if_split_asm)
  have "TrimSpace (ci_Name inp) \<noteq> ''''" "length (ci_Name inp) \<le> 200" "length (ci_Description inp) \<le> 2000"
    "ValidateRuleBody parse (ci_AudienceLevel inp) (ci_TriggerEvent inp) (ci_ConditionSet inp)
       (ci_Effects inp) (ci_MaxPerWindow inp) (ci_CooldownSeconds inp) = Inr ()"
    using assms unfolding rule_service_Create_def by (simp_all split: if_split_asm)
  then show "valid_rule parse (?r\<lparr>r_ID := rt_next t\<rparr>)"
    using length_TrimSpace[of "ci_Name inp"] length_TrimSpace[of "ci_Description inp"]
    by (simp add: valid_rule_def validate_rule_def new_rule_def)
qed

text \<open>What a merge leaves alone, one stage of the merge at a time.\<close>

definition keeps_identity :: "rule \<Rightarrow> rule \<Rightarrow> bool" where
  "keeps_identity row row' \<longleftrightarrow> r_ID row' = r_ID row \<and> r_TenantID row' = r_TenantID row \<and>
     r_ScopeType row' = r_ScopeType row \<and> r_ScopeID row' = r_ScopeID row"

definition good_texts :: "rule \<Rightarrow> bool" where
  "good_texts row \<longleftrightarrow> r_Name row \<noteq> '''' \<and> length (r_Name row) \<le> 200 \<and> length (r_Description row) \<le> 2000"

lemma merge_patch_result:
  assumes "merge_patch row inp = Inr row'"
  shows "keeps_identity row row' \<and> (good_texts row \<longrightarrow> good_texts row')"
proof -
  obtain row1 where 1: "(case pi_Name inp of None \<Rightarrow> Inr row
        | Some n \<Rightarrow> if TrimSpace n = '''' \<or> length (TrimSpace n) > 200 then Inl InvalidRuleName
                    else Inr (row\<lparr>r_Name := TrimSpace n\<rparr>)) = Inr row1"
    and "bind_result (case pi_Description inp of None \<Rightarrow> Inr row1
        | Some d \<Rightarrow> if length d > 2000 then Inl InvalidRuleDescription
                    else Inr (row1\<lparr>r_Description := TrimSpace d\<rparr>)) (\<lambda>row.
     let row = (case pi_Enabled inp of None \<Rightarrow> row | Some b \<Rightarrow> row\<lparr>r_Enabled := b\<rparr>);
         row = (if pi_TriggerEvent inp \<noteq> [] then row\<lparr>r_TriggerEvent := pi_TriggerEvent inp\<rparr> else row);
         row = (if pi_ConditionSet inp \<noteq> [] then row\<lparr>r_ConditionSet := pi_ConditionSet inp\<rparr> else row);
         row = (if pi_Effects inp \<noteq> [] then row\<lparr>r_Effects := pi_Effects inp\<rparr> else row);
         row = (if pi_ClearCooldown inp then row\<lparr>r_CooldownSeconds := None\<rparr>
                else if pi_CooldownSeconds inp \<noteq> None then row\<lparr>r_CooldownSeconds := pi_CooldownSeconds inp\<rparr> else row);
         row = (if pi_ClearMaxPerWindow inp then row\<lparr>r_MaxPerWindow := []\<rparr>
                else if pi_MaxPerWindow inp \<noteq> [] then row\<lparr>r_MaxPerWindow := pi_MaxPerWindow inp\<rparr> else row)
     in Inr row) = Inr row'"
    using assms unfolding merge_patch_def bind_result_Inr by blast
  then obtain row2 where 2: "(case pi_Description inp of None \<Rightarrow> Inr row1
        | Some d \<Rightarrow> if length d > 2000 then Inl InvalidRuleDescription
                    else Inr (row1\<lparr>r_Description := TrimSpace d\<rparr>)) = Inr row2"
    and 3: "keeps_identity row2 row' \<and> r_Name row' = r_Name row2 \<and> r_Description row' = r_Description row2"
    unfolding bind_result_Inr by (auto simp: keeps_identity_def Let_def split: option.split)
  have "keeps_identity row row1 \<and> (good_texts row \<longrightarrow> good_texts row1)"
    using 1 by (auto simp: keeps_identity_def good_texts_def split: option.split_asm if_split_asm)
  moreover have "keeps_identity row1 row2 \<and> (good_texts row1 \<longrightarrow> good_texts row2)"
    using 2 length_TrimSpace[of "the (pi_Description inp)"]
    by (auto simp: keeps_identity_def good_texts_def split: option.split_asm if_split_asm)
  ultimately show ?thesis using 3 by (auto simp: keeps_identity_def good_texts_def)
qed

lemma Get_found: "rule_service_Get t i tenant st sid = Inr row \<Longrightarrow> rule_FindByID t i = Some row"
  by (auto simp: rule_service_Get_def split: option.splits if_splits)

lemma rule_step_valid:
  "rule_step parse t t' \<Longrightarrow> rules_db.all_rows (valid_rule parse) t \<Longrightarrow> rules_db.all_rows (valid_rule parse) t'"
proof (erule rule_stepE)
  fix tenant st sid creator inp row
  assume inv: "rules_db.all_rows (valid_rule parse) t"
    and "rule_service_Create parse t tenant st sid creator inp = Inr (t', row)"
  then obtain r where "t' = fst (rule_Create t r)" "valid_rule parse (r\<lparr>r_ID := rt_next t\<rparr>)"
    using Create_result by (metis fst_conv)
  then show ?thesis using inv by (simp add: rules_db.all_rows_create)
next
  fix i tenant st sid pinp row
  assume inv: "rules_db.all_rows (valid_rule parse) t"
    and "rule_service_Patch parse t i tenant st sid pinp = Inr (t', row)"
  then obtain old where old: "rule_FindByID t i = Some old" and m: "merge_patch old pinp = Inr row"
    and v: "validate_rule parse row = Inr ()" and t': "t' = rule_Update t row"
    by (auto simp: rule_service_Patch_def dest: Get_found)
  have o: "r_ID old = i" "valid_rule parse old" using rules_db.all_rowsD[OF inv old] by auto
  have "valid_rule parse row" using merge_patch_result[OF m] o v
    by (auto simp: valid_rule_def good_texts_def)
  moreover have "rule_FindByID t (r_ID row) \<noteq> None" using merge_patch_result[OF m] o old
    by (simp add: keeps_identity_def)
  ultimately show ?thesis using inv t' by (simp add: rules_db.all_rows_update)
next
  fix i tenant st sid
  assume "rules_db.all_rows (valid_rule parse) t" "rule_service_Delete t i tenant st sid = Inr t'"
  then show ?thesis by (auto simp: rule_service_Delete_def rules_db.all_rows_delete)
qed

lemma valid_rule_decodes:
  "valid_rule parse row \<Longrightarrow> (\<exists>p. DecodePredicate parse (r_ConditionSet row) = Inr p) \<and>
     (\<exists>es. DecodeEffects parse (r_Effects row) = Inr es \<and> list_all wf_effect es)"
  by (auto simp: valid_rule_def validate_rule_def ValidateRuleBody_def dest: DecodeEffects_wf
      split: if_splits sum.splits option.splits)

definition empty_rules :: rule_table where
  "empty_rules = \<lparr>rt_rows = Map.empty, rt_next = 1\<rparr>"

lemma empty_rules_valid: "rules_db.all_rows P empty_rules"
  unfolding rules_db.all_rows_def by (simp add: empty_rules_def rule_FindByID_def)

lemma reachable_valid: "(rule_step parse)\<^sup>*\<^sup>* empty_rules t \<Longrightarrow> rules_db.all_rows (valid_rule parse) t"
  by (induction rule: rtranclp_induct) (rule empty_rules_valid, rule rule_step_valid)

text \<open>
  C7. Whatever sequence of create, patch and delete requests ran, every stored rule passes the
  validator, and so its condition and its effects decode when the rule is dispatched; a patch cannot
  smuggle in a body that \<open>Create\<close> would have refused.
\<close>

theorem stored_rules_decode:
  assumes "(rule_step parse)\<^sup>*\<^sup>* empty_rules t" "rule_FindByID t i = Some row"
  shows "r_ID row = i \<and> validate_rule parse row = Inr () \<and>
    (\<exists>p. DecodePredicate parse (r_ConditionSet row) = Inr p) \<and>
    (\<exists>es. DecodeEffects parse (r_Effects row) = Inr es \<and> list_all wf_effect es)"
proof -
  have "r_ID row = i" and v: "valid_rule parse row"
    using rules_db.all_rowsD[OF reachable_valid[OF assms(1)] assms(2)] by auto
  then show ?thesis using valid_rule_decodes[OF v] by (auto simp: valid_rule_def)
qed

text \<open>A scanner that knows three documents, and the request that stores the rule they make.\<close>

definition sample_parse :: "string \<Rightarrow> json option" where
  "sample_parse s =
     (if s = ''T'' then Some (JObj [(''kind'', JStr ''OnEvent''), (''verb'', JStr ''graded''), (''object_type'', JStr ''Submission'')])
      else if s = ''C'' then Some (JObj [(''kind'', JStr ''EarnedBadge''), (''badge_id'', JNum ''7'')])
      else if s = ''E'' then Some (JArr [JObj [(''kind'', JStr ''AwardCurrency''), (''code'', JStr ''xp''), (''amount'', JNum ''5'')]])
      else None)"

definition sample_rule :: rule where
  "sample_rule = \<lparr>r_ID = 1, r_TenantID = 1, r_ScopeType = ''course'', r_ScopeID = 4, r_AudienceLevel = ''k5'', r_Name = ''A'',
     r_Description = '''', r_Enabled = True, r_TriggerEvent = ''T'', r_ConditionSet = ''C'', r_Effects = ''E'',
     r_CooldownSeconds = None, r_MaxPerWindow = '''', r_CreatedBy = None\<rparr>"

lemma sample_created:
  "rule_service_Create sample_parse empty_rules 1 ''course'' 4 0
     \<lparr>ci_Name = '' A'', ci_Description = '''', ci_AudienceLevel = ''k5'', ci_Enabled = True, ci_TriggerEvent = ''T'',
      ci_ConditionSet = ''C'', ci_Effects = ''E'', ci_CooldownSeconds = None, ci_MaxPerWindow = ''''\<rparr>
   = Inr (\<lparr>rt_rows = [1 \<mapsto> sample_rule], rt_next = 2\<rparr>, sample_rule)"
proof -
  have v: "ValidateRuleBody sample_parse ''k5'' ''T'' ''C'' ''E'' '''' None = Inr ()" by code_simp
  have t: "TrimSpace '' A'' = ''A''" "TrimSpace '''' = ''''" by code_simp+
  show ?thesis by (simp add: rule_service_Create_def v t rule_Create_def new_rule_def empty_rules_def sample_rule_def Let_def)
qed

theorem stored_rules_decode_witness:
  "r_ID sample_rule = 1 \<and> validate_rule sample_parse sample_rule = Inr () \<and>
    (\<exists>p. DecodePredicate sample_parse (r_ConditionSet sample_rule) = Inr p) \<and>
    (\<exists>es. DecodeEffects sample_parse (r_Effects sample_rule) = Inr es \<and> list_all wf_effect es)"
proof (rule stored_rules_decode)
  show "(rule_step sample_parse)\<^sup>*\<^sup>* empty_rules \<lparr>rt_rows = [1 \<mapsto> sample_rule], rt_next = 2\<rparr>"
    using sample_created by (intro r_into_rtranclp) (rule step_create)
qed (simp add: rule_FindByID_def)

end
