(* ===== verification/Wallet.thy ===== *)
theory Wallet imports Prelude Binary64 Go_Time "HOL-Library.Product_Lexorder" begin

text \<open>
  The wallet and badge tables (\<open>internal/repository/postgres/gamification_wallet.go\<close>,
  \<open>gamification_badge_award.go\<close>): the ledger of transactions, the balance rows derived from it
  and the badge awards. Each repository call is one database transaction, so operations interleave
  only as whole steps. Failures of the database itself are left out; the primary keys are drawn
  from sequences. The locale \<open>ledger\<close> states what the services rely on.
\<close>

section \<open>Rows\<close>

record currency =
  cu_ID :: nat
  cu_TenantID :: nat
  cu_ScopeType :: string
  cu_ScopeID :: nat
  cu_Code :: string
  cu_DisplayOrder :: int
  cu_Spendable :: bool
  cu_Monotonic :: bool
  cu_FerpaClassification :: string

record wallet_balance =
  wb_Balance :: int
  wb_LifetimeEarned :: int

text \<open>The reason column: \<open>rule:<id>\<close> for awards by rules, other texts for the rest.\<close>

datatype tx_reason = ByRule nat | Because string

record wallet_tx =
  wt_ID :: nat
  wt_UserID :: nat
  wt_CurrencyTypeID :: nat
  wt_Delta :: int
  wt_Reason :: tx_reason
  wt_EventID :: "nat option"
  wt_RuleID :: "nat option"
  wt_PolicyFlags :: "string list"
  wt_OccurredAt :: instant

record wallet_db =
  wd_currencies :: "currency list"
  wd_balances :: "nat \<times> nat \<rightharpoonup> wallet_balance"
  wd_txs :: "wallet_tx list"
  wd_seq :: nat

datatype wallet_error =
  DeltaZero | CurrencyNotLoaded nat | MonotonicCurrency string | NotSpendable string
| InsufficientBalance int int | DuplicateWalletTransaction

section \<open>Applying a transaction\<close>

definition currency_by_id :: "currency list \<Rightarrow> nat \<Rightarrow> currency option" where
  "currency_by_id cs i = find (\<lambda>c. cu_ID c = i) cs"

text \<open>The partial unique index on (event, rule): rows without an event, or without a rule, never conflict.\<close>

definition conflicts :: "wallet_tx \<Rightarrow> wallet_tx \<Rightarrow> bool" where
  "conflicts a b = (wt_EventID a \<noteq> None \<and> wt_RuleID a \<noteq> None \<and> wt_EventID a = wt_EventID b \<and> wt_RuleID a = wt_RuleID b)"

definition zero_balance :: wallet_balance where
  "zero_balance = \<lparr>wb_Balance = 0, wb_LifetimeEarned = 0\<rparr>"

definition ApplyTransaction :: "instant \<Rightarrow> wallet_db \<Rightarrow> wallet_tx \<Rightarrow> wallet_error + wallet_db" where
  "ApplyTransaction now db tx =
     (if wt_Delta tx = 0 then Inl DeltaZero else
      case currency_by_id (wd_currencies db) (wt_CurrencyTypeID tx) of
        None \<Rightarrow> Inl (CurrencyNotLoaded (wt_CurrencyTypeID tx))
      | Some c \<Rightarrow>
          if wt_Delta tx < 0 \<and> cu_Monotonic c then Inl (MonotonicCurrency (cu_Code c))
          else if wt_Delta tx < 0 \<and> \<not> cu_Spendable c then Inl (NotSpendable (cu_Code c))
          else
            let k = (wt_UserID tx, wt_CurrencyTypeID tx);
                balance = (case wd_balances db k of None \<Rightarrow> zero_balance | Some b \<Rightarrow> b);
                newBalance = wrap64 (wb_Balance balance + wt_Delta tx)
            in if newBalance < 0 then Inl (InsufficientBalance (wb_Balance balance) (wt_Delta tx))
               else if list_ex (conflicts tx) (wd_txs db) then Inl DuplicateWalletTransaction
               else
                 let row = tx\<lparr>wt_ID := wd_seq db,
                               wt_OccurredAt := (if is_zero (wt_OccurredAt tx) then now else wt_OccurredAt tx)\<rparr>;
                     earned = (if wt_Delta tx > 0 then wrap64 (wb_LifetimeEarned balance + wt_Delta tx)
                               else wb_LifetimeEarned balance)
                 in Inr (db\<lparr>wd_txs := wd_txs db @ [row], wd_seq := wd_seq db + 1,
                            wd_balances := (wd_balances db)(k \<mapsto> \<lparr>wb_Balance = newBalance, wb_LifetimeEarned = earned\<rparr>)\<rparr>))"

definition GetBalance :: "wallet_db \<Rightarrow> nat \<Rightarrow> nat \<Rightarrow> wallet_balance option" where
  "GetBalance db u c = wd_balances db (u, c)"

text \<open>\<open>ListBalancesForUser\<close>: the balance rows of the user over the currencies that exist (a balance
  row references its currency).\<close>

definition ListBalancesForUser :: "wallet_db \<Rightarrow> nat \<Rightarrow> (nat \<times> int) list" where
  "ListBalancesForUser db u =
     concat (map (\<lambda>c. case wd_balances db (u, cu_ID c) of None \<Rightarrow> [] | Some b \<Rightarrow> [(cu_ID c, wb_Balance b)]) (wd_currencies db))"

section \<open>The ledger is the balance\<close>

definition postings :: "wallet_tx list \<Rightarrow> nat \<Rightarrow> nat \<Rightarrow> int list" where
  "postings txs u c = map wt_Delta (filter (\<lambda>t. wt_UserID t = u \<and> wt_CurrencyTypeID t = c) txs)"

lemma postings_snoc:
  "postings (txs @ [t]) u c = postings txs u c @ (if wt_UserID t = u \<and> wt_CurrencyTypeID t = c then [wt_Delta t] else [])"
  by (simp add: postings_def)

text \<open>
  The contract of a ledger: accepted postings accumulate exactly in a non-negative balance, and
  the balances of other accounts do not move.
\<close>

locale ledger =
  fixes post :: "'s \<Rightarrow> 't \<Rightarrow> ('e, 's) sum"
    and account :: "'t \<Rightarrow> 'k"
    and amount :: "'t \<Rightarrow> int"
    and held :: "'s \<Rightarrow> 'k \<Rightarrow> int"
    and good :: "'s \<Rightarrow> bool"
    and valid_post :: "'t \<Rightarrow> bool"
  assumes good_post: "good s \<Longrightarrow> valid_post t \<Longrightarrow> post s t = Inr s' \<Longrightarrow> good s'"
    and held_post: "good s \<Longrightarrow> valid_post t \<Longrightarrow> post s t = Inr s' \<Longrightarrow> held s' (account t) = held s (account t) + amount t"
    and held_other: "post s t = Inr s' \<Longrightarrow> k \<noteq> account t \<Longrightarrow> held s' k = held s k"
    and held_nonneg: "good s \<Longrightarrow> 0 \<le> held s k"
begin

text \<open>Posting a sequence, dropping what is rejected; \<open>posted\<close> lists what was accepted.\<close>

fun post_all :: "'s \<Rightarrow> 't list \<Rightarrow> 's" where
  "post_all s [] = s"
| "post_all s (t # ts) = (case post s t of Inl e \<Rightarrow> post_all s ts | Inr s' \<Rightarrow> post_all s' ts)"

fun posted :: "'s \<Rightarrow> 't list \<Rightarrow> 't list" where
  "posted s [] = []"
| "posted s (t # ts) = (case post s t of Inl e \<Rightarrow> posted s ts | Inr s' \<Rightarrow> t # posted s' ts)"

lemma good_post_all: "good s \<Longrightarrow> \<forall>t\<in>set ts. valid_post t \<Longrightarrow> good (post_all s ts)"
  by (induction ts arbitrary: s) (auto split: sum.split intro: good_post)

lemma held_post_all:
  "good s \<Longrightarrow> \<forall>t\<in>set ts. valid_post t \<Longrightarrow>
     held (post_all s ts) k = held s k + sum_list (map amount (filter (\<lambda>t. account t = k) (posted s ts)))"
proof (induction ts arbitrary: s)
  case (Cons t ts)
  then show ?case
    by (cases "post s t") (auto simp: held_post held_other good_post)
qed simp

end

definition wallet_account :: "wallet_tx \<Rightarrow> nat \<times> nat" where
  "wallet_account t = (wt_UserID t, wt_CurrencyTypeID t)"

definition wallet_held :: "wallet_db \<Rightarrow> nat \<times> nat \<Rightarrow> int" where
  "wallet_held db k = (case wd_balances db k of None \<Rightarrow> 0 | Some b \<Rightarrow> wb_Balance b)"

definition int64_delta :: "wallet_tx \<Rightarrow> bool" where
  "int64_delta t = (int64_min \<le> wt_Delta t \<and> wt_Delta t \<le> int64_max)"

definition wallet_ok :: "wallet_db \<Rightarrow> bool" where
  "wallet_ok db \<longleftrightarrow>
     (\<forall>k. 0 \<le> wallet_held db k \<and> wallet_held db k \<le> int64_max) \<and>
     (\<forall>u c. wallet_held db (u, c) = sum_list (postings (wd_txs db) u c)) \<and>
     (\<forall>t\<in>set (wd_txs db). wt_Delta t < 0 \<longrightarrow> (\<exists>cu. currency_by_id (wd_currencies db) (wt_CurrencyTypeID t) = Some cu \<and>
        \<not> cu_Monotonic cu \<and> cu_Spendable cu)) \<and>
     (\<forall>i < length (wd_txs db). \<forall>j < length (wd_txs db). i \<noteq> j \<longrightarrow> \<not> conflicts (wd_txs db ! i) (wd_txs db ! j))"

lemma wallet_ok_range: "wallet_ok db \<Longrightarrow> 0 \<le> wallet_held db k" "wallet_ok db \<Longrightarrow> wallet_held db k \<le> int64_max"
  unfolding wallet_ok_def by blast+

text \<open>A 64-bit sum of a balance and a delta that comes out non-negative did not wrap.\<close>

lemma wrap64_add_nonneg:
  assumes "0 \<le> a" "a \<le> int64_max" "int64_min \<le> d" "d \<le> int64_max" "0 \<le> wrap64 (a + d)"
  shows "wrap64 (a + d) = a + d"
proof (cases "a + d \<le> int64_max")
  case True
  have "int64_min \<le> a + d" using assms by (simp add: int64_min_def)
  then show ?thesis using True wrap64_id by blast
next
  case False
  have "wrap64 (a + d) = wrap64 (a + d - 2 ^ 64)"
    by (simp add: wrap64_def signed_take_bit_eq_iff_take_bit_eq take_bit_eq_mod)
  also have "\<dots> = a + d - 2 ^ 64"
    using assms False by (intro wrap64_id) (simp_all add: int64_min_def int64_max_def)
  finally show ?thesis using assms by (simp add: int64_max_def)
qed

lemma ApplyTransaction_cases:
  assumes "ApplyTransaction now db tx = Inr db'"
  obtains c row where "currency_by_id (wd_currencies db) (wt_CurrencyTypeID tx) = Some c"
    "wt_Delta tx \<noteq> 0" "wt_Delta tx < 0 \<longrightarrow> \<not> cu_Monotonic c \<and> cu_Spendable c"
    "0 \<le> wrap64 (wallet_held db (wallet_account tx) + wt_Delta tx)"
    "\<forall>t\<in>set (wd_txs db). \<not> conflicts tx t"
    "wd_txs db' = wd_txs db @ [row]" "wd_currencies db' = wd_currencies db"
    "wt_UserID row = wt_UserID tx" "wt_CurrencyTypeID row = wt_CurrencyTypeID tx" "wt_Delta row = wt_Delta tx"
    "wt_EventID row = wt_EventID tx" "wt_RuleID row = wt_RuleID tx"
    "wallet_held db' = (wallet_held db)(wallet_account tx := wrap64 (wallet_held db (wallet_account tx) + wt_Delta tx))"
proof -
  let ?b = "case wd_balances db (wallet_account tx) of None \<Rightarrow> zero_balance | Some b \<Rightarrow> b"
  have b: "wb_Balance ?b = wallet_held db (wallet_account tx)"
    by (simp add: wallet_held_def zero_balance_def split: option.split)
  obtain c where c: "currency_by_id (wd_currencies db) (wt_CurrencyTypeID tx) = Some c"
    using assms by (auto simp: ApplyTransaction_def split: if_splits option.splits)
  show ?thesis
    by (rule that[OF c, where row = "tx\<lparr>wt_ID := wd_seq db,
          wt_OccurredAt := (if is_zero (wt_OccurredAt tx) then now else wt_OccurredAt tx)\<rparr>"]) (use assms b in \<open>auto simp: ApplyTransaction_def c Let_def list_ex_iff wallet_account_def
        wallet_held_def fun_eq_iff split: if_splits\<close>)
qed

lemma held_ApplyTransaction:
  assumes "wallet_ok db" "int64_delta tx" "ApplyTransaction now db tx = Inr db'"
  shows "wallet_held db' = (wallet_held db)(wallet_account tx := wallet_held db (wallet_account tx) + wt_Delta tx)"
    and "0 \<le> wallet_held db (wallet_account tx) + wt_Delta tx"
    and "wallet_held db (wallet_account tx) + wt_Delta tx \<le> int64_max"
proof -
  from assms(3) have w: "0 \<le> wrap64 (wallet_held db (wallet_account tx) + wt_Delta tx)"
    "wallet_held db' = (wallet_held db)(wallet_account tx := wrap64 (wallet_held db (wallet_account tx) + wt_Delta tx))"
    by (auto elim!: ApplyTransaction_cases)
  have e: "wrap64 (wallet_held db (wallet_account tx) + wt_Delta tx) = wallet_held db (wallet_account tx) + wt_Delta tx"
    using assms(2) w(1) wallet_ok_range[OF assms(1)]
    by (intro wrap64_add_nonneg) (auto simp: int64_delta_def)
  show "wallet_held db' = (wallet_held db)(wallet_account tx := wallet_held db (wallet_account tx) + wt_Delta tx)"
    using w(2) e by simp
  show "0 \<le> wallet_held db (wallet_account tx) + wt_Delta tx" using w(1) e by simp
  show "wallet_held db (wallet_account tx) + wt_Delta tx \<le> int64_max" using wrap64_range e by metis
qed

lemma ApplyTransaction_ok:
  assumes ok: "wallet_ok db" and tx: "int64_delta tx" and step: "ApplyTransaction now db tx = Inr db'"
  shows "wallet_ok db'"
proof -
  note held = held_ApplyTransaction[OF ok tx step]
  obtain c row where r: "currency_by_id (wd_currencies db) (wt_CurrencyTypeID tx) = Some c"
    "wt_Delta tx < 0 \<longrightarrow> \<not> cu_Monotonic c \<and> cu_Spendable c"
    "\<forall>t\<in>set (wd_txs db). \<not> conflicts tx t" "wd_txs db' = wd_txs db @ [row]" "wd_currencies db' = wd_currencies db"
    "wt_UserID row = wt_UserID tx" "wt_CurrencyTypeID row = wt_CurrencyTypeID tx" "wt_Delta row = wt_Delta tx"
    "wt_EventID row = wt_EventID tx" "wt_RuleID row = wt_RuleID tx"
    using step by (rule ApplyTransaction_cases) blast
  have conf: "conflicts row t = conflicts tx t" "conflicts t row = conflicts t tx" "conflicts t tx \<Longrightarrow> conflicts tx t" for t
    using r(9,10) by (auto simp: conflicts_def)
  have 1: "0 \<le> wallet_held db' k \<and> wallet_held db' k \<le> int64_max" for k
    using wallet_ok_range[OF ok, of k] held by simp
  have 2: "wallet_held db' (u, cc) = sum_list (postings (wd_txs db') u cc)" for u cc
    using ok held(1) r(4,6,7,8) by (auto simp: wallet_ok_def postings_snoc wallet_account_def)
  have 3: "\<forall>t\<in>set (wd_txs db'). wt_Delta t < 0 \<longrightarrow> (\<exists>cu. currency_by_id (wd_currencies db') (wt_CurrencyTypeID t) = Some cu \<and>
        \<not> cu_Monotonic cu \<and> cu_Spendable cu)"
    using ok r by (auto simp: wallet_ok_def)
  have 4: "\<forall>i < length (wd_txs db'). \<forall>j < length (wd_txs db'). i \<noteq> j \<longrightarrow> \<not> conflicts (wd_txs db' ! i) (wd_txs db' ! j)"
  proof (intro allI impI)
    fix i j assume ij: "i < length (wd_txs db')" "j < length (wd_txs db')" "i \<noteq> j"
    show "\<not> conflicts (wd_txs db' ! i) (wd_txs db' ! j)"
    proof (cases "i < length (wd_txs db)"; cases "j < length (wd_txs db)")
      assume "i < length (wd_txs db)" "j < length (wd_txs db)"
      then show ?thesis using ok ij(3) r(4) by (simp add: wallet_ok_def nth_append)
    next
      assume i: "i < length (wd_txs db)" and j: "\<not> j < length (wd_txs db)"
      then have "wd_txs db' ! j = row" "wd_txs db' ! i \<in> set (wd_txs db)" using ij r(4) by (auto simp: nth_append less_Suc_eq)
      then show ?thesis using r(3) conf by metis
    next
      assume i: "\<not> i < length (wd_txs db)" and j: "j < length (wd_txs db)"
      then have "wd_txs db' ! i = row" "wd_txs db' ! j \<in> set (wd_txs db)" using ij r(4) by (auto simp: nth_append less_Suc_eq)
      then show ?thesis using r(3) conf by metis
    qed (use ij r(4) in auto)
  qed
  show ?thesis using 1 2 3 4 unfolding wallet_ok_def by blast
qed

interpretation wallet: ledger "ApplyTransaction now" wallet_account wt_Delta wallet_held wallet_ok int64_delta for now
proof unfold_locales
  fix s t s'
  show "wallet_ok s \<Longrightarrow> int64_delta t \<Longrightarrow> ApplyTransaction now s t = Inr s' \<Longrightarrow> wallet_ok s'"
    by (rule ApplyTransaction_ok)
  show "wallet_ok s \<Longrightarrow> int64_delta t \<Longrightarrow> ApplyTransaction now s t = Inr s' \<Longrightarrow>
      wallet_held s' (wallet_account t) = wallet_held s (wallet_account t) + wt_Delta t"
    by (simp add: held_ApplyTransaction)
  show "ApplyTransaction now s t = Inr s' \<Longrightarrow> k \<noteq> wallet_account t \<Longrightarrow> wallet_held s' k = wallet_held s k" for k
    by (auto elim!: ApplyTransaction_cases)
  show "wallet_ok s \<Longrightarrow> 0 \<le> wallet_held s k" for k
    by (rule wallet_ok_range)
qed

definition empty_wallet :: "currency list \<Rightarrow> wallet_db" where
  "empty_wallet cs = \<lparr>wd_currencies = cs, wd_balances = Map.empty, wd_txs = [], wd_seq = 1\<rparr>"

lemma empty_wallet_ok: "wallet_ok (empty_wallet cs)"
  by (simp add: wallet_ok_def empty_wallet_def wallet_held_def postings_def int64_max_def)

text \<open>
  C3. Whatever transactions are submitted, of any sign and size, in any order: afterwards every
  balance is non-negative, fits 64 bits and equals the sum of the ledger rows of its account; a ledger
  row with a negative delta belongs to a spendable, non-monotonic currency; and no two rows carry the
  same (event, rule) pair.
\<close>

theorem ledger_explains_balances:
  assumes "\<forall>t\<in>set ts. int64_delta t"
  shows "wallet_ok (wallet.post_all now (empty_wallet cs) ts)"
  using wallet.good_post_all[OF empty_wallet_ok assms] .

definition sample_currencies :: "currency list" where
  "sample_currencies =
     [\<lparr>cu_ID = 1, cu_TenantID = 1, cu_ScopeType = ''site'', cu_ScopeID = 1, cu_Code = ''xp'', cu_DisplayOrder = 0,
       cu_Spendable = False, cu_Monotonic = True, cu_FerpaClassification = ''non_PII''\<rparr>,
      \<lparr>cu_ID = 2, cu_TenantID = 1, cu_ScopeType = ''site'', cu_ScopeID = 1, cu_Code = ''gems'', cu_DisplayOrder = 1,
       cu_Spendable = True, cu_Monotonic = False, cu_FerpaClassification = ''non_PII''\<rparr>]"

definition sample_tx :: "nat \<Rightarrow> int \<Rightarrow> nat option \<Rightarrow> wallet_tx" where
  "sample_tx c d e = \<lparr>wt_ID = 0, wt_UserID = 5, wt_CurrencyTypeID = c, wt_Delta = d, wt_Reason = ByRule 3,
     wt_EventID = e, wt_RuleID = Some 3, wt_PolicyFlags = [], wt_OccurredAt = 10\<rparr>"

theorem ledger_explains_balances_witness:
  "wallet_ok (wallet.post_all 100 (empty_wallet sample_currencies)
     [sample_tx 2 50 (Some 9), sample_tx 2 70 (Some 9), sample_tx 2 (-20) None, sample_tx 1 (-1) None, sample_tx 2 (-40) None])"
  by (rule ledger_explains_balances) (simp add: sample_tx_def int64_delta_def int64_min_def int64_max_def)

end
