(* ===== verification/Snapshot.thy ===== *)
theory Snapshot imports Predicates Wallet begin

text \<open>
  \<open>LoadSnapshot\<close> (\<open>internal/service/gamification/snapshot.go\<close>) with the repository queries it
  runs, over tables given as lists of rows in the order the database returns them. The clock value is
  an argument. What a predicate sees is compared with \<open>full_snapshot\<close>, the state of the tables
  themselves.
\<close>

section \<open>Rows and queries\<close>

record submission_row =
  sr_UserID :: nat
  sr_AssignmentID :: nat
  sr_SubmittedAt :: "instant option"
  sr_Score :: "rat option"
  sr_WorkflowState :: string
  sr_Late :: bool
  sr_Attempt :: int

record quiz_row =
  qr_UserID :: nat
  qr_QuizID :: nat
  qr_FinishedAt :: "instant option"
  qr_Score :: "rat option"
  qr_WorkflowState :: string
  qr_Attempt :: int

record view_row =
  vr_UserID :: nat
  vr_ObjectType :: string
  vr_ObjectID :: nat
  vr_ViewCount :: int
  vr_TotalSeconds :: int
  vr_FirstViewedAt :: instant
  vr_LastViewedAt :: instant

record outcome_row =
  or_UserID :: nat
  or_OutcomeID :: nat
  or_Score :: "rat option"
  or_Possible :: "rat option"
  or_Percent :: "rat option"
  or_Attempt :: int
  or_AssessedAt :: "instant option"
  or_SubmittedAt :: "instant option"

record fact_tables =
  ft_Submissions :: "submission_row list"
  ft_Quizzes :: "quiz_row list"
  ft_Views :: "view_row list"
  ft_Outcomes :: "outcome_row list"

definition ListByUserAndAssignmentIDs :: "fact_tables \<Rightarrow> nat \<Rightarrow> nat list \<Rightarrow> submission_row list" where
  "ListByUserAndAssignmentIDs ft u ids =
     (if ids = [] then [] else filter (\<lambda>r. sr_UserID r = u \<and> sr_AssignmentID r \<in> set ids) (ft_Submissions ft))"

definition ListByUserAndQuizIDs :: "fact_tables \<Rightarrow> nat \<Rightarrow> nat list \<Rightarrow> quiz_row list" where
  "ListByUserAndQuizIDs ft u ids =
     (if ids = [] then [] else
      filter (\<lambda>r. qr_UserID r = u \<and> qr_QuizID r \<in> set ids \<and>
        \<not> list_ex (\<lambda>l. qr_UserID l = qr_UserID r \<and> qr_QuizID l = qr_QuizID r \<and> qr_Attempt l > qr_Attempt r) (ft_Quizzes ft))
        (ft_Quizzes ft))"

definition ListByUserAndObjectIDs :: "fact_tables \<Rightarrow> nat \<Rightarrow> string \<Rightarrow> nat list \<Rightarrow> view_row list" where
  "ListByUserAndObjectIDs ft u ot ids =
     (if ids = [] then [] else
      filter (\<lambda>r. vr_UserID r = u \<and> vr_ObjectType r = ot \<and> vr_ObjectID r \<in> set ids) (ft_Views ft))"

text \<open>\<open>ORDER BY assessed_at ASC\<close> puts the rows without a time last.\<close>

definition assessed_before :: "outcome_row \<Rightarrow> outcome_row \<Rightarrow> bool" where
  "assessed_before a b =
     (case (or_AssessedAt a, or_AssessedAt b) of
        (Some x, Some y) \<Rightarrow> x < y | (Some _, None) \<Rightarrow> True | (None, _) \<Rightarrow> False)"

definition ListByUserAndOutcomeIDs :: "fact_tables \<Rightarrow> nat \<Rightarrow> nat list \<Rightarrow> outcome_row list" where
  "ListByUserAndOutcomeIDs ft u ids =
     (if ids = [] then [] else
      sort_stable assessed_before (filter (\<lambda>r. or_UserID r = u \<and> or_OutcomeID r \<in> set ids) (ft_Outcomes ft)))"

text \<open>\<open>ListByTenant\<close>: ordered by display order, then id.\<close>

definition ListByTenant :: "wallet_db \<Rightarrow> nat \<Rightarrow> currency list" where
  "ListByTenant db tenant =
     sort_stable_by (\<lambda>c. (cu_DisplayOrder c, cu_ID c)) (filter (\<lambda>c. cu_TenantID c = tenant) (wd_currencies db))"

section \<open>Outcome results\<close>

definition outcomeResultValue :: "outcome_row \<Rightarrow> rat" where
  "outcomeResultValue r =
     (case or_Percent r of Some p \<Rightarrow> p
      | None \<Rightarrow> (case (or_Score r, or_Possible r) of
          (Some s, Some q) \<Rightarrow> if q > 0 then fdiv s q else 0
        | _ \<Rightarrow> 0))"

definition outcomeResultTime :: "outcome_row \<Rightarrow> instant" where
  "outcomeResultTime r =
     (case or_AssessedAt r of Some t \<Rightarrow> t | None \<Rightarrow> (case or_SubmittedAt r of Some t \<Rightarrow> t | None \<Rightarrow> zero_time))"

definition resultIsLater :: "outcome_row \<Rightarrow> outcome_row \<Rightarrow> bool" where
  "resultIsLater cand cur =
     (let candTime = outcomeResultTime cand; curTime = outcomeResultTime cur
      in if \<not> is_zero candTime \<and> \<not> is_zero curTime then candTime > curTime
         else if \<not> is_zero candTime then True
         else if \<not> is_zero curTime then False
         else or_Attempt cand > or_Attempt cur)"

definition keep_latest :: "(nat \<rightharpoonup> outcome_row) \<Rightarrow> outcome_row \<Rightarrow> (nat \<rightharpoonup> outcome_row)" where
  "keep_latest latest r =
     (case latest (or_OutcomeID r) of
        None \<Rightarrow> latest(or_OutcomeID r \<mapsto> r)
      | Some prev \<Rightarrow> if resultIsLater r prev then latest(or_OutcomeID r \<mapsto> r) else latest)"

section \<open>Loading\<close>

text \<open>Which repositories the loader was given; \<open>nil\<close> ones make a need for them an error.\<close>

record snapshot_deps =
  sd_Submissions :: bool
  sd_QuizSubmissions :: bool
  sd_OutcomeResults :: bool
  sd_ContentViews :: bool
  sd_Wallet :: bool
  sd_CurrencyType :: bool

datatype snapshot_error = NilSubmissions | NilQuizSubmissions | NilContentViews | NilOutcomeResults | NilCurrencyType | NilWallet

text \<open>\<open>for _, r := range rows { m[key(r)] = value(r) }\<close>.\<close>

definition map_rows :: "('r \<Rightarrow> 'k) \<Rightarrow> ('r \<Rightarrow> 'v) \<Rightarrow> 'r list \<Rightarrow> ('k \<rightharpoonup> 'v)" where
  "map_rows key val rows = foldl (\<lambda>m r. m(key r \<mapsto> val r)) Map.empty rows"

definition submission_state :: "submission_row \<Rightarrow> submission_fact" where
  "submission_state s = \<lparr>sf_SubmittedAt = sr_SubmittedAt s, sf_Score = sr_Score s, sf_PointsPossible = 0,
     sf_WorkflowState = sr_WorkflowState s, sf_OnTime = (\<not> sr_Late s), sf_AttemptCount = sr_Attempt s\<rparr>"

definition quiz_state :: "quiz_row \<Rightarrow> quiz_fact" where
  "quiz_state q = \<lparr>qf_SubmittedAt = qr_FinishedAt q, qf_Score = qr_Score q, qf_PointsPossible = 0,
     qf_WorkflowState = qr_WorkflowState q, qf_AttemptCount = qr_Attempt q\<rparr>"

definition view_state :: "view_row \<Rightarrow> view_fact" where
  "view_state v = \<lparr>vf_ViewCount = vr_ViewCount v, vf_TotalSeconds = vr_TotalSeconds v,
     vf_FirstViewedAt = vr_FirstViewedAt v, vf_LastViewedAt = vr_LastViewedAt v\<rparr>"

definition outcome_state :: "outcome_row \<Rightarrow> mastery_fact" where
  "outcome_state r = \<lparr>mf_Value = outcomeResultValue r, mf_Level = LevelFor (outcomeResultValue r),
     mf_CalcMethod = '''', mf_AsOf = outcomeResultTime r\<rparr>"

definition load_outcomes :: "outcome_row list \<Rightarrow> (nat \<rightharpoonup> mastery_fact)" where
  "load_outcomes rows = (\<lambda>i. map_option outcome_state (foldl keep_latest Map.empty rows i))"

definition start_snapshot :: "instant \<Rightarrow> nat \<Rightarrow> nat \<Rightarrow> actor_snapshot" where
  "start_snapshot now userID tenantID = \<lparr>as_UserID = userID, as_TenantID = tenantID, as_Now = now,
     as_Submissions = Map.empty, as_QuizAttempts = Map.empty, as_ViewedContent = Map.empty, as_OutcomeMastery = Map.empty,
     as_WalletBalances = Map.empty, as_CurrencyByCode = Map.empty, as_EarnedBadges = []\<rparr>"

text \<open>One section of the loader: skipped without needs, an error without its repository.\<close>

definition load_slice :: "bool \<Rightarrow> bool \<Rightarrow> snapshot_error \<Rightarrow> (actor_snapshot \<Rightarrow> actor_snapshot)
    \<Rightarrow> actor_snapshot \<Rightarrow> snapshot_error + actor_snapshot" where
  "load_slice wanted present err fill snap =
     (if \<not> wanted then Inr snap else if \<not> present then Inl err else Inr (fill snap))"

definition LoadSnapshot ::
    "snapshot_deps \<Rightarrow> fact_tables \<Rightarrow> wallet_db \<Rightarrow> instant \<Rightarrow> nat \<Rightarrow> nat \<Rightarrow> needs \<Rightarrow> string \<Rightarrow> snapshot_error + actor_snapshot" where
  "LoadSnapshot deps ft db now userID tenantID n contentObjectType =
     (let objectType = (if contentObjectType = '''' then ''Page'' else contentObjectType)
      in bind_result (load_slice (AssignmentIDs n \<noteq> []) (sd_Submissions deps) NilSubmissions
           (\<lambda>s. s\<lparr>as_Submissions := map_rows sr_AssignmentID submission_state (ListByUserAndAssignmentIDs ft userID (AssignmentIDs n))\<rparr>)
           (start_snapshot now userID tenantID)) (\<lambda>snap.
         bind_result (load_slice (QuizIDs n \<noteq> []) (sd_QuizSubmissions deps) NilQuizSubmissions
           (\<lambda>s. s\<lparr>as_QuizAttempts := map_rows qr_QuizID quiz_state (ListByUserAndQuizIDs ft userID (QuizIDs n))\<rparr>) snap) (\<lambda>snap.
         bind_result (load_slice (ContentIDs n \<noteq> []) (sd_ContentViews deps) NilContentViews
           (\<lambda>s. s\<lparr>as_ViewedContent := map_rows vr_ObjectID view_state (ListByUserAndObjectIDs ft userID objectType (ContentIDs n))\<rparr>) snap) (\<lambda>snap.
         bind_result (load_slice (OutcomeIDs n \<noteq> []) (sd_OutcomeResults deps) NilOutcomeResults
           (\<lambda>s. s\<lparr>as_OutcomeMastery := load_outcomes (ListByUserAndOutcomeIDs ft userID (OutcomeIDs n))\<rparr>) snap) (\<lambda>snap.
         bind_result (load_slice (CurrencyCodes n \<noteq> []) (sd_CurrencyType deps) NilCurrencyType id snap) (\<lambda>snap.
         load_slice (CurrencyCodes n \<noteq> []) (sd_Wallet deps) NilWallet
           (\<lambda>s. s\<lparr>as_CurrencyByCode := map_rows cu_Code cu_ID (ListByTenant db tenantID),
                  as_WalletBalances := map_rows fst snd (ListBalancesForUser db userID)\<rparr>) snap))))))"

section \<open>The tables behind the snapshot\<close>

text \<open>
  \<open>full_snapshot\<close> reads every table with no needs: for every key the last row of the user
  under it, for outcomes the latest result, and the badges \<open>badges\<close> the user holds.
\<close>

definition full_snapshot ::
    "fact_tables \<Rightarrow> wallet_db \<Rightarrow> instant \<Rightarrow> nat \<Rightarrow> nat \<Rightarrow> string \<Rightarrow> nat list \<Rightarrow> actor_snapshot" where
  "full_snapshot ft db now userID tenantID objectType badges =
     \<lparr>as_UserID = userID, as_TenantID = tenantID, as_Now = now,
      as_Submissions = (\<lambda>i. map_rows sr_AssignmentID submission_state (ListByUserAndAssignmentIDs ft userID [i]) i),
      as_QuizAttempts = (\<lambda>i. map_rows qr_QuizID quiz_state (ListByUserAndQuizIDs ft userID [i]) i),
      as_ViewedContent = (\<lambda>i. map_rows vr_ObjectID view_state (ListByUserAndObjectIDs ft userID objectType [i]) i),
      as_OutcomeMastery = (\<lambda>i. load_outcomes (ListByUserAndOutcomeIDs ft userID [i]) i),
      as_WalletBalances = map_rows fst snd (ListBalancesForUser db userID),
      as_CurrencyByCode = map_rows cu_Code cu_ID (ListByTenant db tenantID),
      as_EarnedBadges = badges\<rparr>"

lemma map_rows_lookup:
  "map_rows key val rows k = (case filter (\<lambda>r. key r = k) rows of [] \<Rightarrow> None | rs \<Rightarrow> Some (val (last rs)))"
proof -
  have "foldl (\<lambda>m r. m(key r \<mapsto> val r)) m rows k =
      (case filter (\<lambda>r. key r = k) rows of [] \<Rightarrow> m k | rs \<Rightarrow> Some (val (last rs)))" for m
    by (induction rows arbitrary: m) (auto split: list.split)
  then show ?thesis by (simp add: map_rows_def)
qed

lemma map_rows_cong: "filter (\<lambda>r. key r = k) rows = filter (\<lambda>r. key r = k) rows' \<Longrightarrow>
    map_rows key val rows k = map_rows key val rows' k"
  by (simp add: map_rows_lookup)

lemma keep_latest_at:
  "keep_latest m r k = (if or_OutcomeID r = k then
     (case m k of None \<Rightarrow> Some r | Some prev \<Rightarrow> if resultIsLater r prev then Some r else Some prev) else m k)"
  by (auto simp: keep_latest_def split: option.split)

lemma keep_latest_frame: "m k = m' k \<Longrightarrow> foldl keep_latest m rs k = foldl keep_latest m' rs k"
proof (induction rs arbitrary: m m')
  case (Cons r rs)
  have "keep_latest m r k = keep_latest m' r k" unfolding keep_latest_at Cons.prems ..
  then show ?case unfolding foldl_Cons by (rule Cons.IH)
qed simp

lemma keep_latest_lookup:
  "foldl keep_latest m rows k = foldl keep_latest m (filter (\<lambda>r. or_OutcomeID r = k) rows) k"
proof (induction rows arbitrary: m)
  case (Cons r rows)
  show ?case
  proof (cases "or_OutcomeID r = k")
    case True then show ?thesis using Cons by simp
  next
    case False
    then have "keep_latest m r k = m k" by (simp add: keep_latest_at)
    then show ?thesis using False Cons[of "keep_latest m r"] keep_latest_frame[of "keep_latest m r" k m]
      by simp
  qed
qed simp

lemma load_outcomes_cong: "filter (\<lambda>r. or_OutcomeID r = k) rows = filter (\<lambda>r. or_OutcomeID r = k) rows' \<Longrightarrow>
    load_outcomes rows k = load_outcomes rows' k"
  by (simp add: load_outcomes_def keep_latest_lookup[of _ rows] keep_latest_lookup[of _ rows'])

lemma filter_key_ids: "i \<in> set ids \<Longrightarrow>
    filter (\<lambda>r. key r = i) (filter (\<lambda>r. Q r \<and> key r \<in> set ids) rows) =
    filter (\<lambda>r. key r = i) (filter (\<lambda>r. Q r \<and> key r \<in> set [i]) rows)"
  by (induction rows) auto

lemma load_submissions: "i \<in> set ids \<Longrightarrow>
    map_rows sr_AssignmentID submission_state (ListByUserAndAssignmentIDs ft u ids) i =
    map_rows sr_AssignmentID submission_state (ListByUserAndAssignmentIDs ft u [i]) i"
  using filter_key_ids[of i ids sr_AssignmentID "\<lambda>r. sr_UserID r = u"]
  by (intro map_rows_cong) (auto simp: ListByUserAndAssignmentIDs_def)

lemma load_quizzes: "i \<in> set ids \<Longrightarrow>
    map_rows qr_QuizID quiz_state (ListByUserAndQuizIDs ft u ids) i =
    map_rows qr_QuizID quiz_state (ListByUserAndQuizIDs ft u [i]) i"
  by (intro map_rows_cong, cases "ids = []")
    (simp_all add: ListByUserAndQuizIDs_def, rule arg_cong[where f = "\<lambda>P. filter P (ft_Quizzes ft)"], auto)

lemma load_views: "i \<in> set ids \<Longrightarrow>
    map_rows vr_ObjectID view_state (ListByUserAndObjectIDs ft u ot ids) i =
    map_rows vr_ObjectID view_state (ListByUserAndObjectIDs ft u ot [i]) i"
  by (intro map_rows_cong, cases "ids = []")
    (simp_all add: ListByUserAndObjectIDs_def, rule arg_cong[where f = "\<lambda>P. filter P (ft_Views ft)"], auto)

lemma assessed_before_order:
  "assessed_before a b \<Longrightarrow> \<not> assessed_before b a"
  "\<not> assessed_before b a \<Longrightarrow> \<not> assessed_before c b \<Longrightarrow> \<not> assessed_before c a"
  by (auto simp: assessed_before_def split: option.splits)

lemma filter_assessed: "filter P (sort_stable assessed_before xs) = sort_stable assessed_before (filter P xs)"
  by (rule filter_sort_stable) (erule assessed_before_order(1), erule (1) assessed_before_order(2))

lemma load_outcome_rows: "i \<in> set ids \<Longrightarrow>
    load_outcomes (ListByUserAndOutcomeIDs ft u ids) i = load_outcomes (ListByUserAndOutcomeIDs ft u [i]) i"
proof (rule load_outcomes_cong)
  assume i: "i \<in> set ids"
  have "filter (\<lambda>r. or_OutcomeID r = i) (sort_stable assessed_before (filter (\<lambda>r. or_UserID r = u \<and> or_OutcomeID r \<in> set js) (ft_Outcomes ft)))
      = sort_stable assessed_before (filter (\<lambda>r. or_UserID r = u \<and> or_OutcomeID r = i) (ft_Outcomes ft))" if "i \<in> set js" for js
    unfolding filter_assessed filter_filter
    by (rule arg_cong[where f = "\<lambda>P. sort_stable assessed_before (filter P (ft_Outcomes ft))"]) (use that in auto)
  from this[OF i] this[of "[i]"] i
  show "filter (\<lambda>r. or_OutcomeID r = i) (ListByUserAndOutcomeIDs ft u ids) =
      filter (\<lambda>r. or_OutcomeID r = i) (ListByUserAndOutcomeIDs ft u [i])"
    by (auto simp: ListByUserAndOutcomeIDs_def)
qed

lemma LoadSnapshot_fields:
  assumes "LoadSnapshot deps ft db now u tenant n ot = Inr s"
  shows "as_Submissions s = (if AssignmentIDs n = [] then Map.empty
      else map_rows sr_AssignmentID submission_state (ListByUserAndAssignmentIDs ft u (AssignmentIDs n)))"
    and "as_QuizAttempts s = (if QuizIDs n = [] then Map.empty
      else map_rows qr_QuizID quiz_state (ListByUserAndQuizIDs ft u (QuizIDs n)))"
    and "as_ViewedContent s = (if ContentIDs n = [] then Map.empty
      else map_rows vr_ObjectID view_state (ListByUserAndObjectIDs ft u (if ot = '''' then ''Page'' else ot) (ContentIDs n)))"
    and "as_OutcomeMastery s = (if OutcomeIDs n = [] then Map.empty
      else load_outcomes (ListByUserAndOutcomeIDs ft u (OutcomeIDs n)))"
    and "CurrencyCodes n \<noteq> [] \<Longrightarrow> as_CurrencyByCode s = map_rows cu_Code cu_ID (ListByTenant db tenant)"
    and "CurrencyCodes n \<noteq> [] \<Longrightarrow> as_WalletBalances s = map_rows fst snd (ListBalancesForUser db u)"
    and "as_EarnedBadges s = []"
proof -
  obtain s1 s2 s3 s4 s5 where
    1: "load_slice (AssignmentIDs n \<noteq> []) (sd_Submissions deps) NilSubmissions
           (\<lambda>s. s\<lparr>as_Submissions := map_rows sr_AssignmentID submission_state (ListByUserAndAssignmentIDs ft u (AssignmentIDs n))\<rparr>)
           (start_snapshot now u tenant) = Inr s1" and
    2: "load_slice (QuizIDs n \<noteq> []) (sd_QuizSubmissions deps) NilQuizSubmissions
           (\<lambda>s. s\<lparr>as_QuizAttempts := map_rows qr_QuizID quiz_state (ListByUserAndQuizIDs ft u (QuizIDs n))\<rparr>) s1 = Inr s2" and
    3: "load_slice (ContentIDs n \<noteq> []) (sd_ContentViews deps) NilContentViews
           (\<lambda>s. s\<lparr>as_ViewedContent := map_rows vr_ObjectID view_state
             (ListByUserAndObjectIDs ft u (if ot = '''' then ''Page'' else ot) (ContentIDs n))\<rparr>) s2 = Inr s3" and
    4: "load_slice (OutcomeIDs n \<noteq> []) (sd_OutcomeResults deps) NilOutcomeResults
           (\<lambda>s. s\<lparr>as_OutcomeMastery := load_outcomes (ListByUserAndOutcomeIDs ft u (OutcomeIDs n))\<rparr>) s3 = Inr s4" and
    5: "load_slice (CurrencyCodes n \<noteq> []) (sd_CurrencyType deps) NilCurrencyType id s4 = Inr s5" and
    6: "load_slice (CurrencyCodes n \<noteq> []) (sd_Wallet deps) NilWallet
           (\<lambda>s. s\<lparr>as_CurrencyByCode := map_rows cu_Code cu_ID (ListByTenant db tenant),
                  as_WalletBalances := map_rows fst snd (ListBalancesForUser db u)\<rparr>) s5 = Inr s"
    using assms unfolding LoadSnapshot_def Let_def bind_result_Inr by blast
  note steps = 1 2 3 4 5 6
  have s1: "as_Submissions s1 = (if AssignmentIDs n = [] then Map.empty
      else map_rows sr_AssignmentID submission_state (ListByUserAndAssignmentIDs ft u (AssignmentIDs n)))"
    "as_QuizAttempts s1 = Map.empty" "as_ViewedContent s1 = Map.empty" "as_OutcomeMastery s1 = Map.empty" "as_EarnedBadges s1 = []"
    using 1 by (auto simp: load_slice_def start_snapshot_def split: if_split_asm)
  have s2: "as_Submissions s2 = as_Submissions s1" "as_QuizAttempts s2 = (if QuizIDs n = [] then Map.empty
      else map_rows qr_QuizID quiz_state (ListByUserAndQuizIDs ft u (QuizIDs n)))"
    "as_ViewedContent s2 = Map.empty" "as_OutcomeMastery s2 = Map.empty" "as_EarnedBadges s2 = []"
    using 2 s1 by (auto simp: load_slice_def split: if_split_asm)
  have s3: "as_Submissions s3 = as_Submissions s2" "as_QuizAttempts s3 = as_QuizAttempts s2"
    "as_ViewedContent s3 = (if ContentIDs n = [] then Map.empty
      else map_rows vr_ObjectID view_state (ListByUserAndObjectIDs ft u (if ot = '''' then ''Page'' else ot) (ContentIDs n)))"
    "as_OutcomeMastery s3 = Map.empty" "as_EarnedBadges s3 = []"
    using 3 s2 by (auto simp: load_slice_def split: if_split_asm)
  have s4: "as_Submissions s4 = as_Submissions s3" "as_QuizAttempts s4 = as_QuizAttempts s3" "as_ViewedContent s4 = as_ViewedContent s3"
    "as_OutcomeMastery s4 = (if OutcomeIDs n = [] then Map.empty
      else load_outcomes (ListByUserAndOutcomeIDs ft u (OutcomeIDs n)))" "as_EarnedBadges s4 = []"
    using 4 s3 by (auto simp: load_slice_def split: if_split_asm)
  have s5: "s5 = s4" using 5 by (auto simp: load_slice_def split: if_split_asm)
  have s6: "as_Submissions s = as_Submissions s5" "as_QuizAttempts s = as_QuizAttempts s5" "as_ViewedContent s = as_ViewedContent s5"
    "as_OutcomeMastery s = as_OutcomeMastery s5" "as_EarnedBadges s = as_EarnedBadges s5"
    "CurrencyCodes n \<noteq> [] \<Longrightarrow> as_CurrencyByCode s = map_rows cu_Code cu_ID (ListByTenant db tenant)"
    "CurrencyCodes n \<noteq> [] \<Longrightarrow> as_WalletBalances s = map_rows fst snd (ListBalancesForUser db u)"
    using 6 by (auto simp: load_slice_def split: if_split_asm)
  show "as_Submissions s = (if AssignmentIDs n = [] then Map.empty
      else map_rows sr_AssignmentID submission_state (ListByUserAndAssignmentIDs ft u (AssignmentIDs n)))"
    unfolding s6(1) s5 s4(1) s3(1) s2(1) by (rule s1(1))
  show "as_QuizAttempts s = (if QuizIDs n = [] then Map.empty
      else map_rows qr_QuizID quiz_state (ListByUserAndQuizIDs ft u (QuizIDs n)))"
    unfolding s6(2) s5 s4(2) s3(2) by (rule s2(2))
  show "as_ViewedContent s = (if ContentIDs n = [] then Map.empty
      else map_rows vr_ObjectID view_state (ListByUserAndObjectIDs ft u (if ot = '''' then ''Page'' else ot) (ContentIDs n)))"
    unfolding s6(3) s5 s4(3) by (rule s3(3))
  show "as_OutcomeMastery s = (if OutcomeIDs n = [] then Map.empty
      else load_outcomes (ListByUserAndOutcomeIDs ft u (OutcomeIDs n)))"
    unfolding s6(4) s5 by (rule s4(4))
  show "as_EarnedBadges s = []" unfolding s6(5) s5 by (rule s4(5))
qed (use assms in \<open>auto simp: LoadSnapshot_def Let_def load_slice_def split: if_split_asm\<close>)

lemma LoadSnapshot_agrees:
  assumes "LoadSnapshot deps ft db now u tenant n ot = Inr s" "BadgeIDs n = []"
  shows "agree n s (full_snapshot ft db now' u tenant (if ot = '''' then ''Page'' else ot) badges)"
proof -
  note f = LoadSnapshot_fields[OF assms(1)]
  have "as_Submissions s i = map_rows sr_AssignmentID submission_state (ListByUserAndAssignmentIDs ft u [i]) i"
    if "i \<in> set (AssignmentIDs n)" for i
    using f(1) load_submissions[OF that, of ft u] that by auto
  moreover have "as_QuizAttempts s i = map_rows qr_QuizID quiz_state (ListByUserAndQuizIDs ft u [i]) i"
    if "i \<in> set (QuizIDs n)" for i
    using f(2) load_quizzes[OF that, of ft u] that by auto
  moreover have "as_ViewedContent s i = map_rows vr_ObjectID view_state
      (ListByUserAndObjectIDs ft u (if ot = '''' then ''Page'' else ot) [i]) i" if "i \<in> set (ContentIDs n)" for i
    using f(3) load_views[OF that, of ft u "if ot = '''' then ''Page'' else ot"] that by auto
  moreover have "as_OutcomeMastery s i = load_outcomes (ListByUserAndOutcomeIDs ft u [i]) i" if "i \<in> set (OutcomeIDs n)" for i
    using f(4) load_outcome_rows[OF that, of ft u] that by auto
  moreover have "as_CurrencyByCode s = map_rows cu_Code cu_ID (ListByTenant db tenant)"
    if "c \<in> set (CurrencyCodes n)" for c
    by (rule f(5)) (use that in auto)
  moreover have "as_WalletBalances s = map_rows fst snd (ListBalancesForUser db u)"
    if "c \<in> set (CurrencyCodes n)" for c
    by (rule f(6)) (use that in auto)
  ultimately show ?thesis unfolding agree_def full_snapshot_def by (simp add: assms(2))
qed


definition sample_tables :: fact_tables where
  "sample_tables = \<lparr>
     ft_Submissions = [\<lparr>sr_UserID = 5, sr_AssignmentID = 42, sr_SubmittedAt = Some 7, sr_Score = Some 8,
       sr_WorkflowState = ''graded'', sr_Late = False, sr_Attempt = 1\<rparr>],
     ft_Quizzes = [], ft_Views = [],
     ft_Outcomes = [\<lparr>or_UserID = 5, or_OutcomeID = 3, or_Score = Some 9, or_Possible = Some 10, or_Percent = None,
       or_Attempt = 1, or_AssessedAt = Some 9, or_SubmittedAt = None\<rparr>]\<rparr>"

definition all_deps :: snapshot_deps where
  "all_deps = \<lparr>sd_Submissions = True, sd_QuizSubmissions = True, sd_OutcomeResults = True, sd_ContentViews = True,
     sd_Wallet = True, sd_CurrencyType = True\<rparr>"

lemma load_slice_present [simp]: "load_slice w True e f s = Inr (if w then f s else s)"
  by (simp add: load_slice_def)

lemma LoadSnapshot_all_deps: "\<exists>s. LoadSnapshot all_deps ft db now u tenant n ot = Inr s"
  unfolding LoadSnapshot_def Let_def all_deps_def
  by (simp only: snapshot_deps.simps load_slice_present bind_result.simps) blast


text \<open>
  The loader never fills the earned badges, so an \<open>EarnedBadge\<close> predicate is false on every
  loaded snapshot, also for a learner who holds the badge and whatever needs were loaded.
\<close>

theorem earned_badge_never_holds:
  assumes "LoadSnapshot deps ft db now u tenant n ot = Inr s"
  shows "\<not> fst (evaluate (EarnedBadge b) s) \<and> \<not> fst (evaluate (ConditionSet OpAND 0 [EarnedBadge b, p]) s)"
  using LoadSnapshot_fields(7)[OF assms] by (simp add: eval_EarnedBadge_def)

theorem earned_badge_never_holds_witness:
  "\<exists>s. LoadSnapshot all_deps sample_tables (empty_wallet sample_currencies) 100 5 1 (Needs (EarnedBadge 1)) '''' = Inr s \<and>
     \<not> fst (evaluate (EarnedBadge 1) s) \<and> \<not> fst (evaluate (ConditionSet OpAND 0 [EarnedBadge 1, ReputationThreshold 0]) s)"
proof -
  obtain s where s: "LoadSnapshot all_deps sample_tables (empty_wallet sample_currencies) 100 5 1 (Needs (EarnedBadge 1)) '''' = Inr s"
    using LoadSnapshot_all_deps by blast
  from earned_badge_never_holds[OF s] s show ?thesis by blast
qed

end
