(* ===== verification/Ferpa.thy ===== *)
theory Ferpa imports Go_Json Go_Strings Go_Time begin

text \<open>
  The FERPA guard of event ingestion (\<open>internal/service/gamification/ferpa_guard.go\<close>): deriving
  the policy flags of an event from the field tags of its object type, and the check that rejects
  events whose tagged fields are present without those flags. The JSON scanner is the parameter
  \<open>parse\<close>.
\<close>

record gam_event =
  ev_ID :: nat
  ev_OccurredAt :: instant
  ev_EmittedAt :: instant
  ev_TenantID :: nat
  ev_ActorID :: nat
  ev_Verb :: string
  ev_ObjectType :: string
  ev_ObjectID :: "nat option"
  ev_Result :: string
  ev_Context :: string
  ev_Source :: string
  ev_PolicyFlags :: "string list"

record ferpa_tag =
  tg_ObjectType :: string
  tg_FieldPath :: string
  tg_Classification :: string

record ferpa_violation =
  fv_ObjectType :: string
  fv_FieldPath :: string
  fv_Classification :: string
  fv_Missing :: "string list"

definition requiredEducationRecordFlags :: "string list" where
  "requiredEducationRecordFlags = [''ferpa_protected'', ''education_record'']"

text \<open>\<open>ListByObjectType\<close>, ordered by field path.\<close>

definition ListByObjectType :: "ferpa_tag list \<Rightarrow> string \<Rightarrow> ferpa_tag list" where
  "ListByObjectType tags ot =
     sort_stable (\<lambda>a b. ord_class.lexordp (map of_char (tg_FieldPath a) :: int list) (map of_char (tg_FieldPath b)))
       (filter (\<lambda>t. tg_ObjectType t = ot) tags)"

text \<open>Decoding a value into \<open>any\<close> fails only on a number that no float64 holds.\<close>

fun any_ok :: "json \<Rightarrow> bool" where
  "any_ok (JNum t) = (parse_float t \<noteq> None)"
| "any_ok (JArr xs) = list_all any_ok xs"
| "any_ok (JObj kvs) = list_all (\<lambda>(k, v). any_ok v) kvs"
| "any_ok j = True"

text \<open>\<open>decodeJSONBucket\<close>: the keys of the top-level object.\<close>

definition decodeJSONBucket :: "(string \<Rightarrow> json option) \<Rightarrow> string \<Rightarrow> string list option" where
  "decodeJSONBucket parse raw =
     (if raw = [] then Some []
      else case parse raw of
          Some (JObj kvs) \<Rightarrow> if list_all (\<lambda>kv. any_ok (snd kv)) kvs then Some (map fst kvs) else None
        | Some JNull \<Rightarrow> Some []
        | _ \<Rightarrow> None)"

fun index_of :: "char \<Rightarrow> string \<Rightarrow> nat option" where
  "index_of c [] = None"
| "index_of c (x # xs) = (if x = c then Some 0 else map_option Suc (index_of c xs))"

definition splitFieldPath :: "string \<Rightarrow> (string \<times> string) option" where
  "splitFieldPath path =
     (case index_of CHR ''.'' path of
        None \<Rightarrow> None
      | Some idx \<Rightarrow>
          if idx = 0 \<or> idx = length path - 1 then None
          else let bucket = take idx path; key = drop (idx + 1) path
               in if CHR ''.'' \<in> set key then None else Some (bucket, key))"

definition tag_present :: "string list \<Rightarrow> string list \<Rightarrow> ferpa_tag \<Rightarrow> bool" where
  "tag_present resultKeys contextKeys tag =
     (tg_Classification tag = ''education_record'' \<and>
      (case splitFieldPath (tg_FieldPath tag) of
         None \<Rightarrow> False
       | Some (bucket, key) \<Rightarrow>
           if bucket = ''result'' then key \<in> set resultKeys
           else if bucket = ''context'' then key \<in> set contextKeys else False))"

text \<open>The loop that appends the flags not yet there.\<close>

fun append_flags :: "string list \<Rightarrow> string list \<Rightarrow> string list" where
  "append_flags flags [] = flags"
| "append_flags flags (r # rs) = append_flags (if r \<in> set flags then flags else flags @ [r]) rs"

datatype ferpa_error = BadResultJSON | BadContextJSON

definition DerivePolicyFlags ::
    "(string \<Rightarrow> json option) \<Rightarrow> ferpa_tag list \<Rightarrow> gam_event \<Rightarrow> ferpa_error + gam_event" where
  "DerivePolicyFlags parse all_tags event =
     (let tags = ListByObjectType all_tags (ev_ObjectType event)
      in if tags = [] then Inr event
         else case decodeJSONBucket parse (ev_Result event) of None \<Rightarrow> Inl BadResultJSON
         | Some resultKeys \<Rightarrow>
           (case decodeJSONBucket parse (ev_Context event) of None \<Rightarrow> Inl BadContextJSON
            | Some contextKeys \<Rightarrow>
                if \<not> list_ex (tag_present resultKeys contextKeys) tags then Inr event
                else Inr (event\<lparr>ev_PolicyFlags := append_flags (ev_PolicyFlags event) requiredEducationRecordFlags\<rparr>)))"

definition missing_flags :: "gam_event \<Rightarrow> string list" where
  "missing_flags event = filter (\<lambda>r. r \<notin> set (ev_PolicyFlags event)) requiredEducationRecordFlags"

fun collect_violations :: "string list \<Rightarrow> string list \<Rightarrow> gam_event \<Rightarrow> ferpa_tag list \<Rightarrow> ferpa_violation list" where
  "collect_violations rk ck event [] = []"
| "collect_violations rk ck event (tag # tags) =
     (if \<not> tag_present rk ck tag then collect_violations rk ck event tags
      else if missing_flags event = [] then collect_violations rk ck event tags
      else \<lparr>fv_ObjectType = tg_ObjectType tag, fv_FieldPath = tg_FieldPath tag,
            fv_Classification = tg_Classification tag, fv_Missing = missing_flags event\<rparr> # collect_violations rk ck event tags)"

definition CheckFerpa ::
    "(string \<Rightarrow> json option) \<Rightarrow> ferpa_tag list \<Rightarrow> gam_event \<Rightarrow> ferpa_error + ferpa_violation list" where
  "CheckFerpa parse all_tags event =
     (let tags = ListByObjectType all_tags (ev_ObjectType event)
      in if tags = [] then Inr []
         else case decodeJSONBucket parse (ev_Result event) of None \<Rightarrow> Inl BadResultJSON
         | Some resultKeys \<Rightarrow>
           (case decodeJSONBucket parse (ev_Context event) of None \<Rightarrow> Inl BadContextJSON
            | Some contextKeys \<Rightarrow> Inr (collect_violations resultKeys contextKeys event tags)))"

section \<open>Derivation satisfies the guard\<close>

lemma set_append_flags [simp]: "set (append_flags flags rs) = set flags \<union> set rs"
  by (induction rs arbitrary: flags) auto

lemma distinct_append_flags: "distinct flags \<Longrightarrow> distinct (append_flags flags rs)"
  by (induction rs arbitrary: flags) auto

lemma collect_violations_none:
  "missing_flags event = [] \<or> \<not> list_ex (tag_present rk ck) tags \<Longrightarrow> collect_violations rk ck event tags = []"
  by (induction tags) auto

lemma missing_after_append: "missing_flags (event\<lparr>ev_PolicyFlags := append_flags fs requiredEducationRecordFlags\<rparr>) = []"
  by (simp add: missing_flags_def filter_empty_conv)

lemma derive_then_check: "DerivePolicyFlags parse tags event = Inr event' \<Longrightarrow> CheckFerpa parse tags event' = Inr []"
  by (auto simp: DerivePolicyFlags_def CheckFerpa_def Let_def collect_violations_none missing_after_append
      split: option.splits if_splits)

text \<open>
  C28. An event whose flags were derived always passes the guard: for every table of tags and
  every event, if derivation succeeds then the check finds no violation, and derivation only ever adds
  the two required flags.
\<close>

theorem derived_events_pass:
  assumes "DerivePolicyFlags parse tags event = Inr event'"
  shows "CheckFerpa parse tags event' = Inr [] \<and> set (ev_PolicyFlags event) \<subseteq> set (ev_PolicyFlags event') \<and>
    set (ev_PolicyFlags event') \<subseteq> set (ev_PolicyFlags event) \<union> set requiredEducationRecordFlags \<and>
    event'\<lparr>ev_PolicyFlags := ev_PolicyFlags event\<rparr> = event"
  using derive_then_check[OF assms] assms
  by (auto simp: DerivePolicyFlags_def Let_def split: option.splits if_splits)

definition sample_event :: gam_event where
  "sample_event = \<lparr>ev_ID = 0, ev_OccurredAt = 5, ev_EmittedAt = 5, ev_TenantID = 1, ev_ActorID = 5, ev_Verb = ''graded'',
     ev_ObjectType = ''Submission'', ev_ObjectID = Some 2, ev_Result = ''R'', ev_Context = '''', ev_Source = ''internal'',
     ev_PolicyFlags = []\<rparr>"

definition sample_tags :: "ferpa_tag list" where
  "sample_tags = [\<lparr>tg_ObjectType = ''Submission'', tg_FieldPath = ''result.score'', tg_Classification = ''education_record''\<rparr>]"

theorem derived_events_pass_witness:
  "CheckFerpa (\<lambda>_. Some (JObj [(''score'', JNum ''1'')])) sample_tags sample_event \<noteq> Inr [] \<and>
   CheckFerpa (\<lambda>_. Some (JObj [(''score'', JNum ''1'')])) sample_tags
     (sample_event\<lparr>ev_PolicyFlags := [''ferpa_protected'', ''education_record'']\<rparr>) = Inr []"
proof
  show "CheckFerpa (\<lambda>_. Some (JObj [(''score'', JNum ''1'')])) sample_tags sample_event \<noteq> Inr []" by code_simp
  have "DerivePolicyFlags (\<lambda>_. Some (JObj [(''score'', JNum ''1'')])) sample_tags sample_event =
      Inr (sample_event\<lparr>ev_PolicyFlags := [''ferpa_protected'', ''education_record'']\<rparr>)" by code_simp
  from derived_events_pass[OF this] show "CheckFerpa (\<lambda>_. Some (JObj [(''score'', JNum ''1'')])) sample_tags
     (sample_event\<lparr>ev_PolicyFlags := [''ferpa_protected'', ''education_record'']\<rparr>) = Inr []" by simp
qed

end
