(* ===== verification/Dispatch.thy ===== *)
theory Dispatch imports Rule_Service Snapshot Ferpa begin

text \<open>
  Event ingestion: the rule index (\<open>rule_index.go\<close>), the cooldown gates (\<open>cooldown.go\<close>), the
  effects (\<open>effects/award_currency.go\<close>, \<open>award_badge.go\<close>, \<open>scope_walk.go\<close>), the dispatcher
  (\<open>dispatcher.go\<close>) and the emitter (\<open>emitter.go\<close>) over one database state. \<open>AwardBadge\<close> emits a
  further event, so emission is recursive; \<open>Emit\<close> takes fuel, one unit per nested event, and returns
  \<open>None\<close> when it runs out; the termination theorem bounds the fuel that is enough.
  The clock is a sequence of readings, consumed in program order.
\<close>

section \<open>The rule index\<close>

datatype skip_reason =
  TriggerEventEmpty | TriggerEventMalformed | MissingVerb | MissingObjectType | MissingCron | MissingHandle
| MissingTriggerKind | UnknownTriggerKind string

record rule_index =
  ix_onEvent :: "string \<times> string \<Rightarrow> rule list"
  ix_onSched :: "rule list"
  ix_onManual :: "string \<Rightarrow> rule list"
  ix_skipped :: "(nat \<times> skip_reason) list"

definition empty_index :: rule_index where
  "empty_index = \<lparr>ix_onEvent = (\<lambda>_. []), ix_onSched = [], ix_onManual = (\<lambda>_. []), ix_skipped = []\<rparr>"

definition decode_envelope :: "json \<Rightarrow> (string \<times> string \<times> string \<times> string \<times> string) option" where
  "decode_envelope = decode_struct
     [(''kind'', into_string (\<lambda>x (a, b, c, d, e). (x, b, c, d, e))),
      (''verb'', into_string (\<lambda>x (a, b, c, d, e). (a, x, c, d, e))),
      (''object_type'', into_string (\<lambda>x (a, b, c, d, e). (a, b, x, d, e))),
      (''cron'', into_string (\<lambda>x (a, b, c, d, e). (a, b, c, x, e))),
      (''handle'', into_string (\<lambda>x (a, b, c, d, e). (a, b, c, d, x)))] ('''', '''', '''', '''', '''')"

definition skip_rule :: "rule_index \<Rightarrow> rule \<Rightarrow> skip_reason \<Rightarrow> rule_index" where
  "skip_rule idx r why = idx\<lparr>ix_skipped := ix_skipped idx @ [(r_ID r, why)]\<rparr>"

definition index_rule :: "(string \<Rightarrow> json option) \<Rightarrow> rule_index \<Rightarrow> rule \<Rightarrow> rule_index" where
  "index_rule parse idx r =
     (if \<not> r_Enabled r then idx
      else if r_TriggerEvent r = [] then skip_rule idx r TriggerEventEmpty
      else case Option.bind (parse (r_TriggerEvent r)) decode_envelope of
          None \<Rightarrow> skip_rule idx r TriggerEventMalformed
        | Some (kind, verb, obj, cron, handle) \<Rightarrow>
            if kind = ''OnEvent'' then
              (if verb = '''' then skip_rule idx r MissingVerb
               else if obj = '''' then skip_rule idx r MissingObjectType
               else idx\<lparr>ix_onEvent := (ix_onEvent idx)((verb, obj) := ix_onEvent idx (verb, obj) @ [r])\<rparr>)
            else if kind = ''OnSchedule'' then
              (if cron = '''' then skip_rule idx r MissingCron else idx\<lparr>ix_onSched := ix_onSched idx @ [r]\<rparr>)
            else if kind = ''OnManualTrigger'' then
              (if handle = '''' then skip_rule idx r MissingHandle
               else idx\<lparr>ix_onManual := (ix_onManual idx)(handle := ix_onManual idx handle @ [r])\<rparr>)
            else if kind = '''' then skip_rule idx r MissingTriggerKind
            else skip_rule idx r (UnknownTriggerKind kind))"

definition BuildRuleIndex :: "(string \<Rightarrow> json option) \<Rightarrow> rule list \<Rightarrow> rule_index" where
  "BuildRuleIndex parse rules = foldl (index_rule parse) empty_index rules"

definition LookupOnEvent :: "rule_index \<Rightarrow> string \<Rightarrow> string \<Rightarrow> rule list" where
  "LookupOnEvent idx verb obj = ix_onEvent idx (verb, obj)"

definition ListOnSchedule :: "rule_index \<Rightarrow> rule list" where
  "ListOnSchedule idx = ix_onSched idx"

definition LookupOnManual :: "rule_index \<Rightarrow> string \<Rightarrow> rule list" where
  "LookupOnManual idx handle = ix_onManual idx handle"

section \<open>The database state\<close>

record badge =
  bd_ID :: nat
  bd_TenantID :: nat
  bd_ScopeType :: string
  bd_ScopeID :: nat
  bd_Code :: string

record badge_award =
  ba_ID :: nat
  ba_UserID :: nat
  ba_BadgeID :: nat
  ba_AwardedAt :: instant
  ba_AwardedBy :: "nat option"
  ba_EvidenceEventID :: "nat option"

datatype effect_result =
  CurrencyAwarded string nat int int "rat option"
| CurrencyAlreadyAwarded string nat int int
| BadgeAwarded string nat bool nat "bool option"
| EffectSkipped
| EffectFailed

record rule_eval =
  re_RuleID :: nat
  re_UserID :: nat
  re_EvaluatedAt :: instant
  re_PredicateState :: trace
  re_Result :: bool
  re_EffectsFired :: "effect_result list"
  re_EventID :: nat

record gam_db =
  gd_facts :: fact_tables
  gd_wallet :: wallet_db
  gd_badges :: "badge list"
  gd_awards :: "badge_award list"
  gd_award_seq :: nat
  gd_rules :: rule_table
  gd_evals :: "rule_eval list"
  gd_events :: "gam_event list"
  gd_event_seq :: nat
  gd_tags :: "ferpa_tag list"
  gd_tick :: nat

record env =
  env_parse :: "string \<Rightarrow> json option"
  env_marshal :: "json \<Rightarrow> string"
  env_now :: "nat \<Rightarrow> instant"

definition clock :: "env \<Rightarrow> gam_db \<Rightarrow> instant" where
  "clock env db = env_now env (gd_tick db)"

definition ticked :: "gam_db \<Rightarrow> gam_db" where
  "ticked db = db\<lparr>gd_tick := Suc (gd_tick db)\<rparr>"

section \<open>The cooldown gates\<close>

definition LastFiringForUserRule :: "gam_db \<Rightarrow> nat \<Rightarrow> nat \<Rightarrow> rule_eval option" where
  "LastFiringForUserRule db user ruleID =
     (case sort_stable_by re_EvaluatedAt (filter (\<lambda>e. re_UserID e = user \<and> re_RuleID e = ruleID \<and> re_Result e) (gd_evals db)) of
        [] \<Rightarrow> None | es \<Rightarrow> Some (last es))"

definition CountFiringsInWindow :: "gam_db \<Rightarrow> nat \<Rightarrow> nat \<Rightarrow> instant \<Rightarrow> int" where
  "CountFiringsInWindow db user ruleID since =
     int (length (filter (\<lambda>e. re_UserID e = user \<and> re_RuleID e = ruleID \<and> re_Result e \<and> re_EvaluatedAt e > since) (gd_evals db)))"

datatype gate_result = GateOpen | GateCooldown int | GateMaxPerWindow int string

datatype cooldown_error = WindowInvalidJSON | UnknownWindow string

definition CheckCooldown ::
    "(string \<Rightarrow> json option) \<Rightarrow> gam_db \<Rightarrow> rule \<Rightarrow> nat \<Rightarrow> instant \<Rightarrow> cooldown_error + gate_result" where
  "CheckCooldown parse db r user now =
     (let gate1 =
        (case r_CooldownSeconds r of
           None \<Rightarrow> None
         | Some secs \<Rightarrow>
             if secs \<le> 0 then None
             else case LastFiringForUserRule db user (r_ID r) of
                 None \<Rightarrow> None
               | Some prev \<Rightarrow>
                   let cooldown = dur_mul secs second;
                       elapsed = time_sub now (re_EvaluatedAt prev)
                   in if elapsed < cooldown then
                        Some (let remaining = go_quot (wrap64 (cooldown - elapsed)) second
                              in GateCooldown (if remaining < 1 then 1 else remaining))
                      else None)
      in case gate1 of Some g \<Rightarrow> Inr g
      | None \<Rightarrow>
          if r_MaxPerWindow r = [] then Inr GateOpen
          else case Option.bind (parse (r_MaxPerWindow r)) decode_window of
              None \<Rightarrow> Inl WindowInvalidJSON
            | Some (window, cnt) \<Rightarrow>
                (case (if window = ''day'' then Some (now - 24 * hour)
                       else if window = ''week'' then Some (now - 7 * 24 * hour)
                       else if window = ''lifetime'' then Some zero_time else None) of
                   None \<Rightarrow> Inl (UnknownWindow window)
                 | Some since \<Rightarrow>
                     if CountFiringsInWindow db user (r_ID r) since \<ge> cnt
                     then Inr (GateMaxPerWindow cnt window) else Inr GateOpen))"

section \<open>Effects\<close>

record effect_deps =
  ed_Wallet :: bool
  ed_CurrencyType :: bool
  ed_Badge :: bool
  ed_BadgeAward :: bool
  ed_BadgeEmit :: bool

record trig =
  tc_ActorID :: nat
  tc_TenantID :: nat
  tc_ScopeType :: string
  tc_ScopeID :: nat
  tc_EventID :: nat
  tc_RuleID :: nat

datatype apply_error =
  AmountNotPositive int | NilWalletDeps | CurrencyUndefined string | DeltaRoundedTo int | WalletFailed wallet_error
| BadgeCodeEmpty | NilBadgeDeps | BadgeUndefined string | PriorEffectFailed

definition currency_FindByCode :: "currency list \<Rightarrow> nat \<Rightarrow> string \<Rightarrow> nat \<Rightarrow> string \<Rightarrow> currency option" where
  "currency_FindByCode cs tenant st sid code =
     find (\<lambda>c. cu_TenantID c = tenant \<and> cu_ScopeType c = st \<and> cu_ScopeID c = sid \<and> cu_Code c = code) cs"

definition badge_FindByCode :: "badge list \<Rightarrow> nat \<Rightarrow> string \<Rightarrow> nat \<Rightarrow> string \<Rightarrow> badge option" where
  "badge_FindByCode bs tenant st sid code =
     find (\<lambda>b. bd_TenantID b = tenant \<and> bd_ScopeType b = st \<and> bd_ScopeID b = sid \<and> bd_Code b = code) bs"

definition ResolveCurrencyByCode :: "currency list \<Rightarrow> nat \<Rightarrow> string \<Rightarrow> nat \<Rightarrow> string \<Rightarrow> currency option" where
  "ResolveCurrencyByCode cs tenant st sid code =
     (case currency_FindByCode cs tenant st sid code of
        Some c \<Rightarrow> Some c
      | None \<Rightarrow> if st \<noteq> ''site'' then currency_FindByCode cs tenant ''site'' tenant code else None)"

definition ResolveBadgeByCode :: "badge list \<Rightarrow> nat \<Rightarrow> string \<Rightarrow> nat \<Rightarrow> string \<Rightarrow> badge option" where
  "ResolveBadgeByCode bs tenant st sid code =
     (case badge_FindByCode bs tenant st sid code of
        Some b \<Rightarrow> Some b
      | None \<Rightarrow> if st \<noteq> ''site'' then badge_FindByCode bs tenant ''site'' tenant code else None)"

definition policyFlagsFor :: "currency \<Rightarrow> string list" where
  "policyFlagsFor c =
     (if cu_FerpaClassification c = ''education_record'' then [''ferpa_protected'', ''education_record'']
      else if cu_FerpaClassification c = ''directory_information'' then [''directory_information'']
      else if cu_FerpaClassification c = ''instructor_metadata'' then [''instructor_metadata'']
      else [])"

text \<open>\<open>int64(f)\<close>: a float out of range converts to the least integer, as on amd64.\<close>

definition float_to_int64 :: "rat \<Rightarrow> int" where
  "float_to_int64 x = (let n = int_of_float x in if int64_min \<le> n \<and> n \<le> int64_max then n else int64_min)"

definition award_delta :: "int \<Rightarrow> rat option \<Rightarrow> int" where
  "award_delta amount multiplier =
     (let mult = (case multiplier of Some m \<Rightarrow> if m > 0 then m else 1 | None \<Rightarrow> 1)
      in float_to_int64 (math_Round (fmul (float_of_int amount) mult)))"

definition apply_AwardCurrency ::
    "env \<Rightarrow> effect_deps \<Rightarrow> gam_db \<Rightarrow> trig \<Rightarrow> string \<Rightarrow> int \<Rightarrow> rat option \<Rightarrow> (apply_error + effect_result) \<times> gam_db" where
  "apply_AwardCurrency env deps db t code amount multiplier =
     (if amount \<le> 0 then (Inl (AmountNotPositive amount), db)
      else if \<not> ed_CurrencyType deps \<or> \<not> ed_Wallet deps then (Inl NilWalletDeps, db)
      else case ResolveCurrencyByCode (wd_currencies (gd_wallet db)) (tc_TenantID t) (tc_ScopeType t) (tc_ScopeID t) code of
          None \<Rightarrow> (Inl (CurrencyUndefined code), db)
        | Some c \<Rightarrow>
            let final = award_delta amount multiplier
            in if final \<le> 0 then (Inl (DeltaRoundedTo final), db)
               else
                 let tx = \<lparr>wt_ID = 0, wt_UserID = tc_ActorID t, wt_CurrencyTypeID = cu_ID c, wt_Delta = final,
                       wt_Reason = ByRule (tc_RuleID t), wt_EventID = Some (tc_EventID t), wt_RuleID = Some (tc_RuleID t),
                       wt_PolicyFlags = policyFlagsFor c, wt_OccurredAt = zero_time\<rparr>
                 in (case ApplyTransaction (clock env db) (gd_wallet db) tx of
                       Inr w \<Rightarrow> (Inr (CurrencyAwarded code (cu_ID c) amount final multiplier), (ticked db)\<lparr>gd_wallet := w\<rparr>)
                     | Inl DuplicateWalletTransaction \<Rightarrow> (Inr (CurrencyAlreadyAwarded code (cu_ID c) amount final), ticked db)
                     | Inl e \<Rightarrow> (Inl (WalletFailed e), ticked db)))"

text \<open>\<open>Award\<close>: insert unless the (user, badge) pair is there; the id is 0 when it is.\<close>

definition award_badge_row :: "instant \<Rightarrow> gam_db \<Rightarrow> nat \<Rightarrow> nat \<Rightarrow> nat option \<Rightarrow> bool \<times> nat \<times> gam_db" where
  "award_badge_row now db user bid ev =
     (if list_ex (\<lambda>a. ba_UserID a = user \<and> ba_BadgeID a = bid) (gd_awards db) then (False, 0, db)
      else (True, gd_award_seq db, db\<lparr>gd_awards := gd_awards db @
             [\<lparr>ba_ID = gd_award_seq db, ba_UserID = user, ba_BadgeID = bid, ba_AwardedAt = now, ba_AwardedBy = None,
               ba_EvidenceEventID = ev\<rparr>], gd_award_seq := gd_award_seq db + 1\<rparr>))"

text \<open>
  The chained emitter: given the state, tenant, actor, badge, scope and evidence event, whether the
  emission succeeded, and the state after it; \<open>None\<close> when the fuel ran out.
\<close>

type_synonym chain = "gam_db \<Rightarrow> nat \<Rightarrow> nat \<Rightarrow> nat \<Rightarrow> string \<Rightarrow> nat \<Rightarrow> nat \<Rightarrow> (bool \<times> gam_db) option"

definition apply_AwardBadge ::
    "chain \<Rightarrow> env \<Rightarrow> effect_deps \<Rightarrow> gam_db \<Rightarrow> trig \<Rightarrow> string \<Rightarrow> ((apply_error + effect_result) \<times> gam_db) option" where
  "apply_AwardBadge chain env deps db t code =
     (if code = '''' then Some (Inl BadgeCodeEmpty, db)
      else if \<not> ed_Badge deps \<or> \<not> ed_BadgeAward deps then Some (Inl NilBadgeDeps, db)
      else case ResolveBadgeByCode (gd_badges db) (tc_TenantID t) (tc_ScopeType t) (tc_ScopeID t) code of
          None \<Rightarrow> Some (Inl (BadgeUndefined code), db)
        | Some b \<Rightarrow>
            let (created, aid, db) = award_badge_row (clock env db) (ticked db) (tc_ActorID t) (bd_ID b) (Some (tc_EventID t))
            in if created \<and> ed_BadgeEmit deps then
                 (case chain db (tc_TenantID t) (tc_ActorID t) (bd_ID b) (tc_ScopeType t) (tc_ScopeID t) (tc_EventID t) of
                    None \<Rightarrow> None
                  | Some (ok, db) \<Rightarrow> Some (Inr (BadgeAwarded code (bd_ID b) created aid (Some ok)), db))
               else Some (Inr (BadgeAwarded code (bd_ID b) created aid None), db))"

fun apply_effect ::
    "chain \<Rightarrow> env \<Rightarrow> effect_deps \<Rightarrow> gam_db \<Rightarrow> trig \<Rightarrow> effect_spec \<Rightarrow> ((apply_error + effect_result) \<times> gam_db) option" where
  "apply_effect chain env deps db t (AwardCurrency c n m) = Some (apply_AwardCurrency env deps db t c n m)"
| "apply_effect chain env deps db t (AwardBadge c e) = apply_AwardBadge chain env deps db t c"

section \<open>Dispatching one event\<close>

datatype blocked_by = NotBlocked | ByCooldown | ByMaxPerWindow

datatype outcome_reason =
  OrNone | OrDecodeCondition decode_error | OrDecodeEffects effect_error | OrGate gate_result | OrPredicate reason | OrEffectsFailed

record evaluation_outcome =
  eo_RuleID :: nat
  eo_Fired :: bool
  eo_BlockedBy :: blocked_by
  eo_Reason :: outcome_reason
  eo_Trace :: "trace option"
  eo_Effects :: "effect_result list"
  eo_EffectErrors :: "apply_error option list"

record dispatch_result =
  dr_Considered :: nat
  dr_Fired :: nat
  dr_Blocked :: nat
  dr_False :: nat
  dr_Skipped :: nat
  dr_Outcomes :: "evaluation_outcome list"

datatype dispatch_error =
  CooldownFailed cooldown_error | SnapshotFailed snapshot_error | RecordFailed

datatype verdict_flag = FlagFired | FlagBlocked | FlagFalse | FlagSkipped | FlagNone

record deps =
  dp_Snapshot :: snapshot_deps
  dp_Effects :: effect_deps

text \<open>
  \<open>runEffects\<close>: after the first failure the rest are skipped. The lists of results and errors
  are parallel; \<open>None\<close> is the empty error of a success.
\<close>

fun run_effects ::
    "chain \<Rightarrow> env \<Rightarrow> effect_deps \<Rightarrow> gam_db \<Rightarrow> trig \<Rightarrow> effect_spec list
      \<Rightarrow> (effect_result list \<times> apply_error option list \<times> bool \<times> gam_db) option" where
  "run_effects chain env deps db t [] = Some ([], [], True, db)"
| "run_effects chain env deps db t (e # es) =
     (case apply_effect chain env deps db t e of
        None \<Rightarrow> None
      | Some (Inl err, db') \<Rightarrow>
          Some (EffectFailed # map (\<lambda>_. EffectSkipped) es, Some err # map (\<lambda>_. Some PriorEffectFailed) es, False, db')
      | Some (Inr r, db') \<Rightarrow>
          (case run_effects chain env deps db' t es of
             None \<Rightarrow> None
           | Some (rs, errs, ok, db'') \<Rightarrow> Some (r # rs, None # errs, ok, db'')))"

text \<open>\<open>recordEvaluation\<close>: the table is unique on (rule, user, time).\<close>

definition record_evaluation ::
    "env \<Rightarrow> gam_db \<Rightarrow> rule \<Rightarrow> gam_event \<Rightarrow> bool \<Rightarrow> trace \<Rightarrow> effect_result list \<Rightarrow> bool \<times> gam_db" where
  "record_evaluation env db r event res tr effs =
     (let stamp = clock env db;
          db = ticked db
      in if list_ex (\<lambda>e. re_RuleID e = r_ID r \<and> re_UserID e = ev_ActorID event \<and> re_EvaluatedAt e = stamp) (gd_evals db)
         then (False, db)
         else (True, db\<lparr>gd_evals := gd_evals db @
           [\<lparr>re_RuleID = r_ID r, re_UserID = ev_ActorID event, re_EvaluatedAt = stamp, re_PredicateState = tr, re_Result = res,
             re_EffectsFired = effs, re_EventID = ev_ID event\<rparr>]\<rparr>))"

definition base_outcome :: "rule \<Rightarrow> evaluation_outcome" where
  "base_outcome r = \<lparr>eo_RuleID = r_ID r, eo_Fired = False, eo_BlockedBy = NotBlocked, eo_Reason = OrNone, eo_Trace = None,
     eo_Effects = [], eo_EffectErrors = []\<rparr>"

definition trig_of :: "rule \<Rightarrow> gam_event \<Rightarrow> trig" where
  "trig_of r event = \<lparr>tc_ActorID = ev_ActorID event, tc_TenantID = ev_TenantID event, tc_ScopeType = r_ScopeType r,
     tc_ScopeID = r_ScopeID r, tc_EventID = ev_ID event, tc_RuleID = r_ID r\<rparr>"

text \<open>The last part of \<open>dispatchOne\<close>: the rule is decoded and the gates are open.\<close>

definition evaluate_and_fire ::
    "chain \<Rightarrow> env \<Rightarrow> deps \<Rightarrow> gam_db \<Rightarrow> rule \<Rightarrow> gam_event \<Rightarrow> predicate \<Rightarrow> effect_spec list
      \<Rightarrow> ((dispatch_error + evaluation_outcome \<times> verdict_flag) \<times> gam_db) option" where
  "evaluate_and_fire chain env dps db r event p effs =
     (case LoadSnapshot (dp_Snapshot dps) (gd_facts db) (gd_wallet db) (clock env db) (ev_ActorID event) (ev_TenantID event) (Needs p) '''' of
        Inl e \<Rightarrow> Some (Inl (SnapshotFailed e), ticked db)
      | Inr snap \<Rightarrow>
          let (ok, tr) = evaluate p snap;
              db = ticked db
          in if \<not> ok then
               (case record_evaluation env db r event False tr [] of
                  (recorded, db') \<Rightarrow>
                    if recorded then Some (Inr ((base_outcome r)\<lparr>eo_Reason := OrPredicate (tr_reason tr), eo_Trace := Some tr\<rparr>, FlagFalse), db')
                    else Some (Inl RecordFailed, db'))
             else
               (case run_effects chain env (dp_Effects dps) db (trig_of r event) effs of
                  None \<Rightarrow> None
                | Some (results, errs, allOK, db) \<Rightarrow>
                    (case record_evaluation env db r event True tr results of
                       (recorded, db') \<Rightarrow>
                         if recorded then
                           Some (Inr ((base_outcome r)\<lparr>eo_Fired := allOK, eo_Trace := Some tr, eo_Effects := results,
                               eo_EffectErrors := errs, eo_Reason := (if allOK then OrNone else OrEffectsFailed)\<rparr>,
                             if allOK then FlagFired else FlagNone), db')
                         else Some (Inl RecordFailed, db'))))"

definition dispatch_one ::
    "chain \<Rightarrow> env \<Rightarrow> deps \<Rightarrow> gam_db \<Rightarrow> rule \<Rightarrow> gam_event
      \<Rightarrow> ((dispatch_error + evaluation_outcome \<times> verdict_flag) \<times> gam_db) option" where
  "dispatch_one chain env dps db r event =
     (case DecodePredicate (env_parse env) (r_ConditionSet r) of
        Inl e \<Rightarrow> Some (Inr ((base_outcome r)\<lparr>eo_Reason := OrDecodeCondition e\<rparr>, FlagSkipped), db)
      | Inr p \<Rightarrow>
          (case DecodeEffects (env_parse env) (r_Effects r) of
             Inl e \<Rightarrow> Some (Inr ((base_outcome r)\<lparr>eo_Reason := OrDecodeEffects e\<rparr>, FlagSkipped), db)
           | Inr effs \<Rightarrow>
               (case CheckCooldown (env_parse env) db r (ev_ActorID event) (clock env db) of
                  Inl e \<Rightarrow> Some (Inl (CooldownFailed e), ticked db)
                | Inr GateOpen \<Rightarrow> evaluate_and_fire chain env dps (ticked db) r event p effs
                | Inr (GateCooldown n) \<Rightarrow>
                    Some (Inr ((base_outcome r)\<lparr>eo_BlockedBy := ByCooldown, eo_Reason := OrGate (GateCooldown n)\<rparr>, FlagBlocked), ticked db)
                | Inr (GateMaxPerWindow n w) \<Rightarrow>
                    Some (Inr ((base_outcome r)\<lparr>eo_BlockedBy := ByMaxPerWindow, eo_Reason := OrGate (GateMaxPerWindow n w)\<rparr>, FlagBlocked),
                      ticked db))))"

definition count_flag :: "verdict_flag \<Rightarrow> dispatch_result \<Rightarrow> dispatch_result" where
  "count_flag f res =
     (case f of FlagFired \<Rightarrow> res\<lparr>dr_Fired := dr_Fired res + 1\<rparr>
      | FlagBlocked \<Rightarrow> res\<lparr>dr_Blocked := dr_Blocked res + 1\<rparr>
      | FlagFalse \<Rightarrow> res\<lparr>dr_False := dr_False res + 1\<rparr>
      | FlagSkipped \<Rightarrow> res\<lparr>dr_Skipped := dr_Skipped res + 1\<rparr>
      | FlagNone \<Rightarrow> res)"

text \<open>The loop of \<open>Dispatch\<close>; an error of a rule ends it with the counts so far.\<close>

fun dispatch_loop ::
    "chain \<Rightarrow> env \<Rightarrow> deps \<Rightarrow> gam_db \<Rightarrow> gam_event \<Rightarrow> rule list \<Rightarrow> dispatch_result
      \<Rightarrow> ((nat \<times> dispatch_error) option \<times> dispatch_result \<times> gam_db) option" where
  "dispatch_loop chain env dps db event [] res = Some (None, res, db)"
| "dispatch_loop chain env dps db event (r # rs) res =
     (case dispatch_one chain env dps db r event of
        None \<Rightarrow> None
      | Some (Inl e, db') \<Rightarrow> Some (Some (r_ID r, e), res, db')
      | Some (Inr (out, f), db') \<Rightarrow>
          dispatch_loop chain env dps db' event rs (count_flag f (res\<lparr>dr_Outcomes := dr_Outcomes res @ [out]\<rparr>)))"

definition Dispatch ::
    "chain \<Rightarrow> env \<Rightarrow> deps \<Rightarrow> gam_db \<Rightarrow> rule_index \<Rightarrow> gam_event
      \<Rightarrow> ((nat \<times> dispatch_error) option \<times> dispatch_result \<times> gam_db) option" where
  "Dispatch chain env dps db idx event =
     (let matching = LookupOnEvent idx (ev_Verb event) (ev_ObjectType event)
      in dispatch_loop chain env dps db event matching
           \<lparr>dr_Considered = length matching, dr_Fired = 0, dr_Blocked = 0, dr_False = 0, dr_Skipped = 0, dr_Outcomes = []\<rparr>)"

section \<open>The emitter\<close>

datatype emit_error =
  EmDerive ferpa_error | EmCheck ferpa_error | EmViolations "ferpa_violation list" | EmDispatch nat dispatch_error

definition ListEnabledByScope :: "rule_table \<Rightarrow> string \<Rightarrow> nat \<Rightarrow> rule list" where
  "ListEnabledByScope t st sid =
     filter (\<lambda>r. r_Enabled r \<and> r_ScopeType r = st \<and> r_ScopeID r = sid)
       (concat (map (\<lambda>i. case rt_rows t i of None \<Rightarrow> [] | Some r \<Rightarrow> [r]) [0..<rt_next t]))"

definition stamp_event :: "env \<Rightarrow> gam_db \<Rightarrow> gam_event \<Rightarrow> gam_event \<times> gam_db" where
  "stamp_event env db event =
     (let (event, db) = (if is_zero (ev_EmittedAt event) then (event\<lparr>ev_EmittedAt := clock env db\<rparr>, ticked db) else (event, db))
      in (if is_zero (ev_OccurredAt event) then event\<lparr>ev_OccurredAt := ev_EmittedAt event\<rparr> else event, db))"

definition badgeEarnedContext :: "string \<Rightarrow> nat \<Rightarrow> nat \<Rightarrow> json" where
  "badgeEarnedContext st sid evidence =
     JObj [(''evidence_event_id'', JNum (show_nat evidence)), (''scope_id'', JNum (show_nat sid)), (''scope_type'', JStr st)]"

definition badge_event :: "env \<Rightarrow> nat \<Rightarrow> nat \<Rightarrow> nat \<Rightarrow> string \<Rightarrow> nat \<Rightarrow> nat \<Rightarrow> gam_event" where
  "badge_event env tenant actor bid st sid evidence =
     \<lparr>ev_ID = 0, ev_OccurredAt = zero_time, ev_EmittedAt = zero_time, ev_TenantID = tenant, ev_ActorID = actor,
      ev_Verb = ''earned'', ev_ObjectType = ''Badge'', ev_ObjectID = Some bid, ev_Result = '''',
      ev_Context = env_marshal env (badgeEarnedContext st sid evidence), ev_Source = ''internal'', ev_PolicyFlags = []\<rparr>"

text \<open>
  \<open>Emit\<close> with fuel; \<open>EmitBadgeEarned\<close> is the nested call on \<open>badge_event\<close>, whose error is only noted.
\<close>

fun Emit :: "nat \<Rightarrow> env \<Rightarrow> deps \<Rightarrow> gam_db \<Rightarrow> gam_event \<Rightarrow> ((emit_error + nat \<times> dispatch_result) \<times> gam_db) option" where
  "Emit 0 env dps db event = None"
| "Emit (Suc fuel) env dps db event =
     (case DerivePolicyFlags (env_parse env) (gd_tags db) event of
        Inl e \<Rightarrow> Some (Inl (EmDerive e), db)
      | Inr event \<Rightarrow>
          (case CheckFerpa (env_parse env) (gd_tags db) event of
             Inl e \<Rightarrow> Some (Inl (EmCheck e), db)
           | Inr vs \<Rightarrow>
               if vs \<noteq> [] then Some (Inl (EmViolations vs), db)
               else
                 let (event, db) = stamp_event env db event;
                     event = event\<lparr>ev_ID := gd_event_seq db\<rparr>;
                     db = db\<lparr>gd_events := gd_events db @ [event], gd_event_seq := gd_event_seq db + 1\<rparr>;
                     index = BuildRuleIndex (env_parse env) (ListEnabledByScope (gd_rules db) ''site'' (ev_TenantID event));
                     chain = (\<lambda>db tenant actor bid st sid ev.
                       case Emit fuel env dps db (badge_event env tenant actor bid st sid ev) of
                         None \<Rightarrow> None
                       | Some (Inl _, db) \<Rightarrow> Some (False, db)
                       | Some (Inr _, db) \<Rightarrow> Some (True, db))
                 in (case Dispatch chain env dps db index event of
                       None \<Rightarrow> None
                     | Some (None, res, db) \<Rightarrow> Some (Inr (ev_ID event, res), db)
                     | Some (Some (rid, e), res, db) \<Rightarrow> Some (Inl (EmDispatch rid e), db))))"

declare Emit.simps [simp del]

section \<open>Badge chains end\<close>

text \<open>The pairs awarded so far; every operation keeps the catalog and only adds pairs.\<close>

definition held_pairs :: "gam_db \<Rightarrow> (nat \<times> nat) set" where
  "held_pairs db = (\<lambda>a. (ba_UserID a, ba_BadgeID a)) ` set (gd_awards db)"

definition grows :: "gam_db \<Rightarrow> gam_db \<Rightarrow> bool" where
  "grows db db' \<longleftrightarrow> gd_badges db' = gd_badges db \<and> held_pairs db \<subseteq> held_pairs db'"

text \<open>The badges of the catalog that the user does not hold: the measure of a chain.\<close>

definition unheld :: "gam_db \<Rightarrow> nat \<Rightarrow> nat" where
  "unheld db u = card {b \<in> bd_ID ` set (gd_badges db). (u, b) \<notin> held_pairs db}"

lemma grows_refl [simp]: "grows db db"
  by (simp add: grows_def)

lemma grows_trans: "grows a b \<Longrightarrow> grows b c \<Longrightarrow> grows a c"
  by (auto simp: grows_def)

lemma grows_simps [simp]:
  "grows db (ticked db)" "grows db (ticked db\<lparr>gd_wallet := w\<rparr>)"
  "grows db (db\<lparr>gd_evals := es\<rparr>)" "grows db (db\<lparr>gd_events := evs, gd_event_seq := n\<rparr>)"
  by (simp_all add: grows_def ticked_def held_pairs_def)

lemma unheld_mono: "grows a b \<Longrightarrow> unheld b u \<le> unheld a u"
  by (auto simp: unheld_def grows_def intro!: card_mono)

lemma unheld_less: "grows a b \<Longrightarrow> bid \<in> bd_ID ` set (gd_badges a) \<Longrightarrow> (u, bid) \<notin> held_pairs a \<Longrightarrow>
    (u, bid) \<in> held_pairs b \<Longrightarrow> unheld b u < unheld a u"
  unfolding unheld_def grows_def by (intro psubset_card_mono) auto

definition chain_grows :: "chain \<Rightarrow> bool" where
  "chain_grows chain \<longleftrightarrow> (\<forall>db t u b st sid ev ok db'. chain db t u b st sid ev = Some (ok, db') \<longrightarrow> grows db db')"

text \<open>\<open>chain_total k chain u\<close>: the chain returns from every state in which \<open>u\<close> lacks fewer than k badges.\<close>

definition chain_total :: "nat \<Rightarrow> chain \<Rightarrow> nat \<Rightarrow> bool" where
  "chain_total k chain u \<longleftrightarrow> (\<forall>db t b st sid ev. unheld db u < k \<longrightarrow> chain db t u b st sid ev \<noteq> None)"

lemma award_badge_row_grows: "award_badge_row now db u b ev = (created, aid, db') \<Longrightarrow> grows db db'"
  by (auto simp: award_badge_row_def grows_def held_pairs_def split: if_splits)

lemma award_badge_row_created:
  "award_badge_row now db u b ev = (True, aid, db') \<Longrightarrow> (u, b) \<notin> held_pairs db \<and> (u, b) \<in> held_pairs db'"
  by (auto simp: award_badge_row_def held_pairs_def list_ex_iff split: if_splits)

lemma ResolveBadge_mem: "ResolveBadgeByCode bs tenant st sid code = Some b \<Longrightarrow> b \<in> set bs"
  by (auto simp: ResolveBadgeByCode_def badge_FindByCode_def find_Some_iff split: option.splits if_splits)

lemma apply_AwardCurrency_grows: "apply_AwardCurrency env deps db t c n m = (r, db') \<Longrightarrow> grows db db'"
  by (auto simp: apply_AwardCurrency_def Let_def split: if_splits option.splits sum.splits wallet_error.splits)

text \<open>\<open>AwardBadge\<close> past its guards, with the award inserted.\<close>

lemma apply_AwardBadge_cases:
  obtains (refused) e where "apply_AwardBadge chain env deps db t code = Some (Inl e, db)"
  | (awarded) b created aid db1 where
      "ResolveBadgeByCode (gd_badges db) (tc_TenantID t) (tc_ScopeType t) (tc_ScopeID t) code = Some b"
      "award_badge_row (clock env db) (ticked db) (tc_ActorID t) (bd_ID b) (Some (tc_EventID t)) = (created, aid, db1)"
      "apply_AwardBadge chain env deps db t code =
        (if created \<and> ed_BadgeEmit deps then
           (case chain db1 (tc_TenantID t) (tc_ActorID t) (bd_ID b) (tc_ScopeType t) (tc_ScopeID t) (tc_EventID t) of
              None \<Rightarrow> None
            | Some (ok, db) \<Rightarrow> Some (Inr (BadgeAwarded code (bd_ID b) created aid (Some ok)), db))
         else Some (Inr (BadgeAwarded code (bd_ID b) created aid None), db1))"
proof (cases "code = '''' \<or> \<not> ed_Badge deps \<or> \<not> ed_BadgeAward deps \<or>
    ResolveBadgeByCode (gd_badges db) (tc_TenantID t) (tc_ScopeType t) (tc_ScopeID t) code = None")
  case True
  then have "\<exists>e. apply_AwardBadge chain env deps db t code = Some (Inl e, db)"
    by (cases "code = ''''"; cases "ed_Badge deps"; cases "ed_BadgeAward deps") (simp_all add: apply_AwardBadge_def)
  then show ?thesis using refused by blast
next
  case False
  then obtain b where b: "ResolveBadgeByCode (gd_badges db) (tc_TenantID t) (tc_ScopeType t) (tc_ScopeID t) code = Some b"
    by auto
  obtain created aid db1 where
    a: "award_badge_row (clock env db) (ticked db) (tc_ActorID t) (bd_ID b) (Some (tc_EventID t)) = (created, aid, db1)"
    by (rule prod_cases3)
  show ?thesis by (rule awarded[OF b a]) (use False b a in \<open>simp add: apply_AwardBadge_def\<close>)
qed

lemma award_row_grows:
  "award_badge_row (clock env db) (ticked db) u b ev = (created, aid, db1) \<Longrightarrow> grows db db1"
  using award_badge_row_grows grows_trans grows_simps(1) by blast

lemma apply_AwardBadge_grows:
  assumes "chain_grows chain" "apply_AwardBadge chain env deps db t code = Some (r, db')"
  shows "grows db db'"
proof (cases rule: apply_AwardBadge_cases[of chain env deps db t code])
  case (refused e)
  then show ?thesis using assms(2) by simp
next
  case (awarded b created aid db1)
  have "grows db1 db'"
    using awarded(3) assms by (auto simp: chain_grows_def split: if_splits option.splits)
  then show ?thesis using award_row_grows[OF awarded(2)] grows_trans by blast
qed

lemma apply_AwardBadge_total:
  assumes "chain_total k chain (tc_ActorID t)" "unheld db (tc_ActorID t) \<le> k"
  shows "apply_AwardBadge chain env deps db t code \<noteq> None"
proof (cases rule: apply_AwardBadge_cases[of chain env deps db t code])
  case (refused e)
  then show ?thesis by simp
next
  case (awarded b created aid db1)
  show ?thesis
  proof (cases created)
    case True
    from awarded(2) True
    have aw: "award_badge_row (clock env db) (ticked db) (tc_ActorID t) (bd_ID b) (Some (tc_EventID t)) = (True, aid, db1)"
      by simp
    have "held_pairs (ticked db) = held_pairs db" by (simp add: held_pairs_def ticked_def)
    then have "unheld db1 (tc_ActorID t) < unheld db (tc_ActorID t)"
      using award_badge_row_created[OF aw] ResolveBadge_mem[OF awarded(1)]
      by (intro unheld_less[OF award_row_grows[OF awarded(2)], of "bd_ID b"]) auto
    then have "chain db1 (tc_TenantID t) (tc_ActorID t) (bd_ID b) (tc_ScopeType t) (tc_ScopeID t) (tc_EventID t) \<noteq> None"
      using assms by (simp add: chain_total_def)
    then show ?thesis using awarded(3) by (auto split: prod.split)
  qed (use awarded(3) in simp)
qed

lemma apply_effect_grows: "chain_grows chain \<Longrightarrow> apply_effect chain env deps db t e = Some (r, db') \<Longrightarrow> grows db db'"
  by (cases e) (auto dest: apply_AwardCurrency_grows apply_AwardBadge_grows)

lemma apply_effect_total:
  "chain_total k chain (tc_ActorID t) \<Longrightarrow> unheld db (tc_ActorID t) \<le> k \<Longrightarrow> apply_effect chain env deps db t e \<noteq> None"
  using apply_AwardBadge_total[of k chain t db env deps] by (cases e) (simp_all del: not_None_eq)

lemma run_effects_grows:
  "chain_grows chain \<Longrightarrow> run_effects chain env deps db t es = Some (rs, errs, ok, db') \<Longrightarrow> grows db db'"
proof (induction es arbitrary: db rs errs ok db')
  case (Cons e es)
  obtain r db1 where e: "apply_effect chain env deps db t e = Some (r, db1)"
    using Cons.prems(2) by (auto split: option.splits)
  note g = apply_effect_grows[OF Cons.prems(1) e]
  show ?case
  proof (cases r)
    case (Inl err)
    then show ?thesis using Cons.prems(2) e g by auto
  next
    case (Inr x)
    then obtain rs' errs' where "run_effects chain env deps db1 t es = Some (rs', errs', ok, db')"
      using Cons.prems(2) e by (auto split: option.splits)
    then show ?thesis using Cons.IH[OF Cons.prems(1)] g grows_trans by blast
  qed
qed simp

lemma run_effects_total:
  assumes "chain_grows chain" "chain_total k chain (tc_ActorID t)"
  shows "unheld db (tc_ActorID t) \<le> k \<Longrightarrow> run_effects chain env deps db t es \<noteq> None"
proof (induction es arbitrary: db)
  case (Cons e es)
  obtain r db1 where e: "apply_effect chain env deps db t e = Some (r, db1)"
    using apply_effect_total[OF assms(2) Cons.prems, of env deps e] by (auto simp: not_None_eq)
  have "unheld db1 (tc_ActorID t) \<le> k"
    using unheld_mono[OF apply_effect_grows[OF assms(1) e], of "tc_ActorID t"] Cons.prems by linarith
  then have "run_effects chain env deps db1 t es \<noteq> None" by (rule Cons.IH)
  then show ?case using e by (cases r) auto
qed simp

lemma record_evaluation_grows: "record_evaluation env db r ev res tr effs = (ok, db') \<Longrightarrow> grows db db'"
  by (auto simp: record_evaluation_def Let_def grows_def ticked_def held_pairs_def split: if_splits)

lemma evaluate_and_fire_grows:
  assumes "chain_grows chain" "evaluate_and_fire chain env dps db r ev p effs = Some (x, db')"
  shows "grows db db'"
proof (cases "LoadSnapshot (dp_Snapshot dps) (gd_facts db) (gd_wallet db) (clock env db) (ev_ActorID ev) (ev_TenantID ev) (Needs p) ''''")
  case (Inl e)
  then show ?thesis using assms(2) by (auto simp: evaluate_and_fire_def)
next
  case (Inr snap)
  obtain ok tr where e: "evaluate p snap = (ok, tr)" by (cases "evaluate p snap")
  show ?thesis
  proof (cases ok)
    case False
    then obtain rec where "record_evaluation env (ticked db) r ev False tr [] = (rec, db')"
      using assms(2) Inr e by (auto simp: evaluate_and_fire_def split: prod.splits if_splits)
    then show ?thesis using record_evaluation_grows grows_trans grows_simps(1) by blast
  next
    case True
    then obtain results errs allOK db1 where
      1: "run_effects chain env (dp_Effects dps) (ticked db) (trig_of r ev) effs = Some (results, errs, allOK, db1)"
      using assms(2) Inr e by (auto simp: evaluate_and_fire_def split: option.splits)
    then obtain rec where "record_evaluation env db1 r ev True tr results = (rec, db')"
      using assms(2) Inr e True by (auto simp: evaluate_and_fire_def split: prod.splits if_splits)
    then have "grows db1 db'" by (rule record_evaluation_grows)
    then show ?thesis using run_effects_grows[OF assms(1) 1] grows_trans grows_simps(1)[of db] by blast
  qed
qed

lemma evaluate_and_fire_total:
  assumes "chain_grows chain" "chain_total k chain (ev_ActorID ev)" "unheld db (ev_ActorID ev) \<le> k"
  shows "evaluate_and_fire chain env dps db r ev p effs \<noteq> None"
proof -
  have "unheld (ticked db) (tc_ActorID (trig_of r ev)) \<le> k"
    using unheld_mono[of db "ticked db" "ev_ActorID ev"] assms(3) by (simp add: trig_of_def)
  moreover have "chain_total k chain (tc_ActorID (trig_of r ev))" using assms(2) by (simp add: trig_of_def)
  ultimately have "run_effects chain env (dp_Effects dps) (ticked db) (trig_of r ev) effs \<noteq> None"
    using run_effects_total[OF assms(1)] by blast
  then show ?thesis
    by (auto simp: evaluate_and_fire_def Let_def split: sum.split prod.split)
qed

lemma dispatch_one_grows:
  "chain_grows chain \<Longrightarrow> dispatch_one chain env dps db r ev = Some (x, db') \<Longrightarrow> grows db db'"
  using grows_trans[OF grows_simps(1) evaluate_and_fire_grows]
  by (auto simp: dispatch_one_def split: sum.splits gate_result.splits)

lemma dispatch_one_total:
  assumes "chain_grows chain" "chain_total k chain (ev_ActorID ev)" "unheld db (ev_ActorID ev) \<le> k"
  shows "dispatch_one chain env dps db r ev \<noteq> None"
proof -
  have "unheld (ticked db) (ev_ActorID ev) \<le> k" using unheld_mono[OF grows_simps(1), of db "ev_ActorID ev"] assms(3) by linarith
  then show ?thesis using evaluate_and_fire_total[OF assms(1,2), of "ticked db"]
    by (simp add: dispatch_one_def split: sum.split gate_result.split)
qed

lemma dispatch_loop_grows:
  "chain_grows chain \<Longrightarrow> dispatch_loop chain env dps db ev rs res = Some (e, out, db') \<Longrightarrow> grows db db'"
proof (induction rs arbitrary: db res)
  case (Cons r rs)
  then obtain x db1 where 1: "dispatch_one chain env dps db r ev = Some (x, db1)" by (auto split: option.splits)
  note g = dispatch_one_grows[OF Cons.prems(1) 1]
  show ?case
  proof (cases x)
    case (Inl err)
    then show ?thesis using Cons.prems(2) 1 g by simp
  next
    case (Inr y)
    obtain o1 f where "y = (o1, f)" by (cases y)
    then have "grows db1 db'" using Cons.IH[OF Cons.prems(1)] Cons.prems(2) 1 Inr by simp
    then show ?thesis using g grows_trans by blast
  qed
qed simp

lemma dispatch_loop_total:
  assumes "chain_grows chain" "chain_total k chain (ev_ActorID ev)"
  shows "unheld db (ev_ActorID ev) \<le> k \<Longrightarrow> dispatch_loop chain env dps db ev rs res \<noteq> None"
proof (induction rs arbitrary: db res)
  case (Cons r rs)
  obtain x db1 where 1: "dispatch_one chain env dps db r ev = Some (x, db1)"
    using dispatch_one_total[OF assms Cons.prems, of env dps r] by (auto simp: not_None_eq)
  have "unheld db1 (ev_ActorID ev) \<le> k"
    using unheld_mono[OF dispatch_one_grows[OF assms(1) 1], of "ev_ActorID ev"] Cons.prems by linarith
  then show ?case using 1 Cons.IH by (simp split: sum.split prod.split)
qed simp

lemma stamp_event_grows: "stamp_event env db ev = (ev', db') \<Longrightarrow> grows db db' \<and> ev_ActorID ev' = ev_ActorID ev"
  by (auto simp: stamp_event_def split: if_splits)

text \<open>A step that records no evaluation and changes no rule.\<close>

definition quiet :: "gam_db \<Rightarrow> gam_db \<Rightarrow> bool" where
  "quiet db db' \<longleftrightarrow> gd_evals db' = gd_evals db \<and> gd_rules db' = gd_rules db \<and> gd_tick db \<le> gd_tick db'"

lemma quiet_refl [simp]: "quiet db db"
  by (simp add: quiet_def)

lemma quiet_trans: "quiet a b \<Longrightarrow> quiet b c \<Longrightarrow> quiet a c"
  by (auto simp: quiet_def)

lemma quiet_ticked [simp]: "quiet db (ticked db)" "quiet db (ticked db\<lparr>gd_wallet := w\<rparr>)"
  by (simp_all add: quiet_def ticked_def)

lemma stamp_event_quiet: "stamp_event env db ev = (ev', db') \<Longrightarrow> quiet db db'"
  by (auto simp: stamp_event_def split: if_splits)

lemma index_rule_sources:
  "r' \<in> set (ix_onEvent (index_rule parse idx r) k) \<Longrightarrow> r' = r \<or> r' \<in> set (ix_onEvent idx k)"
  by (auto simp: index_rule_def skip_rule_def split: if_splits option.splits prod.splits)

lemma BuildRuleIndex_sources: "r \<in> set (ix_onEvent (BuildRuleIndex parse rs) k) \<Longrightarrow> r \<in> set rs"
proof -
  have "r \<in> set (ix_onEvent (foldl (index_rule parse) idx rs) k) \<Longrightarrow> r \<in> set rs \<or> r \<in> set (ix_onEvent idx k)" for idx
    by (induction rs arbitrary: idx) (auto dest: index_rule_sources)
  from this[of empty_index] show "r \<in> set (ix_onEvent (BuildRuleIndex parse rs) k) \<Longrightarrow> r \<in> set rs"
    by (auto simp: BuildRuleIndex_def empty_index_def)
qed

definition chain_of :: "nat \<Rightarrow> env \<Rightarrow> deps \<Rightarrow> chain" where
  "chain_of fuel env dps = (\<lambda>db tenant actor bid st sid ev.
     case Emit fuel env dps db (badge_event env tenant actor bid st sid ev) of
       None \<Rightarrow> None
     | Some (Inl _, db) \<Rightarrow> Some (False, db)
     | Some (Inr _, db) \<Rightarrow> Some (True, db))"

text \<open>Past the guards, \<open>Emit\<close> dispatches from a state that has grown.\<close>

lemma Emit_cases:
  obtains (refused) e where "Emit (Suc fuel) env dps db event = Some (Inl e, db)"
  | (dispatched) event' db1 rs res where "grows db db1" "quiet db db1" "ev_ActorID event' = ev_ActorID event"
      "set rs \<subseteq> set (ListEnabledByScope (gd_rules db1) ''site'' (ev_TenantID event'))"
      "Emit (Suc fuel) env dps db event =
        (case dispatch_loop (chain_of fuel env dps) env dps db1 event' rs res of
           None \<Rightarrow> None
         | Some (None, res, db) \<Rightarrow> Some (Inr (ev_ID event', res), db)
         | Some (Some (rid, e), res, db) \<Rightarrow> Some (Inl (EmDispatch rid e), db))"
proof (cases "DerivePolicyFlags (env_parse env) (gd_tags db) event")
  case (Inl e)
  then show ?thesis using refused by (simp add: Emit.simps)
next
  case (Inr ev1)
  have a1: "ev_ActorID ev1 = ev_ActorID event"
    using Inr by (auto simp: DerivePolicyFlags_def Let_def split: option.splits if_splits)
  obtain ev2 db2 where st: "stamp_event env db ev1 = (ev2, db2)" by (cases "stamp_event env db ev1")
  define ev3 where "ev3 = ev2\<lparr>ev_ID := gd_event_seq db2\<rparr>"
  define db3 where "db3 = db2\<lparr>gd_events := gd_events db2 @ [ev3], gd_event_seq := gd_event_seq db2 + 1\<rparr>"
  have "grows db db3" using stamp_event_grows[OF st] grows_trans grows_simps(4) unfolding db3_def by blast
  moreover have "quiet db db3" using stamp_event_quiet[OF st] by (simp add: db3_def quiet_def)
  moreover have "ev_ActorID ev3 = ev_ActorID event" using stamp_event_grows[OF st] a1 by (simp add: ev3_def)
  moreover have "set (LookupOnEvent (BuildRuleIndex (env_parse env) (ListEnabledByScope (gd_rules db3) ''site'' (ev_TenantID ev3)))
        (ev_Verb ev3) (ev_ObjectType ev3)) \<subseteq> set (ListEnabledByScope (gd_rules db3) ''site'' (ev_TenantID ev3))"
    by (auto simp: LookupOnEvent_def dest: BuildRuleIndex_sources)
  moreover have "Emit (Suc fuel) env dps db event =
      (case Dispatch (chain_of fuel env dps) env dps db3
          (BuildRuleIndex (env_parse env) (ListEnabledByScope (gd_rules db3) ''site'' (ev_TenantID ev3))) ev3 of
           None \<Rightarrow> None
         | Some (None, res, db) \<Rightarrow> Some (Inr (ev_ID ev3, res), db)
         | Some (Some (rid, e), res, db) \<Rightarrow> Some (Inl (EmDispatch rid e), db))"
    using derive_then_check[OF Inr]
    by (simp add: Emit.simps Inr st Let_def ev3_def db3_def chain_of_def split: option.split)
  ultimately show ?thesis unfolding Dispatch_def Let_def by (rule dispatched)
qed

lemma Emit_grows: "Emit fuel env dps db event = Some (x, db') \<Longrightarrow> grows db db'"
proof (induction fuel arbitrary: db event x db')
  case (Suc fuel)
  have chain: "chain_grows (chain_of fuel env dps)"
    unfolding chain_grows_def chain_of_def using Suc.IH by (auto split: option.splits sum.splits)
  show ?case
  proof (cases rule: Emit_cases[of fuel env dps db event])
    case (refused e)
    then show ?thesis using Suc.prems by simp
  next
    case (dispatched event' db1 rs res)
    then obtain e out where "dispatch_loop (chain_of fuel env dps) env dps db1 event' rs res = Some (e, out, db')"
      using Suc.prems by (auto split: option.splits)
    then show ?thesis using dispatch_loop_grows[OF chain] dispatched(1) grows_trans by blast
  qed
qed (simp add: Emit.simps)

lemma chain_of_grows: "chain_grows (chain_of fuel env dps)"
  unfolding chain_grows_def chain_of_def by (auto dest: Emit_grows split: option.splits sum.splits)

lemma Emit_total: "unheld db (ev_ActorID event) < fuel \<Longrightarrow> Emit fuel env dps db event \<noteq> None"
proof (induction fuel arbitrary: db event)
  case (Suc fuel)
  show ?case
  proof (cases rule: Emit_cases[of fuel env dps db event])
    case (refused e)
    then show ?thesis by simp
  next
    case (dispatched event' db1 rs res)
    have "chain_total fuel (chain_of fuel env dps) (ev_ActorID event')"
      unfolding chain_total_def chain_of_def
    proof (intro allI impI)
      fix db2 t b st sid ev
      assume "unheld db2 (ev_ActorID event') < fuel"
      then have "Emit fuel env dps db2 (badge_event env t (ev_ActorID event') b st sid ev) \<noteq> None"
        by (intro Suc.IH) (simp add: badge_event_def)
      then show "(case Emit fuel env dps db2 (badge_event env t (ev_ActorID event') b st sid ev) of
          None \<Rightarrow> None | Some (Inl x, db) \<Rightarrow> Some (False, db) | Some (Inr x, db) \<Rightarrow> Some (True, db)) \<noteq> None"
        by (auto split: sum.split)
    qed
    moreover have "unheld db1 (ev_ActorID event') \<le> fuel"
      using unheld_mono[OF dispatched(1), of "ev_ActorID event'"] dispatched(3) Suc.prems by simp
    ultimately have "dispatch_loop (chain_of fuel env dps) env dps db1 event' rs res \<noteq> None"
      by (rule dispatch_loop_total[OF chain_of_grows])
    then show ?thesis using dispatched(5) by (auto split: option.split)
  qed
qed simp

text \<open>
  C23. Badge chains end: one nested level of emission per badge of the catalog that the actor does
  not hold yet is enough for \<open>Emit\<close> to return, whatever the rules, their triggers and their effects.
\<close>

theorem badge_chains_terminate:
  assumes "fuel > card {b \<in> bd_ID ` set (gd_badges db).
      \<not> (\<exists>a \<in> set (gd_awards db). ba_UserID a = ev_ActorID event \<and> ba_BadgeID a = b)}"
  shows "\<exists>r db'. Emit fuel env dps db event = Some (r, db')"
proof -
  have "unheld db (ev_ActorID event) < fuel"
    using assms by (simp add: unheld_def held_pairs_def image_iff Bex_def eq_commute)
  from Emit_total[OF this] show ?thesis by fastforce
qed

text \<open>An actor who holds every badge needs one level.\<close>

theorem badge_chains_terminate_witness:
  "\<exists>r db'. Emit 1 \<lparr>env_parse = (\<lambda>_. None), env_marshal = (\<lambda>_. ''''), env_now = (\<lambda>k. int k)\<rparr>
     \<lparr>dp_Snapshot = all_deps,
      dp_Effects = \<lparr>ed_Wallet = True, ed_CurrencyType = True, ed_Badge = True, ed_BadgeAward = True, ed_BadgeEmit = True\<rparr>\<rparr>
     \<lparr>gd_facts = sample_tables, gd_wallet = empty_wallet [],
      gd_badges = [\<lparr>bd_ID = 1, bd_TenantID = 1, bd_ScopeType = ''site'', bd_ScopeID = 1, bd_Code = ''gold''\<rparr>],
      gd_awards = [\<lparr>ba_ID = 1, ba_UserID = 5, ba_BadgeID = 1, ba_AwardedAt = 0, ba_AwardedBy = None, ba_EvidenceEventID = None\<rparr>],
      gd_award_seq = 2, gd_rules = empty_rules, gd_evals = [], gd_events = [], gd_event_seq = 1, gd_tags = [], gd_tick = 0\<rparr>
     sample_event = Some (r, db')"
  by (rule badge_chains_terminate) (simp add: sample_event_def)

end
