(* ===== verification/Cooldown.thy ===== *)
theory Cooldown imports Dispatch begin

text \<open>
  What the cooldown gate (\<open>cooldown.go\<close>) guarantees over whole histories of emitted events: two
  firings of a rule for a learner are never closer than the rule's cooldown, provided badge events are
  not chained and no two emissions race for that learner and rule; with chained badge events or a race
  the guarantee fails, as the last section shows.
\<close>

section \<open>The gate\<close>

definition firing :: "nat \<Rightarrow> nat \<Rightarrow> rule_eval \<Rightarrow> bool" where
  "firing u rid e \<longleftrightarrow> re_UserID e = u \<and> re_RuleID e = rid \<and> re_Result e"

lemma LastFiring_latest:
  "e \<in> set (gd_evals db) \<Longrightarrow> firing u rid e \<Longrightarrow>
     \<exists>l. LastFiringForUserRule db u rid = Some l \<and> re_EvaluatedAt e \<le> re_EvaluatedAt l"
proof -
  assume e: "e \<in> set (gd_evals db)" "firing u rid e"
  let ?es = "sort_stable_by re_EvaluatedAt (filter (\<lambda>e. re_UserID e = u \<and> re_RuleID e = rid \<and> re_Result e) (gd_evals db))"
  have mem: "e \<in> set ?es" using e by (simp add: firing_def)
  have "re_EvaluatedAt e \<le> re_EvaluatedAt (last ?es)" by (rule last_sorted_max[OF mem]) simp
  moreover obtain x xs where "?es = x # xs" using mem by (cases ?es) auto
  ultimately show ?thesis by (auto simp: LastFiringForUserRule_def)
qed

lemma dur_mul_exact: "0 < s \<Longrightarrow> s * second \<le> int64_max \<Longrightarrow> dur_mul s second = s * second"
  unfolding dur_mul_def by (intro wrap64_id) (simp_all add: int64_min_def int64_max_def second_def)

lemma gate_open_spaced:
  assumes gate: "CheckCooldown parse db r u now = Inr GateOpen"
    and cool: "r_CooldownSeconds r = Some s" "0 < s" "s * second \<le> int64_max"
    and e: "e \<in> set (gd_evals db)" "firing u (r_ID r) e"
  shows "now - re_EvaluatedAt e \<ge> s * second"
proof -
  obtain l where l: "LastFiringForUserRule db u (r_ID r) = Some l" "re_EvaluatedAt e \<le> re_EvaluatedAt l"
    using LastFiring_latest[OF e] by blast
  have "\<not> time_sub now (re_EvaluatedAt l) < s * second"
    using gate cool l(1) dur_mul_exact[OF cool(2,3)]
    by (auto simp: CheckCooldown_def Let_def split: if_splits)
  then have "s * second \<le> now - re_EvaluatedAt l"
    using cool(2) by (auto simp: time_sub_def int64_min_def int64_max_def second_def split: if_splits)
  then show ?thesis using l(2) by linarith
qed

section \<open>Histories\<close>

text \<open>Effects without chaining touch neither the evaluations nor the rules, and only consume time.\<close>

lemma quiet_currency: "apply_AwardCurrency env deps db t c n m = (r, db') \<Longrightarrow> quiet db db'"
  by (auto simp: apply_AwardCurrency_def Let_def split: if_splits option.splits sum.splits wallet_error.splits)

lemma quiet_badge:
  assumes "\<not> ed_BadgeEmit deps" "apply_AwardBadge chain env deps db t code = Some (r, db')"
  shows "quiet db db'"
proof (cases rule: apply_AwardBadge_cases[of chain env deps db t code])
  case (refused e)
  then show ?thesis using assms(2) by simp
next
  case (awarded b created aid db1)
  then show ?thesis using assms
    by (auto simp: award_badge_row_def quiet_def ticked_def split: if_splits)
qed

lemma quiet_effects:
  "\<not> ed_BadgeEmit deps \<Longrightarrow> run_effects chain env deps db t es = Some (rs, errs, ok, db') \<Longrightarrow> quiet db db'"
proof (induction es arbitrary: db rs errs ok db')
  case (Cons e es)
  obtain r db1 where e: "apply_effect chain env deps db t e = Some (r, db1)"
    using Cons.prems(2) by (auto split: option.splits)
  have q: "quiet db db1" using e Cons.prems(1) by (cases e) (auto dest: quiet_currency quiet_badge)
  show ?case
  proof (cases r)
    case (Inl err)
    then show ?thesis using Cons.prems(2) e q by auto
  next
    case (Inr x)
    then obtain rs' errs' where "run_effects chain env deps db1 t es = Some (rs', errs', ok, db')"
      using Cons.prems(2) e by (auto split: option.splits)
    then show ?thesis using Cons.IH[OF Cons.prems(1)] q quiet_trans by blast
  qed
qed simp

text \<open>
  \<open>spaced env s u rid db\<close>: every evaluation carries a past reading of the clock, and the firings of
  the rule for the learner lie at least s seconds apart, in the order they were recorded.
\<close>

definition past_readings :: "env \<Rightarrow> gam_db \<Rightarrow> bool" where
  "past_readings env db \<longleftrightarrow> (\<forall>e\<in>set (gd_evals db). \<exists>k < gd_tick db. re_EvaluatedAt e = env_now env k)"

definition firings :: "nat \<Rightarrow> nat \<Rightarrow> gam_db \<Rightarrow> instant list" where
  "firings u rid db = map re_EvaluatedAt (filter (firing u rid) (gd_evals db))"

definition spaced :: "int \<Rightarrow> nat \<Rightarrow> nat \<Rightarrow> gam_db \<Rightarrow> bool" where
  "spaced s u rid db \<longleftrightarrow> sorted_wrt (\<lambda>a b. b - a \<ge> s * second) (firings u rid db)"

definition cooled :: "env \<Rightarrow> int \<Rightarrow> nat \<Rightarrow> nat \<Rightarrow> gam_db \<Rightarrow> bool" where
  "cooled env s u rid db \<longleftrightarrow> past_readings env db \<and> spaced s u rid db"

lemma cooled_quiet: "quiet db db' \<Longrightarrow> cooled env s u rid db \<Longrightarrow> cooled env s u rid db'"
  unfolding cooled_def quiet_def past_readings_def spaced_def firings_def
  using less_le_trans by metis

lemma record_evaluation_cases:
  assumes "record_evaluation env db r ev res tr effs = (ok, db')"
  shows "gd_rules db' = gd_rules db \<and> gd_tick db' = Suc (gd_tick db) \<and>
    (gd_evals db' = gd_evals db \<or> (\<exists>e. gd_evals db' = gd_evals db @ [e] \<and> re_EvaluatedAt e = env_now env (gd_tick db) \<and>
        re_RuleID e = r_ID r \<and> re_UserID e = ev_ActorID ev \<and> re_Result e = res))"
  using assms by (auto simp: record_evaluation_def Let_def ticked_def clock_def split: if_splits)

text \<open>Recording an evaluation keeps the spacing when every earlier firing of the rule is far enough back.\<close>

lemma cooled_record:
  assumes c: "cooled env s u rid db"
    and step: "record_evaluation env db r ev res tr effs = (ok, db')"
    and far: "res \<Longrightarrow> r_ID r = rid \<Longrightarrow> ev_ActorID ev = u \<Longrightarrow>
      \<forall>e\<in>set (gd_evals db). firing u rid e \<longrightarrow> env_now env (gd_tick db) - re_EvaluatedAt e \<ge> s * second"
  shows "cooled env s u rid db'"
proof -
  note st = record_evaluation_cases[OF step]
  show ?thesis
  proof (cases "gd_evals db' = gd_evals db")
    case True
    then have "quiet db db'" using st by (simp add: quiet_def)
    then show ?thesis using c by (rule cooled_quiet)
  next
    case False
    then obtain e where e: "gd_evals db' = gd_evals db @ [e]" "re_EvaluatedAt e = env_now env (gd_tick db)"
      "re_RuleID e = r_ID r" "re_UserID e = ev_ActorID ev" "re_Result e = res" and t: "gd_tick db' = Suc (gd_tick db)"
      using st by auto
    have "past_readings env db'"
      using c e t by (auto simp: cooled_def past_readings_def intro: less_SucI)
    moreover have "spaced s u rid db'"
      using c far e by (auto simp: cooled_def spaced_def firings_def sorted_wrt_append firing_def)
    ultimately show ?thesis by (simp add: cooled_def)
  qed
qed

lemma cooled_fire:
  assumes mono: "mono (env_now env)" and quiet: "\<not> ed_BadgeEmit (dp_Effects dps)"
    and c: "cooled env s u rid db"
    and far: "r_ID r = rid \<Longrightarrow> ev_ActorID ev = u \<Longrightarrow>
      \<forall>e\<in>set (gd_evals db). firing u rid e \<longrightarrow> env_now env (gd_tick db) - re_EvaluatedAt e \<ge> s * second"
    and step: "evaluate_and_fire chain env dps db r ev p effs = Some (x, db')"
  shows "cooled env s u rid db' \<and> gd_rules db' = gd_rules db"
proof (cases "LoadSnapshot (dp_Snapshot dps) (gd_facts db) (gd_wallet db) (clock env db) (ev_ActorID ev) (ev_TenantID ev) (Needs p) ''''")
  case (Inl e)
  then have "quiet db db'" using step by (auto simp: evaluate_and_fire_def)
  then show ?thesis using cooled_quiet[OF _ c] by (auto simp: quiet_def)
next
  case (Inr snap)
  obtain ok tr where e: "evaluate p snap = (ok, tr)" by (cases "evaluate p snap")
  have c1: "cooled env s u rid (ticked db)" using cooled_quiet[OF _ c] by simp
  show ?thesis
  proof (cases ok)
    case False
    then obtain rec where rec: "record_evaluation env (ticked db) r ev False tr [] = (rec, db')"
      using step Inr e by (auto simp: evaluate_and_fire_def split: prod.splits if_splits)
    have "cooled env s u rid db'" by (rule cooled_record[OF c1 rec]) simp
    then show ?thesis using record_evaluation_cases[OF rec] by (simp add: ticked_def)
  next
    case True
    then obtain results errs allOK db1 where
      run: "run_effects chain env (dp_Effects dps) (ticked db) (trig_of r ev) effs = Some (results, errs, allOK, db1)"
      using step Inr e by (auto simp: evaluate_and_fire_def split: option.splits)
    then obtain rec where rec: "record_evaluation env db1 r ev True tr results = (rec, db')"
      using step Inr e True by (auto simp: evaluate_and_fire_def split: prod.splits if_splits)
    have q: "quiet db db1" using quiet_trans[OF quiet_ticked(1) quiet_effects[OF quiet run]] .
    then have later: "env_now env (gd_tick db) \<le> env_now env (gd_tick db1)" using mono by (simp add: quiet_def monoD)
    have "cooled env s u rid db'"
    proof (rule cooled_record[OF cooled_quiet[OF q c] rec])
      assume "r_ID r = rid" "ev_ActorID ev = u"
      then show "\<forall>e\<in>set (gd_evals db1). firing u rid e \<longrightarrow> env_now env (gd_tick db1) - re_EvaluatedAt e \<ge> s * second"
        using far later q by (fastforce simp: quiet_def)
    qed
    then show ?thesis using record_evaluation_cases[OF rec] q by (simp add: quiet_def)
  qed
qed

lemma cooled_dispatch_one:
  assumes mono: "mono (env_now env)" and quiet: "\<not> ed_BadgeEmit (dp_Effects dps)"
    and cool: "r_ID r = rid \<Longrightarrow> r_CooldownSeconds r = Some s" "0 < s" "s * second \<le> int64_max"
    and c: "cooled env s u rid db"
    and step: "dispatch_one chain env dps db r ev = Some (x, db')"
  shows "cooled env s u rid db' \<and> gd_rules db' = gd_rules db"
proof (cases "\<exists>p effs. DecodePredicate (env_parse env) (r_ConditionSet r) = Inr p \<and> DecodeEffects (env_parse env) (r_Effects r) = Inr effs \<and>
    CheckCooldown (env_parse env) db r (ev_ActorID ev) (clock env db) = Inr GateOpen")
  case False
  then have "db' = db \<or> db' = ticked db" using step
    by (auto simp: dispatch_one_def split: sum.splits gate_result.splits)
  then have "quiet db db'" by auto
  then show ?thesis using cooled_quiet[OF _ c] by (simp add: quiet_def)
next
  case True
  then obtain p effs where "evaluate_and_fire chain env dps (ticked db) r ev p effs = Some (x, db')"
    and gate: "CheckCooldown (env_parse env) db r (ev_ActorID ev) (clock env db) = Inr GateOpen"
    using step by (auto simp: dispatch_one_def)
  moreover have "\<forall>e\<in>set (gd_evals (ticked db)). firing u rid e \<longrightarrow> env_now env (gd_tick (ticked db)) - re_EvaluatedAt e \<ge> s * second"
    if "r_ID r = rid" "ev_ActorID ev = u"
  proof (intro ballI impI)
    fix e assume "e \<in> set (gd_evals (ticked db))" "firing u rid e"
    then have "clock env db - re_EvaluatedAt e \<ge> s * second"
      using gate_open_spaced[OF gate cool(1)[OF that(1)] cool(2,3), of e] that by (simp add: ticked_def)
    moreover have "clock env db \<le> env_now env (gd_tick (ticked db))" using mono by (simp add: clock_def ticked_def monoD)
    ultimately show "env_now env (gd_tick (ticked db)) - re_EvaluatedAt e \<ge> s * second" by linarith
  qed
  ultimately have "cooled env s u rid db' \<and> gd_rules db' = gd_rules (ticked db)"
    using cooled_quiet[OF quiet_ticked(1) c] by (intro cooled_fire[OF mono quiet]) auto
  then show ?thesis by (simp add: ticked_def)
qed

lemma cooled_dispatch_loop:
  assumes mono: "mono (env_now env)" and quiet: "\<not> ed_BadgeEmit (dp_Effects dps)"
    and cool: "\<forall>r\<in>set rs. r_ID r = rid \<longrightarrow> r_CooldownSeconds r = Some s" "0 < s" "s * second \<le> int64_max"
  shows "cooled env s u rid db \<Longrightarrow> dispatch_loop chain env dps db ev rs res = Some (e, out, db') \<Longrightarrow>
    cooled env s u rid db' \<and> gd_rules db' = gd_rules db"
  using cool(1)
proof (induction rs arbitrary: db res)
  case (Cons r rs)
  then obtain x db1 where 1: "dispatch_one chain env dps db r ev = Some (x, db1)" by (auto split: option.splits)
  have c1: "cooled env s u rid db1 \<and> gd_rules db1 = gd_rules db"
    by (rule cooled_dispatch_one[OF mono quiet _ cool(2,3) Cons.prems(1) 1]) (use Cons.prems(3) in auto)
  show ?case
  proof (cases x)
    case (Inl err)
    then show ?thesis using Cons.prems(2) 1 c1 by simp
  next
    case (Inr y)
    obtain o1 f where "y = (o1, f)" by (cases y)
    then show ?thesis using Cons.IH[of db1] Cons.prems(2,3) 1 Inr c1 by simp
  qed
qed simp

lemma ListEnabled_sources: "r \<in> set (ListEnabledByScope t st sid) \<Longrightarrow> \<exists>i. rt_rows t i = Some r"
  by (auto simp: ListEnabledByScope_def split: option.splits)

text \<open>
  One emitted event, of any kind and by anyone, is a step of the history. The code checks the gate and
  records the firing in two transactions, so emissions that run at the same time interleave: in
  \<open>fired_late\<close> the gate of a rule was open at some earlier state, and the rule fires now. \<open>late\<close>
  holds the learners and rules with such an emission in flight.
\<close>

inductive emit_step :: "(nat \<times> nat) set \<Rightarrow> env \<Rightarrow> deps \<Rightarrow> gam_db \<Rightarrow> gam_db \<Rightarrow> bool" for late env dps where
  emitted: "Emit fuel env dps db event = Some (r, db') \<Longrightarrow> emit_step late env dps db db'"
| fired_late: "DecodePredicate (env_parse env) (r_ConditionSet r) = Inr p \<Longrightarrow> DecodeEffects (env_parse env) (r_Effects r) = Inr effs \<Longrightarrow>
    CheckCooldown (env_parse env) earlier r (ev_ActorID event) (clock env earlier) = Inr GateOpen \<Longrightarrow>
    (ev_ActorID event, r_ID r) \<in> late \<Longrightarrow> evaluate_and_fire chain env dps db r event p effs = Some (x, db') \<Longrightarrow>
    emit_step late env dps db db'"

inductive_cases emit_stepE: "emit_step late env dps db db'"

definition rule_cooled :: "gam_db \<Rightarrow> nat \<Rightarrow> int \<Rightarrow> bool" where
  "rule_cooled db rid s \<longleftrightarrow> (\<forall>i r. rt_rows (gd_rules db) i = Some r \<longrightarrow> r_ID r = rid \<longrightarrow> r_CooldownSeconds r = Some s)"

lemma cooled_emit:
  assumes mono: "mono (env_now env)" and quiet: "\<not> ed_BadgeEmit (dp_Effects dps)"
    and cool: "rule_cooled db rid s" "0 < s" "s * second \<le> int64_max"
    and c: "cooled env s u rid db" and step: "Emit fuel env dps db event = Some (r, db')"
  shows "cooled env s u rid db' \<and> gd_rules db' = gd_rules db"
proof (cases fuel)
  case (Suc k)
  show ?thesis
  proof (cases rule: Emit_cases[of k env dps db event])
    case (refused e)
    then show ?thesis using step c Suc by simp
  next
    case (dispatched event' db1 rs res)
    then obtain e out where loop: "dispatch_loop (chain_of k env dps) env dps db1 event' rs res = Some (e, out, db')"
      using step Suc by (auto split: option.splits)
    have "\<forall>r\<in>set rs. r_ID r = rid \<longrightarrow> r_CooldownSeconds r = Some s"
      using dispatched(2,4) cool(1) ListEnabled_sources by (fastforce simp: rule_cooled_def quiet_def)
    from cooled_dispatch_loop[OF mono quiet this cool(2,3) cooled_quiet[OF dispatched(2) c] loop]
    show ?thesis using dispatched(2) by (simp add: quiet_def)
  qed
qed (use step in \<open>simp add: Emit.simps\<close>)

lemma cooled_history:
  assumes "(emit_step late env dps)\<^sup>*\<^sup>* db db'" "(u, rid) \<notin> late" "mono (env_now env)" "\<not> ed_BadgeEmit (dp_Effects dps)"
    "rule_cooled db rid s" "0 < s" "s * second \<le> int64_max" "cooled env s u rid db"
  shows "cooled env s u rid db' \<and> gd_rules db' = gd_rules db"
  using assms(1)
proof (induction rule: rtranclp_induct)
  case (step y z)
  have cool: "rule_cooled y rid s" "cooled env s u rid y" using assms(5) step.IH by (simp_all add: rule_cooled_def)
  from step.hyps(2) have "cooled env s u rid z \<and> gd_rules z = gd_rules y"
  proof (cases rule: emit_step.cases)
    case (emitted fuel event r)
    then show ?thesis using cooled_emit[OF assms(3,4) cool(1) assms(6,7) cool(2)] by blast
  next
    case (fired_late r p effs earlier event chain x)
    have "\<not> (r_ID r = rid \<and> ev_ActorID event = u)" using fired_late(4) assms(2) by auto
    then show ?thesis using cooled_fire[OF assms(3,4) cool(2) _ fired_late(5)] by blast
  qed
  then show ?case using step.IH by simp
qed (use assms in simp)


section \<open>Concrete histories\<close>

definition demo_parse :: "string \<Rightarrow> json option" where
  "demo_parse s =
     (if s = ''G'' then Some (JObj [(''kind'', JStr ''OnEvent''), (''verb'', JStr ''graded''), (''object_type'', JStr ''Submission'')])
      else if s = ''B'' then Some (JObj [(''kind'', JStr ''OnEvent''), (''verb'', JStr ''earned''), (''object_type'', JStr ''Badge'')])
      else if s = ''A'' then Some (JObj [(''kind'', JStr ''ConditionSet''), (''op'', JStr ''AND''), (''children'', JArr [])])
      else if s = ''X'' then Some (JArr [JObj [(''kind'', JStr ''AwardCurrency''), (''code'', JStr ''xp''), (''amount'', JNum ''5'')]])
      else if s = ''XX'' then Some (JArr [JObj [(''kind'', JStr ''AwardCurrency''), (''code'', JStr ''xp''), (''amount'', JNum ''5'')],
          JObj [(''kind'', JStr ''AwardCurrency''), (''code'', JStr ''gems''), (''amount'', JNum ''3'')]])
      else if s = ''Y'' then Some (JArr [JObj [(''kind'', JStr ''AwardBadge''), (''code'', JStr ''gold'')]])
      else if s = ''W'' then Some (JObj [(''window'', JStr ''month''), (''count'', JNum ''1'')])
      else None)"

text \<open>A clock that reads one second later each time.\<close>

definition demo_env :: env where
  "demo_env = \<lparr>env_parse = demo_parse, env_marshal = (\<lambda>_. ''''), env_now = (\<lambda>k. int k * second)\<rparr>"

definition demo_rule :: "nat \<Rightarrow> string \<Rightarrow> string \<Rightarrow> string \<Rightarrow> rule" where
  "demo_rule i trigger effs window = \<lparr>r_ID = i, r_TenantID = 1, r_ScopeType = ''site'', r_ScopeID = 1, r_AudienceLevel = ''k5'',
     r_Name = ''R'', r_Description = '''', r_Enabled = True, r_TriggerEvent = trigger, r_ConditionSet = ''A'', r_Effects = effs,
     r_CooldownSeconds = Some 3600, r_MaxPerWindow = window, r_CreatedBy = None\<rparr>"

definition demo_db :: "rule list \<Rightarrow> gam_db" where
  "demo_db rs = \<lparr>gd_facts = sample_tables, gd_wallet = empty_wallet sample_currencies,
     gd_badges = [\<lparr>bd_ID = 1, bd_TenantID = 1, bd_ScopeType = ''site'', bd_ScopeID = 1, bd_Code = ''gold''\<rparr>],
     gd_awards = [], gd_award_seq = 1,
     gd_rules = \<lparr>rt_rows = (\<lambda>i. find (\<lambda>r. r_ID r = i) rs), rt_next = length rs + 1\<rparr>,
     gd_evals = [], gd_events = [], gd_event_seq = 1, gd_tags = [], gd_tick = 0\<rparr>"

definition demo_deps :: "bool \<Rightarrow> deps" where
  "demo_deps chained = \<lparr>dp_Snapshot = all_deps,
     dp_Effects = \<lparr>ed_Wallet = True, ed_CurrencyType = True, ed_Badge = True, ed_BadgeAward = True, ed_BadgeEmit = chained\<rparr>\<rparr>"

definition demo_event :: "string \<Rightarrow> string \<Rightarrow> gam_event" where
  "demo_event verb obj = \<lparr>ev_ID = 0, ev_OccurredAt = 0, ev_EmittedAt = 0, ev_TenantID = 1, ev_ActorID = 5, ev_Verb = verb,
     ev_ObjectType = obj, ev_ObjectID = None, ev_Result = '''', ev_Context = '''', ev_Source = ''internal'', ev_PolicyFlags = []\<rparr>"

definition after_emit :: "((emit_error + nat \<times> dispatch_result) \<times> gam_db) option \<Rightarrow> (gam_db \<Rightarrow> 'a) \<Rightarrow> 'a option" where
  "after_emit x f = map_option (\<lambda>(r, db). f db) x"

lemma demo_fires_once:
  "after_emit (Emit 1 demo_env (demo_deps False) (demo_db [demo_rule 1 ''G'' ''X'' '''']) (demo_event ''graded'' ''Submission''))
     (firings 5 1) = Some [3 * second]"
  by code_simp

lemma after_emitD: "after_emit x f = Some v \<Longrightarrow> \<exists>r db. x = Some (r, db) \<and> f db = v"
  by (auto simp: after_emit_def)


section \<open>Where the code falls short\<close>

text \<open>
  With chained badge events the gate is passed before the outer firing is recorded: a rule on
  \<open>badge.earned\<close> with a cooldown of an hour, whose effect awards another badge, fires twice within
  seconds for the same learner.
\<close>

theorem chained_badge_fires_within_cooldown:
  "after_emit (Emit 3 demo_env (demo_deps True) (demo_db [demo_rule 1 ''B'' ''Y'' '''']) (demo_event ''earned'' ''Badge''))
     (firings 5 1) = Some [7 * second, 8 * second]"
  by code_simp

text \<open>
  Two emissions at the same time: the second checked its gate before the first recorded its firing. A
  rule with a cooldown of an hour fires twice within seconds for the learner.
\<close>

definition raced_event :: gam_event where
  "raced_event = (demo_event ''graded'' ''Submission'')\<lparr>ev_ID := 2\<rparr>"

definition raced_firings :: "instant list option" where
  "raced_firings =
     (let db0 = demo_db [demo_rule 1 ''G'' ''X'' '''']
      in case (CheckCooldown demo_parse db0 (demo_rule 1 ''G'' ''X'' '''') 5 (clock demo_env db0),
               DecodePredicate demo_parse ''A'', DecodeEffects demo_parse ''X'',
               Emit 1 demo_env (demo_deps False) db0 (demo_event ''graded'' ''Submission'')) of
           (Inr GateOpen, Inr p, Inr effs, Some (_, db1)) \<Rightarrow>
             map_option (\<lambda>(_, db2). firings 5 1 db2)
               (evaluate_and_fire (\<lambda>_ _ _ _ _ _ _. None) demo_env (demo_deps False) db1 (demo_rule 1 ''G'' ''X'' '''') raced_event p effs)
         | _ \<Rightarrow> None)"

theorem racing_emits_fire_within_cooldown: "raced_firings = Some [3 * second, 6 * second]"
  by code_simp

lemma ApplyTransaction_row:
  assumes "ApplyTransaction now db tx = Inr db'"
  obtains row where "row \<in> set (wd_txs db')" "wt_EventID row = wt_EventID tx" "wt_RuleID row = wt_RuleID tx"
proof -
  obtain row where "wd_txs db' = wd_txs db @ [row]" "wt_EventID row = wt_EventID tx" "wt_RuleID row = wt_RuleID tx"
    using assms by (rule ApplyTransaction_cases)
  then show thesis by (intro that[of row]) simp_all
qed

lemma ApplyTransaction_fresh:
  assumes "ApplyTransaction now db tx = Inr db'" "row \<in> set (wd_txs db)"
  shows "\<not> conflicts tx row"
proof -
  have "\<forall>t\<in>set (wd_txs db). \<not> conflicts tx t" using assms(1) by (rule ApplyTransaction_cases)
  with assms(2) show ?thesis by simp
qed

lemma AwardCurrency_wallet:
  "apply_AwardCurrency env deps db t c n m = (r, db') \<Longrightarrow>
     gd_wallet db' = gd_wallet db \<or>
     (\<exists>tx. ApplyTransaction (clock env db) (gd_wallet db) tx = Inr (gd_wallet db') \<and>
        wt_EventID tx = Some (tc_EventID t) \<and> wt_RuleID tx = Some (tc_RuleID t) \<and>
        (\<exists>i d. r = Inr (CurrencyAwarded c i n d m)))"
  by (auto simp: apply_AwardCurrency_def Let_def ticked_def split: if_splits option.splits sum.splits wallet_error.splits)

text \<open>
  The uniqueness of (event, rule) in the ledger swallows the second currency effect of a rule:
  once one \<open>AwardCurrency\<close> of the rule has been credited for the event, every later one of the same rule
  and event, whatever its currency and amount, leaves the wallet as it was.
\<close>

theorem second_currency_effect_dropped:
  assumes first: "apply_AwardCurrency env deps db t c n m = (r, db1)" "gd_wallet db1 \<noteq> gd_wallet db"
    and second: "apply_AwardCurrency env deps db1 t c' n' m' = (r', db2)"
  shows "gd_wallet db2 = gd_wallet db1"
proof (rule ccontr)
  assume ne: "gd_wallet db2 \<noteq> gd_wallet db1"
  obtain tx where tx: "ApplyTransaction (clock env db) (gd_wallet db) tx = Inr (gd_wallet db1)"
    "wt_EventID tx = Some (tc_EventID t)" "wt_RuleID tx = Some (tc_RuleID t)"
    using AwardCurrency_wallet[OF first(1)] first(2) by auto
  obtain tx' where tx': "ApplyTransaction (clock env db1) (gd_wallet db1) tx' = Inr (gd_wallet db2)"
    "wt_EventID tx' = Some (tc_EventID t)" "wt_RuleID tx' = Some (tc_RuleID t)"
    using AwardCurrency_wallet[OF second] ne by auto
  obtain row where row: "row \<in> set (wd_txs (gd_wallet db1))" "wt_EventID row = wt_EventID tx" "wt_RuleID row = wt_RuleID tx"
    using tx(1) by (rule ApplyTransaction_row)
  have "\<not> conflicts tx' row" using tx'(1) row(1) by (rule ApplyTransaction_fresh)
  then show False using row(2,3) tx(2,3) tx'(2,3) by (simp add: conflicts_def)
qed

definition demo_trig :: trig where
  "demo_trig = \<lparr>tc_ActorID = 5, tc_TenantID = 1, tc_ScopeType = ''site'', tc_ScopeID = 1, tc_EventID = 1, tc_RuleID = 1\<rparr>"

theorem second_currency_effect_dropped_witness:
  "let db1 = snd (apply_AwardCurrency demo_env (dp_Effects (demo_deps True)) (demo_db []) demo_trig ''xp'' 5 None);
       db2 = snd (apply_AwardCurrency demo_env (dp_Effects (demo_deps True)) db1 demo_trig ''gems'' 3 None)
   in wd_txs (gd_wallet db1) \<noteq> [] \<and> gd_wallet db2 = gd_wallet db1"
proof -
  let ?db1 = "snd (apply_AwardCurrency demo_env (dp_Effects (demo_deps True)) (demo_db []) demo_trig ''xp'' 5 None)"
  let ?db2 = "snd (apply_AwardCurrency demo_env (dp_Effects (demo_deps True)) ?db1 demo_trig ''gems'' 3 None)"
  have "map wt_Delta (wd_txs (gd_wallet ?db1)) = [5]" by code_simp
  then have n: "wd_txs (gd_wallet ?db1) \<noteq> []" by auto
  have "wd_txs (gd_wallet (demo_db [])) = []" by (simp add: demo_db_def empty_wallet_def)
  then have "gd_wallet ?db1 \<noteq> gd_wallet (demo_db [])" using n by metis
  from second_currency_effect_dropped[OF surjective_pairing this surjective_pairing]
  have "gd_wallet ?db2 = gd_wallet ?db1" .
  with n show ?thesis unfolding Let_def by blast
qed

text \<open>
  An error of the cooldown check ends the whole dispatch: no rule after the offending one is
  evaluated, whatever the rules are, and the counts so far are returned with the error.
\<close>

theorem cooldown_error_stops_dispatch:
  assumes "DecodePredicate (env_parse env) (r_ConditionSet r) = Inr p"
    and "DecodeEffects (env_parse env) (r_Effects r) = Inr effs"
    and "CheckCooldown (env_parse env) db r (ev_ActorID event) (clock env db) = Inl e"
  shows "dispatch_loop chain env dps db event (r # rs) res = Some (Some (r_ID r, CooldownFailed e), res, ticked db)"
  using assms by (simp add: dispatch_one_def)

theorem cooldown_error_stops_dispatch_witness:
  "let r0 = \<lparr>dr_Considered = 2, dr_Fired = 0, dr_Blocked = 0, dr_False = 0, dr_Skipped = 0, dr_Outcomes = []\<rparr> in
   dispatch_loop (\<lambda>_ _ _ _ _ _ _. None) demo_env (demo_deps True) (demo_db []) (demo_event ''graded'' ''Submission'')
     (demo_rule 1 ''G'' ''X'' ''W'' # [demo_rule 2 ''G'' ''X'' '''']) r0 =
   Some (Some (1, CooldownFailed (UnknownWindow ''month'')), r0, ticked (demo_db []))"
proof -
  have d: "DecodePredicate (env_parse demo_env) (r_ConditionSet (demo_rule 1 ''G'' ''X'' ''W'')) = Inr (ConditionSet OpAND 0 [])"
    "DecodeEffects (env_parse demo_env) (r_Effects (demo_rule 1 ''G'' ''X'' ''W'')) = Inr [AwardCurrency ''xp'' 5 None]"
    "CheckCooldown (env_parse demo_env) (demo_db []) (demo_rule 1 ''G'' ''X'' ''W'') (ev_ActorID (demo_event ''graded'' ''Submission''))
       (clock demo_env (demo_db [])) = Inl (UnknownWindow ''month'')"
    by code_simp+
  have "r_ID (demo_rule 1 ''G'' ''X'' ''W'') = 1" by (simp add: demo_rule_def)
  then show ?thesis using cooldown_error_stops_dispatch[OF d] unfolding Let_def by simp
qed

end
