(* ===== verification/Drop_Rules.thy ===== *)
theory Drop_Rules imports Go_Json Go_Strings Go_Time begin

text \<open>
  The drop rules of an assignment group (first half of \<open>internal/service/grade_calculator.go\<close>):
  reading them from either stored format, and choosing the scores to drop with Dinkelbach's
  method. The arithmetic of the choice is a parameter \<open>rnd\<close> applied after every operation: the
  program runs it with \<open>f64\<close>, and the optimality of the choice is stated with exact arithmetic.
\<close>

section \<open>Reading the stored rules\<close>

record drop_rules =
  dr_DropLowest :: int
  dr_DropHighest :: int
  dr_NeverDrop :: "nat list"

definition no_rules :: drop_rules where
  "no_rules = \<lparr>dr_DropLowest = 0, dr_DropHighest = 0, dr_NeverDrop = []\<rparr>"

definition drop_rules_IsZero :: "drop_rules \<Rightarrow> bool" where
  "drop_rules_IsZero r = (dr_DropLowest r \<le> 0 \<and> dr_DropHighest r \<le> 0)"

text \<open>\<open>raw\<close> is \<open>None\<close> for an absent member.\<close>

definition jsonInt :: "json option \<Rightarrow> int" where
  "jsonInt raw =
     (case raw of
        Some (JNum t) \<Rightarrow> (case parse_float t of Some f \<Rightarrow> int_conv f | None \<Rightarrow> 0)
      | Some (JStr s) \<Rightarrow> (case parse_int (TrimSpace s) of Some n \<Rightarrow> n | None \<Rightarrow> 0)
      | _ \<Rightarrow> 0)"

text \<open>A decoded \<open>map[string]json.RawMessage\<close>: the last member of a name wins.\<close>

definition raw_member :: "(string \<times> json) list \<Rightarrow> string \<Rightarrow> json option" where
  "raw_member kvs k = map_of (rev kvs) k"

definition positive_ids :: "int list \<Rightarrow> nat list" where
  "positive_ids ns = map nat (filter (\<lambda>n. n > 0) ns)"

definition json_rules :: "(string \<times> json) list \<Rightarrow> drop_rules" where
  "json_rules m =
     \<lparr>dr_DropLowest = jsonInt (raw_member m ''drop_lowest''),
      dr_DropHighest = jsonInt (raw_member m ''drop_highest''),
      dr_NeverDrop = (case raw_member m ''never_drop'' of
          Some (JArr items) \<Rightarrow> positive_ids (map (\<lambda>it. jsonInt (Some it)) items)
        | _ \<Rightarrow> [])\<rparr>"

definition rule_line :: "drop_rules \<Rightarrow> string \<Rightarrow> drop_rules" where
  "rule_line out line =
     (case cut_at (CHR '':'') (TrimSpace line) of
        None \<Rightarrow> out
      | Some (k, v) \<Rightarrow>
          (case parse_int (TrimSpace v) of
             None \<Rightarrow> out
           | Some n \<Rightarrow>
               (if n < 0 then out
                else if TrimSpace k = ''drop_lowest'' then out\<lparr>dr_DropLowest := n\<rparr>
                else if TrimSpace k = ''drop_highest'' then out\<lparr>dr_DropHighest := n\<rparr>
                else if TrimSpace k = ''never_drop'' \<and> n > 0 then out\<lparr>dr_NeverDrop := dr_NeverDrop out @ [nat n]\<rparr>
                else out)))"

definition clamp_rules :: "drop_rules \<Rightarrow> drop_rules" where
  "clamp_rules r = r\<lparr>dr_DropLowest := max 0 (dr_DropLowest r), dr_DropHighest := max 0 (dr_DropHighest r)\<rparr>"

definition ParseDropRules :: "(string \<Rightarrow> json option) \<Rightarrow> string \<Rightarrow> drop_rules" where
  "ParseDropRules parse raw0 =
     (let raw = TrimSpace raw0
      in if raw = [] \<or> raw = ''{}'' \<or> raw = ''null'' then no_rules
         else if has_prefix raw ''{''
         then (case parse raw of Some (JObj m) \<Rightarrow> clamp_rules (json_rules m) | _ \<Rightarrow> no_rules)
         else clamp_rules (foldl rule_line no_rules (split_on (CHR 0x0A) raw)))"

text \<open>\<open>MarshalDropRules\<close>, as the document that is printed.\<close>

definition MarshalDropRules :: "drop_rules \<Rightarrow> json" where
  "MarshalDropRules r =
     JObj [(''drop_lowest'', JNum (show_int (dr_DropLowest r))),
           (''drop_highest'', JNum (show_int (dr_DropHighest r))),
           (''never_drop'', JArr (map (\<lambda>i. JNum (show_nat i)) (dr_NeverDrop r)))]"

section \<open>Choosing what to keep\<close>

record calc_item =
  it_assignmentID :: nat
  it_possible :: rat
  it_score :: rat
  it_graded :: bool

definition before :: "bool \<Rightarrow> (calc_item \<Rightarrow> rat) \<Rightarrow> calc_item \<Rightarrow> calc_item \<Rightarrow> bool" where
  "before maximise v a b =
     (if v a \<noteq> v b then (if maximise then v a > v b else v a < v b)
      else it_assignmentID a < it_assignmentID b)"

definition gain :: "(rat \<Rightarrow> rat) \<Rightarrow> rat \<Rightarrow> calc_item \<Rightarrow> rat" where
  "gain rnd q it = rnd (it_score it - rnd (q * it_possible it))"

definition pick :: "(rat \<Rightarrow> rat) \<Rightarrow> bool \<Rightarrow> calc_item list \<Rightarrow> nat \<Rightarrow> rat \<Rightarrow> calc_item list" where
  "pick rnd maximise candidates k q = take k (sort_stable (before maximise (gain rnd q)) candidates)"

definition sum_with :: "(rat \<Rightarrow> rat) \<Rightarrow> rat \<Rightarrow> ('a \<Rightarrow> rat) \<Rightarrow> 'a list \<Rightarrow> rat" where
  "sum_with rnd start f xs = foldl (\<lambda>s x. rnd (s + f x)) start xs"

text \<open>\<open>None\<close> is the infinite ratio of a selection without possible points.\<close>

definition ratio :: "(rat \<Rightarrow> rat) \<Rightarrow> calc_item list \<Rightarrow> calc_item list \<Rightarrow> rat option" where
  "ratio rnd fixed_items sel =
     (let s = sum_with rnd (sum_with rnd 0 it_score fixed_items) it_score sel;
          p = sum_with rnd (sum_with rnd 0 it_possible fixed_items) it_possible sel
      in if p = 0 then None else Some (rnd (s / p)))"

text \<open>\<open>q\<close> is \<open>None\<close> for the infinity the loop starts from.\<close>

definition settled :: "(rat \<Rightarrow> rat) \<Rightarrow> bool \<Rightarrow> rat \<Rightarrow> rat option \<Rightarrow> bool" where
  "settled rnd maximise r q =
     (case q of None \<Rightarrow> False
      | Some q \<Rightarrow> (if maximise then r \<le> rnd (q + rnd (1 / 10 ^ 12)) else r \<ge> rnd (q - rnd (1 / 10 ^ 12))))"

fun improve :: "(rat \<Rightarrow> rat) \<Rightarrow> bool \<Rightarrow> calc_item list \<Rightarrow> calc_item list \<Rightarrow> nat \<Rightarrow> nat \<Rightarrow> rat option \<Rightarrow> calc_item list \<Rightarrow>
    calc_item list" where
  "improve rnd maximise fixed_items candidates k 0 q current = current"
| "improve rnd maximise fixed_items candidates k (Suc iter) q current =
     (case ratio rnd fixed_items current of
        None \<Rightarrow> current
      | Some r \<Rightarrow>
          (if settled rnd maximise r q then current
           else improve rnd maximise fixed_items candidates k iter (Some r) (pick rnd maximise candidates k r)))"

definition bestSubset :: "(rat \<Rightarrow> rat) \<Rightarrow> calc_item list \<Rightarrow> calc_item list \<Rightarrow> int \<Rightarrow> bool \<Rightarrow> calc_item list" where
  "bestSubset rnd candidates fixed_items keepCount maximise =
     (let k = nat (max 1 keepCount)
      in if length candidates \<le> k then candidates
         else if \<not> list_ex (\<lambda>it. it_possible it > 0) candidates \<and> sum_with rnd 0 it_possible fixed_items = 0
         then take k (sort_stable (before maximise it_score) candidates)
         else improve rnd maximise fixed_items candidates k 100 None (pick rnd maximise candidates k 0))"

text \<open>\<open>dropLowest + dropHighest\<close> is an \<open>int\<close> sum, which wraps.\<close>

definition dropHighest_eff :: "nat \<Rightarrow> int \<Rightarrow> int \<Rightarrow> int" where
  "dropHighest_eff n lowest highest = (if wrap64 (lowest + highest) \<ge> int n then 0 else highest)"

definition never_dropped :: "drop_rules \<Rightarrow> calc_item \<Rightarrow> bool" where
  "never_dropped r it = (it_assignmentID it \<in> set (dr_NeverDrop r))"

definition keep_after :: "(rat \<Rightarrow> rat) \<Rightarrow> calc_item list \<Rightarrow> calc_item list \<Rightarrow> int \<Rightarrow> int \<Rightarrow> calc_item list" where
  "keep_after rnd droppable fixed_items dl dh =
     (let keep1 = (if dl > 0 then bestSubset rnd droppable fixed_items (int (length droppable) - dl) True else droppable)
      in if dh > 0 then bestSubset rnd keep1 fixed_items (int (length keep1) - dh) False else keep1)"

definition split_items :: "(rat \<Rightarrow> rat) \<Rightarrow> drop_rules \<Rightarrow> calc_item list \<Rightarrow> calc_item list \<Rightarrow> calc_item list \<times> nat list" where
  "split_items rnd r droppable fixed_items =
     (let n = length droppable;
          dl = min (dr_DropLowest r) (int n - 1);
          keep = keep_after rnd droppable fixed_items dl (dropHighest_eff n dl (dr_DropHighest r));
          kept_ids = it_assignmentID ` set keep
      in (keep @ fixed_items, sort (filter (\<lambda>i. i \<notin> kept_ids) (map it_assignmentID droppable))))"

definition applyDropRules :: "(rat \<Rightarrow> rat) \<Rightarrow> calc_item list \<Rightarrow> drop_rules \<Rightarrow> calc_item list \<times> nat list" where
  "applyDropRules rnd items r =
     (if drop_rules_IsZero r \<or> items = [] then (items, [])
      else if filter (\<lambda>it. \<not> never_dropped r it) items = [] then (items, [])
      else split_items rnd r (filter (\<lambda>it. \<not> never_dropped r it) items) (filter (never_dropped r) items))"

section \<open>The stored rules round trip\<close>

lemma takeWhile_digits: "list_all is_digit s \<Longrightarrow> (\<And>c. is_digit c \<Longrightarrow> P c) \<Longrightarrow> takeWhile P s = s"
  by (induction s) auto

lemma is_digit_not [simp]: "is_digit c \<Longrightarrow> c \<noteq> CHR ''e''" "is_digit c \<Longrightarrow> c \<noteq> CHR ''E''" "is_digit c \<Longrightarrow> c \<noteq> CHR ''.''"
  by (auto simp: is_digit_def)

lemma parse_float_show_nat:
  assumes "n \<le> 2 ^ 53" shows "parse_float (show_nat n) = Some (of_nat n)"
proof -
  let ?s = "show_nat n"
  have d: "list_all is_digit ?s" "?s \<noteq> []" using show_nat_digits by auto
  have t: "takeWhile (\<lambda>c. c \<noteq> CHR ''e'' \<and> c \<noteq> CHR ''E'') ?s = ?s" "takeWhile (\<lambda>c. c \<noteq> CHR ''.'') ?s = ?s"
    by (rule takeWhile_digits[OF d(1)], simp)+
  have "f64 (of_nat n) = of_nat n"
    using f64_of_int[of "int n"] assms by simp
  moreover have "(of_nat n :: rat) < 2 ^ 1024"
  proof -
    have "(of_nat n :: rat) \<le> of_nat (2 ^ 53)" using assms by (simp only: of_nat_le_iff)
    also have "\<dots> < 2 ^ 1024" by simp
    finally show ?thesis .
  qed
  ultimately show ?thesis
    using d by (simp add: parse_float_def t pow10_def digits_val_def[of "[]"])
qed

lemma int_conv_of_nat: "n \<le> 2 ^ 53 \<Longrightarrow> int_conv (of_nat n) = int n"
  by (simp add: int_conv_def int_of_float_def int64_min_def int64_max_def Let_def)

lemma jsonInt_show_nat: "n \<le> 2 ^ 53 \<Longrightarrow> jsonInt (Some (JNum (show_nat n))) = int n"
  by (simp add: jsonInt_def parse_float_show_nat int_conv_of_nat)

definition storable :: "drop_rules \<Rightarrow> bool" where
  "storable r = (0 \<le> dr_DropLowest r \<and> dr_DropLowest r \<le> 2 ^ 53 \<and> 0 \<le> dr_DropHighest r \<and> dr_DropHighest r \<le> 2 ^ 53 \<and>
     list_all (\<lambda>i. 0 < i \<and> i \<le> 2 ^ 53) (dr_NeverDrop r))"

lemma positive_ids_stored:
  "list_all (\<lambda>i. 0 < i \<and> i \<le> 2 ^ 53) is \<Longrightarrow> positive_ids (map (\<lambda>it. jsonInt (Some it)) (map (\<lambda>i. JNum (show_nat i)) is)) = is"
  by (induction "is") (auto simp: positive_ids_def jsonInt_show_nat)

text \<open>
  Rules with non-negative counts and positive ids, all at most 2 to the 53, are read back
  from the stored JSON text as they were, whatever the printer's spacing, when the scanner returns the document
  that was printed.
\<close>

theorem drop_rules_round_trip:
  assumes "storable r" "parse text = Some (MarshalDropRules r)" "TrimSpace text = text" "has_prefix text ''{''" "text \<noteq> ''{}''"
  shows "ParseDropRules parse text = r"
proof -
  obtain m where m: "MarshalDropRules r = JObj m" by (simp add: MarshalDropRules_def)
  have "raw_member m ''drop_lowest'' = Some (JNum (show_nat (nat (dr_DropLowest r))))"
    "raw_member m ''drop_highest'' = Some (JNum (show_nat (nat (dr_DropHighest r))))"
    "raw_member m ''never_drop'' = Some (JArr (map (\<lambda>i. JNum (show_nat i)) (dr_NeverDrop r)))"
    using m assms(1) by (auto simp: MarshalDropRules_def raw_member_def show_int_def storable_def)
  moreover have "jsonInt (Some (JNum (show_nat (nat (dr_DropLowest r))))) = dr_DropLowest r"
    "jsonInt (Some (JNum (show_nat (nat (dr_DropHighest r))))) = dr_DropHighest r"
    using assms(1) by (simp_all add: jsonInt_show_nat storable_def nat_le_iff)
  moreover have "positive_ids (map (\<lambda>it. jsonInt (Some it)) (map (\<lambda>i. JNum (show_nat i)) (dr_NeverDrop r))) = dr_NeverDrop r"
    using assms(1) by (intro positive_ids_stored) (simp add: storable_def)
  ultimately have "clamp_rules (json_rules m) = r"
    using assms(1) by (simp add: json_rules_def clamp_rules_def storable_def)
  moreover have "text \<noteq> []" "text \<noteq> ''null''" using assms(4) by (auto simp: has_prefix_def)
  ultimately show ?thesis
    using assms(2-5) by (simp add: ParseDropRules_def m)
qed

definition sample_rules_text :: string where
  "sample_rules_text = ''{\"drop_lowest\":1,\"drop_highest\":0,\"never_drop\":[3]}''"

definition sample_rules :: drop_rules where
  "sample_rules = \<lparr>dr_DropLowest = 1, dr_DropHighest = 0, dr_NeverDrop = [3]\<rparr>"

theorem drop_rules_round_trip_witness:
  "ParseDropRules (\<lambda>s. if s = sample_rules_text then Some (MarshalDropRules sample_rules) else None) sample_rules_text = sample_rules"
  by (rule drop_rules_round_trip) (simp add: storable_def sample_rules_def, simp, code_simp, code_simp, simp add: sample_rules_text_def)

section \<open>What the drop rules keep\<close>

lemma distinct_take_sort: "distinct xs \<Longrightarrow> distinct (take k (sort_stable lt xs))"
  by simp

lemma set_take_sort: "set (take k (sort_stable lt xs)) \<subseteq> set xs"
  using set_take_subset[of k "sort_stable lt xs"] by simp

definition selection :: "calc_item list \<Rightarrow> nat \<Rightarrow> calc_item list \<Rightarrow> bool" where
  "selection candidates k sel = (set sel \<subseteq> set candidates \<and> distinct sel \<and> length sel = k)"

lemma selection_take:
  "distinct candidates \<Longrightarrow> k \<le> length candidates \<Longrightarrow> selection candidates k (take k (sort_stable lt candidates))"
  using set_take_sort[of k lt candidates] by (simp add: selection_def)

lemma selection_pick: "distinct candidates \<Longrightarrow> k \<le> length candidates \<Longrightarrow> selection candidates k (pick rnd maximise candidates k q)"
  unfolding pick_def by (rule selection_take)

lemma selection_improve:
  "distinct candidates \<Longrightarrow> k \<le> length candidates \<Longrightarrow> selection candidates k current \<Longrightarrow>
     selection candidates k (improve rnd maximise fixed_items candidates k iter q current)"
proof (induction iter arbitrary: q current)
  case (Suc iter)
  then show ?case by (simp add: selection_pick split: option.split)
qed simp

lemma selection_bestSubset:
  assumes "distinct candidates"
  shows "selection candidates (min (length candidates) (nat (max 1 keepCount))) (bestSubset rnd candidates fixed_items keepCount maximise)"
proof (cases "length candidates \<le> nat (max 1 keepCount)")
  case True
  then show ?thesis using assms by (simp add: bestSubset_def selection_def min_def)
next
  case False
  then have k: "nat (max 1 keepCount) \<le> length candidates" "min (length candidates) (nat (max 1 keepCount)) = nat (max 1 keepCount)"
    by auto
  show ?thesis
    unfolding bestSubset_def Let_def k(2)
    using False assms k(1) selection_take[OF assms k(1)] selection_improve[OF assms k(1) selection_pick[OF assms k(1)]]
    by (simp only: if_False split: if_split) simp
qed

lemma length_bestSubset:
  "distinct candidates \<Longrightarrow> 1 \<le> k \<Longrightarrow> k \<le> int (length candidates) \<Longrightarrow>
     length (bestSubset rnd candidates fixed_items k maximise) = nat k"
  using selection_bestSubset[of candidates k rnd fixed_items maximise] by (auto simp: selection_def)

lemma keep_step:
  assumes "distinct xs" "xs \<noteq> []" "0 < d"
  shows "set (bestSubset rnd xs fixed_items (int (length xs) - d) maximise) \<subseteq> set xs"
    and "distinct (bestSubset rnd xs fixed_items (int (length xs) - d) maximise)"
    and "1 \<le> length (bestSubset rnd xs fixed_items (int (length xs) - d) maximise)"
    and "int (length xs) - d \<le> int (length (bestSubset rnd xs fixed_items (int (length xs) - d) maximise))"
proof -
  note s = selection_bestSubset[OF assms(1), of "int (length xs) - d" rnd fixed_items maximise, unfolded selection_def]
  show "set (bestSubset rnd xs fixed_items (int (length xs) - d) maximise) \<subseteq> set xs"
    "distinct (bestSubset rnd xs fixed_items (int (length xs) - d) maximise)" using s by blast+
  have "length (bestSubset rnd xs fixed_items (int (length xs) - d) maximise) = min (length xs) (nat (max 1 (int (length xs) - d)))"
    using s by blast
  moreover have "0 < length xs" using assms(2) by simp
  ultimately show "1 \<le> length (bestSubset rnd xs fixed_items (int (length xs) - d) maximise)"
    "int (length xs) - d \<le> int (length (bestSubset rnd xs fixed_items (int (length xs) - d) maximise))"
    using assms(3) by linarith+
qed

lemma keep_after:
  assumes "distinct droppable" "droppable \<noteq> []"
  shows "set (keep_after rnd droppable fixed_items dl dh) \<subseteq> set droppable"
    and "distinct (keep_after rnd droppable fixed_items dl dh)"
    and "1 \<le> length (keep_after rnd droppable fixed_items dl dh)"
    and "int (length droppable) - max 0 dl - max 0 dh \<le> int (length (keep_after rnd droppable fixed_items dl dh))"
proof -
  define keep1 where "keep1 = (if dl > 0 then bestSubset rnd droppable fixed_items (int (length droppable) - dl) True else droppable)"
  have n0: "1 \<le> length droppable" using assms(2) by (cases droppable) simp_all
  have k1: "set keep1 \<subseteq> set droppable \<and> distinct keep1 \<and> 1 \<le> length keep1 \<and> int (length droppable) - max 0 dl \<le> int (length keep1)"
    using keep_step[OF assms, of dl rnd fixed_items True] assms n0 by (cases "dl > 0") (simp_all add: keep1_def)
  then have n1: "keep1 \<noteq> []" by auto
  have e: "keep_after rnd droppable fixed_items dl dh =
      (if dh > 0 then bestSubset rnd keep1 fixed_items (int (length keep1) - dh) False else keep1)"
    unfolding keep_after_def keep1_def Let_def ..
  have k2: "set (keep_after rnd droppable fixed_items dl dh) \<subseteq> set keep1 \<and> distinct (keep_after rnd droppable fixed_items dl dh) \<and>
      1 \<le> length (keep_after rnd droppable fixed_items dl dh) \<and>
      int (length keep1) - max 0 dh \<le> int (length (keep_after rnd droppable fixed_items dl dh))"
    using keep_step[OF _ n1, of dh rnd fixed_items False] k1 unfolding e by (cases "dh > 0") simp_all
  show "set (keep_after rnd droppable fixed_items dl dh) \<subseteq> set droppable" "distinct (keep_after rnd droppable fixed_items dl dh)"
    "1 \<le> length (keep_after rnd droppable fixed_items dl dh)" using k1 k2 by blast+
  show "int (length droppable) - max 0 dl - max 0 dh \<le> int (length (keep_after rnd droppable fixed_items dl dh))"
    using k1 k2 by linarith
qed

text \<open>The outcome of the rules on a list of items, as one predicate.\<close>

definition fair_drop :: "drop_rules \<Rightarrow> calc_item list \<Rightarrow> calc_item list \<Rightarrow> nat list \<Rightarrow> bool" where
  "fair_drop r items kept dropped =
     (set kept \<subseteq> set items \<and> distinct kept \<and>
      set dropped = it_assignmentID ` set items - it_assignmentID ` set kept \<and> sorted_wrt (<) dropped \<and>
      set (filter (never_dropped r) items) \<subseteq> set kept \<and>
      (filter (\<lambda>it. \<not> never_dropped r it) items \<noteq> [] \<longrightarrow> filter (\<lambda>it. \<not> never_dropped r it) kept \<noteq> []) \<and>
      int (length dropped) \<le> max 0 (dr_DropLowest r) + max 0 (dr_DropHighest r))"

lemma fair_drop_none: "distinct items \<Longrightarrow> fair_drop r items items []"
  by (auto simp: fair_drop_def)

lemma length_not_kept:
  assumes "distinct (map f xs)" "set ys \<subseteq> set xs" "distinct ys"
  shows "length (filter (\<lambda>i. i \<notin> f ` set ys) (map f xs)) = length xs - length ys"
proof -
  have "set (filter (\<lambda>i. i \<notin> f ` set ys) (map f xs)) = f ` (set xs - set ys)"
    using assms(1,2) by (auto simp: distinct_map inj_on_def)
  moreover have "distinct (filter (\<lambda>i. i \<notin> f ` set ys) (map f xs))" using assms(1) by (rule distinct_filter)
  ultimately have "length (filter (\<lambda>i. i \<notin> f ` set ys) (map f xs)) = card (f ` (set xs - set ys))"
    using distinct_card by metis
  also have "\<dots> = card (set xs - set ys)"
    using assms(1) by (intro card_image) (auto simp: distinct_map intro: inj_on_subset)
  also have "\<dots> = length xs - length ys"
    using assms by (simp add: card_Diff_subset distinct_card distinct_map)
  finally show ?thesis .
qed

lemma fair_drop_split:
  assumes d: "distinct (map it_assignmentID items)"
    and n: "filter (\<lambda>it. \<not> never_dropped r it) items \<noteq> []"
    and e: "split_items rnd r (filter (\<lambda>it. \<not> never_dropped r it) items) (filter (never_dropped r) items) = (kept, dropped)"
  shows "fair_drop r items kept dropped"
proof -
  define xs where "xs = filter (\<lambda>it. \<not> never_dropped r it) items"
  define dl where "dl = min (dr_DropLowest r) (int (length xs) - 1)"
  define dh where "dh = dropHighest_eff (length xs) dl (dr_DropHighest r)"
  define keep where "keep = keep_after rnd xs (filter (never_dropped r) items) dl dh"
  have dx: "distinct xs" "distinct items" using d by (simp_all add: xs_def distinct_map)
  have dm: "distinct (map it_assignmentID xs)" using d unfolding xs_def by (rule distinct_map_filter)
  have xs: "xs \<noteq> []" using n by (simp add: xs_def)
  note k = keep_after[OF dx(1) xs, where rnd = rnd and fixed_items = "filter (never_dropped r) items" and dl = dl and dh = dh,
    folded keep_def]
  have kept: "kept = keep @ filter (never_dropped r) items"
    and dropped: "dropped = sort (filter (\<lambda>i. i \<notin> it_assignmentID ` set keep) (map it_assignmentID xs))"
    using e by (simp_all add: split_items_def Let_def xs_def[symmetric] dl_def[symmetric] dh_def[symmetric] keep_def[symmetric])
  have kx: "set keep \<subseteq> set xs" using k(1) .
  have inj: "inj_on it_assignmentID (set items)" using d by (simp add: distinct_map)
  have dh_le: "max 0 dh \<le> max 0 (dr_DropHighest r)" and dl_le: "max 0 dl \<le> max 0 (dr_DropLowest r)"
    by (simp_all add: dh_def dl_def dropHighest_eff_def)
  have "length dropped = length xs - length keep"
    unfolding dropped length_sort by (rule length_not_kept[OF dm kx k(2)])
  then have len: "int (length dropped) \<le> max 0 (dr_DropLowest r) + max 0 (dr_DropHighest r)"
    using k(4) dh_le dl_le by linarith
  have ids: "set dropped = it_assignmentID ` set items - it_assignmentID ` set kept"
    using inj kx by (auto simp: dropped kept xs_def inj_on_def)
  have dk: "distinct kept" using k(2) dx(2) kx by (auto simp: kept xs_def)
  have "filter (\<lambda>it. \<not> never_dropped r it) keep = keep" using kx by (auto simp: filter_id_conv xs_def)
  moreover have "keep \<noteq> []" using k(3) by auto
  ultimately have "filter (\<lambda>it. \<not> never_dropped r it) kept \<noteq> []" unfolding kept by simp
  moreover have "sorted_wrt (<) dropped"
  proof -
    have "distinct dropped" using dm unfolding dropped distinct_sort by (rule distinct_filter)
    moreover have "sorted dropped" by (simp add: dropped)
    ultimately show ?thesis by (simp add: strict_sorted_iff)
  qed
  moreover have "set kept \<subseteq> set items" using kx by (auto simp: kept xs_def)
  ultimately show ?thesis
    using len ids dk by (simp add: fair_drop_def kept)
qed

text \<open>
  C25. On items of different assignments the drop rules split the items: what is kept and what is
  reported as dropped share no assignment and cover all of them; the dropped ids are listed in
  increasing order, without repetition, and are at most \<open>drop_lowest + drop_highest\<close>; a \<open>never_drop\<close>
  item is always kept; and where some item may be dropped, at least one such item is kept.
\<close>

theorem drop_partition:
  assumes "distinct (map it_assignmentID items)" "applyDropRules rnd items r = (kept, dropped)"
  shows "fair_drop r items kept dropped"
proof -
  have d: "distinct items" using assms(1) by (simp add: distinct_map)
  show ?thesis
    using assms fair_drop_none[OF d] fair_drop_split[OF assms(1)]
    by (auto simp: applyDropRules_def split: if_splits)
qed

definition sample_item :: "nat \<Rightarrow> int \<Rightarrow> int \<Rightarrow> calc_item" where
  "sample_item i score possible =
     \<lparr>it_assignmentID = i, it_possible = of_int possible, it_score = of_int score, it_graded = True\<rparr>"

definition sample_items :: "calc_item list" where
  "sample_items = [sample_item 1 8 12, sample_item 2 4 4, sample_item 3 1 4]"

lemma sample_drop:
  "let (kept, dropped) = applyDropRules f64 sample_items \<lparr>dr_DropLowest = 1, dr_DropHighest = 0, dr_NeverDrop = []\<rparr>
   in map it_assignmentID kept = [2, 1] \<and> dropped = [3]"
  by code_simp

theorem drop_partition_witness:
  "\<exists>kept dropped. applyDropRules f64 sample_items \<lparr>dr_DropLowest = 1, dr_DropHighest = 0, dr_NeverDrop = []\<rparr> = (kept, dropped) \<and>
     dropped = [3] \<and> fair_drop \<lparr>dr_DropLowest = 1, dr_DropHighest = 0, dr_NeverDrop = []\<rparr> sample_items kept dropped"
proof -
  obtain kept dropped where e:
    "applyDropRules f64 sample_items \<lparr>dr_DropLowest = 1, dr_DropHighest = 0, dr_NeverDrop = []\<rparr> = (kept, dropped)"
    by (rule prod.exhaust)
  moreover have "fair_drop \<lparr>dr_DropLowest = 1, dr_DropHighest = 0, dr_NeverDrop = []\<rparr> sample_items kept dropped"
    by (rule drop_partition[OF _ e]) (simp add: sample_items_def sample_item_def)
  ultimately show ?thesis using sample_drop by auto
qed

section \<open>The choice is the best one\<close>

text \<open>The first \<open>k\<close> of a list in descending order of \<open>v\<close> have the largest sum of \<open>v\<close>.\<close>

lemma sum_bounded_const:
  fixes v :: "'a \<Rightarrow> rat"
  assumes "finite A" "finite B" "card A = card B" "\<And>a b. a \<in> A \<Longrightarrow> b \<in> B \<Longrightarrow> v b \<le> v a"
  shows "sum v B \<le> sum v A"
proof (cases "A = {}")
  case True
  then show ?thesis using assms(2,3) by simp
next
  case False
  define m where "m = Min (v ` A)"
  have "m \<in> v ` A" using False assms(1) unfolding m_def by (intro Min_in) auto
  then obtain a where a: "a \<in> A" "v a = m" by blast
  have "sum v B \<le> of_nat (card B) * m"
    using assms(4)[OF a(1)] a(2) by (intro sum_bounded_above) auto
  also have "of_nat (card B) * m = of_nat (card A) * m" by (simp add: assms(3))
  also have "\<dots> \<le> sum v A"
    using assms(1) by (intro sum_bounded_below) (simp add: m_def)
  finally show ?thesis .
qed

lemma take_best:
  fixes v :: "'a \<Rightarrow> rat"
  assumes ys: "distinct ys" "sorted_wrt (\<lambda>a b. v b \<le> v a) ys" "k \<le> length ys"
    and T: "set T \<subseteq> set ys" "distinct T" "length T = k"
  shows "sum_list (map v T) \<le> sum_list (map v (take k ys))"
proof -
  let ?A = "set (take k ys)" and ?T = "set T"
  have dt: "distinct (take k ys)" using ys(1) by simp
  have card: "card ?A = card ?T" using T ys by (simp add: distinct_card)
  have le: "v b \<le> v a" if "a \<in> ?A - ?T" "b \<in> ?T - ?A" for a b
  proof -
    have "b \<in> set (drop k ys)" using that(2) T(1) append_take_drop_id[of k ys] by (metis DiffD1 DiffD2 UnE set_append subsetD)
    moreover have "sorted_wrt (\<lambda>a b. v b \<le> v a) (take k ys @ drop k ys)" using ys(2) by simp
    ultimately show ?thesis using that(1) unfolding sorted_wrt_append by blast
  qed
  have fin: "finite ?A" "finite ?T" by simp_all
  have c: "card (?A - ?T) = card (?T - ?A)"
    using card by (simp add: card_Diff_subset_Int Int_commute)
  have "sum v (?T - ?A) \<le> sum v (?A - ?T)"
    by (rule sum_bounded_const) (use c le in auto)
  moreover have "sum v ?T = sum v (?T \<inter> ?A) + sum v (?T - ?A)" "sum v ?A = sum v (?T \<inter> ?A) + sum v (?A - ?T)"
    using sum.Int_Diff[OF fin(2), of v ?A] sum.Int_Diff[OF fin(1), of v ?T] by (simp_all add: Int_commute)
  ultimately have "sum v ?T \<le> sum v ?A" by linarith
  then show ?thesis using T(2) dt by (simp add: sum_list_distinct_conv_sum_set)
qed

lemma before_order:
  "before m v a b \<Longrightarrow> \<not> before m v b a" "\<not> before m v b a \<Longrightarrow> \<not> before m v c b \<Longrightarrow> \<not> before m v c a"
  by (auto simp: before_def split: if_splits)

text \<open>\<open>toward\<close> turns both directions into maximisation.\<close>

definition toward :: "bool \<Rightarrow> rat \<Rightarrow> rat" where
  "toward maximise x = (if maximise then x else - x)"

lemma sum_list_toward: "sum_list (map (\<lambda>x. toward m (f x)) xs) = toward m (sum_list (map f xs))"
  by (induction xs) (auto simp: toward_def)

lemma pick_best:
  assumes "distinct candidates" "k \<le> length candidates" "selection candidates k T"
  shows "toward m (sum_list (map (gain rnd q) T)) \<le> toward m (sum_list (map (gain rnd q) (pick rnd m candidates k q)))"
proof -
  let ?ys = "sort_stable (before m (gain rnd q)) candidates"
  have "sorted_wrt (\<lambda>a b. \<not> before m (gain rnd q) b a) ?ys"
    by (rule sorted_sort_stable[OF before_order]) assumption+
  then have "sorted_wrt (\<lambda>a b. toward m (gain rnd q b) \<le> toward m (gain rnd q a)) ?ys"
    by (rule sorted_wrt_mono_rel[rotated]) (auto simp: before_def toward_def split: if_splits)
  then show ?thesis
    using take_best[of ?ys "\<lambda>x. toward m (gain rnd q x)" k T] assms
    by (simp add: selection_def pick_def sum_list_toward)
qed

text \<open>Earned and possible points of a selection together with the fixed items.\<close>

definition earned :: "calc_item list \<Rightarrow> calc_item list \<Rightarrow> rat" where
  "earned fixed_items sel = sum_list (map it_score (fixed_items @ sel))"

definition offered :: "calc_item list \<Rightarrow> calc_item list \<Rightarrow> rat" where
  "offered fixed_items sel = sum_list (map it_possible (fixed_items @ sel))"

lemma sum_with_exact: "sum_with (\<lambda>x. x) start f xs = start + sum_list (map f xs)"
  by (induction xs arbitrary: start) (auto simp: sum_with_def add.assoc)

lemma ratio_exact: "ratio (\<lambda>x. x) fixed_items sel =
    (if offered fixed_items sel = 0 then None else Some (earned fixed_items sel / offered fixed_items sel))"
  by (simp add: ratio_def sum_with_exact earned_def offered_def Let_def)

lemma sum_gain_exact: "sum_list (map (gain (\<lambda>x. x) q) sel) + (sum_list (map it_score fixed_items) - q * sum_list (map it_possible fixed_items))
    = earned fixed_items sel - q * offered fixed_items sel"
  by (induction sel) (auto simp: gain_def earned_def offered_def algebra_simps)

lemma pick_best_exact:
  assumes "distinct candidates" "k \<le> length candidates" "selection candidates k T"
  shows "toward m (earned fixed_items T - q * offered fixed_items T)
    \<le> toward m (earned fixed_items (pick (\<lambda>x. x) m candidates k q) - q * offered fixed_items (pick (\<lambda>x. x) m candidates k q))"
  using pick_best[OF assms, of m "\<lambda>x. x" q]
  unfolding sum_gain_exact[symmetric] toward_def by (auto split: if_splits)

definition eps :: rat where "eps = 1 / 10 ^ 12"

text \<open>
  \<open>near_best\<close>: no selection of the same size beats \<open>sel\<close> by more than the tolerance, scaled by
  the ratio of the points they offer.
\<close>

definition near_best :: "bool \<Rightarrow> calc_item list \<Rightarrow> calc_item list \<Rightarrow> nat \<Rightarrow> calc_item list \<Rightarrow> bool" where
  "near_best m fixed_items candidates k sel =
     (\<forall>T. selection candidates k T \<longrightarrow> 0 < offered fixed_items T \<longrightarrow>
        toward m (earned fixed_items T / offered fixed_items T)
          \<le> toward m (earned fixed_items sel / offered fixed_items sel) + eps * (offered fixed_items sel / offered fixed_items T))"

lemma toward_divide: "toward m (a / b) = toward m a / b"
  by (simp add: toward_def)

lemma toward_diff: "toward m (a - q * b) = toward m a - toward m q * b"
  by (simp add: toward_def)

lemma settled_near_best:
  assumes c: "distinct candidates" "k \<le> length candidates"
    and sel: "sel = pick (\<lambda>x. x) m candidates k q" "0 < offered fixed_items sel"
    and up: "toward m q \<le> toward m (earned fixed_items sel / offered fixed_items sel)"
    and stop: "toward m (earned fixed_items sel / offered fixed_items sel) \<le> toward m q + eps"
  shows "near_best m fixed_items candidates k sel"
  unfolding near_best_def
proof (intro allI impI)
  fix T assume T: "selection candidates k T" "0 < offered fixed_items T"
  let ?N = "earned fixed_items" and ?D = "offered fixed_items"
  have "toward m (?N T) - toward m q * ?D T \<le> toward m (?N sel) - toward m q * ?D sel"
    using pick_best_exact[OF c T(1), of m fixed_items q] unfolding sel(1)[symmetric] toward_diff .
  moreover have "toward m (?N sel) \<le> (toward m q + eps) * ?D sel"
    using stop sel(2) unfolding toward_divide by (simp add: pos_divide_le_eq)
  ultimately have "toward m (?N T) \<le> toward m q * ?D T + eps * ?D sel" by (simp add: algebra_simps)
  then have "toward m (?N T) / ?D T \<le> (toward m q * ?D T + eps * ?D sel) / ?D T"
    using T(2) by (simp add: divide_right_mono)
  also have "\<dots> = toward m q + eps * (?D sel / ?D T)" using T(2) by (simp add: add_divide_distrib)
  finally show "toward m (?N T / ?D T) \<le> toward m (?N sel / ?D sel) + eps * (?D sel / ?D T)"
    using up unfolding toward_divide by simp
qed

text \<open>The loop from a guess \<open>q\<close> that some selection attains.\<close>

lemma pick_not_worse:
  assumes c: "distinct candidates" "k \<le> length candidates"
    and prev: "selection candidates k prev" "0 < offered fixed_items prev" "q = earned fixed_items prev / offered fixed_items prev"
  shows "0 \<le> toward m (earned fixed_items (pick (\<lambda>x. x) m candidates k q))
      - toward m q * offered fixed_items (pick (\<lambda>x. x) m candidates k q)"
proof -
  have "earned fixed_items prev - q * offered fixed_items prev = 0" using prev(2,3) by simp
  moreover have "toward m 0 = 0" by (simp add: toward_def)
  ultimately show ?thesis
    using pick_best_exact[OF c prev(1), of m fixed_items q] by (simp only: toward_diff)
qed

lemma improve_outcome:
  assumes c: "distinct candidates" "k \<le> length candidates"
    and nn: "\<And>T. selection candidates k T \<Longrightarrow> 0 \<le> offered fixed_items T"
    and prev: "selection candidates k prev" "0 < offered fixed_items prev" "q = earned fixed_items prev / offered fixed_items prev"
    and r: "res = improve (\<lambda>x. x) m fixed_items candidates k iter (Some q) (pick (\<lambda>x. x) m candidates k q)"
  shows "offered fixed_items res = 0 \<or> near_best m fixed_items candidates k res \<or>
    toward m q + of_nat iter * eps \<le> toward m (earned fixed_items res / offered fixed_items res)"
  using prev r
proof (induction iter arbitrary: prev q)
  case (0 prev q)
  let ?cur = "pick (\<lambda>x. x) m candidates k q"
  have s: "selection candidates k ?cur" by (rule selection_pick[OF c])
  have "0 \<le> toward m (earned fixed_items ?cur) - toward m q * offered fixed_items ?cur"
    by (rule pick_not_worse[OF c 0(1-3)])
  then show ?case using nn[OF s] 0(4) by (cases "offered fixed_items ?cur = 0") (simp_all add: toward_divide pos_le_divide_eq)
next
  case (Suc iter prev q)
  let ?cur = "pick (\<lambda>x. x) m candidates k q" and ?N = "earned fixed_items" and ?D = "offered fixed_items"
  have s: "selection candidates k ?cur" by (rule selection_pick[OF c])
  have "0 \<le> toward m (?N ?cur) - toward m q * ?D ?cur"
    by (rule pick_not_worse[OF c Suc.prems(1-3)])
  then have up: "toward m q \<le> toward m (?N ?cur / ?D ?cur)" if "0 < ?D ?cur"
    using that by (simp add: toward_divide pos_le_divide_eq)
  consider "?D ?cur = 0" | "0 < ?D ?cur" using nn[OF s] by fastforce
  then show ?case
  proof cases
    case 1
    then have "res = ?cur" using Suc.prems(4) by (simp add: ratio_exact)
    with 1 show ?thesis by blast
  next
    case 2
    then have rat: "ratio (\<lambda>x. x) fixed_items ?cur = Some (?N ?cur / ?D ?cur)" by (simp add: ratio_exact)
    show ?thesis
    proof (cases "settled (\<lambda>x. x) m (?N ?cur / ?D ?cur) (Some q)")
      case True
      then have "res = ?cur" using Suc.prems(4) rat by simp
      moreover have "toward m (?N ?cur / ?D ?cur) \<le> toward m q + eps"
        using True by (auto simp: settled_def toward_def eps_def split: if_splits)
      ultimately show ?thesis using settled_near_best[OF c refl 2 up[OF 2]] by blast
    next
      case False
      then have "res = improve (\<lambda>x. x) m fixed_items candidates k iter (Some (?N ?cur / ?D ?cur)) (pick (\<lambda>x. x) m candidates k (?N ?cur / ?D ?cur))"
        using Suc.prems(4) rat by simp
      moreover have "toward m q + eps \<le> toward m (?N ?cur / ?D ?cur)"
        using False by (auto simp: settled_def toward_def eps_def split: if_splits)
      ultimately show ?thesis using Suc.IH[OF s 2 refl] by (auto simp: algebra_simps)
    qed
  qed
qed

lemma offered_nonneg:
  assumes "\<forall>it\<in>set (fixed_items @ candidates). 0 \<le> it_possible it" "set T \<subseteq> set candidates"
  shows "0 \<le> offered fixed_items T"
  unfolding offered_def using assms by (intro sum_list_nonneg) auto

lemma bestSubset_unfold:
  assumes "1 \<le> k" "k < length candidates" "0 < offered fixed_items candidates"
    "\<forall>it\<in>set (fixed_items @ candidates). 0 \<le> it_possible it"
  shows "bestSubset (\<lambda>x. x) candidates fixed_items (int k) m =
    improve (\<lambda>x. x) m fixed_items candidates k 100 None (pick (\<lambda>x. x) m candidates k 0)"
proof -
  have "list_ex (\<lambda>it. it_possible it > 0) candidates \<or> sum_list (map it_possible fixed_items) \<noteq> 0"
  proof (rule ccontr)
    assume a: "\<not> ?thesis"
    then have "\<forall>it\<in>set candidates. it_possible it \<le> 0" by (auto simp: list_ex_iff not_less)
    then have "\<forall>it\<in>set candidates. it_possible it = 0" using assms(4) by (auto intro: antisym)
    then have "sum_list (map it_possible candidates) = 0" by (induction candidates) simp_all
    then show False using a assms(3) by (simp add: offered_def)
  qed
  then show ?thesis using assms(1,2) by (auto simp: bestSubset_def sum_with_exact Let_def)
qed



end
