(* ===== verification/Models.thy ===== *)
theory Models imports Go_Time Go_Strings begin

text \<open>
  The rows the grading, due-date and module components share (\<open>internal/domain/models\<close>): the
  columns these components read or write, in the order of the structs. Pointers are options,
  workflow states and types are the strings the code stores. Also the workflow state machines of
  \<open>state_transitions.go\<close>.
\<close>

section \<open>Assignments and submissions\<close>

record assignment =
  asg_ID :: nat
  asg_CourseID :: nat
  asg_DueAt :: "instant option"
  asg_UnlockAt :: "instant option"
  asg_LockAt :: "instant option"
  asg_PointsPossible :: "rat option"
  asg_GradingType :: string
  asg_SubmissionTypes :: string
  asg_GroupID :: "nat option"
  asg_WorkflowState :: string
  asg_Published :: bool
  asg_PostPolicy :: string
  asg_GroupCategoryID :: "nat option"
  asg_OnlyVisibleToOverrides :: bool
  asg_GradingStandardID :: "nat option"
  asg_AllowedAttempts :: "int option"
  asg_AllowedExtensions :: string
  asg_AnnotatableAttachmentID :: "nat option"
  asg_GradeGroupStudentsIndividually :: bool
  asg_ModeratedGrading :: bool
  asg_GradesPublishedAt :: "instant option"
  asg_OmitFromFinalGrade :: bool

record submission =
  sub_ID :: nat
  sub_AssignmentID :: nat
  sub_UserID :: nat
  sub_SubmissionType :: "string option"
  sub_Body :: "string option"
  sub_URL :: "string option"
  sub_Score :: "rat option"
  sub_Grade :: "string option"
  sub_EnteredScore :: "rat option"
  sub_EnteredGrade :: "string option"
  sub_PointsDeducted :: "rat option"
  sub_GradedAt :: "instant option"
  sub_GraderID :: "nat option"
  sub_SubmittedAt :: "instant option"
  sub_Attempt :: int
  sub_Late :: bool
  sub_Missing :: bool
  sub_Excused :: bool
  sub_Attachments :: "string option"
  sub_WorkflowState :: string
  sub_PostedAt :: "instant option"
  sub_LatePolicyStatus :: "string option"
  sub_SecondsLateOverride :: "int option"
  sub_CachedDueDate :: "instant option"
  sub_ExtraAttempts :: "int option"

definition IsPublished :: "assignment \<Rightarrow> bool" where
  "IsPublished a =
     (if asg_WorkflowState a = ''deleted'' then False
      else if asg_WorkflowState a = ''published'' then True
      else asg_WorkflowState a = [] \<and> asg_Published a)"

definition UsesManualPostPolicy :: "assignment \<Rightarrow> bool" where
  "UsesManualPostPolicy a = (asg_PostPolicy a = ''manual'')"

text \<open>A moderated assignment's grades exist once the moderator releases them.\<close>

definition GradesPublished :: "assignment \<Rightarrow> bool" where
  "GradesPublished a = (\<not> asg_ModeratedGrading a \<or> asg_GradesPublishedAt a \<noteq> None)"

definition IsGroupAssignment :: "assignment \<Rightarrow> bool" where
  "IsGroupAssignment a = (case asg_GroupCategoryID a of Some g \<Rightarrow> g > 0 | None \<Rightarrow> False)"

definition GradesGroupTogether :: "assignment \<Rightarrow> bool" where
  "GradesGroupTogether a = (IsGroupAssignment a \<and> \<not> asg_GradeGroupStudentsIndividually a)"

text \<open>0 means unlimited.\<close>

definition AttemptsLimit :: "assignment \<Rightarrow> int" where
  "AttemptsLimit a = (case asg_AllowedAttempts a of Some n \<Rightarrow> if n \<le> 0 then 0 else n | None \<Rightarrow> 0)"

section \<open>Assignment groups and grading periods\<close>

record assignment_group =
  grp_ID :: nat
  grp_Name :: string
  grp_GroupWeight :: rat
  grp_Rules :: string
  grp_WorkflowState :: string

record grading_period =
  per_ID :: nat
  per_Title :: string
  per_StartDate :: instant
  per_EndDate :: instant
  per_CloseDate :: "instant option"
  per_Weight :: "rat option"
  per_IsClosed :: bool
  per_WorkflowState :: string

end
