(* ===== verification/Grade_Calc.thy ===== *)
theory Grade_Calc imports Drop_Rules Models "HOL-Library.Multiset" begin

text \<open>
  The course grade calculator (\<open>internal/service/grade_calculator.go\<close>): which assignments count,
  the grade of a group after its drop rules, the weighted and unweighted totals, and grading
  periods. Arithmetic is binary64 after every operation, without fused multiply-add. The scores
  of the groups are filled in the iteration order of a Go map, which is unspecified: it is the
  parameter \<open>visit\<close>, any rearrangement of the map's keys.
\<close>

section \<open>Grades\<close>

record group_grade =
  gg_AssignmentGroupID :: nat
  gg_Name :: string
  gg_Weight :: rat
  gg_CurrentScore :: rat
  gg_CurrentPossible :: rat
  gg_FinalScore :: rat
  gg_FinalPossible :: rat
  gg_Dropped :: "nat list"
  gg_FinalDropped :: "nat list"
  gg_SubmissionCount :: int

record score_set =
  ss_CurrentScore :: "rat option"
  ss_FinalScore :: "rat option"
  ss_CurrentPoints :: rat
  ss_CurrentPossible :: rat
  ss_FinalPoints :: rat
  ss_FinalPossible :: rat
  ss_Groups :: "group_grade list"

record period_grade =
  pg_GradingPeriodID :: nat
  pg_Title :: string
  pg_Weight :: rat
  pg_Scores :: score_set

record course_grade_input =
  gi_Assignments :: "assignment list"
  gi_Groups :: "assignment_group list"
  gi_Submissions :: "nat \<Rightarrow> submission option"
  gi_ApplyGroupWeights :: bool
  gi_Unassigned :: "nat \<Rightarrow> bool"
  gi_PeriodOf :: "nat \<Rightarrow> nat"
  gi_Periods :: "grading_period list"
  gi_WeightedPeriods :: bool

record course_grade =
  cg_Scores :: score_set
  cg_Periods :: "period_grade list"

definition round2 :: "rat \<Rightarrow> rat" where
  "round2 f = fdiv (math_Round (fmul f 100)) 100"

section \<open>What counts\<close>

definition item_possible :: "assignment \<Rightarrow> rat" where
  "item_possible a = (case asg_PointsPossible a of Some p \<Rightarrow> if p > 0 then p else 0 | None \<Rightarrow> 0)"

definition item_score :: "submission option \<Rightarrow> rat option" where
  "item_score sub =
     (case sub of Some s \<Rightarrow> if sub_WorkflowState s \<noteq> ''pending_review'' then sub_Score s else None | None \<Rightarrow> None)"

definition countedItem :: "assignment \<Rightarrow> submission option \<Rightarrow> (nat \<Rightarrow> bool) \<Rightarrow> calc_item option" where
  "countedItem a sub unassigned =
     (if \<not> IsPublished a \<or> asg_GradingType a = ''not_graded'' \<or> asg_OmitFromFinalGrade a \<or> unassigned (asg_ID a) then None
      else if (case sub of Some s \<Rightarrow> sub_Excused s | None \<Rightarrow> False) then None
      else (case item_score sub of
          Some sc \<Rightarrow> Some \<lparr>it_assignmentID = asg_ID a, it_possible = item_possible a, it_score = sc, it_graded = True\<rparr>
        | None \<Rightarrow>
            (if item_possible a = 0 then None
             else Some \<lparr>it_assignmentID = asg_ID a, it_possible = item_possible a, it_score = 0, it_graded = False\<rparr>)))"

section \<open>Groups\<close>

definition empty_group :: "nat \<Rightarrow> string \<Rightarrow> rat \<Rightarrow> group_grade" where
  "empty_group i name w =
     \<lparr>gg_AssignmentGroupID = i, gg_Name = name, gg_Weight = w, gg_CurrentScore = 0, gg_CurrentPossible = 0,
      gg_FinalScore = 0, gg_FinalPossible = 0, gg_Dropped = [], gg_FinalDropped = [], gg_SubmissionCount = 0\<rparr>"

record group_table =
  gt_index :: "nat \<Rightarrow> nat option"
  gt_rows :: "group_grade list"
  gt_rules :: "nat \<Rightarrow> drop_rules"

definition add_group :: "(string \<Rightarrow> json option) \<Rightarrow> group_table \<Rightarrow> assignment_group \<Rightarrow> group_table" where
  "add_group parse t g =
     (if grp_WorkflowState g = ''deleted'' then t
      else \<lparr>gt_index = (gt_index t)(grp_ID g := Some (length (gt_rows t))),
            gt_rows = gt_rows t @ [empty_group (grp_ID g) (grp_Name g) (grp_GroupWeight g)],
            gt_rules = (gt_rules t)(grp_ID g := ParseDropRules parse (grp_Rules g))\<rparr>)"

definition no_groups :: group_table where
  "no_groups = \<lparr>gt_index = (\<lambda>_. None), gt_rows = [], gt_rules = (\<lambda>_. no_rules)\<rparr>"

definition item_group :: "group_table \<Rightarrow> assignment \<Rightarrow> nat" where
  "item_group t a =
     (let gid = (case asg_GroupID a of Some g \<Rightarrow> g | None \<Rightarrow> 0)
      in case gt_index t gid of None \<Rightarrow> 0 | Some _ \<Rightarrow> gid)"

definition counts :: "course_grade_input \<Rightarrow> assignment \<Rightarrow> calc_item option" where
  "counts inp a = countedItem a (gi_Submissions inp (asg_ID a)) (gi_Unassigned inp)"

definition items_by_group :: "group_table \<Rightarrow> course_grade_input \<Rightarrow> assignment list \<Rightarrow> (nat \<times> calc_item) list" where
  "items_by_group t inp assignments =
     List.map_filter (\<lambda>a. map_option (\<lambda>it. (item_group t a, it)) (counts inp a)) assignments"

definition group_items :: "(nat \<times> calc_item) list \<Rightarrow> nat \<Rightarrow> calc_item list" where
  "group_items items gid = map snd (filter (\<lambda>(g, it). g = gid) items)"

definition add_ungrouped :: "(nat \<times> calc_item) list \<Rightarrow> group_table \<Rightarrow> group_table" where
  "add_ungrouped items t =
     (if group_items items 0 \<noteq> []
      then t\<lparr>gt_index := (gt_index t)(0 := Some (length (gt_rows t))), gt_rows := gt_rows t @ [empty_group 0 ''Ungrouped'' 0]\<rparr>
      else t)"

definition fill_group :: "drop_rules \<Rightarrow> calc_item list \<Rightarrow> group_grade \<Rightarrow> group_grade" where
  "fill_group r items g =
     (let graded = filter it_graded items;
          (keptCur, droppedCur) = applyDropRules f64 graded r;
          (keptFin, droppedFin) = applyDropRules f64 items r
      in g\<lparr>gg_SubmissionCount := int (length graded),
           gg_CurrentScore := sum_with f64 (gg_CurrentScore g) it_score keptCur,
           gg_CurrentPossible := sum_with f64 (gg_CurrentPossible g) it_possible keptCur,
           gg_Dropped := gg_Dropped g @ droppedCur,
           gg_FinalScore := sum_with f64 (gg_FinalScore g) it_score keptFin,
           gg_FinalPossible := sum_with f64 (gg_FinalPossible g) it_possible keptFin,
           gg_FinalDropped := gg_FinalDropped g @ droppedFin\<rparr>)"

text \<open>\<open>groups[groupIndex[gid]]\<close>; a missing key reads as index 0.\<close>

definition fill_row :: "group_table \<Rightarrow> (nat \<times> calc_item) list \<Rightarrow> group_grade list \<Rightarrow> nat \<Rightarrow> group_grade list" where
  "fill_row t items rows gid =
     (let i = (case gt_index t gid of Some i \<Rightarrow> i | None \<Rightarrow> 0)
      in rows[i := fill_group (gt_rules t gid) (group_items items gid) (rows ! i)])"

definition score_groups :: "(string \<Rightarrow> json option) \<Rightarrow> (nat list \<Rightarrow> nat list) \<Rightarrow> assignment list \<Rightarrow> course_grade_input \<Rightarrow>
    group_grade list" where
  "score_groups parse visit assignments inp =
     (let t0 = foldl (add_group parse) no_groups (gi_Groups inp);
          items = items_by_group t0 inp assignments;
          t = add_ungrouped items t0
      in foldl (fill_row t items) (gt_rows t) (visit (remdups (map fst items))))"

definition group_points :: "bool \<Rightarrow> group_grade \<Rightarrow> rat" where
  "group_points final g = (if final then gg_FinalScore g else gg_CurrentScore g)"

definition group_possible :: "bool \<Rightarrow> group_grade \<Rightarrow> rat" where
  "group_possible final g = (if final then gg_FinalPossible g else gg_CurrentPossible g)"

fun combineGroups_loop :: "bool \<Rightarrow> group_grade list \<Rightarrow> rat \<Rightarrow> rat \<Rightarrow> nat \<Rightarrow> rat \<times> rat \<times> nat" where
  "combineGroups_loop final [] acc weight used = (acc, weight, used)"
| "combineGroups_loop final (g # gs) acc weight used =
     (if gg_AssignmentGroupID g = 0 \<or> group_possible final g \<le> 0 then combineGroups_loop final gs acc weight used
      else combineGroups_loop final gs
        (fadd acc (fmul (fdiv (group_points final g) (group_possible final g)) (gg_Weight g)))
        (fadd weight (gg_Weight g)) (used + 1))"

definition combineGroups :: "group_grade list \<Rightarrow> bool \<Rightarrow> rat option" where
  "combineGroups groups final =
     (let (acc, weight, used) = combineGroups_loop final groups 0 0 0
      in if used = 0 \<or> weight = 0 then None
         else Some (round2 (if weight < 100 then fdiv (fmul acc 100) weight else acc)))"

definition percentage :: "rat \<Rightarrow> rat \<Rightarrow> rat option" where
  "percentage points possible = (if possible > 0 then Some (round2 (fmul (fdiv points possible) 100)) else None)"

definition scoreAssignments :: "(string \<Rightarrow> json option) \<Rightarrow> (nat list \<Rightarrow> nat list) \<Rightarrow> assignment list \<Rightarrow> course_grade_input \<Rightarrow>
    score_set" where
  "scoreAssignments parse visit assignments inp =
     (let groups = score_groups parse visit assignments inp;
          weighted = (gi_ApplyGroupWeights inp \<and> gi_Groups inp \<noteq> []);
          summed = filter (\<lambda>g. \<not> (weighted \<and> gg_AssignmentGroupID g = 0)) groups;
          cp = sum_with f64 0 gg_CurrentScore summed;
          cq = sum_with f64 0 gg_CurrentPossible summed;
          fp = sum_with f64 0 gg_FinalScore summed;
          fq = sum_with f64 0 gg_FinalPossible summed
      in \<lparr>ss_CurrentScore = (if weighted then combineGroups groups False else percentage cp cq),
          ss_FinalScore = (if weighted then combineGroups groups True else percentage fp fq),
          ss_CurrentPoints = cp, ss_CurrentPossible = cq, ss_FinalPoints = fp, ss_FinalPossible = fq, ss_Groups = groups\<rparr>)"

section \<open>Grading periods\<close>

definition period_pct :: "bool \<Rightarrow> period_grade \<Rightarrow> rat option" where
  "period_pct final p = (if final then ss_FinalScore (pg_Scores p) else ss_CurrentScore (pg_Scores p))"

fun combinePeriods_loop :: "bool \<Rightarrow> period_grade list \<Rightarrow> rat \<Rightarrow> rat \<Rightarrow> nat \<Rightarrow> rat \<times> rat \<times> nat" where
  "combinePeriods_loop final [] acc weight used = (acc, weight, used)"
| "combinePeriods_loop final (p # ps) acc weight used =
     (case period_pct final p of
        None \<Rightarrow> combinePeriods_loop final ps acc (if final then fadd weight (pg_Weight p) else weight) used
      | Some pct \<Rightarrow> combinePeriods_loop final ps (fadd acc (fdiv (fmul pct (pg_Weight p)) 100)) (fadd weight (pg_Weight p)) (used + 1))"

definition combinePeriods :: "period_grade list \<Rightarrow> bool \<Rightarrow> rat option" where
  "combinePeriods periods final =
     (let (acc, weight, used) = combinePeriods_loop final periods 0 0 0
      in if used = 0 then None else if weight = 0 then Some 0
         else Some (round2 (fdiv (fmul acc 100) (min weight 100))))"

definition merge_group :: "group_grade list \<Rightarrow> group_grade \<Rightarrow> group_grade list" where
  "merge_group rows g =
     (let add = (\<lambda>cur. cur\<lparr>gg_CurrentScore := fadd (gg_CurrentScore cur) (gg_CurrentScore g),
            gg_CurrentPossible := fadd (gg_CurrentPossible cur) (gg_CurrentPossible g),
            gg_FinalScore := fadd (gg_FinalScore cur) (gg_FinalScore g),
            gg_FinalPossible := fadd (gg_FinalPossible cur) (gg_FinalPossible g),
            gg_SubmissionCount := gg_SubmissionCount cur + gg_SubmissionCount g,
            gg_Dropped := gg_Dropped cur @ gg_Dropped g,
            gg_FinalDropped := gg_FinalDropped cur @ gg_FinalDropped g\<rparr>)
      in if list_ex (\<lambda>cur. gg_AssignmentGroupID cur = gg_AssignmentGroupID g) rows
         then map (\<lambda>cur. if gg_AssignmentGroupID cur = gg_AssignmentGroupID g then add cur else cur) rows
         else rows @ [add (empty_group (gg_AssignmentGroupID g) (gg_Name g) (gg_Weight g))])"

definition mergeGroupGrades :: "period_grade list \<Rightarrow> group_grade list" where
  "mergeGroupGrades periods = foldl merge_group [] (concat (map (\<lambda>p. ss_Groups (pg_Scores p)) periods))"

definition grade_period :: "(string \<Rightarrow> json option) \<Rightarrow> (nat list \<Rightarrow> nat list) \<Rightarrow> course_grade_input \<Rightarrow> grading_period \<Rightarrow>
    period_grade" where
  "grade_period parse visit inp p =
     \<lparr>pg_GradingPeriodID = per_ID p, pg_Title = per_Title p,
      pg_Weight = (case per_Weight p of Some w \<Rightarrow> w | None \<Rightarrow> 0),
      pg_Scores = scoreAssignments parse visit (filter (\<lambda>a. gi_PeriodOf inp (asg_ID a) = per_ID p) (gi_Assignments inp)) inp\<rparr>"

definition CalculateCourseGrade :: "(string \<Rightarrow> json option) \<Rightarrow> (nat list \<Rightarrow> nat list) \<Rightarrow> course_grade_input \<Rightarrow> course_grade" where
  "CalculateCourseGrade parse visit inp =
     (if gi_Periods inp = []
      then \<lparr>cg_Scores = scoreAssignments parse visit (gi_Assignments inp) inp, cg_Periods = []\<rparr>
      else let periods = map (grade_period parse visit inp) (sort_stable_by per_StartDate (gi_Periods inp));
               total = (\<lambda>f. sum_with f64 0 (\<lambda>p. f (pg_Scores p)) periods)
           in if \<not> gi_WeightedPeriods inp
              then \<lparr>cg_Scores = scoreAssignments parse visit (gi_Assignments inp) inp, cg_Periods = periods\<rparr>
              else \<lparr>cg_Scores =
                     \<lparr>ss_CurrentScore = combinePeriods periods False, ss_FinalScore = combinePeriods periods True,
                      ss_CurrentPoints = total ss_CurrentPoints, ss_CurrentPossible = total ss_CurrentPossible,
                      ss_FinalPoints = total ss_FinalPoints, ss_FinalPossible = total ss_FinalPossible,
                      ss_Groups = mergeGroupGrades periods\<rparr>,
                    cg_Periods = periods\<rparr>)"

section \<open>Only counted work matters\<close>

lemma items_by_group_counted:
  "items_by_group t inp (filter (\<lambda>a. counts inp a \<noteq> None) assignments) = items_by_group t inp assignments"
  by (induction assignments) (auto simp: items_by_group_def List.map_filter_def)

lemma with_assignments:
  "gi_Assignments (inp\<lparr>gi_Assignments := xs\<rparr>) = xs" "gi_Periods (inp\<lparr>gi_Assignments := xs\<rparr>) = gi_Periods inp"
  "gi_WeightedPeriods (inp\<lparr>gi_Assignments := xs\<rparr>) = gi_WeightedPeriods inp"
  "gi_PeriodOf (inp\<lparr>gi_Assignments := xs\<rparr>) = gi_PeriodOf inp" "gi_Groups (inp\<lparr>gi_Assignments := xs\<rparr>) = gi_Groups inp"
  "gi_ApplyGroupWeights (inp\<lparr>gi_Assignments := xs\<rparr>) = gi_ApplyGroupWeights inp"
  by simp_all

lemma counts_assignments [simp]: "counts (inp\<lparr>gi_Assignments := xs\<rparr>) = counts inp"
  by (rule ext) (simp add: counts_def)

lemma items_by_group_assignments [simp]:
  "items_by_group t (inp\<lparr>gi_Assignments := xs\<rparr>) assignments = items_by_group t inp assignments"
  by (simp add: items_by_group_def)

lemma scoreAssignments_counted:
  "scoreAssignments parse visit (filter (\<lambda>a. counts inp a \<noteq> None) assignments) (inp\<lparr>gi_Assignments := xs\<rparr>) =
   scoreAssignments parse visit assignments inp"
  by (simp only: scoreAssignments_def score_groups_def items_by_group_counted items_by_group_assignments with_assignments)

lemma grade_period_counted:
  "grade_period parse visit (inp\<lparr>gi_Assignments := filter (\<lambda>a. counts inp a \<noteq> None) (gi_Assignments inp)\<rparr>) =
   grade_period parse visit inp"
proof (rule ext)
  fix p :: grading_period
  have "filter (\<lambda>a. gi_PeriodOf inp (asg_ID a) = per_ID p) (filter (\<lambda>a. counts inp a \<noteq> None) (gi_Assignments inp)) =
      filter (\<lambda>a. counts inp a \<noteq> None) (filter (\<lambda>a. gi_PeriodOf inp (asg_ID a) = per_ID p) (gi_Assignments inp))"
    by (simp add: conj_commute)
  then show "grade_period parse visit (inp\<lparr>gi_Assignments := filter (\<lambda>a. counts inp a \<noteq> None) (gi_Assignments inp)\<rparr>) p =
      grade_period parse visit inp p"
    by (simp only: grade_period_def with_assignments scoreAssignments_counted)
qed


section \<open>The map's iteration order\<close>

definition table_ok :: "group_table \<Rightarrow> bool" where
  "table_ok t = (inj_on (gt_index t) (dom (gt_index t)) \<and> (\<forall>i k. gt_index t i = Some k \<longrightarrow> k < length (gt_rows t)))"

lemma table_ok_empty: "table_ok no_groups"
  by (simp add: table_ok_def no_groups_def)

lemma table_ok_insert:
  assumes "table_ok t"
  shows "table_ok \<lparr>gt_index = (gt_index t)(i := Some (length (gt_rows t))), gt_rows = gt_rows t @ [g], gt_rules = r\<rparr>"
proof -
  have lt: "\<And>i k. gt_index t i = Some k \<Longrightarrow> k < length (gt_rows t)" and inj: "inj_on (gt_index t) (dom (gt_index t))"
    using assms by (auto simp: table_ok_def)
  have "inj_on ((gt_index t)(i := Some (length (gt_rows t)))) (insert i (dom (gt_index t)))"
    unfolding inj_on_def
  proof (intro ballI impI)
    fix x y assume xy: "x \<in> insert i (dom (gt_index t))" "y \<in> insert i (dom (gt_index t))"
      "((gt_index t)(i := Some (length (gt_rows t)))) x = ((gt_index t)(i := Some (length (gt_rows t)))) y"
    then consider "x = i" "y = i" | "x = i" "y \<noteq> i" "gt_index t y = Some (length (gt_rows t))"
      | "x \<noteq> i" "y = i" "gt_index t x = Some (length (gt_rows t))" | "x \<in> dom (gt_index t)" "y \<in> dom (gt_index t)" "gt_index t x = gt_index t y"
      by (auto split: if_splits)
    then show "x = y" using lt inj by cases (auto dest: inj_onD)
  qed
  moreover have "dom ((gt_index t)(i := Some (length (gt_rows t)))) = insert i (dom (gt_index t))" by auto
  ultimately show ?thesis using lt by (auto simp: table_ok_def less_Suc_eq)
qed

lemma table_ok_groups: "table_ok t \<Longrightarrow> table_ok (foldl (add_group parse) t gs)"
  by (induction gs arbitrary: t) (auto simp: add_group_def intro!: table_ok_insert)

lemma add_ungrouped_eq: "group_items items 0 \<noteq> [] \<Longrightarrow> add_ungrouped items t =
   \<lparr>gt_index = (gt_index t)(0 := Some (length (gt_rows t))), gt_rows = gt_rows t @ [empty_group 0 ''Ungrouped'' 0],
    gt_rules = gt_rules t\<rparr>"
  by (simp add: add_ungrouped_def)

lemma table_ok_ungrouped: "table_ok t \<Longrightarrow> table_ok (add_ungrouped items t)"
  by (cases "group_items items 0 = []") (simp add: add_ungrouped_def, simp add: add_ungrouped_eq table_ok_insert)

lemma item_group_indexed: "gid = item_group t a \<Longrightarrow> gid \<noteq> 0 \<Longrightarrow> gid \<in> dom (gt_index t)"
  by (auto simp: item_group_def Let_def split: option.splits)

lemma keys_indexed:
  "gid \<in> fst ` set (items_by_group t inp as) \<Longrightarrow> gid \<in> dom (gt_index (add_ungrouped (items_by_group t inp as) t))"
proof -
  assume g: "gid \<in> fst ` set (items_by_group t inp as)"
  then obtain a it where a: "gid = item_group t a" by (auto simp: items_by_group_def List.map_filter_def)
  have "group_items (items_by_group t inp as) gid \<noteq> []" using g by (auto simp: group_items_def filter_empty_conv)
  then show ?thesis
    using item_group_indexed[OF a] by (cases "gid = 0") (auto simp: add_ungrouped_def)
qed

lemma fill_row_commute:
  assumes "table_ok t" "a \<in> dom (gt_index t)" "b \<in> dom (gt_index t)"
  shows "fill_row t items (fill_row t items rows b) a = fill_row t items (fill_row t items rows a) b"
proof (cases "a = b")
  case False
  obtain i j where ij: "gt_index t a = Some i" "gt_index t b = Some j" using assms(2,3) by blast
  then have "i \<noteq> j" using False assms unfolding table_ok_def inj_on_def by metis
  with ij show ?thesis by (simp add: fill_row_def list_update_swap nth_list_update)
qed simp

text \<open>
  C33. The order in which Go visits the map of items by group, which changes from run to run, does
  not show in the result: any two rearrangements of the keys give the same course grade.
\<close>

theorem grade_independent_of_map_order:
  assumes "\<And>keys. mset (visit keys) = mset keys" "\<And>keys. mset (visit' keys) = mset keys"
  shows "CalculateCourseGrade parse visit inp = CalculateCourseGrade parse visit' inp"
proof -
  have groups: "score_groups parse visit as inp = score_groups parse visit' as inp" for as
  proof -
    define t0 where "t0 = foldl (add_group parse) no_groups (gi_Groups inp)"
    define items where "items = items_by_group t0 inp as"
    define t where "t = add_ungrouped items t0"
    define keys where "keys = remdups (map fst items)"
    have ok: "table_ok t" unfolding t_def t0_def by (intro table_ok_ungrouped table_ok_groups table_ok_empty)
    have dom: "gid \<in> dom (gt_index t)" if "gid \<in> set keys" for gid
      using that keys_indexed[of gid t0 inp as] by (simp add: t_def items_def keys_def)
    have vis: "set (visit keys) = set keys" using assms(1) by (metis set_mset_mset)
    have "fold (\<lambda>gid rows. fill_row t items rows gid) (visit keys) = fold (\<lambda>gid rows. fill_row t items rows gid) (visit' keys)"
    proof (rule fold_multiset_equiv)
      fix a b assume "a \<in> set (visit keys)" "b \<in> set (visit keys)"
      then have "a \<in> dom (gt_index t)" "b \<in> dom (gt_index t)" using vis dom by auto
      from fill_row_commute[OF ok this, of items]
      show "(\<lambda>rows. fill_row t items rows a) \<circ> (\<lambda>rows. fill_row t items rows b) =
          (\<lambda>rows. fill_row t items rows b) \<circ> (\<lambda>rows. fill_row t items rows a)" by (simp add: fun_eq_iff)
    next
      show "mset (visit keys) = mset (visit' keys)" by (simp add: assms)
    qed
    then have "foldl (fill_row t items) (gt_rows t) (visit keys) = foldl (fill_row t items) (gt_rows t) (visit' keys)"
      by (simp only: foldl_conv_fold)
    then show ?thesis
      by (simp only: score_groups_def Let_def t0_def items_def t_def keys_def)
  qed
  have s: "scoreAssignments parse visit as inp = scoreAssignments parse visit' as inp" for as
    by (simp only: scoreAssignments_def groups)
  have p: "grade_period parse visit inp = grade_period parse visit' inp"
    by (rule ext) (simp only: grade_period_def s)
  show ?thesis by (simp only: CalculateCourseGrade_def s p)
qed

definition calc_assignment :: "nat \<Rightarrow> int \<Rightarrow> nat option \<Rightarrow> assignment" where
  "calc_assignment i points g =
     \<lparr>asg_ID = i, asg_CourseID = 1, asg_DueAt = None, asg_UnlockAt = None, asg_LockAt = None,
      asg_PointsPossible = Some (of_int points), asg_GradingType = ''points'', asg_SubmissionTypes = ''online_text_entry'',
      asg_GroupID = g, asg_WorkflowState = ''published'', asg_Published = True, asg_PostPolicy = ''automatic'',
      asg_GroupCategoryID = None, asg_OnlyVisibleToOverrides = False, asg_GradingStandardID = None, asg_AllowedAttempts = None,
      asg_AllowedExtensions = [], asg_AnnotatableAttachmentID = None, asg_GradeGroupStudentsIndividually = False,
      asg_ModeratedGrading = False, asg_GradesPublishedAt = None, asg_OmitFromFinalGrade = False\<rparr>"

definition calc_submission :: "nat \<Rightarrow> int \<Rightarrow> submission" where
  "calc_submission a score =
     \<lparr>sub_ID = a, sub_AssignmentID = a, sub_UserID = 7, sub_SubmissionType = None, sub_Body = None, sub_URL = None, sub_Score = Some (of_int score), sub_Grade = None, sub_EnteredScore = None,
      sub_EnteredGrade = None, sub_PointsDeducted = None, sub_GradedAt = None, sub_GraderID = None, sub_SubmittedAt = None,
      sub_Attempt = 1, sub_Late = False, sub_Missing = False, sub_Excused = False, sub_Attachments = None, sub_WorkflowState = ''graded'',
      sub_PostedAt = None, sub_LatePolicyStatus = None, sub_SecondsLateOverride = None, sub_CachedDueDate = None, sub_ExtraAttempts = None\<rparr>"

definition sample_grade_input :: course_grade_input where
  "sample_grade_input =
     \<lparr>gi_Assignments = [calc_assignment 1 8 (Some 1), calc_assignment 2 8 (Some 2), calc_assignment 3 16 None],
      gi_Groups = [\<lparr>grp_ID = 1, grp_Name = ''Quizzes'', grp_GroupWeight = 40, grp_Rules = ''{}'', grp_WorkflowState = ''available''\<rparr>,
        \<lparr>grp_ID = 2, grp_Name = ''Labs'', grp_GroupWeight = 60, grp_Rules = ''drop_lowest:1'', grp_WorkflowState = ''available''\<rparr>],
      gi_Submissions = (\<lambda>a. if a \<le> 3 then Some (calc_submission a (4 * int a)) else None),
      gi_ApplyGroupWeights = False, gi_Unassigned = (\<lambda>_. False), gi_PeriodOf = (\<lambda>_. 0), gi_Periods = [], gi_WeightedPeriods = False\<rparr>"

theorem grade_independent_of_map_order_witness:
  "CalculateCourseGrade (\<lambda>_. None) (\<lambda>keys. keys) sample_grade_input = CalculateCourseGrade (\<lambda>_. None) rev sample_grade_input"
  by (rule grade_independent_of_map_order) simp_all

section \<open>The percentage of ordinary work\<close>

lemma sum_with_le:
  assumes "0 \<le> s" "s \<le> p" "\<forall>x\<in>set xs. 0 \<le> f x \<and> f x \<le> g x"
  shows "0 \<le> sum_with f64 s f xs \<and> sum_with f64 s f xs \<le> sum_with f64 p g xs"
  using assms
proof (induction xs arbitrary: s p)
  case (Cons x xs)
  then have "0 \<le> s + f x" "s + f x \<le> p + g x" by auto
  then have "0 \<le> f64 (s + f x)" "f64 (s + f x) \<le> f64 (p + g x)" by (simp_all add: ieee.nonneg f64_mono)
  then show ?case using Cons by (simp add: sum_with_def)
qed (simp add: sum_with_def)

lemma set_pick: "set (pick rnd m candidates k q) \<subseteq> set candidates"
  unfolding pick_def by (rule set_take_sort)

lemma set_improve: "set current \<subseteq> set candidates \<Longrightarrow> set (improve rnd m fixed_items candidates k iter q current) \<subseteq> set candidates"
  by (induction iter arbitrary: q current) (auto split: option.split dest: subsetD[OF set_pick])

lemma set_bestSubset: "set (bestSubset rnd candidates fixed_items k m) \<subseteq> set candidates"
proof -
  have "set (improve rnd m fixed_items candidates n 100 None (pick rnd m candidates n 0)) \<subseteq> set candidates" for n
    by (rule set_improve[OF set_pick])
  then show ?thesis by (simp add: bestSubset_def Let_def set_take_sort)
qed

lemma set_keep_after: "set (keep_after rnd droppable fixed_items dl dh) \<subseteq> set droppable"
proof -
  define keep1 where "keep1 = (if dl > 0 then bestSubset rnd droppable fixed_items (int (length droppable) - dl) True else droppable)"
  have "set keep1 \<subseteq> set droppable" by (simp add: keep1_def set_bestSubset)
  moreover have "set (keep_after rnd droppable fixed_items dl dh) \<subseteq> set keep1"
    unfolding keep_after_def Let_def keep1_def[symmetric] by (simp add: set_bestSubset)
  ultimately show ?thesis by (rule subset_trans[rotated])
qed

lemma set_applyDropRules: "set (fst (applyDropRules rnd items r)) \<subseteq> set items"
  by (auto simp: applyDropRules_def split_items_def Let_def dest: subsetD[OF set_keep_after])

definition in_range :: "group_grade \<Rightarrow> bool" where
  "in_range g = (0 \<le> gg_CurrentScore g \<and> gg_CurrentScore g \<le> gg_CurrentPossible g \<and>
     0 \<le> gg_FinalScore g \<and> gg_FinalScore g \<le> gg_FinalPossible g)"

definition ordinary :: "calc_item \<Rightarrow> bool" where
  "ordinary it = (0 \<le> it_score it \<and> it_score it \<le> it_possible it)"

lemma in_range_fill_group:
  assumes "in_range g" "\<forall>it\<in>set items. ordinary it"
  shows "in_range (fill_group r items g)"
proof -
  have "\<forall>it\<in>set (fst (applyDropRules f64 xs r)). 0 \<le> it_score it \<and> it_score it \<le> it_possible it" if "set xs \<subseteq> set items" for xs
    using set_applyDropRules[of f64 xs r] that assms(2) unfolding ordinary_def by blast
  from sum_with_le[OF _ _ this[of "filter it_graded items"]] sum_with_le[OF _ _ this[of items]] assms(1)
  show ?thesis by (auto simp: in_range_def fill_group_def Let_def split: prod.split)
qed

lemma in_range_fill_row:
  assumes "\<forall>g\<in>set rows. in_range g" "\<forall>it\<in>snd ` set items. ordinary it"
  shows "\<forall>g\<in>set (fill_row t items rows gid). in_range g"
proof -
  define i where "i = (case gt_index t gid of Some i \<Rightarrow> i | None \<Rightarrow> 0)"
  have "\<forall>it\<in>set (group_items items gid). ordinary it" using assms(2) by (auto simp: group_items_def)
  then have "in_range (fill_group (gt_rules t gid) (group_items items gid) (rows ! i))" if "i < length rows"
    using assms(1) that by (intro in_range_fill_group) auto
  then have "\<forall>g\<in>set (rows[i := fill_group (gt_rules t gid) (group_items items gid) (rows ! i)]). in_range g"
    using assms(1) by (cases "i < length rows") (auto dest!: subsetD[OF set_update_subset_insert] simp: list_update_beyond not_less)
  then show ?thesis by (simp only: fill_row_def i_def Let_def)
qed

lemma in_range_empty: "in_range (empty_group i n w)"
  by (simp add: in_range_def empty_group_def)

lemma in_range_add: "\<forall>g\<in>set (gt_rows t). in_range g \<Longrightarrow> \<forall>g\<in>set (gt_rows (add_group parse t g')). in_range g"
  by (simp add: add_group_def in_range_empty)

lemma in_range_rows: "\<forall>g\<in>set (gt_rows t). in_range g \<Longrightarrow> \<forall>g\<in>set (gt_rows (foldl (add_group parse) t gs)). in_range g"
proof (induction gs arbitrary: t)
  case (Cons g gs)
  show ?case unfolding foldl_Cons by (rule Cons.IH[OF in_range_add[OF Cons.prems]])
qed simp

lemma in_range_fold:
  "\<forall>g\<in>set rows. in_range g \<Longrightarrow> \<forall>it\<in>snd ` set items. ordinary it \<Longrightarrow> \<forall>g\<in>set (foldl (fill_row t items) rows gids). in_range g"
proof (induction gids arbitrary: rows)
  case (Cons gid gids)
  show ?case unfolding foldl_Cons by (rule Cons.IH[OF in_range_fill_row[OF Cons.prems] Cons.prems(2)])
qed simp

lemma in_range_groups:
  assumes "\<forall>it\<in>snd ` set (items_by_group (foldl (add_group parse) no_groups (gi_Groups inp)) inp as). ordinary it"
  shows "\<forall>g\<in>set (score_groups parse visit as inp). in_range g"
proof -
  have "\<forall>g\<in>set (gt_rows (foldl (add_group parse) no_groups (gi_Groups inp))). in_range g"
    by (rule in_range_rows) (simp add: no_groups_def)
  then have "\<forall>g\<in>set (gt_rows (add_ungrouped items (foldl (add_group parse) no_groups (gi_Groups inp)))). in_range g" for items
    by (simp add: add_ungrouped_def in_range_empty)
  from in_range_fold[OF this assms] show ?thesis by (simp only: score_groups_def Let_def)
qed

lemma round2_bounds: "0 \<le> v \<Longrightarrow> v \<le> 100 \<Longrightarrow> 0 \<le> round2 v \<and> round2 v \<le> 100"
proof -
  assume v: "0 \<le> v" "v \<le> 100"
  have "0 \<le> f64 (v * 100)" "f64 (v * 100) \<le> 10000"
    using v ieee.nonneg[of "v * 100"] ieee.le_int[of 10000 "v * 100"] by simp_all
  then have "0 \<le> math_Round (f64 (v * 100))" "math_Round (f64 (v * 100)) \<le> 10000"
    using math_Round_nonneg math_Round_mono[of "f64 (v * 100)" "of_int 10000"] math_Round_of_int[of 10000] by simp_all
  then show ?thesis
    using ieee.nonneg[of "math_Round (f64 (v * 100)) / 100"] ieee.le_int[of 100 "math_Round (f64 (v * 100)) / 100"]
    by (simp add: round2_def float_ops)
qed

lemma percentage_bounds:
  assumes "0 \<le> points" "points \<le> possible" "percentage points possible = Some v" shows "0 \<le> v \<and> v \<le> 100"
proof -
  have p: "0 < possible" "v = round2 (fmul (fdiv points possible) 100)"
    using assms(3) by (simp_all add: percentage_def split: if_splits)
  have "0 \<le> fdiv points possible" "fdiv points possible \<le> 1"
    using ieee.ratio_unit[OF assms(1,2) p(1)] by (simp_all add: fdiv_def)
  then have "0 \<le> fmul (fdiv points possible) 100" "fmul (fdiv points possible) 100 \<le> 100"
    using ieee.nonneg[of "fdiv points possible * 100"] ieee.le_int[of 100 "fdiv points possible * 100"] by (simp_all add: fmul_def)
  then show ?thesis using round2_bounds p(2) by simp
qed

text \<open>
  C34. Where no graded work earns more than its possible points (no extra credit) and none earns less
  than 0, and the group weights are not applied, the current and the final percentage of
  every set of assignments lie between 0 and 100, rounding errors of the sums included.
\<close>

theorem ordinary_grade_is_a_percentage:
  assumes "\<And>a it. a \<in> set assignments \<Longrightarrow> counts inp a = Some it \<Longrightarrow> ordinary it"
    and "\<not> gi_ApplyGroupWeights inp"
    and "v \<in> set_option (ss_CurrentScore (scoreAssignments parse visit assignments inp)) \<union>
        set_option (ss_FinalScore (scoreAssignments parse visit assignments inp))"
  shows "0 \<le> v \<and> v \<le> 100"
proof -
  let ?gs = "score_groups parse visit assignments inp"
  have "\<forall>it\<in>snd ` set (items_by_group (foldl (add_group parse) no_groups (gi_Groups inp)) inp assignments). ordinary it"
    using assms(1) by (auto simp: items_by_group_def List.map_filter_def)
  from in_range_groups[OF this] have g: "\<forall>g\<in>set ?gs. in_range g" .
  have sums: "0 \<le> sum_with f64 0 gg_CurrentScore ?gs \<and> sum_with f64 0 gg_CurrentScore ?gs \<le> sum_with f64 0 gg_CurrentPossible ?gs"
    "0 \<le> sum_with f64 0 gg_FinalScore ?gs \<and> sum_with f64 0 gg_FinalScore ?gs \<le> sum_with f64 0 gg_FinalPossible ?gs"
    by (rule sum_with_le; use g in \<open>simp add: in_range_def\<close>)+
  have "percentage (sum_with f64 0 gg_CurrentScore ?gs) (sum_with f64 0 gg_CurrentPossible ?gs) = Some v \<or>
      percentage (sum_with f64 0 gg_FinalScore ?gs) (sum_with f64 0 gg_FinalPossible ?gs) = Some v"
    using assms(2,3) by (simp add: scoreAssignments_def Let_def)
  with sums percentage_bounds show ?thesis by blast
qed

lemma sample_current: "ss_CurrentScore (scoreAssignments (\<lambda>_. None) (\<lambda>k. k) (gi_Assignments sample_grade_input) sample_grade_input) = Some 75"
  by code_simp

theorem ordinary_grade_is_a_percentage_witness:
  "75 \<in> set_option (ss_CurrentScore (scoreAssignments (\<lambda>_. None) (\<lambda>k. k) (gi_Assignments sample_grade_input) sample_grade_input)) \<and>
    0 \<le> (75::rat) \<and> (75::rat) \<le> 100"
proof -
  have "0 \<le> (75::rat) \<and> (75::rat) \<le> 100"
  proof (rule ordinary_grade_is_a_percentage)
    show "75 \<in> set_option (ss_CurrentScore (scoreAssignments (\<lambda>_. None) (\<lambda>k. k) (gi_Assignments sample_grade_input) sample_grade_input)) \<union>
        set_option (ss_FinalScore (scoreAssignments (\<lambda>_. None) (\<lambda>k. k) (gi_Assignments sample_grade_input) sample_grade_input))"
      by (simp add: sample_current)
    show "\<not> gi_ApplyGroupWeights sample_grade_input" by (simp add: sample_grade_input_def)
    show "\<And>a it. a \<in> set (gi_Assignments sample_grade_input) \<Longrightarrow> counts sample_grade_input a = Some it \<Longrightarrow> ordinary it"
      by (auto simp: sample_grade_input_def calc_assignment_def calc_submission_def counts_def countedItem_def ordinary_def
          item_score_def item_possible_def split: if_splits)
  qed
  with sample_current show ?thesis by simp
qed

end
