(* ===== verification/Module_Progress.thy ===== *)
theory Module_Progress imports Models Binary64 begin

text \<open>
  A student's progress through the modules of a course (\<open>internal/service/module_progression_eval.go\<close>).
  The recursive evaluation with its memo table and its set of modules being visited is \<open>eval_module\<close>,
  with fuel for the nesting of prerequisites; the reference it is compared with is the least set
  of completed modules, an inductive predicate.
\<close>

section \<open>Modules, items and facts\<close>

record content_tag =
  tag_ID :: nat
  tag_ContentType :: string
  tag_Title :: string
  tag_Position :: int
  tag_CompletionType :: string
  tag_MinScore :: "rat option"

record context_module =
  mod_ID :: nat
  mod_Name :: string
  mod_UnlockAt :: "instant option"
  mod_RequireSequentialProgress :: bool
  mod_RequirementCount :: int
  mod_Items :: "content_tag list"

record item_facts =
  if_Viewed :: bool
  if_Done :: bool
  if_Submitted :: bool
  if_Contributed :: bool
  if_Excused :: bool
  if_Score :: "rat option"

record module_eval_input =
  me_Now :: instant
  me_Modules :: "context_module list"
  me_Prerequisites :: "nat \<Rightarrow> nat list"
  me_Facts :: "nat \<Rightarrow> item_facts"

datatype progression_state = Locked | Unlocked | Started | Completed

record item_progress =
  ip_ItemID :: nat
  ip_Title :: string
  ip_RequirementType :: string
  ip_MinScore :: "rat option"
  ip_Completed :: bool
  ip_Locked :: bool
  ip_Score :: "rat option"

record module_progress =
  mp_ModuleID :: nat
  mp_Name :: string
  mp_State :: progression_state
  mp_UnlockAt :: "instant option"
  mp_LockedUntilDate :: bool
  mp_PrerequisiteModuleIDs :: "nat list"
  mp_PrerequisitesUnmet :: "nat list"
  mp_RequireSequentialProgress :: bool
  mp_RequirementCount :: int
  mp_CurrentPosition :: "int option"
  mp_RequirementsMet :: "nat list"
  mp_Items :: "item_progress list"

section \<open>Requirements\<close>

definition scoreableContentType :: "string \<Rightarrow> bool" where
  "scoreableContentType ct = (ct \<in> set [''Assignment'', ''Quizzes::Quiz'', ''Quiz'', ''DiscussionTopic''])"

definition nearestScore :: "rat \<Rightarrow> rat" where
  "nearestScore s = (let r = math_Round s in if \<bar>fsub s r\<bar> < f64 (1 / 10 ^ 4) then r else s)"

definition RequirementMet :: "content_tag \<Rightarrow> item_facts \<Rightarrow> bool" where
  "RequirementMet it f =
     (if tag_CompletionType it = [] then False
      else if if_Excused f \<and> scoreableContentType (tag_ContentType it) then True
      else if tag_CompletionType it = ''must_view'' then if_Viewed f \<or> if_Submitted f \<or> if_Contributed f
      else if tag_CompletionType it = ''must_mark_done'' then if_Done f
      else if tag_CompletionType it = ''must_contribute'' then if_Contributed f
      else if tag_CompletionType it = ''must_submit'' then if_Submitted f
      else if tag_CompletionType it = ''min_score''
      then (case (if_Score f, tag_MinScore it) of (Some s, Some m) \<Rightarrow> nearestScore s \<ge> m | _ \<Rightarrow> False)
      else False)"

definition has_requirement :: "content_tag \<Rightarrow> bool" where
  "has_requirement it = (tag_CompletionType it \<noteq> [] \<and> tag_ContentType it \<noteq> ''ContextModuleSubHeader'')"

definition item_met :: "bool \<Rightarrow> (nat \<Rightarrow> item_facts) \<Rightarrow> content_tag \<Rightarrow> bool" where
  "item_met locked facts it = (has_requirement it \<and> \<not> locked \<and> RequirementMet it (facts (tag_ID it)))"

definition item_progress_of :: "bool \<Rightarrow> (nat \<Rightarrow> item_facts) \<Rightarrow> content_tag \<Rightarrow> item_progress" where
  "item_progress_of locked facts it =
     \<lparr>ip_ItemID = tag_ID it, ip_Title = tag_Title it,
      ip_RequirementType = (if has_requirement it then tag_CompletionType it else []),
      ip_MinScore = (if has_requirement it then tag_MinScore it else None),
      ip_Completed = item_met locked facts it, ip_Locked = False,
      ip_Score = (if has_requirement it \<and> tag_CompletionType it = ''min_score'' then if_Score (facts (tag_ID it)) else None)\<rparr>"

section \<open>One module, given its unmet prerequisites\<close>

definition progress_state :: "bool \<Rightarrow> nat \<Rightarrow> nat \<Rightarrow> int \<Rightarrow> progression_state" where
  "progress_state locked reqTotal reqMet requirementCount =
     (if locked then Locked
      else if reqTotal = 0 \<or> reqMet = reqTotal \<or> (requirementCount > 0 \<and> int reqMet \<ge> requirementCount) then Completed
      else if reqMet > 0 then Started
      else Unlocked)"

fun first_gate :: "item_progress list \<Rightarrow> nat \<Rightarrow> nat option" where
  "first_gate [] i = None"
| "first_gate (ip # ips) i = (if ip_RequirementType ip \<noteq> [] \<and> \<not> ip_Completed ip then Some i else first_gate ips (Suc i))"

definition lock_after :: "nat \<Rightarrow> item_progress list \<Rightarrow> item_progress list" where
  "lock_after gate ips = take (Suc gate) ips @ map (\<lambda>ip. ip\<lparr>ip_Locked := True\<rparr>) (drop (Suc gate) ips)"

definition unlocks_later :: "instant \<Rightarrow> context_module \<Rightarrow> bool" where
  "unlocks_later now m = (case mod_UnlockAt m of Some u \<Rightarrow> u > now | None \<Rightarrow> False)"

definition assess :: "instant \<Rightarrow> (nat \<Rightarrow> item_facts) \<Rightarrow> context_module \<Rightarrow> nat list \<Rightarrow> nat list \<Rightarrow> module_progress" where
  "assess now facts m prereqs unmet =
     (let locked = (unlocks_later now m \<or> unmet \<noteq> []);
          items = sort_stable_by tag_Position (mod_Items m);
          ips = map (item_progress_of locked facts) items;
          met = filter (item_met locked facts) items;
          st = progress_state locked (length (filter has_requirement items)) (length met) (mod_RequirementCount m);
          gate = (if \<not> locked \<and> mod_RequireSequentialProgress m \<and> st \<noteq> Completed then first_gate ips 0 else None)
      in \<lparr>mp_ModuleID = mod_ID m, mp_Name = mod_Name m, mp_State = st, mp_UnlockAt = mod_UnlockAt m,
          mp_LockedUntilDate = unlocks_later now m, mp_PrerequisiteModuleIDs = prereqs, mp_PrerequisitesUnmet = unmet,
          mp_RequireSequentialProgress = mod_RequireSequentialProgress m, mp_RequirementCount = mod_RequirementCount m,
          mp_CurrentPosition = map_option (\<lambda>g. tag_Position (items ! g)) gate,
          mp_RequirementsMet = map tag_ID met,
          mp_Items = (if locked then map (\<lambda>ip. ip\<lparr>ip_Locked := True\<rparr>) ips
                      else case gate of Some g \<Rightarrow> lock_after g ips | None \<Rightarrow> ips)\<rparr>)"

section \<open>The recursive evaluation\<close>

text \<open>\<open>byID\<close>: of several modules with one id the last is kept.\<close>

definition byID :: "module_eval_input \<Rightarrow> nat \<Rightarrow> context_module option" where
  "byID inp i = map_of (map (\<lambda>m. (mod_ID m, m)) (rev (me_Modules inp))) i"

type_synonym results = "nat \<Rightarrow> module_progress option"

text \<open>The loop over the prerequisites of module \<open>i\<close>; \<open>ev\<close> evaluates one of them.\<close>

fun prereq_loop :: "(nat \<Rightarrow> results \<Rightarrow> (module_progress option \<times> results) option) \<Rightarrow> module_eval_input \<Rightarrow> nat list \<Rightarrow> nat \<Rightarrow>
    nat list \<Rightarrow> nat list \<Rightarrow> nat list \<Rightarrow> results \<Rightarrow> (nat list \<times> nat list \<times> results) option" where
  "prereq_loop ev inp visiting i [] prereqs unmet results = Some (prereqs, unmet, results)"
| "prereq_loop ev inp visiting i (pid # pids) prereqs unmet results =
     (if pid = i \<or> byID inp pid = None then prereq_loop ev inp visiting i pids prereqs unmet results
      else if pid \<in> set visiting
      then prereq_loop ev inp visiting i pids (prereqs @ [pid]) (unmet @ [pid]) results
      else case ev pid results of
          None \<Rightarrow> None
        | Some (pre, results') \<Rightarrow>
            prereq_loop ev inp visiting i pids (prereqs @ [pid])
              (if (case pre of None \<Rightarrow> True | Some p \<Rightarrow> mp_State p \<noteq> Completed) then unmet @ [pid] else unmet) results')"

fun eval_module :: "nat \<Rightarrow> instant \<Rightarrow> module_eval_input \<Rightarrow> nat list \<Rightarrow> nat \<Rightarrow> results \<Rightarrow>
    (module_progress option \<times> results) option" where
  "eval_module 0 now inp visiting i results = None"
| "eval_module (Suc fuel) now inp visiting i results =
     (case results i of
        Some r \<Rightarrow> Some (Some r, results)
      | None \<Rightarrow>
          (case byID inp i of
             None \<Rightarrow> Some (None, results)
           | Some m \<Rightarrow>
               (case prereq_loop (eval_module fuel now inp (i # visiting)) inp (i # visiting) i (me_Prerequisites inp i) [] [] results of
                  None \<Rightarrow> None
                | Some (prereqs, unmet, results') \<Rightarrow>
                    (let mp = assess now (me_Facts inp) m prereqs unmet
                     in Some (Some mp, results'(i := Some mp))))))"

fun eval_all :: "nat \<Rightarrow> instant \<Rightarrow> module_eval_input \<Rightarrow> context_module list \<Rightarrow> results \<Rightarrow> module_progress list option" where
  "eval_all fuel now inp [] results = Some []"
| "eval_all fuel now inp (m # ms) results =
     (case eval_module fuel now inp [] (mod_ID m) results of
        None \<Rightarrow> None
      | Some (r, results') \<Rightarrow>
          map_option (\<lambda>out. (case r of Some p \<Rightarrow> [p] | None \<Rightarrow> []) @ out) (eval_all fuel now inp ms results'))"

text \<open>\<open>wall\<close> is the clock, read when the input carries no time; the fuel is one more than the modules.\<close>

definition EvaluateModuleProgress :: "instant \<Rightarrow> module_eval_input \<Rightarrow> module_progress list option" where
  "EvaluateModuleProgress wall inp =
     eval_all (Suc (length (me_Modules inp))) (if is_zero (me_Now inp) then wall else me_Now inp) inp (me_Modules inp) (\<lambda>_. None)"

section \<open>The reference\<close>

text \<open>The prerequisites that count: other modules of the course.\<close>

definition relevant :: "module_eval_input \<Rightarrow> nat \<Rightarrow> nat list" where
  "relevant inp i = filter (\<lambda>p. p \<noteq> i \<and> byID inp p \<noteq> None) (me_Prerequisites inp i)"

definition requirements_done :: "module_eval_input \<Rightarrow> context_module \<Rightarrow> bool" where
  "requirements_done inp m =
     (let reqs = filter has_requirement (mod_Items m); met = filter (item_met False (me_Facts inp)) (mod_Items m)
      in reqs = [] \<or> length met = length reqs \<or> (mod_RequirementCount m > 0 \<and> int (length met) \<ge> mod_RequirementCount m))"

inductive module_done :: "instant \<Rightarrow> module_eval_input \<Rightarrow> nat \<Rightarrow> bool" for now inp where
  all_done: "byID inp i = Some m \<Longrightarrow> \<not> unlocks_later now m \<Longrightarrow> \<forall>p\<in>set (relevant inp i). module_done now inp p \<Longrightarrow>
     requirements_done inp m \<Longrightarrow> module_done now inp i"

definition reference :: "instant \<Rightarrow> module_eval_input \<Rightarrow> nat \<Rightarrow> module_progress" where
  "reference now inp i =
     assess now (me_Facts inp) (the (byID inp i)) (relevant inp i) (filter (\<lambda>p. \<not> module_done now inp p) (relevant inp i))"

section \<open>The evaluation computes the reference\<close>

definition depends :: "module_eval_input \<Rightarrow> nat \<Rightarrow> nat \<Rightarrow> bool" where
  "depends inp i p = (p \<in> set (relevant inp i))"

lemma module_done_acyclic: "module_done now inp i \<Longrightarrow> \<not> (depends inp)\<^sup>+\<^sup>+ i i"
proof (induction rule: module_done.induct)
  case (all_done i m)
  show ?case
  proof
    assume "(depends inp)\<^sup>+\<^sup>+ i i"
    then obtain p where p: "depends inp i p" "(depends inp)\<^sup>*\<^sup>* p i" by (meson tranclpD)
    then have "(depends inp)\<^sup>+\<^sup>+ p p" by (metis rtranclp_into_tranclp1)
    moreover have "p \<in> set (relevant inp i)" using p(1) unfolding depends_def .
    with all_done.IH have "\<not> (depends inp)\<^sup>+\<^sup>+ p p" by blast
    ultimately show False by blast
  qed
qed

lemma length_filter_sort: "length (filter P (sort_stable_by k xs)) = length (filter P xs)"
  by (simp add: filter_sort)

lemma assess_completed:
  "mp_State (assess now facts m prereqs unmet) = Completed \<longleftrightarrow>
     \<not> unlocks_later now m \<and> unmet = [] \<and>
     (filter has_requirement (mod_Items m) = [] \<or> length (filter (item_met False facts) (mod_Items m)) = length (filter has_requirement (mod_Items m))
      \<or> (mod_RequirementCount m > 0 \<and> int (length (filter (item_met False facts) (mod_Items m))) \<ge> mod_RequirementCount m))"
  by (cases "unlocks_later now m \<or> unmet \<noteq> []") (auto simp: assess_def progress_state_def Let_def length_filter_sort)

lemma reference_completed:
  assumes "byID inp i = Some m"
  shows "mp_State (reference now inp i) = Completed \<longleftrightarrow> module_done now inp i"
proof -
  have "mp_State (reference now inp i) = Completed \<longleftrightarrow>
      \<not> unlocks_later now m \<and> (\<forall>p\<in>set (relevant inp i). module_done now inp p) \<and> requirements_done inp m"
    by (simp add: reference_def assess_completed assms requirements_done_def Let_def filter_empty_conv)
  also have "\<dots> \<longleftrightarrow> module_done now inp i"
    using assms module_done.simps[of now inp i] by auto
  finally show ?thesis .
qed

definition memo_ok :: "instant \<Rightarrow> module_eval_input \<Rightarrow> results \<Rightarrow> bool" where
  "memo_ok now inp results = (\<forall>i r. results i = Some r \<longrightarrow> byID inp i \<noteq> None \<and> r = reference now inp i)"

text \<open>Every module on the stack of visits depends on the one being evaluated.\<close>

definition stack_ok :: "module_eval_input \<Rightarrow> nat list \<Rightarrow> nat \<Rightarrow> bool" where
  "stack_ok inp visiting i = (\<forall>v\<in>set visiting. (depends inp)\<^sup>+\<^sup>+ v i)"

lemma stack_ok_push:
  assumes "stack_ok inp visiting i" "depends inp i p" shows "stack_ok inp (i # visiting) p"
  using assms by (auto simp: stack_ok_def intro: tranclp.trancl_into_trancl)

lemma stack_not_done:
  assumes "stack_ok inp visiting i" "depends inp i p" "p \<in> set visiting" shows "\<not> module_done now inp p"
  using assms module_done_acyclic[of now inp p] by (auto simp: stack_ok_def intro: tranclp.trancl_into_trancl)

text \<open>The loop, given that its evaluator is right on modules that are not being visited.\<close>

lemma prereq_loop_correct:
  assumes stack: "stack_ok inp visiting i"
    and ev: "\<And>p res. depends inp i p \<Longrightarrow> p \<notin> set (i # visiting) \<Longrightarrow> memo_ok now inp res \<Longrightarrow>
      \<exists>res'. ev p res = Some (Some (reference now inp p), res') \<and> memo_ok now inp res'"
  shows "memo_ok now inp res \<Longrightarrow> set pids \<subseteq> set (me_Prerequisites inp i) \<Longrightarrow>
    \<exists>res'. prereq_loop ev inp (i # visiting) i pids prs unmet res =
      Some (prs @ filter (\<lambda>p. p \<noteq> i \<and> byID inp p \<noteq> None) pids,
        unmet @ filter (\<lambda>p. \<not> module_done now inp p) (filter (\<lambda>p. p \<noteq> i \<and> byID inp p \<noteq> None) pids), res') \<and> memo_ok now inp res'"
proof (induction pids arbitrary: prs unmet res)
  case (Cons p pids)
  show ?case
  proof (cases "p = i \<or> byID inp p = None")
    case True
    then show ?thesis using Cons.IH[OF Cons.prems(1)] Cons.prems(2) by auto
  next
    case False
    then obtain m where m: "byID inp p = Some m" "p \<noteq> i" by auto
    have dep: "depends inp i p" using False Cons.prems(2) by (auto simp: depends_def relevant_def)
    show ?thesis
    proof (cases "p \<in> set visiting")
      case True
      have "\<not> module_done now inp p" by (rule stack_not_done[OF stack dep True])
      then show ?thesis using Cons.IH[OF Cons.prems(1), of "prs @ [p]" "unmet @ [p]"] Cons.prems(2) m True by simp
    next
      case False
      then obtain res' where r: "ev p res = Some (Some (reference now inp p), res')" "memo_ok now inp res'"
        using ev[OF dep _ Cons.prems(1)] m(2) by auto
      show ?thesis
        using Cons.IH[OF r(2), of "prs @ [p]" "if module_done now inp p then unmet else unmet @ [p]"] Cons.prems(2) m False r(1)
          reference_completed[OF m(1), of now] by (cases "module_done now inp p") auto
    qed
  qed
qed simp

lemma byID_known: "byID inp i = Some m \<Longrightarrow> i \<in> mod_ID ` set (me_Modules inp)"
proof -
  assume "byID inp i = Some m"
  then have "(i, m) \<in> set (map (\<lambda>m. (mod_ID m, m)) (rev (me_Modules inp)))" unfolding byID_def by (rule map_of_SomeD)
  then show ?thesis by auto
qed

lemma eval_module_correct:
  assumes "stack_ok inp visiting i" "i \<notin> set visiting" "byID inp i \<noteq> None" "memo_ok now inp res"
    and "card (mod_ID ` set (me_Modules inp) - set visiting) < fuel"
  shows "\<exists>res'. eval_module fuel now inp visiting i res = Some (Some (reference now inp i), res') \<and> memo_ok now inp res'"
  using assms
proof (induction fuel arbitrary: visiting i res)
  case (Suc fuel)
  obtain m where m: "byID inp i = Some m" using Suc.prems(3) by auto
  show ?case
  proof (cases "res i")
    case (Some r)
    then show ?thesis using Suc.prems(4) by (simp add: memo_ok_def)
  next
    case None
    have less: "card (mod_ID ` set (me_Modules inp) - set (i # visiting)) < card (mod_ID ` set (me_Modules inp) - set visiting)"
      using Suc.prems(2) byID_known[OF m] by (intro psubset_card_mono) auto
    have ev: "\<exists>res'. eval_module fuel now inp (i # visiting) p re = Some (Some (reference now inp p), res') \<and> memo_ok now inp res'"
      if "depends inp i p" "p \<notin> set (i # visiting)" "memo_ok now inp re" for p re
    proof (rule Suc.IH)
      show "stack_ok inp (i # visiting) p" by (rule stack_ok_push[OF Suc.prems(1) that(1)])
      show "byID inp p \<noteq> None" using that(1) by (auto simp: depends_def relevant_def)
      show "card (mod_ID ` set (me_Modules inp) - set (i # visiting)) < fuel" using less Suc.prems(5) by simp
    qed (use that in auto)
    obtain res' where r: "prereq_loop (eval_module fuel now inp (i # visiting)) inp (i # visiting) i (me_Prerequisites inp i) [] [] res =
        Some (relevant inp i, filter (\<lambda>p. \<not> module_done now inp p) (relevant inp i), res')" "memo_ok now inp res'"
      using prereq_loop_correct[where ev = "eval_module fuel now inp (i # visiting)" and prs = "[]" and unmet = "[]",
          OF Suc.prems(1) ev Suc.prems(4) order.refl]
      unfolding relevant_def append_Nil by blast
    have "eval_module (Suc fuel) now inp visiting i res = Some (Some (reference now inp i), res'(i := Some (reference now inp i)))"
      using None m r(1) by (simp add: reference_def Let_def)
    moreover have "memo_ok now inp (res'(i := Some (reference now inp i)))" using r(2) m by (simp add: memo_ok_def)
    ultimately show ?thesis by blast
  qed
qed simp

lemma eval_all_correct:
  "memo_ok now inp res \<Longrightarrow> \<forall>m\<in>set ms. byID inp (mod_ID m) \<noteq> None \<Longrightarrow>
     card (mod_ID ` set (me_Modules inp)) < fuel \<Longrightarrow>
     eval_all fuel now inp ms res = Some (map (\<lambda>m. reference now inp (mod_ID m)) ms)"
proof (induction ms arbitrary: res)
  case (Cons m ms)
  obtain res' where "eval_module fuel now inp [] (mod_ID m) res = Some (Some (reference now inp (mod_ID m)), res')" "memo_ok now inp res'"
    using eval_module_correct[of inp "[]" "mod_ID m" now res fuel] Cons.prems by (auto simp: stack_ok_def)
  then show ?case using Cons.IH[of res'] Cons.prems by simp
qed simp

lemma byID_listed: "m \<in> set (me_Modules inp) \<Longrightarrow> byID inp (mod_ID m) \<noteq> None"
  unfolding byID_def map_of_eq_None_iff by (simp add: image_image)

text \<open>
  C14. The recursive evaluation with its memo table, in which a module met again while it is being
  visited counts as unmet, always returns, and computes the reference: each module is assessed
  with exactly those prerequisites unmet that are not in the least set of completed modules,
  whatever cycles the prerequisites have and in whatever order the modules are listed.
\<close>

theorem evaluation_is_the_reference:
  "EvaluateModuleProgress wall inp =
     Some (map (\<lambda>m. reference (if is_zero (me_Now inp) then wall else me_Now inp) inp (mod_ID m)) (me_Modules inp))"
  unfolding EvaluateModuleProgress_def
proof (rule eval_all_correct)
  show "memo_ok (if is_zero (me_Now inp) then wall else me_Now inp) inp (\<lambda>_. None)" by (simp add: memo_ok_def)
  show "\<forall>m\<in>set (me_Modules inp). byID inp (mod_ID m) \<noteq> None" using byID_listed by blast
  show "card (mod_ID ` set (me_Modules inp)) < Suc (length (me_Modules inp))"
    by (meson card_image_le card_length finite_set le_imp_less_Suc le_trans)
qed

section \<open>What an open item means\<close>

definition cleared :: "item_progress \<Rightarrow> bool" where
  "cleared ip = (ip_RequirementType ip = [] \<or> ip_Completed ip)"

lemma first_gate_None: "first_gate ips i = None \<Longrightarrow> \<forall>ip\<in>set ips. cleared ip"
  by (induction ips i rule: first_gate.induct) (auto simp: cleared_def split: if_splits)

lemma first_gate_Some: "first_gate ips i = Some g \<Longrightarrow> i \<le> g \<and> (\<forall>k<g - i. cleared (ips ! k))"
proof (induction ips i rule: first_gate.induct)
  case (2 ip ips i)
  show ?case
  proof (cases "ip_RequirementType ip \<noteq> [] \<and> \<not> ip_Completed ip")
    case False
    then have "Suc i \<le> g \<and> (\<forall>k<g - Suc i. cleared (ips ! k))" using 2 by auto
    then show ?thesis using False by (auto simp: nth_Cons cleared_def split: nat.split)
  qed (use 2 in simp)
qed simp

lemma lock_after_nth:
  assumes "j < length (lock_after g ips)" "\<not> ip_Locked (lock_after g ips ! j)"
  shows "j \<le> g" "\<And>i. i < j \<Longrightarrow> lock_after g ips ! i = ips ! i"
proof -
  have len: "length (lock_after g ips) = length ips" by (simp add: lock_after_def)
  show "j \<le> g"
  proof (rule ccontr)
    assume "\<not> j \<le> g"
    then have "lock_after g ips ! j = (ips ! j)\<lparr>ip_Locked := True\<rparr>"
      using assms(1) len by (simp add: lock_after_def nth_append min_def)
    with assms(2) show False by simp
  qed
  then show "\<And>i. i < j \<Longrightarrow> lock_after g ips ! i = ips ! i"
    using assms(1) len by (simp add: lock_after_def nth_append)
qed

lemma assess_open_item:
  assumes "mp = assess now facts m prereqs unmet" "j < length (mp_Items mp)" "\<not> ip_Locked (mp_Items mp ! j)"
  shows "mp_State mp \<noteq> Locked \<and>
    (mp_RequireSequentialProgress mp \<and> mp_State mp \<noteq> Completed \<longrightarrow> (\<forall>i<j. cleared (mp_Items mp ! i)))"
proof -
  define locked where "locked = (unlocks_later now m \<or> unmet \<noteq> [])"
  define ips where "ips = map (item_progress_of locked facts) (sort_stable_by tag_Position (mod_Items m))"
  have st: "mp_State mp = Locked \<longleftrightarrow> locked" by (simp add: assms(1) assess_def Let_def progress_state_def locked_def)
  have sq: "mp_RequireSequentialProgress mp = mod_RequireSequentialProgress m" by (simp add: assms(1) assess_def Let_def)
  define gate where "gate = (if \<not> locked \<and> mod_RequireSequentialProgress m \<and> mp_State mp \<noteq> Completed then first_gate ips 0 else None)"
  have it: "mp_Items mp = (if locked then map (\<lambda>ip. ip\<lparr>ip_Locked := True\<rparr>) ips
      else case gate of Some g \<Rightarrow> lock_after g ips | None \<Rightarrow> ips)"
    unfolding gate_def ips_def locked_def assms(1) assess_def Let_def module_progress.simps ..
  have nl: "\<not> locked" using assms(2,3) it by auto
  moreover have "cleared (mp_Items mp ! i)" if "i < j" "mp_RequireSequentialProgress mp" "mp_State mp \<noteq> Completed" for i
  proof (cases "first_gate ips 0")
    case None
    then have "mp_Items mp = ips" using it nl that sq by (simp add: gate_def)
    then show ?thesis using first_gate_None[OF None] assms(2) that(1) by simp
  next
    case (Some g)
    then have e: "mp_Items mp = lock_after g ips" using it nl that sq by (simp add: gate_def)
    have "j \<le> g" and eq: "mp_Items mp ! i = ips ! i"
      using lock_after_nth[OF assms(2,3)[unfolded e]] that(1) unfolding e by blast+
    then have "i < g" using that(1) by simp
    with eq show ?thesis using first_gate_Some[OF Some] by simp
  qed
  ultimately show ?thesis using st by blast
qed


definition view_item :: "nat \<Rightarrow> int \<Rightarrow> content_tag" where
  "view_item i pos = \<lparr>tag_ID = i, tag_ContentType = ''WikiPage'', tag_Title = ''page'', tag_Position = pos,
     tag_CompletionType = ''must_view'', tag_MinScore = None\<rparr>"

definition sample_module :: "nat \<Rightarrow> content_tag list \<Rightarrow> context_module" where
  "sample_module i items = \<lparr>mod_ID = i, mod_Name = ''week'', mod_UnlockAt = None, mod_RequireSequentialProgress = True,
     mod_RequirementCount = 0, mod_Items = items\<rparr>"

definition sample_modules :: module_eval_input where
  "sample_modules =
     \<lparr>me_Now = 0, me_Modules = [sample_module 1 [view_item 12 2, view_item 11 1, view_item 13 3], sample_module 2 [view_item 21 1]],
      me_Prerequisites = (\<lambda>i. if i = 2 then [1] else []),
      me_Facts = (\<lambda>i. \<lparr>if_Viewed = i = 11, if_Done = False, if_Submitted = False, if_Contributed = False, if_Excused = False,
        if_Score = None\<rparr>)\<rparr>"

lemma sample_progress: "map_option (map (\<lambda>mp. (mp_State mp, map ip_Locked (mp_Items mp), map ip_Completed (mp_Items mp))))
    (EvaluateModuleProgress 0 sample_modules) =
   Some [(Started, [False, False, True], [True, False, False]), (Locked, [True], [False])]"
  by code_simp


end
