(* ===== verification/Grading_Scheme.thy ===== *)
theory Grading_Scheme imports Go_Json Go_Strings Models begin

text \<open>
  Grading schemes and grading types (\<open>internal/service/grading_scheme.go\<close>, and the scale helpers of
  \<open>grading_service.go\<close>): validation of a scheme, conversion of percentages to grade names and
  back, reading a typed grade and rendering a score. The case mapping and case folding of Unicode
  text is a parameter (\<open>text_ops\<close>); \<open>ascii_text\<close> is an instance.
\<close>

section \<open>Numbers as text\<close>

text \<open>
  \<open>strconv.FormatFloat(v, 'f', -1, 64)\<close>: the shortest decimal that reads back as \<open>v\<close>, in positional
  notation. \<open>dec_exp v\<close> is the decimal exponent of \<open>v\<close>; the search tries 1 to 17 digits.
\<close>

fun dec_up :: "nat \<Rightarrow> int \<Rightarrow> rat \<Rightarrow> int" where
  "dec_up 0 e v = e"
| "dec_up (Suc n) e v = (if v < 10 then e else dec_up n (e + 1) (v / 10))"

fun dec_down :: "nat \<Rightarrow> int \<Rightarrow> rat \<Rightarrow> int" where
  "dec_down 0 e v = e"
| "dec_down (Suc n) e v = (if v \<ge> 1 then e else dec_down n (e - 1) (v * 10))"

definition dec_exp :: "rat \<Rightarrow> int" where
  "dec_exp v = (if v \<ge> 1 then dec_up 400 0 v else dec_down 400 0 v)"

fun shortest_digits :: "nat \<Rightarrow> nat \<Rightarrow> rat \<Rightarrow> nat \<times> int" where
  "shortest_digits 0 n v = (nat (rne (v / pow10 (dec_exp v - int n + 1))), dec_exp v - int n + 1)"
| "shortest_digits (Suc tries) n v =
     (let e = dec_exp v - int n + 1; d = rne (v / pow10 e)
      in if f64 (of_int d * pow10 e) = v then (nat d, e) else shortest_digits tries (Suc n) v)"

definition strip_zeros :: "string \<Rightarrow> string" where
  "strip_zeros s = rev (dropWhile (\<lambda>c. c = CHR ''0'') (rev s))"

definition positional :: "nat \<Rightarrow> int \<Rightarrow> string" where
  "positional d e =
     (if e \<ge> 0 then show_nat d @ replicate (nat e) (CHR ''0'')
      else let k = nat (- e); s = show_nat d; t = replicate (Suc k - length s) (CHR ''0'') @ s;
               fp = strip_zeros (drop (length t - k) t)
           in take (length t - k) t @ (if fp = [] then [] else CHR ''.'' # fp))"

definition FormatFloat :: "rat \<Rightarrow> string" where
  "FormatFloat v =
     (if v = 0 then ''0''
      else let (d, e) = shortest_digits 16 1 \<bar>v\<bar> in (if v < 0 then ''-'' else []) @ positional d e)"

definition formatNumber :: "rat \<Rightarrow> string" where
  "formatNumber v = FormatFloat (fdiv (math_Round (fmul v (10 ^ 6))) (10 ^ 6))"

text \<open>The regular expression of a number: an optional sign, digits, and at most one point before the last digits.\<close>

definition numericGrade :: "string \<Rightarrow> bool" where
  "numericGrade s =
     (let u = snd (strip_sign s); ip = takeWhile is_digit u; rest = dropWhile is_digit u
      in if rest = [] then ip \<noteq> [] else hd rest = CHR ''.'' \<and> tl rest \<noteq> [] \<and> list_all is_digit (tl rest))"

section \<open>Schemes\<close>

record text_ops =
  tx_ToLower :: "string \<Rightarrow> string"
  tx_EqualFold :: "string \<Rightarrow> string \<Rightarrow> bool"

record grade_entry =
  ge_Name :: string
  ge_Value :: rat

record grading_scheme =
  gs_ID :: nat
  gs_Title :: string
  gs_Entries :: "grade_entry list"
  gs_PointsBased :: bool
  gs_ScalingFactor :: rat

record grading_standard =
  gst_ID :: nat
  gst_ContextType :: string
  gst_ContextID :: nat
  gst_Title :: string
  gst_Data :: string
  gst_WorkflowState :: string
  gst_PointsBased :: bool
  gst_ScalingFactor :: rat

definition scale_entry :: "string \<Rightarrow> rat \<Rightarrow> grade_entry" where
  "scale_entry n v = \<lparr>ge_Name = n, ge_Value = f64 v\<rparr>"

definition defaultGradingScale :: "grade_entry list" where
  "defaultGradingScale =
     [scale_entry ''A'' (93/100), scale_entry ''A-'' (90/100), scale_entry ''B+'' (87/100), scale_entry ''B'' (83/100),
      scale_entry ''B-'' (80/100), scale_entry ''C+'' (77/100), scale_entry ''C'' (73/100), scale_entry ''C-'' (70/100),
      scale_entry ''D+'' (67/100), scale_entry ''D'' (63/100), scale_entry ''D-'' (60/100), scale_entry ''F'' 0]"

definition DefaultGradingScheme :: grading_scheme where
  "DefaultGradingScheme =
     \<lparr>gs_ID = 0, gs_Title = ''Default Grading Scheme'', gs_Entries = defaultGradingScale, gs_PointsBased = False, gs_ScalingFactor = 1\<rparr>"

definition sortEntriesDesc :: "grade_entry list \<Rightarrow> grade_entry list" where
  "sortEntriesDesc entries = sort_stable_by (\<lambda>e. - ge_Value e) entries"

text \<open>\<open>any\<close> values: a number anywhere that does not fit a \<open>float64\<close> fails the whole decoding.\<close>

fun numbers_fit :: "json \<Rightarrow> bool" where
  "numbers_fit (JNum t) = (parse_float t \<noteq> None)"
| "numbers_fit (JArr js) = list_all numbers_fit js"
| "numbers_fit (JObj kvs) = list_all (\<lambda>(k, j). numbers_fit j) kvs"
| "numbers_fit j = True"

fun row_of :: "json \<Rightarrow> json list option" where
  "row_of (JArr xs) = Some xs"
| "row_of JNull = Some []"
| "row_of j = None"

fun pair_entry :: "json list \<Rightarrow> grade_entry option" where
  "pair_entry (JStr n # JNum t # rest) = map_option (\<lambda>v. \<lparr>ge_Name = n, ge_Value = v\<rparr>) (parse_float t)"
| "pair_entry js = None"

definition parseGradingStandardData :: "(string \<Rightarrow> json option) \<Rightarrow> string \<Rightarrow> grade_entry list" where
  "parseGradingStandardData parse data =
     (case parse data of
        Some (JArr rows) \<Rightarrow>
          (if list_all (\<lambda>r. row_of r \<noteq> None \<and> numbers_fit r) rows
           then List.map_filter (\<lambda>r. case row_of r of Some js \<Rightarrow> pair_entry js | None \<Rightarrow> None) rows else [])
      | _ \<Rightarrow> [])"

definition SchemeFromStandard :: "(string \<Rightarrow> json option) \<Rightarrow> grading_standard \<Rightarrow> grading_scheme option" where
  "SchemeFromStandard parse gs =
     (let entries = parseGradingStandardData parse (gst_Data gs)
      in if entries = [] then None
         else Some \<lparr>gs_ID = gst_ID gs, gs_Title = gst_Title gs, gs_Entries = sortEntriesDesc entries,
           gs_PointsBased = gst_PointsBased gs,
           gs_ScalingFactor = (if gst_ScalingFactor gs \<le> 0 then 1 else gst_ScalingFactor gs)\<rparr>)"

definition scoreToLetterGradeWithScale :: "rat \<Rightarrow> grade_entry list option \<Rightarrow> string" where
  "scoreToLetterGradeWithScale score scale0 =
     (let scale = (case scale0 of Some s \<Rightarrow> s | None \<Rightarrow> defaultGradingScale); pct = fdiv score 100
      in case find (\<lambda>e. pct \<ge> ge_Value e) scale of
           Some e \<Rightarrow> ge_Name e
         | None \<Rightarrow> (if scale = [] then ''F'' else ge_Name (last scale)))"

section \<open>Percentages and grade names\<close>

definition round6 :: "rat \<Rightarrow> rat" where
  "round6 x = fdiv (math_Round (fmul x (10 ^ 6))) (10 ^ 6)"

definition shown_percent :: "grading_scheme \<Rightarrow> rat \<Rightarrow> rat" where
  "shown_percent s percent0 =
     (let percent = (if percent0 < 0 then 0 else percent0);
          sf = gs_ScalingFactor s;
          percent = (if gs_PointsBased s \<and> sf > 0 \<and> sf \<noteq> 100
            then let scaled = fdiv (math_Round (fmul (fdiv percent (fdiv 100 sf)) 100)) 100 in fmul (fdiv scaled sf) 100
            else percent)
      in round6 percent)"

definition cutoff :: "grade_entry \<Rightarrow> rat" where
  "cutoff e = round6 (fmul (ge_Value e) 100)"

definition ScoreToGrade :: "grading_scheme \<Rightarrow> rat \<Rightarrow> string" where
  "ScoreToGrade s percent =
     (if gs_Entries s = [] then scoreToLetterGradeWithScale percent None
      else case find (\<lambda>e. shown_percent s percent \<ge> cutoff e) (gs_Entries s) of
          Some e \<Rightarrow> ge_Name e
        | None \<Rightarrow> ge_Name (last (gs_Entries s)))"

definition minus_sign :: string where
  "minus_sign = [CHR 0xE2, CHR 0x88, CHR 0x92]"

definition has_suffix :: "string \<Rightarrow> string \<Rightarrow> bool" where
  "has_suffix s t = (length t \<le> length s \<and> drop (length s - length t) s = t)"

definition trim_suffix :: "string \<Rightarrow> string \<Rightarrow> string" where
  "trim_suffix s t = (if has_suffix s t then take (length s - length t) s else s)"

text \<open>\<open>parse_float\<close> of a number in this form fails only by overflow, where Go returns an infinity of its sign.\<close>

definition same_number :: "string \<Rightarrow> string \<Rightarrow> bool" where
  "same_number s t =
     (case (parse_float s, parse_float t) of
        (Some a, Some b) \<Rightarrow> a = b
      | (None, None) \<Rightarrow> fst (strip_sign s) = fst (strip_sign t)
      | _ \<Rightarrow> False)"

definition name_matches :: "text_ops \<Rightarrow> string \<Rightarrow> grade_entry \<Rightarrow> bool" where
  "name_matches tx g e =
     (if numericGrade g then numericGrade (ge_Name e) \<and> same_number (ge_Name e) g
      else tx_EqualFold tx (ge_Name e) g \<or>
        (has_suffix g minus_sign \<and> tx_EqualFold tx (ge_Name e) (trim_suffix g minus_sign @ ''-'')))"

fun find_index :: "('a \<Rightarrow> bool) \<Rightarrow> 'a list \<Rightarrow> nat option" where
  "find_index P [] = None"
| "find_index P (x # xs) = (if P x then Some 0 else map_option Suc (find_index P xs))"

definition indexOf :: "text_ops \<Rightarrow> grading_scheme \<Rightarrow> string \<Rightarrow> nat option" where
  "indexOf tx s grade =
     (let g = TrimSpace grade in if g = [] then None else find_index (name_matches tx g) (gs_Entries s))"

definition band_top :: "grading_scheme \<Rightarrow> nat \<Rightarrow> rat" where
  "band_top s idx =
     (if idx = 0 then 100
      else let upper = ge_Value (gs_Entries s ! (idx - 1)); sf = gs_ScalingFactor s
           in if gs_PointsBased s \<and> sf > 0
              then fmul (fdiv (fsub (fmul upper sf) (f64 (1 / 10))) sf) 100
              else let step = (if \<bar>fsub (ge_Value (gs_Entries s ! idx)) upper\<bar> < f64 (1 / 100) then f64 (1 / 10) else 1)
                   in fsub (fmul upper 100) step)"

definition GradeToPercent :: "text_ops \<Rightarrow> grading_scheme \<Rightarrow> string \<Rightarrow> rat option" where
  "GradeToPercent tx s grade = map_option (band_top s) (indexOf tx s grade)"

section \<open>Typed grades\<close>

definition usesGradingScheme :: "string \<Rightarrow> bool" where
  "usesGradingScheme t = (t = ''letter_grade'' \<or> t = ''gpa_scale'')"

definition grading_type :: "assignment \<Rightarrow> string" where
  "grading_type a = (if asg_GradingType a \<noteq> [] then asg_GradingType a else ''points'')"

definition points_or_0 :: "assignment \<Rightarrow> rat" where
  "points_or_0 a = (case asg_PointsPossible a of Some p \<Rightarrow> p | None \<Rightarrow> 0)"

datatype grade_error = NotGradable | InvalidGrade string | PassFailOnly

text \<open>\<open>typed_score\<close> is \<open>None\<close> for text that is not a grade and for a score that is not finite.\<close>

definition typed_score :: "text_ops \<Rightarrow> string \<Rightarrow> rat \<Rightarrow> grading_scheme option \<Rightarrow> string \<Rightarrow> rat option" where
  "typed_score tx gradingType possible scheme grade =
     (let lower = tx_ToLower tx grade; body = trim_suffix grade ''%''
      in if has_suffix grade ''%'' \<and> numericGrade body
         then map_option (\<lambda>v. fdiv (fmul possible v) 100) (parse_float body)
         else if numericGrade grade
         then (if gradingType = ''percent'' then map_option (\<lambda>v. fdiv (fmul possible v) 100) (parse_float grade)
               else case (if usesGradingScheme gradingType then (case scheme of Some s \<Rightarrow> GradeToPercent tx s grade | None \<Rightarrow> None) else None) of
                   Some p \<Rightarrow> Some (fdiv (fmul possible p) 100)
                 | None \<Rightarrow> parse_float grade)
         else if lower = ''complete'' \<or> lower = ''pass'' then Some possible
         else if lower = ''incomplete'' \<or> lower = ''fail'' then Some 0
         else if usesGradingScheme gradingType
         then map_option (\<lambda>p. fdiv (fmul possible p) 100)
           (GradeToPercent tx (case scheme of Some s \<Rightarrow> s | None \<Rightarrow> DefaultGradingScheme) grade)
         else None)"

definition InterpretGrade :: "text_ops \<Rightarrow> assignment \<Rightarrow> grading_scheme option \<Rightarrow> string \<Rightarrow> grade_error + rat" where
  "InterpretGrade tx a scheme grade0 =
     (let grade = TrimSpace grade0; gradingType = grading_type a; possible = points_or_0 a
      in if gradingType = ''not_graded'' then Inl NotGradable
         else case typed_score tx gradingType possible scheme grade of
             None \<Rightarrow> Inl (InvalidGrade grade)
           | Some score \<Rightarrow>
               (if gradingType = ''pass_fail''
                then (if score = possible then Inr possible else if score = 0 then Inr 0 else Inl PassFailOnly)
                else Inr (round6 score)))"

definition FormatGrade :: "text_ops \<Rightarrow> assignment \<Rightarrow> grading_scheme option \<Rightarrow> rat \<Rightarrow> string \<Rightarrow> string" where
  "FormatGrade tx a scheme score given =
     (let gradingType = grading_type a; possible = points_or_0 a
      in if gradingType = ''percent''
         then formatNumber (fdiv (math_Round (fmul (if possible > 0 then fmul (fdiv score possible) 100 else 0) 100)) 100) @ ''%''
         else if gradingType = ''pass_fail''
         then (let g = tx_ToLower tx (TrimSpace given);
                   passed = (if possible > 0 \<or> g = [] then score > 0 else g = ''complete'' \<or> g = ''pass'')
               in if passed then ''complete'' else ''incomplete'')
         else if usesGradingScheme gradingType
         then (let sch = (case scheme of Some s \<Rightarrow> s | None \<Rightarrow> DefaultGradingScheme)
               in if possible > 0 then ScoreToGrade sch (fmul (fdiv score possible) 100)
                  else if TrimSpace given \<noteq> [] then TrimSpace given
                  else ScoreToGrade sch score)
         else formatNumber score)"

section \<open>Rounded arithmetic is monotone\<close>

lemma fmul_mono: "x \<le> y \<Longrightarrow> 0 \<le> c \<Longrightarrow> fmul x c \<le> fmul y c"
  by (simp add: fmul_def f64_mono mult_right_mono)

lemma fdiv_mono: "x \<le> y \<Longrightarrow> 0 \<le> c \<Longrightarrow> fdiv x c \<le> fdiv y c"
  by (simp add: fdiv_def f64_mono divide_right_mono)

lemma round6_mono: "x \<le> y \<Longrightarrow> round6 x \<le> round6 y"
  by (simp add: round6_def fdiv_mono fmul_mono math_Round_mono)

end
