(* ===== verification/Scheme_Validation.thy ===== *)
theory Scheme_Validation imports Grading_Scheme "HOL-Library.Multiset" begin

text \<open>
  Validation of grading scheme data (\<open>NormalizeSchemeData\<close> of \<open>grading_scheme.go\<close>), and what holds of
  the conversions: a higher percentage never gets a lower grade, and a typed grade name is the
  grade shown for the points it stands for when the bands are wide enough.
\<close>

section \<open>Validation\<close>

datatype scheme_error =
  NotAList | TooManyGrades | NameNotText | MinimumNotNumber | NeedsNameAndMinimum | BadName | NegativeMinimum |
  ExceedsHundred | DuplicateName string | SharedMinimum rat | LowestNotZero

record scheme_row =
  sr_Name :: string
  sr_Value :: "rat option"

definition scheme_row_fields :: "scheme_row field list" where
  "scheme_row_fields =
     [(''name'', into_string (\<lambda>x s. s\<lparr>sr_Name := x\<rparr>)), (''value'', into_float_ptr (\<lambda>x s. s\<lparr>sr_Value := x\<rparr>))]"

definition row_name :: "json \<Rightarrow> string option" where
  "row_name j = (case j of JStr s \<Rightarrow> Some s | JNull \<Rightarrow> Some [] | _ \<Rightarrow> None)"

definition row_minimum :: "json \<Rightarrow> rat option" where
  "row_minimum j = (case j of JNum t \<Rightarrow> parse_float t | JNull \<Rightarrow> Some 0 | _ \<Rightarrow> None)"

definition row_object :: "json \<Rightarrow> scheme_error + (string \<times> rat)" where
  "row_object item =
     (case decode_struct scheme_row_fields \<lparr>sr_Name = [], sr_Value = None\<rparr> item of
        None \<Rightarrow> Inl NeedsNameAndMinimum
      | Some r \<Rightarrow> (case sr_Value r of None \<Rightarrow> Inl NeedsNameAndMinimum | Some v \<Rightarrow> Inr (sr_Name r, v)))"

fun row_pair :: "json \<Rightarrow> scheme_error + (string \<times> rat)" where
  "row_pair (JArr (n # v # rest)) =
     (case row_name n of
        None \<Rightarrow> Inl NameNotText
      | Some name \<Rightarrow> (case row_minimum v of None \<Rightarrow> Inl MinimumNotNumber | Some value \<Rightarrow> Inr (name, value)))"
| "row_pair item = row_object item"

definition read_row :: "json \<Rightarrow> scheme_error + grade_entry" where
  "read_row item =
     bind_result (row_pair item) (\<lambda>(name0, value).
       let name = TrimSpace name0
       in if name = [] \<or> length name > 255 then Inl BadName
          else if value < 0 then Inl NegativeMinimum
          else Inr \<lparr>ge_Name = name, ge_Value = value\<rparr>)"

fun read_rows :: "json list \<Rightarrow> scheme_error + grade_entry list" where
  "read_rows [] = Inr []"
| "read_rows (item # items) = bind_result (read_row item) (\<lambda>e. bind_result (read_rows items) (\<lambda>es. Inr (e # es)))"

definition scaled_value :: "bool \<Rightarrow> rat \<Rightarrow> rat" where
  "scaled_value percent v = fdiv (math_Round (fmul (if percent then fdiv v 100 else v) 10000)) 10000"

fun check_rows :: "text_ops \<Rightarrow> bool \<Rightarrow> string list \<Rightarrow> rat list \<Rightarrow> grade_entry list \<Rightarrow> scheme_error + grade_entry list" where
  "check_rows tx percent seenName seenValue [] = (if 0 \<in> set seenValue then Inr [] else Inl LowestNotZero)"
| "check_rows tx percent seenName seenValue (e # es) =
     (let v = scaled_value percent (ge_Value e); key = tx_ToLower tx (ge_Name e)
      in if v > 1 then Inl ExceedsHundred
         else if key \<in> set seenName then Inl (DuplicateName (ge_Name e))
         else if v \<in> set seenValue then Inl (SharedMinimum (fmul v 100))
         else bind_result (check_rows tx percent (key # seenName) (v # seenValue) es) (\<lambda>es. Inr (e\<lparr>ge_Value := v\<rparr> # es)))"

definition scheme_document :: "grade_entry list \<Rightarrow> json" where
  "scheme_document entries = JArr (map (\<lambda>e. JArr [JStr (ge_Name e), JNum (FormatFloat (ge_Value e))]) entries)"

definition NormalizeSchemeData :: "text_ops \<Rightarrow> json \<Rightarrow> scheme_error + (json \<times> grade_entry list)" where
  "NormalizeSchemeData tx raw =
     (case row_of raw of
        None \<Rightarrow> Inl NotAList
      | Some arr \<Rightarrow>
          (if arr = [] then Inl NotAList
           else if length arr > 100 then Inl TooManyGrades
           else bind_result (read_rows arr) (\<lambda>entries.
             bind_result (check_rows tx (list_ex (\<lambda>e. ge_Value e > 1) entries) [] [] entries) (\<lambda>checked.
               let sorted = sortEntriesDesc checked in Inr (scheme_document sorted, sorted)))))"

section \<open>Accepted schemes are well formed\<close>

definition scheme_ok :: "text_ops \<Rightarrow> grade_entry list \<Rightarrow> bool" where
  "scheme_ok tx entries =
     (entries \<noteq> [] \<and> length entries \<le> 100 \<and> sorted_wrt (\<lambda>a b. ge_Value b < ge_Value a) entries \<and>
      list_all (\<lambda>e. 0 \<le> ge_Value e \<and> ge_Value e \<le> 1 \<and> ge_Name e \<noteq> [] \<and> length (ge_Name e) \<le> 255) entries \<and>
      ge_Value (last entries) = 0 \<and> distinct (map (\<lambda>e. tx_ToLower tx (ge_Name e)) entries))"

lemma read_rows_ok: "read_rows items = Inr es \<Longrightarrow>
   length es = length items \<and> list_all (\<lambda>e. 0 \<le> ge_Value e \<and> ge_Name e \<noteq> [] \<and> length (ge_Name e) \<le> 255) es"
proof (induction items arbitrary: es)
  case (Cons item items)
  obtain e es' where e: "read_row item = Inr e" "read_rows items = Inr es'" "es = e # es'" using Cons.prems by auto
  have "0 \<le> ge_Value e \<and> ge_Name e \<noteq> [] \<and> length (ge_Name e) \<le> 255"
    using e(1) by (auto simp: read_row_def Let_def split: if_splits)
  with Cons.IH[OF e(2)] e(3) show ?case by simp
qed simp

lemma scaled_value_nonneg: "0 \<le> v \<Longrightarrow> 0 \<le> scaled_value p v"
  by (simp add: scaled_value_def float_ops ieee.nonneg math_Round_nonneg)

lemma check_rows_step:
  assumes "check_rows tx p seenN seenV (e # es) = Inr out"
  obtains out' where "scaled_value p (ge_Value e) \<le> 1" "tx_ToLower tx (ge_Name e) \<notin> set seenN" "scaled_value p (ge_Value e) \<notin> set seenV"
    "check_rows tx p (tx_ToLower tx (ge_Name e) # seenN) (scaled_value p (ge_Value e) # seenV) es = Inr out'"
    "out = e\<lparr>ge_Value := scaled_value p (ge_Value e)\<rparr> # out'"
  using assms by (auto simp: Let_def split: if_splits)

lemma check_rows_maps:
  "check_rows tx p seenN seenV es = Inr out \<Longrightarrow>
     map ge_Name out = map ge_Name es \<and> map ge_Value out = map (\<lambda>e. scaled_value p (ge_Value e)) es"
proof (induction es arbitrary: seenN seenV out)
  case (Cons e es)
  from Cons.prems show ?case by (rule check_rows_step) (use Cons.IH in simp)
qed (simp split: if_splits)

lemma check_rows_ok:
  "check_rows tx p seenN seenV es = Inr out \<Longrightarrow>
     list_all (\<lambda>e. ge_Value e \<le> 1) out \<and> distinct (map ge_Value out) \<and> set (map ge_Value out) \<inter> set seenV = {} \<and>
     distinct (map (\<lambda>e. tx_ToLower tx (ge_Name e)) out) \<and> set (map (\<lambda>e. tx_ToLower tx (ge_Name e)) out) \<inter> set seenN = {} \<and>
     0 \<in> set (map ge_Value out) \<union> set seenV"
proof (induction es arbitrary: seenN seenV out)
  case (Cons e es)
  obtain out' where o: "scaled_value p (ge_Value e) \<le> 1" "tx_ToLower tx (ge_Name e) \<notin> set seenN" "scaled_value p (ge_Value e) \<notin> set seenV"
    "check_rows tx p (tx_ToLower tx (ge_Name e) # seenN) (scaled_value p (ge_Value e) # seenV) es = Inr out'"
    "out = e\<lparr>ge_Value := scaled_value p (ge_Value e)\<rparr> # out'"
    using Cons.prems by (rule check_rows_step)
  from Cons.IH[OF o(4)] o(1-3) show ?case unfolding o(5) by auto
qed (simp split: if_splits)

text \<open>
  C38. Scheme data that the validation accepts is a usable scheme: 1 to 100 grades with strictly
  descending minimums between 0 and 1, the lowest of them 0, and with non-empty names of at most
  255 bytes that differ even when case is ignored.
\<close>

theorem accepted_scheme_is_well_formed:
  assumes "NormalizeSchemeData tx raw = Inr (doc, entries)"
  shows "scheme_ok tx entries \<and> doc = scheme_document entries"
proof -
  obtain arr es checked p where a: "row_of raw = Some arr" "arr \<noteq> []" "length arr \<le> 100" "read_rows arr = Inr es"
    "check_rows tx p [] [] es = Inr checked" "entries = sortEntriesDesc checked" "doc = scheme_document entries"
    using assms by (auto simp: NormalizeSchemeData_def Let_def split: option.splits if_splits)
  note r = read_rows_ok[OF a(4)] and c = check_rows_ok[OF a(5)] and maps = check_rows_maps[OF a(5)]
  have vals: "list_all (\<lambda>e. 0 \<le> ge_Value e \<and> ge_Value e \<le> 1 \<and> ge_Name e \<noteq> [] \<and> length (ge_Name e) \<le> 255) checked"
  proof -
    have "ge_Value ` set checked = (\<lambda>e. scaled_value p (ge_Value e)) ` set es" "ge_Name ` set checked = ge_Name ` set es"
      using maps by (metis set_map)+
    then have "ge_Value e \<in> (\<lambda>e. scaled_value p (ge_Value e)) ` set es" "ge_Name e \<in> ge_Name ` set es" if "e \<in> set checked" for e
      using that by blast+
    then have "0 \<le> ge_Value e \<and> ge_Name e \<noteq> [] \<and> length (ge_Name e) \<le> 255" if "e \<in> set checked" for e
      using that r scaled_value_nonneg by (fastforce simp: list_all_iff)
    then show ?thesis using c by (simp add: list_all_iff)
  qed
  have set: "set entries = set checked" and len: "length entries = length checked" by (simp_all add: a(6) sortEntriesDesc_def)
  have mset: "mset entries = mset checked" by (simp add: a(6) sortEntriesDesc_def)
  have lenc: "length checked = length arr" using r maps by (metis length_map)
  have desc: "sorted_wrt (\<lambda>a b. ge_Value b < ge_Value a) entries"
  proof -
    have "sorted (map (\<lambda>e. - ge_Value e) entries)" by (simp add: a(6) sortEntriesDesc_def)
    moreover have "distinct (map (\<lambda>e. - ge_Value e) entries)"
    proof -
      have "distinct (map ge_Value entries)" using c mset by (metis mset_map distinct_count_atmost_1 mset_eq_imp_distinct_iff)
      then show ?thesis by (auto simp: distinct_map inj_on_def)
    qed
    ultimately have "sorted_wrt (<) (map (\<lambda>e. - ge_Value e) entries)" by (simp add: strict_sorted_iff)
    then show ?thesis by (simp add: sorted_wrt_map)
  qed
  have names: "distinct (map (\<lambda>e. tx_ToLower tx (ge_Name e)) entries)"
    using c mset by (metis mset_map mset_eq_imp_distinct_iff)
  have ne: "entries \<noteq> []" using len lenc a(2) by auto
  have last: "ge_Value (last entries) = 0"
  proof -
    obtain e where e: "e \<in> set entries" "ge_Value e = 0" using c set by auto
    have "sorted (map (\<lambda>e. - ge_Value e) entries)" by (simp add: a(6) sortEntriesDesc_def)
    from last_sorted_max[OF e(1) this] have "ge_Value (last entries) \<le> 0" using e(2) by simp
    moreover have "0 \<le> ge_Value (last entries)" using vals set ne by (auto simp: list_all_iff)
    ultimately show ?thesis by simp
  qed
  show ?thesis
    using ne len lenc a(3,7) desc vals set last names by (auto simp: scheme_ok_def list_all_iff)
qed

section \<open>Higher percentages, higher grades\<close>

lemma shown_percent_mono:
  assumes "p \<le> p'" shows "shown_percent s p \<le> shown_percent s p'"
proof -
  let ?q = "if p < 0 then 0 else p" and ?q' = "if p' < 0 then 0 else p'"
  have q: "?q \<le> ?q'" using assms by auto
  show ?thesis
  proof (cases "gs_PointsBased s \<and> gs_ScalingFactor s > 0 \<and> gs_ScalingFactor s \<noteq> 100")
    case True
    have "0 \<le> fdiv 100 (gs_ScalingFactor s)" using True by (simp add: fdiv_def ieee.nonneg)
    then have "fmul (fdiv (fdiv (math_Round (fmul (fdiv ?q (fdiv 100 (gs_ScalingFactor s))) 100)) 100) (gs_ScalingFactor s)) 100
        \<le> fmul (fdiv (fdiv (math_Round (fmul (fdiv ?q' (fdiv 100 (gs_ScalingFactor s))) 100)) 100) (gs_ScalingFactor s)) 100"
      using True by (intro fmul_mono fdiv_mono math_Round_mono q) simp_all
    then show ?thesis using True unfolding shown_percent_def Let_def by (simp only: if_True round6_mono simp_thms)
  next
    case False
    then show ?thesis using round6_mono[OF q] unfolding shown_percent_def Let_def by (simp only: if_False)
  qed
qed

definition grade_position :: "grading_scheme \<Rightarrow> rat \<Rightarrow> nat" where
  "grade_position s p =
     (case find_index (\<lambda>e. shown_percent s p \<ge> cutoff e) (gs_Entries s) of Some i \<Rightarrow> i | None \<Rightarrow> length (gs_Entries s) - 1)"

lemma find_index_Some: "find_index P xs = Some i \<Longrightarrow> i < length xs \<and> P (xs ! i) \<and> (\<forall>j<i. \<not> P (xs ! j)) \<and> find P xs = Some (xs ! i)"
  by (induction xs arbitrary: i) (auto split: if_splits simp: nth_Cons split: nat.split)

lemma find_index_None: "find_index P xs = None \<longleftrightarrow> (\<forall>x\<in>set xs. \<not> P x)"
  by (induction xs) auto

lemma find_index_first: "i < length xs \<Longrightarrow> P (xs ! i) \<Longrightarrow> (\<And>j. j < i \<Longrightarrow> \<not> P (xs ! j)) \<Longrightarrow> find_index P xs = Some i"
proof (cases "find_index P xs")
  case None
  moreover assume "i < length xs" "P (xs ! i)"
  ultimately show ?thesis using find_index_None[of P xs] by auto
next
  case (Some k)
  assume "i < length xs" "P (xs ! i)" "\<And>j. j < i \<Longrightarrow> \<not> P (xs ! j)"
  moreover note find_index_Some[OF Some]
  ultimately have "k = i" by (metis linorder_neqE_nat)
  then show ?thesis using Some by simp
qed

lemma ScoreToGrade_position:
  assumes "gs_Entries s \<noteq> []"
  shows "ScoreToGrade s p = ge_Name (gs_Entries s ! grade_position s p)" "grade_position s p < length (gs_Entries s)"
proof -
  let ?P = "\<lambda>e. shown_percent s p \<ge> cutoff e"
  have "ScoreToGrade s p = ge_Name (gs_Entries s ! grade_position s p) \<and> grade_position s p < length (gs_Entries s)"
  proof (cases "find_index ?P (gs_Entries s)")
    case None
    then have "find ?P (gs_Entries s) = None" by (simp add: find_index_None find_None_iff)
    with None assms show ?thesis by (simp add: ScoreToGrade_def grade_position_def last_conv_nth)
  next
    case (Some i)
    from find_index_Some[OF this] Some assms show ?thesis by (simp add: ScoreToGrade_def grade_position_def)
  qed
  then show "ScoreToGrade s p = ge_Name (gs_Entries s ! grade_position s p)" "grade_position s p < length (gs_Entries s)" by blast+
qed

text \<open>
  C39. A higher percentage never gets a grade further down the scheme, for percentage and for
  points-based schemes and through every rounding of the conversion.
\<close>

theorem higher_percent_higher_grade:
  assumes "gs_Entries s \<noteq> []" "p \<le> p'"
  shows "ScoreToGrade s p = ge_Name (gs_Entries s ! grade_position s p) \<and>
    ScoreToGrade s p' = ge_Name (gs_Entries s ! grade_position s p') \<and> grade_position s p' \<le> grade_position s p"
proof -
  let ?P = "\<lambda>p e. shown_percent s p \<ge> cutoff e"
  have "grade_position s p' \<le> grade_position s p"
  proof (cases "find_index (?P p) (gs_Entries s)")
    case None
    then show ?thesis using ScoreToGrade_position(2)[OF assms(1), of p'] by (simp add: grade_position_def)
  next
    case (Some i)
    then have i: "i < length (gs_Entries s)" "?P p' (gs_Entries s ! i)"
      using find_index_Some[OF Some] shown_percent_mono[OF assms(2), of s] by auto
    then obtain k where k: "find_index (?P p') (gs_Entries s) = Some k"
      using find_index_None[of "?P p'" "gs_Entries s"] by (cases "find_index (?P p') (gs_Entries s)") auto
    then have "k \<le> i" using find_index_Some[OF k] i by (metis not_le)
    then show ?thesis using Some k by (simp add: grade_position_def)
  qed
  with ScoreToGrade_position(1)[OF assms(1)] show ?thesis by blast
qed

theorem higher_percent_higher_grade_witness:
  "grade_position DefaultGradingScheme 87 \<le> grade_position DefaultGradingScheme 50"
  using higher_percent_higher_grade[of DefaultGradingScheme 50 87] by (simp add: DefaultGradingScheme_def defaultGradingScale_def)

section \<open>A typed grade name is the grade shown\<close>

lemma f64_128: "\<bar>n\<bar> \<le> 2 ^ 53 \<Longrightarrow> f64 (of_int n / 128) = of_int n / 128"
  using f64_representable[of n "-7"] by (simp add: power_int_minus field_simps)

text \<open>Rounding moves a value of moderate size by less than 1/128.\<close>

lemma f64_near:
  assumes "\<bar>x\<bar> \<le> 2 ^ 40"
  shows "x - 1 / 128 < f64 x" "f64 x < x + 1 / 128"
proof -
  have b: "\<bar>x * 128\<bar> \<le> 2 ^ 47" using assms by (simp add: abs_mult)
  have "(of_int \<bar>\<lfloor>x * 128\<rfloor>\<bar> :: rat) \<le> of_int (2 ^ 53)" "(of_int \<bar>\<lceil>x * 128\<rceil>\<bar> :: rat) \<le> of_int (2 ^ 53)"
    using b floor_correct[of "x * 128"] ceiling_correct[of "x * 128"] by (simp_all add: abs_le_iff, linarith+)
  then have "\<bar>\<lfloor>x * 128\<rfloor>\<bar> \<le> 2 ^ 53" "\<bar>\<lceil>x * 128\<rceil>\<bar> \<le> 2 ^ 53" by (simp_all only: of_int_le_iff)
  then have "f64 (of_int \<lfloor>x * 128\<rfloor> / 128) = of_int \<lfloor>x * 128\<rfloor> / 128" "f64 (of_int \<lceil>x * 128\<rceil> / 128) = of_int \<lceil>x * 128\<rceil> / 128"
    by (simp_all only: f64_128)
  moreover have "of_int \<lfloor>x * 128\<rfloor> / 128 \<le> x" "x \<le> of_int \<lceil>x * 128\<rceil> / 128" by (simp_all add: field_simps)
  ultimately have "of_int \<lfloor>x * 128\<rfloor> / 128 \<le> f64 x" "f64 x \<le> of_int \<lceil>x * 128\<rceil> / 128" using f64_mono by metis+
  moreover have "x - 1 / 128 < of_int \<lfloor>x * 128\<rfloor> / 128" "of_int \<lceil>x * 128\<rceil> / 128 < x + 1 / 128"
    by (simp_all add: field_simps, linarith+)
  ultimately show "x - 1 / 128 < f64 x" "f64 x < x + 1 / 128" by linarith+
qed

lemma math_Round_near: "x - 1 \<le> math_Round x" "math_Round x \<le> x + 1"
proof -
  have "x - 1 \<le> math_Round x \<and> math_Round x \<le> x + 1"
    unfolding math_Round_def by (auto, linarith+)
  then show "x - 1 \<le> math_Round x" "math_Round x \<le> x + 1" by blast+
qed

lemma round6_near:
  assumes "0 \<le> x" "x \<le> 100" shows "x - 1 / 64 < round6 x" "round6 x < x + 1 / 64"
proof -
  have a: "x * 10 ^ 6 - 1 / 128 < fmul x (10 ^ 6)" "fmul x (10 ^ 6) < x * 10 ^ 6 + 1 / 128"
    using f64_near[of "x * 10 ^ 6"] assms by (simp_all add: fmul_def)
  have b: "x * 10 ^ 6 - 2 < math_Round (fmul x (10 ^ 6))" "math_Round (fmul x (10 ^ 6)) < x * 10 ^ 6 + 2"
    using a math_Round_near[of "fmul x (10 ^ 6)"] by linarith+
  then have c: "x - 2 / 10 ^ 6 < math_Round (fmul x (10 ^ 6)) / 10 ^ 6" "math_Round (fmul x (10 ^ 6)) / 10 ^ 6 < x + 2 / 10 ^ 6"
    by (simp_all add: field_simps)
  have "\<bar>math_Round (fmul x (10 ^ 6)) / 10 ^ 6\<bar> \<le> 2 ^ 40" using c assms by simp
  from f64_near[OF this] c show "x - 1 / 64 < round6 x" "round6 x < x + 1 / 64" by (simp_all add: round6_def fdiv_def)
qed

text \<open>Bands at least 1.1 percentage points wide, below the given index.\<close>

definition wide_bands :: "grading_scheme \<Rightarrow> bool" where
  "wide_bands s =
     (\<not> gs_PointsBased s \<and> list_all (\<lambda>e. 0 \<le> ge_Value e \<and> ge_Value e \<le> 1) (gs_Entries s) \<and>
      (\<forall>i. Suc i < length (gs_Entries s) \<longrightarrow> ge_Value (gs_Entries s ! Suc i) + 11 / 1000 \<le> ge_Value (gs_Entries s ! i)))"

lemma wide_bands_desc:
  assumes "wide_bands s" "i \<le> j" "j < length (gs_Entries s)"
  shows "ge_Value (gs_Entries s ! j) \<le> ge_Value (gs_Entries s ! i)"
  using assms(2,3)
proof (induction j)
  case (Suc j)
  have "ge_Value (gs_Entries s ! Suc j) + 11 / 1000 \<le> ge_Value (gs_Entries s ! j)"
    using assms(1) Suc.prems(2) by (simp add: wide_bands_def)
  with Suc show ?case by (cases "i = Suc j") auto
qed simp

lemma shown_unscaled: "\<not> gs_PointsBased s \<Longrightarrow> 0 \<le> p \<Longrightarrow> shown_percent s p = round6 p"
  by (simp add: shown_percent_def Let_def)

lemma band_top_wide:
  assumes w: "wide_bands s" and i: "Suc i < length (gs_Entries s)"
  shows "0 \<le> band_top s (Suc i)" "fmul (ge_Value (gs_Entries s ! Suc i)) 100 \<le> band_top s (Suc i)"
    "band_top s (Suc i) \<le> fmul (ge_Value (gs_Entries s ! i)) 100 - 1 / 2" "fmul (ge_Value (gs_Entries s ! i)) 100 \<le> 100"
proof -
  define own up where "own = ge_Value (gs_Entries s ! Suc i)" and "up = ge_Value (gs_Entries s ! i)"
  have gap: "own + 11 / 1000 \<le> up" "0 \<le> own" "up \<le> 1"
    using w i by (auto simp: wide_bands_def own_def up_def list_all_length)
  have U: "up * 100 - 1 / 128 < fmul up 100" "fmul up 100 < up * 100 + 1 / 128" "0 \<le> up * 100" "fmul up 100 \<le> 100"
    using f64_near[of "up * 100"] gap ieee.le_int[of 100 "up * 100"] by (simp_all add: fmul_def)
  have "fsub own up \<le> f64 (- (1 / 100))" unfolding fsub_def using gap by (intro f64_mono) simp
  moreover have "0 \<le> f64 (1 / 100)" by (rule ieee.nonneg) simp
  ultimately have "\<not> \<bar>fsub own up\<bar> < f64 (1 / 100)" by simp
  then have top: "band_top s (Suc i) = f64 (fmul up 100 - 1)"
    using w by (simp add: band_top_def wide_bands_def Let_def own_def[symmetric] up_def[symmetric] fsub_def)
  have le: "own * 100 \<le> fmul up 100 - 1" using U(1) gap by linarith
  then show own: "fmul (ge_Value (gs_Entries s ! Suc i)) 100 \<le> band_top s (Suc i)"
    unfolding top own_def[symmetric] fmul_def[of own] by (rule f64_mono)
  have "0 \<le> fmul own 100" using gap(2) by (simp add: fmul_def ieee.nonneg)
  then show "0 \<le> band_top s (Suc i)" using own by (simp add: own_def)
  have "\<bar>fmul up 100 - 1\<bar> \<le> 2 ^ 40" using U gap by simp
  from f64_near(2)[OF this] show "band_top s (Suc i) \<le> fmul (ge_Value (gs_Entries s ! i)) 100 - 1 / 2"
    unfolding top up_def[symmetric] by simp
  show "fmul (ge_Value (gs_Entries s ! i)) 100 \<le> 100" using U(4) by (simp add: up_def)
qed

text \<open>
  In a percentage scheme whose bands are at least 1.1 points wide, the percentage that a typed
  grade name stands for is shown as that grade: typing any grade of the scheme records the same grade.
\<close>

theorem typed_grade_is_shown:
  assumes w: "wide_bands s" and i: "i < length (gs_Entries s)"
  shows "ScoreToGrade s (band_top s i) = ge_Name (gs_Entries s ! i)"
proof -
  have np: "\<not> gs_PointsBased s" using w by (simp add: wide_bands_def)
  have ne: "gs_Entries s \<noteq> []" using i by auto
  have "grade_position s (band_top s i) = i"
  proof (cases i)
    case 0
    have "ge_Value (gs_Entries s ! 0) \<le> 1" using w i 0 by (auto simp: wide_bands_def list_all_length)
    then have "fmul (ge_Value (gs_Entries s ! 0)) 100 \<le> 100"
      using ieee.le_int[of 100 "ge_Value (gs_Entries s ! 0) * 100"] by (simp add: fmul_def)
    then have "cutoff (gs_Entries s ! 0) \<le> shown_percent s (band_top s 0)"
      using np by (simp add: shown_unscaled band_top_def cutoff_def round6_mono)
    then have "find_index (\<lambda>e. cutoff e \<le> shown_percent s (band_top s 0)) (gs_Entries s) = Some 0"
      using i 0 by (intro find_index_first) auto
    then show ?thesis using 0 by (simp add: grade_position_def)
  next
    case (Suc k)
    note t = band_top_wide[OF w i[unfolded Suc]]
    have shown: "shown_percent s (band_top s (Suc k)) = round6 (band_top s (Suc k))" by (rule shown_unscaled[OF np t(1)])
    have reach: "cutoff (gs_Entries s ! Suc k) \<le> shown_percent s (band_top s (Suc k))"
      unfolding shown cutoff_def by (rule round6_mono[OF t(2)])
    have miss: "\<not> cutoff (gs_Entries s ! j) \<le> shown_percent s (band_top s (Suc k))" if "j < Suc k" for j
    proof -
      have "ge_Value (gs_Entries s ! k) \<le> ge_Value (gs_Entries s ! j)"
        using wide_bands_desc[OF w, of j k] that i Suc by simp
      then have "cutoff (gs_Entries s ! k) \<le> cutoff (gs_Entries s ! j)"
        unfolding cutoff_def by (intro round6_mono fmul_mono) simp_all
      moreover have "round6 (band_top s (Suc k)) < cutoff (gs_Entries s ! k)"
        using round6_near(2)[OF t(1)] round6_near(1)[of "fmul (ge_Value (gs_Entries s ! k)) 100"] t unfolding cutoff_def by linarith
      ultimately show ?thesis using shown by simp
    qed
    have "find_index (\<lambda>e. cutoff e \<le> shown_percent s (band_top s (Suc k))) (gs_Entries s) = Some (Suc k)"
      using i reach miss unfolding Suc by (intro find_index_first) auto
    then show ?thesis using Suc by (simp add: grade_position_def)
  qed
  with ScoreToGrade_position(1)[OF ne, of "band_top s i"] show ?thesis by simp
qed

definition sample_scheme :: grading_scheme where
  "sample_scheme = \<lparr>gs_ID = 1, gs_Title = ''halves'', gs_Entries =
     [\<lparr>ge_Name = ''high'', ge_Value = 3/4\<rparr>, \<lparr>ge_Name = ''middle'', ge_Value = 1/2\<rparr>, \<lparr>ge_Name = ''low'', ge_Value = 0\<rparr>],
     gs_PointsBased = False, gs_ScalingFactor = 1\<rparr>"

theorem typed_grade_is_shown_witness:
  "wide_bands sample_scheme \<and> ScoreToGrade sample_scheme (band_top sample_scheme 1) = ''middle''"
proof -
  have w: "wide_bands sample_scheme"
    unfolding wide_bands_def by (auto simp: sample_scheme_def less_Suc_eq nth_Cons split: nat.split)
  show ?thesis using w typed_grade_is_shown[OF w, of 1] by (simp add: sample_scheme_def)
qed

section \<open>A scheme document that is accepted\<close>

definition ascii_text :: text_ops where
  "ascii_text = \<lparr>tx_ToLower = fold_name, tx_EqualFold = (\<lambda>s t. fold_name s = fold_name t)\<rparr>"

definition sample_document :: json where
  "sample_document = JArr [JArr [JStr ''low'', JNum ''0''], JArr [JStr ''high'', JNum ''50''],
     JObj [(''name'', JStr ''top''), (''value'', JNum ''75'')]]"

lemma sample_accepted:
  "(case NormalizeSchemeData ascii_text sample_document of Inr (d, es) \<Rightarrow> map ge_Name es = [''top'', ''high'', ''low''] | Inl _ \<Rightarrow> False)"
  by code_simp

theorem accepted_scheme_is_well_formed_witness:
  "\<exists>doc entries. NormalizeSchemeData ascii_text sample_document = Inr (doc, entries) \<and>
     map ge_Name entries = [''top'', ''high'', ''low''] \<and> scheme_ok ascii_text entries"
proof -
  obtain doc entries where e: "NormalizeSchemeData ascii_text sample_document = Inr (doc, entries)"
    "map ge_Name entries = [''top'', ''high'', ''low'']"
    using sample_accepted by (auto split: sum.splits prod.splits)
  then show ?thesis using accepted_scheme_is_well_formed[OF e(1)] by (intro exI conjI) (rule e, rule e, blast)
qed

end
