(* ===== verification/Due_Dates.thy ===== *)
theory Due_Dates imports Models begin

text \<open>
  Effective due dates (\<open>internal/service/due_dates.go\<close>, \<open>override_service.go\<close>, \<open>accommodation_service.go\<close>
  and the queries they run): the dates of one student on one assignment as grading resolves them,
  the bulk resolver of the gradebook, and grading periods. \<open>AddDate(0, 0, n)\<close> is modelled in UTC,
  where it adds \<open>n\<close> times 24 hours.
\<close>

section \<open>Overrides, enrollments and accommodations\<close>

record assignment_override =
  ov_ID :: nat
  ov_AssignmentID :: nat
  ov_DueAt :: "instant option"
  ov_UnlockAt :: "instant option"
  ov_LockAt :: "instant option"
  ov_CourseSectionID :: "nat option"
  ov_WorkflowState :: string

record override_student =
  os_ID :: nat
  os_OverrideID :: nat
  os_UserID :: nat
  os_AssignmentID :: nat

record enrollment =
  en_ID :: nat
  en_UserID :: nat
  en_CourseID :: nat
  en_Type :: string
  en_CourseSectionID :: "nat option"
  en_WorkflowState :: string

record accommodation =
  ac_ID :: nat
  ac_UserID :: nat
  ac_CourseID :: "nat option"
  ac_ExtraDays :: "int option"
  ac_Status :: string
  ac_EffectiveFrom :: instant
  ac_EffectiveUntil :: "instant option"
  ac_TimeMultiplier :: "rat option"

record dates_db =
  dd_Assignments :: "assignment list"
  dd_Overrides :: "assignment_override list"
  dd_OverrideStudents :: "override_student list"
  dd_Enrollments :: "enrollment list"
  dd_Accommodations :: "accommodation list"

definition add_days :: "instant \<Rightarrow> int \<Rightarrow> instant" where
  "add_days t n = t + n * day"

text \<open>\<open>None\<close> is no due date, the most lenient.\<close>

definition laterDue :: "instant option \<Rightarrow> instant option \<Rightarrow> bool" where
  "laterDue a b = (case b of None \<Rightarrow> False | Some t \<Rightarrow> (case a of None \<Rightarrow> True | Some s \<Rightarrow> s > t))"

section \<open>One student, one assignment\<close>

definition override_FindByID :: "dates_db \<Rightarrow> nat \<Rightarrow> assignment_override option" where
  "override_FindByID db i = find (\<lambda>o'. ov_ID o' = i \<and> ov_WorkflowState o' \<noteq> ''deleted'') (dd_Overrides db)"

definition ListByUserAndAssignment :: "dates_db \<Rightarrow> nat \<Rightarrow> nat \<Rightarrow> override_student list" where
  "ListByUserAndAssignment db uid aid = filter (\<lambda>r. os_UserID r = uid \<and> os_AssignmentID r = aid) (dd_OverrideStudents db)"

definition ListByAssignmentID :: "dates_db \<Rightarrow> nat \<Rightarrow> assignment_override list" where
  "ListByAssignmentID db aid =
     sort_stable_by ov_ID (filter (\<lambda>o'. ov_AssignmentID o' = aid \<and> ov_WorkflowState o' \<noteq> ''deleted'') (dd_Overrides db))"

definition enrolled_sections :: "dates_db \<Rightarrow> nat \<Rightarrow> nat \<Rightarrow> nat list" where
  "enrolled_sections db uid cid =
     List.map_filter (\<lambda>e. if en_CourseID e = cid then en_CourseSectionID e else None)
       (filter (\<lambda>e. en_UserID e = uid \<and> en_WorkflowState e = ''active'') (dd_Enrollments db))"

definition for_section :: "nat list \<Rightarrow> assignment_override \<Rightarrow> bool" where
  "for_section sections o' = (case ov_CourseSectionID o' of None \<Rightarrow> False | Some s \<Rightarrow> s \<in> set sections)"

text \<open>The closure \<open>add\<close>: each live override of the assignment once.\<close>

definition add_override :: "nat \<Rightarrow> assignment_override list \<Rightarrow> assignment_override \<Rightarrow> assignment_override list" where
  "add_override aid acc o' =
     (if ov_AssignmentID o' \<noteq> aid \<or> ov_WorkflowState o' = ''deleted'' \<or> ov_ID o' \<in> set (map ov_ID acc) then acc else acc @ [o'])"

definition applicable_overrides :: "dates_db \<Rightarrow> assignment \<Rightarrow> nat \<Rightarrow> assignment_override list" where
  "applicable_overrides db a uid =
     (let adhoc = List.map_filter (\<lambda>r. override_FindByID db (os_OverrideID r)) (ListByUserAndAssignment db uid (asg_ID a));
          sections = enrolled_sections db uid (asg_CourseID a);
          by_section = (if sections = [] then [] else filter (for_section sections) (ListByAssignmentID db (asg_ID a)))
      in foldl (add_override (asg_ID a)) [] (adhoc @ by_section))"

definition most_lenient :: "assignment_override \<Rightarrow> assignment_override list \<Rightarrow> assignment_override" where
  "most_lenient best os = foldl (\<lambda>best o'. if laterDue (ov_DueAt o') (ov_DueAt best) then o' else best) best os"

type_synonym dates = "instant option \<times> instant option \<times> instant option"

definition EffectiveDatesWithOverride :: "dates_db \<Rightarrow> assignment \<Rightarrow> nat \<Rightarrow> dates \<times> bool" where
  "EffectiveDatesWithOverride db a uid =
     (case applicable_overrides db a uid of
        [] \<Rightarrow> ((asg_DueAt a, asg_UnlockAt a, asg_LockAt a), False)
      | o' # os \<Rightarrow> (let best = most_lenient o' os in ((ov_DueAt best, ov_UnlockAt best, ov_LockAt best), True)))"

definition in_effect :: "instant \<Rightarrow> accommodation \<Rightarrow> bool" where
  "in_effect now a = (ac_Status a = ''active'' \<and> ac_EffectiveFrom a \<le> now \<and>
     (case ac_EffectiveUntil a of None \<Rightarrow> True | Some t \<Rightarrow> t \<ge> now))"

definition ListByUserAndCourse :: "instant \<Rightarrow> dates_db \<Rightarrow> nat \<Rightarrow> nat \<Rightarrow> accommodation list" where
  "ListByUserAndCourse now db uid cid =
     filter (\<lambda>a. ac_UserID a = uid \<and> (ac_CourseID a = Some cid \<or> ac_CourseID a = None) \<and> in_effect now a) (dd_Accommodations db)"

definition best_extra :: "accommodation list \<Rightarrow> int" where
  "best_extra accs = foldl (\<lambda>best a. case ac_ExtraDays a of Some d \<Rightarrow> if d > best then d else best | None \<Rightarrow> best) 0 accs"

definition EffectiveDatesAssigned :: "instant \<Rightarrow> dates_db \<Rightarrow> assignment \<Rightarrow> nat \<Rightarrow> dates \<times> bool" where
  "EffectiveDatesAssigned now db a uid =
     (let ((dueAt, unlockAt, lockAt), hasOverride) = EffectiveDatesWithOverride db a uid;
          assigned = (\<not> asg_OnlyVisibleToOverrides a \<or> hasOverride);
          extra = best_extra (ListByUserAndCourse now db uid (asg_CourseID a))
      in case dueAt of
           None \<Rightarrow> ((dueAt, unlockAt, lockAt), assigned)
         | Some due \<Rightarrow>
             (if extra > 0 then ((Some (add_days due extra), unlockAt, map_option (\<lambda>l. add_days l extra) lockAt), assigned)
              else ((dueAt, unlockAt, lockAt), assigned)))"

definition EffectiveDueAt :: "instant \<Rightarrow> dates_db \<Rightarrow> assignment \<Rightarrow> nat \<Rightarrow> instant option" where
  "EffectiveDueAt now db a uid = fst (fst (EffectiveDatesAssigned now db a uid))"

section \<open>Grading periods\<close>

definition period_active :: "grading_period \<Rightarrow> bool" where
  "period_active p = (per_WorkflowState p = [] \<or> per_WorkflowState p = ''active'')"

fun period_loop :: "grading_period list \<Rightarrow> grading_period option \<Rightarrow> instant option \<Rightarrow> grading_period option" where
  "period_loop [] latest due = (case due of None \<Rightarrow> latest | Some _ \<Rightarrow> None)"
| "period_loop (p # ps) latest due =
     (if \<not> period_active p then period_loop ps latest due
      else if (case due of Some d \<Rightarrow> per_StartDate p < d \<and> d \<le> per_EndDate p | None \<Rightarrow> False) then Some p
      else period_loop ps
        (case latest of None \<Rightarrow> Some p | Some l \<Rightarrow> if per_EndDate p > per_EndDate l then Some p else Some l) due)"

definition GradingPeriodForDate :: "grading_period list \<Rightarrow> instant option \<Rightarrow> grading_period option" where
  "GradingPeriodForDate periods due = period_loop periods None due"

definition GradingPeriodClosed :: "grading_period option \<Rightarrow> instant \<Rightarrow> bool" where
  "GradingPeriodClosed p now =
     (case p of None \<Rightarrow> False
      | Some p \<Rightarrow> per_IsClosed p \<or> (case per_CloseDate p of Some c \<Rightarrow> now > c | None \<Rightarrow> False))"

section \<open>The bulk resolver\<close>

record effective_due_date =
  ef_DueAt :: "instant option"
  ef_UnlockAt :: "instant option"
  ef_LockAt :: "instant option"
  ef_GradingPeriodID :: nat
  ef_InClosedGradingPeriod :: bool
  ef_OverrideID :: nat
  ef_ExtraDays :: int

record due_date_input =
  di_Assignments :: "assignment list"
  di_StudentIDs :: "nat list"
  di_StudentSections :: "nat \<Rightarrow> nat list"
  di_Overrides :: "assignment_override list"
  di_OverrideStudents :: "override_student list"
  di_ExtraDays :: "nat \<Rightarrow> int"
  di_Periods :: "grading_period list"
  di_Now :: instant

definition AccommodationExtraDays :: "accommodation list \<Rightarrow> nat \<Rightarrow> int" where
  "AccommodationExtraDays accs uid = best_extra (filter (\<lambda>a. ac_UserID a = uid) accs)"

text \<open>\<open>overrideByID\<close>: of several live overrides with one id the last is kept.\<close>

definition live_override :: "due_date_input \<Rightarrow> nat \<Rightarrow> assignment_override option" where
  "live_override inp i =
     map_of (map (\<lambda>o'. (ov_ID o', o')) (rev (filter (\<lambda>o'. ov_WorkflowState o' \<noteq> ''deleted'') (di_Overrides inp)))) i"

definition bulk_applicable :: "due_date_input \<Rightarrow> assignment \<Rightarrow> nat \<Rightarrow> assignment_override list" where
  "bulk_applicable inp a uid =
     List.map_filter (\<lambda>r. live_override inp (os_OverrideID r))
       (filter (\<lambda>r. os_AssignmentID r = asg_ID a \<and> os_UserID r = uid) (di_OverrideStudents inp)) @
     filter (for_section (di_StudentSections inp uid))
       (filter (\<lambda>o'. ov_WorkflowState o' \<noteq> ''deleted'' \<and> ov_AssignmentID o' = asg_ID a) (di_Overrides inp))"

definition resolve_one :: "instant \<Rightarrow> due_date_input \<Rightarrow> assignment \<Rightarrow> nat \<Rightarrow> effective_due_date option" where
  "resolve_one now inp a uid =
     (let applicable = bulk_applicable inp a uid;
          (dueAt, unlockAt, lockAt, oid) =
            (case applicable of
               [] \<Rightarrow> (asg_DueAt a, asg_UnlockAt a, asg_LockAt a, 0)
             | o' # os \<Rightarrow> (let best = most_lenient o' os in (ov_DueAt best, ov_UnlockAt best, ov_LockAt best, ov_ID best)));
          extra = di_ExtraDays inp uid;
          extend = (extra > 0 \<and> dueAt \<noteq> None);
          dueAt = (if extend then map_option (\<lambda>d. add_days d extra) dueAt else dueAt);
          lockAt = (if extend then map_option (\<lambda>d. add_days d extra) lockAt else lockAt);
          p = GradingPeriodForDate (di_Periods inp) dueAt
      in if applicable = [] \<and> asg_OnlyVisibleToOverrides a then None
         else Some \<lparr>ef_DueAt = dueAt, ef_UnlockAt = unlockAt, ef_LockAt = lockAt,
           ef_GradingPeriodID = (case p of Some p \<Rightarrow> per_ID p | None \<Rightarrow> 0),
           ef_InClosedGradingPeriod = GradingPeriodClosed p now,
           ef_OverrideID = oid, ef_ExtraDays = (if extend then extra else 0)\<rparr>)"

text \<open>What the gradebook loads for a course (\<open>GradingPolicyService.load\<close>).\<close>

definition ListCourseAssignments :: "dates_db \<Rightarrow> nat \<Rightarrow> assignment list" where
  "ListCourseAssignments db cid = filter (\<lambda>a. asg_CourseID a = cid \<and> asg_WorkflowState a \<noteq> ''deleted'') (dd_Assignments db)"

definition in_course :: "dates_db \<Rightarrow> nat \<Rightarrow> nat \<Rightarrow> bool" where
  "in_course db cid aid = list_ex (\<lambda>a. asg_ID a = aid \<and> asg_CourseID a = cid) (dd_Assignments db)"

definition ListCourseStudents :: "dates_db \<Rightarrow> nat \<Rightarrow> enrollment list" where
  "ListCourseStudents db cid =
     sort_stable_by en_ID (filter (\<lambda>e. en_CourseID e = cid \<and> en_Type e = ''StudentEnrollment'' \<and>
       en_WorkflowState e \<noteq> ''deleted'' \<and> en_WorkflowState e \<noteq> ''rejected'') (dd_Enrollments db))"

definition ListCourseOverrides :: "dates_db \<Rightarrow> nat \<Rightarrow> assignment_override list" where
  "ListCourseOverrides db cid =
     sort_stable_by ov_ID (filter (\<lambda>o'. ov_WorkflowState o' \<noteq> ''deleted'' \<and> in_course db cid (ov_AssignmentID o')) (dd_Overrides db))"

definition ListCourseOverrideStudents :: "dates_db \<Rightarrow> nat \<Rightarrow> override_student list" where
  "ListCourseOverrideStudents db cid =
     sort_stable_by os_ID (filter (\<lambda>r. in_course db cid (os_AssignmentID r) \<and>
       list_ex (\<lambda>o'. ov_ID o' = os_OverrideID r \<and> ov_WorkflowState o' \<noteq> ''deleted'') (dd_Overrides db)) (dd_OverrideStudents db))"

definition load_input :: "instant \<Rightarrow> dates_db \<Rightarrow> nat \<Rightarrow> grading_period list \<Rightarrow> due_date_input" where
  "load_input now db cid periods =
     (let students = ListCourseStudents db cid; ids = rev (remdups (rev (map en_UserID students)))
      in \<lparr>di_Assignments = ListCourseAssignments db cid, di_StudentIDs = ids,
        di_StudentSections = (\<lambda>u. List.map_filter (\<lambda>e. if en_UserID e = u then en_CourseSectionID e else None) students),
        di_Overrides = ListCourseOverrides db cid, di_OverrideStudents = ListCourseOverrideStudents db cid,
        di_ExtraDays = AccommodationExtraDays
          (filter (\<lambda>a. ac_UserID a \<in> set ids \<and> (ac_CourseID a = Some cid \<or> ac_CourseID a = None) \<and> in_effect now a) (dd_Accommodations db)),
        di_Periods = periods, di_Now = now\<rparr>)"

text \<open>Of several assignments with one id the last is kept; \<open>wall\<close> is the clock.\<close>

definition ResolveDueDates :: "instant \<Rightarrow> due_date_input \<Rightarrow> nat \<Rightarrow> nat \<Rightarrow> effective_due_date option" where
  "ResolveDueDates wall inp aid uid =
     (case find (\<lambda>a. asg_ID a = aid) (rev (di_Assignments inp)) of
        None \<Rightarrow> None
      | Some a \<Rightarrow> (if uid \<in> set (di_StudentIDs inp)
          then resolve_one (if is_zero (di_Now inp) then wall else di_Now inp) inp a uid else None))"

section \<open>The most lenient override\<close>

definition lenient_of :: "assignment_override list \<Rightarrow> assignment_override option" where
  "lenient_of xs = (case xs of [] \<Rightarrow> None | o' # os \<Rightarrow> Some (most_lenient o' os))"

lemma lenient_of_empty [simp]: "lenient_of [] = None"
  by (simp add: lenient_of_def)

lemma lenient_of_snoc:
  "lenient_of (xs @ [o']) = (case lenient_of xs of None \<Rightarrow> Some o' | Some b \<Rightarrow> Some (if laterDue (ov_DueAt o') (ov_DueAt b) then o' else b))"
  by (cases xs) (simp_all add: lenient_of_def most_lenient_def)

lemma laterDue_order:
  "\<not> laterDue a a" "\<not> laterDue a b \<Longrightarrow> laterDue c b \<Longrightarrow> \<not> laterDue a c"
  by (auto simp: laterDue_def split: option.splits)

lemma lenient_of_max: "lenient_of xs = Some b \<Longrightarrow> b \<in> set xs \<and> (\<forall>o'\<in>set xs. \<not> laterDue (ov_DueAt o') (ov_DueAt b))"
proof (induction xs arbitrary: b rule: rev_induct)
  case (snoc o' xs)
  show ?case
  proof (cases "lenient_of xs")
    case None
    then have "xs = []" by (cases xs) (simp_all add: lenient_of_def)
    then show ?thesis using snoc.prems laterDue_order(1) by (simp add: lenient_of_def most_lenient_def)
  next
    case (Some c)
    note IH = snoc.IH[OF Some]
    show ?thesis
    proof (cases "laterDue (ov_DueAt o') (ov_DueAt c)")
      case True
      then have "b = o'" using snoc.prems Some by (simp add: lenient_of_snoc)
      then show ?thesis using IH laterDue_order(1) laterDue_order(2)[OF _ True] by simp
    next
      case False
      then have "b = c" using snoc.prems Some by (simp add: lenient_of_snoc)
      then show ?thesis using IH False by simp
    qed
  qed
qed simp

lemma lenient_of_add:
  assumes "\<And>o1 o2. o1 \<in> set xs \<Longrightarrow> o2 \<in> set xs \<Longrightarrow> ov_ID o1 = ov_ID o2 \<Longrightarrow> o1 = o2"
    and "\<And>o'. o' \<in> set xs \<Longrightarrow> ov_AssignmentID o' = aid \<and> ov_WorkflowState o' \<noteq> ''deleted''"
  shows "lenient_of (foldl (add_override aid) [] xs) = lenient_of xs \<and> set (foldl (add_override aid) [] xs) = set xs"
  using assms
proof (induction xs rule: rev_induct)
  case (snoc o' xs)
  define F where "F = foldl (add_override aid) [] xs"
  have IH: "lenient_of F = lenient_of xs" "set F = set xs"
    unfolding F_def using snoc.IH snoc.prems by (auto simp: ball_Un)
  have step: "foldl (add_override aid) [] (xs @ [o']) = add_override aid F o'" by (simp add: F_def)
  show ?case
  proof (cases "o' \<in> set xs")
    case True
    then obtain b where b: "lenient_of xs = Some b" by (cases xs) (auto simp: lenient_of_def)
    then have "lenient_of (xs @ [o']) = lenient_of xs" using lenient_of_max[OF b] True by (simp add: lenient_of_snoc)
    moreover have "add_override aid F o' = F" using True IH(2) by (simp add: add_override_def)
    ultimately show ?thesis using IH True unfolding step by auto
  next
    case False
    then have "ov_ID o' \<notin> ov_ID ` set F" using IH(2) snoc.prems(1)[of o'] by auto
    then have "add_override aid F o' = F @ [o']" using snoc.prems(2)[of o'] by (simp add: add_override_def)
    then show ?thesis using IH unfolding step by (simp add: lenient_of_snoc)
  qed
qed simp

lemma EffectiveDatesWithOverride_lenient:
  "EffectiveDatesWithOverride db a uid =
     (case lenient_of (applicable_overrides db a uid) of
        None \<Rightarrow> ((asg_DueAt a, asg_UnlockAt a, asg_LockAt a), False)
      | Some b \<Rightarrow> ((ov_DueAt b, ov_UnlockAt b, ov_LockAt b), True))"
  by (simp add: EffectiveDatesWithOverride_def lenient_of_def Let_def split: list.split)

lemma best_extra_max: "0 \<le> best_extra accs \<and> (\<forall>a\<in>set accs. \<forall>d. ac_ExtraDays a = Some d \<longrightarrow> d \<le> best_extra accs)"
proof (induction accs rule: rev_induct)
  case (snoc a accs)
  then show ?case by (auto simp: best_extra_def split: option.splits)
qed (simp add: best_extra_def)

section \<open>The gradebook agrees with grading\<close>

text \<open>
  What the database guarantees: primary keys, one override per student and assignment (the unique
  index of \<open>assignment_override_students\<close>), and rows that name their override's assignment.
\<close>

definition dates_db_ok :: "dates_db \<Rightarrow> bool" where
  "dates_db_ok db =
     (distinct (map ov_ID (dd_Overrides db)) \<and> distinct (map asg_ID (dd_Assignments db)) \<and>
      distinct (map (\<lambda>r. (os_AssignmentID r, os_UserID r)) (dd_OverrideStudents db)) \<and>
      (\<forall>r\<in>set (dd_OverrideStudents db). \<forall>o'\<in>set (dd_Overrides db). ov_ID o' = os_OverrideID r \<longrightarrow> ov_AssignmentID o' = os_AssignmentID r))"

lemma unique_row:
  assumes "distinct (map f xs)" shows "length (filter (\<lambda>x. f x = k) xs) \<le> 1"
  using assms by (induction xs) (auto simp: filter_empty_conv image_iff)

lemma sort_short: "length xs \<le> 1 \<Longrightarrow> sort_stable_by k xs = xs"
  by (cases xs) auto

lemma find_unique:
  assumes "distinct (map f xs)"
  shows "map_of (map (\<lambda>x. (f x, x)) (rev xs)) i = find (\<lambda>x. f x = i) xs"
  using assms
proof (induction xs)
  case (Cons x xs)
  have "map_of (map (\<lambda>x. (f x, x)) (rev xs)) (f x) = None" using Cons.prems by (auto simp: map_of_eq_None_iff)
  with Cons show ?case by (auto simp: map_add_def split: option.split)
qed simp

lemma find_filter: "find P (filter Q xs) = find (\<lambda>x. Q x \<and> P x) xs"
  by (induction xs) auto

lemma find_cong_set: "(\<And>x. x \<in> set xs \<Longrightarrow> P x = Q x) \<Longrightarrow> find P xs = find Q xs"
  by (induction xs) auto

lemma find_sort:
  assumes "distinct (map f xs)"
  shows "find (\<lambda>x. f x = i) (sort_stable_by f xs) = find (\<lambda>x. f x = i) xs"
proof -
  have "find (\<lambda>x. f x = i) ys = Some y \<longleftrightarrow> y \<in> set ys \<and> f y = i" if "distinct (map f ys)" for ys y
    using that by (induction ys) auto
  moreover have "distinct (map f (sort_stable_by f xs))" using assms by (simp add: distinct_map)
  ultimately have "find (\<lambda>x. f x = i) (sort_stable_by f xs) = Some y \<longleftrightarrow> find (\<lambda>x. f x = i) xs = Some y" for y
    using assms by simp
  then show ?thesis by (metis not_Some_eq)
qed

lemma in_course_listed: "a \<in> set (ListCourseAssignments db cid) \<Longrightarrow> in_course db cid (asg_ID a) \<and> asg_CourseID a = cid"
  by (auto simp: ListCourseAssignments_def in_course_def list_ex_iff)

lemma live_override_loaded:
  assumes ok: "dates_db_ok db" and r: "r \<in> set (dd_OverrideStudents db)" "in_course db cid (os_AssignmentID r)"
  shows "live_override (load_input now db cid periods) (os_OverrideID r) = override_FindByID db (os_OverrideID r)"
proof -
  let ?nd = "\<lambda>o'. ov_WorkflowState o' \<noteq> ''deleted''" and ?ic = "\<lambda>o'. in_course db cid (ov_AssignmentID o')"
  have d: "distinct (map ov_ID (dd_Overrides db))" using ok by (simp add: dates_db_ok_def)
  have os: "filter ?nd (ListCourseOverrides db cid) = sort_stable_by ov_ID (filter (\<lambda>o'. ?nd o' \<and> ?ic o') (dd_Overrides db))"
    by (simp add: ListCourseOverrides_def filter_sort conj_commute conj_left_commute)
  have d1: "distinct (map ov_ID (filter (\<lambda>o'. ?nd o' \<and> ?ic o') (dd_Overrides db)))" using d by (rule distinct_map_filter)
  have d2: "distinct (map ov_ID (filter ?nd (ListCourseOverrides db cid)))" unfolding os using d1 by (simp add: distinct_map)
  have "live_override (load_input now db cid periods) (os_OverrideID r) = find (\<lambda>o'. ov_ID o' = os_OverrideID r) (filter ?nd (ListCourseOverrides db cid))"
    unfolding live_override_def load_input_def Let_def due_date_input.simps by (rule find_unique[OF d2])
  also have "\<dots> = find (\<lambda>o'. ov_ID o' = os_OverrideID r) (filter (\<lambda>o'. ?nd o' \<and> ?ic o') (dd_Overrides db))"
    unfolding os by (rule find_sort[OF d1])
  also have "\<dots> = override_FindByID db (os_OverrideID r)"
    unfolding find_filter override_FindByID_def
    by (rule find_cong_set) (use ok r in \<open>auto simp: dates_db_ok_def\<close>)
  finally show ?thesis .
qed

lemma map_filter_skip: "(\<And>y. y \<in> set ys \<Longrightarrow> \<not> Q y \<Longrightarrow> f y = None) \<Longrightarrow> List.map_filter f (filter Q ys) = List.map_filter f ys"
  by (induction ys) (auto simp: List.map_filter_def)

lemma map_filter_cong: "(\<And>y. y \<in> set ys \<Longrightarrow> f y = g y) \<Longrightarrow> List.map_filter f ys = List.map_filter g ys"
  by (induction ys) (auto simp: List.map_filter_def)

lemma bulk_applicable_loaded:
  assumes ok: "dates_db_ok db" and a: "a \<in> set (ListCourseAssignments db cid)"
    and sections: "set (enrolled_sections db uid cid) = set (di_StudentSections (load_input now db cid periods) uid)"
  shows "bulk_applicable (load_input now db cid periods) a uid =
    List.map_filter (\<lambda>r. override_FindByID db (os_OverrideID r)) (ListByUserAndAssignment db uid (asg_ID a)) @
    filter (for_section (enrolled_sections db uid cid)) (ListByAssignmentID db (asg_ID a))"
proof -
  let ?inp = "load_input now db cid periods" and ?P = "\<lambda>r. os_AssignmentID r = asg_ID a \<and> os_UserID r = uid"
  let ?live = "\<lambda>r. list_ex (\<lambda>o'. ov_ID o' = os_OverrideID r \<and> ov_WorkflowState o' \<noteq> ''deleted'') (dd_Overrides db)"
  let ?Q = "\<lambda>r. in_course db cid (os_AssignmentID r) \<and> ?live r" and ?rows = "dd_OverrideStudents db"
  have ic: "in_course db cid (asg_ID a)" using in_course_listed[OF a] by blast
  have rows: "ListByUserAndAssignment db uid (asg_ID a) = filter ?P ?rows"
    by (simp add: ListByUserAndAssignment_def conj_commute)
  have short: "length (filter ?P ?rows) \<le> 1"
    using unique_row[of "\<lambda>r. (os_AssignmentID r, os_UserID r)" ?rows "(asg_ID a, uid)"] ok by (simp add: dates_db_ok_def)
  have "filter ?P (ListCourseOverrideStudents db cid) = sort_stable_by os_ID (filter ?Q (filter ?P ?rows))"
    unfolding ListCourseOverrideStudents_def filter_sort filter_filter
    by (rule arg_cong[of _ _ "sort_stable_by os_ID"], rule filter_cong) auto
  also have "\<dots> = filter ?Q (filter ?P ?rows)"
    by (rule sort_short) (rule order_trans[OF length_filter_le short])
  finally have q: "filter ?P (di_OverrideStudents ?inp) = filter ?Q (filter ?P ?rows)" by (simp add: load_input_def Let_def)
  have "List.map_filter (\<lambda>r. live_override ?inp (os_OverrideID r)) (filter ?Q (filter ?P ?rows)) =
      List.map_filter (\<lambda>r. override_FindByID db (os_OverrideID r)) (filter ?Q (filter ?P ?rows))"
    by (rule map_filter_cong) (use live_override_loaded[OF ok] in auto)
  also have "\<dots> = List.map_filter (\<lambda>r. override_FindByID db (os_OverrideID r)) (filter ?P ?rows)"
    by (rule map_filter_skip) (use ic in \<open>auto simp: override_FindByID_def find_None_iff list_ex_iff\<close>)
  finally have adhoc: "List.map_filter (\<lambda>r. live_override ?inp (os_OverrideID r)) (filter ?P (di_OverrideStudents ?inp)) =
      List.map_filter (\<lambda>r. override_FindByID db (os_OverrideID r)) (ListByUserAndAssignment db uid (asg_ID a))"
    unfolding q rows .
  have "filter (\<lambda>o'. ov_WorkflowState o' \<noteq> ''deleted'' \<and> ov_AssignmentID o' = asg_ID a) (di_Overrides ?inp) = ListByAssignmentID db (asg_ID a)"
    unfolding load_input_def Let_def due_date_input.simps ListCourseOverrides_def ListByAssignmentID_def filter_sort filter_filter
    by (rule arg_cong[of _ _ "sort_stable_by ov_ID"], rule filter_cong) (use ic in auto)
  moreover have "for_section (di_StudentSections ?inp uid) = for_section (enrolled_sections db uid cid)"
    using sections by (auto simp: for_section_def fun_eq_iff split: option.split)
  ultimately show ?thesis unfolding bulk_applicable_def adhoc by simp
qed

lemma applicable_loaded:
  assumes ok: "dates_db_ok db" and cid: "asg_CourseID a = cid"
    and L: "L = List.map_filter (\<lambda>r. override_FindByID db (os_OverrideID r)) (ListByUserAndAssignment db uid (asg_ID a)) @
      filter (for_section (enrolled_sections db uid cid)) (ListByAssignmentID db (asg_ID a))"
  shows "lenient_of (applicable_overrides db a uid) = lenient_of L" "set (applicable_overrides db a uid) = set L"
proof -
  have by_section: "(if enrolled_sections db uid cid = [] then [] else filter (for_section (enrolled_sections db uid cid)) (ListByAssignmentID db (asg_ID a)))
      = filter (for_section (enrolled_sections db uid cid)) (ListByAssignmentID db (asg_ID a))"
    by (auto simp: for_section_def filter_empty_conv split: option.splits)
  have mem: "o' \<in> set (dd_Overrides db) \<and> ov_AssignmentID o' = asg_ID a \<and> ov_WorkflowState o' \<noteq> ''deleted''" if "o' \<in> set L" for o'
  proof -
    consider r where "r \<in> set (ListByUserAndAssignment db uid (asg_ID a))" "override_FindByID db (os_OverrideID r) = Some o'"
      | "o' \<in> set (ListByAssignmentID db (asg_ID a))"
      using \<open>o' \<in> set L\<close> by (auto simp: L List.map_filter_def)
    then show ?thesis
    proof cases
      case 1
      then show ?thesis using ok
        by (auto simp: override_FindByID_def find_Some_iff ListByUserAndAssignment_def dates_db_ok_def)
    qed (simp add: ListByAssignmentID_def)
  qed
  have "applicable_overrides db a uid = foldl (add_override (asg_ID a)) [] L"
    unfolding applicable_overrides_def Let_def L cid by_section ..
  moreover have "lenient_of (foldl (add_override (asg_ID a)) [] L) = lenient_of L \<and> set (foldl (add_override (asg_ID a)) [] L) = set L"
  proof (rule lenient_of_add)
    fix o1 o2 assume "o1 \<in> set L" "o2 \<in> set L" "ov_ID o1 = ov_ID o2"
    then show "o1 = o2" using mem ok by (auto simp: dates_db_ok_def distinct_map inj_on_def)
  qed (use mem in auto)
  ultimately show "lenient_of (applicable_overrides db a uid) = lenient_of L" "set (applicable_overrides db a uid) = set L" by simp_all
qed

section \<open>The effective due date, from the tables\<close>

text \<open>
  The overrides meant for a student, read off the tables: live overrides of the assignment that name
  the student in a row of their own, or a section the student is actively enrolled in.
\<close>

definition names_student :: "dates_db \<Rightarrow> assignment \<Rightarrow> nat \<Rightarrow> assignment_override \<Rightarrow> bool" where
  "names_student db a uid o' =
     list_ex (\<lambda>r. os_OverrideID r = ov_ID o' \<and> os_UserID r = uid \<and> os_AssignmentID r = asg_ID a) (dd_OverrideStudents db)"

definition names_section :: "dates_db \<Rightarrow> assignment \<Rightarrow> nat \<Rightarrow> assignment_override \<Rightarrow> bool" where
  "names_section db a uid o' =
     list_ex (\<lambda>e. en_UserID e = uid \<and> en_CourseID e = asg_CourseID a \<and> en_WorkflowState e = ''active'' \<and>
       en_CourseSectionID e \<noteq> None \<and> en_CourseSectionID e = ov_CourseSectionID o') (dd_Enrollments db)"

definition overrides_for :: "dates_db \<Rightarrow> assignment \<Rightarrow> nat \<Rightarrow> assignment_override list" where
  "overrides_for db a uid =
     filter (\<lambda>o'. ov_AssignmentID o' = asg_ID a \<and> ov_WorkflowState o' \<noteq> ''deleted'' \<and>
       (names_student db a uid o' \<or> names_section db a uid o')) (dd_Overrides db)"

definition candidate_due_dates :: "dates_db \<Rightarrow> assignment \<Rightarrow> nat \<Rightarrow> instant option set" where
  "candidate_due_dates db a uid =
     (if overrides_for db a uid = [] then {asg_DueAt a} else set (map ov_DueAt (overrides_for db a uid)))"

definition granted_days :: "instant \<Rightarrow> dates_db \<Rightarrow> assignment \<Rightarrow> nat \<Rightarrow> int set" where
  "granted_days now db a uid =
     set (0 # List.map_filter ac_ExtraDays
       (filter (\<lambda>c. ac_UserID c = uid \<and> (ac_CourseID c = Some (asg_CourseID a) \<or> ac_CourseID c = None) \<and> in_effect now c)
         (dd_Accommodations db)))"

lemma in_map_filter: "y \<in> set (List.map_filter f xs) \<longleftrightarrow> (\<exists>x\<in>set xs. f x = Some y)"
  by (force simp: List.map_filter_def)

lemma override_FindByID_Some:
  assumes "dates_db_ok db"
  shows "override_FindByID db i = Some o' \<longleftrightarrow> o' \<in> set (dd_Overrides db) \<and> ov_ID o' = i \<and> ov_WorkflowState o' \<noteq> ''deleted''"
proof -
  have "find (\<lambda>x. ov_ID x = i \<and> ov_WorkflowState x \<noteq> ''deleted'') xs = Some o' \<longleftrightarrow> o' \<in> set xs \<and> ov_ID o' = i \<and> ov_WorkflowState o' \<noteq> ''deleted''"
    if "distinct (map ov_ID xs)" for xs
    using that by (induction xs) auto
  then show ?thesis using assms by (simp add: dates_db_ok_def override_FindByID_def)
qed

lemma for_enrolled_section:
  "for_section (enrolled_sections db uid (asg_CourseID a)) o' = names_section db a uid o'"
  by (auto simp: for_section_def enrolled_sections_def names_section_def list_ex_iff in_map_filter split: option.splits if_splits)

lemma applicable_overrides_set:
  assumes ok: "dates_db_ok db" shows "set (applicable_overrides db a uid) = set (overrides_for db a uid)"
proof -
  define L where "L = List.map_filter (\<lambda>r. override_FindByID db (os_OverrideID r)) (ListByUserAndAssignment db uid (asg_ID a)) @
      filter (for_section (enrolled_sections db uid (asg_CourseID a))) (ListByAssignmentID db (asg_ID a))"
  have "o' \<in> set L \<longleftrightarrow> o' \<in> set (overrides_for db a uid)" for o'
    using ok unfolding L_def overrides_for_def
    by (auto simp: in_map_filter override_FindByID_Some ListByUserAndAssignment_def ListByAssignmentID_def for_enrolled_section
        names_student_def list_ex_iff dates_db_ok_def)
  then have "set L = set (overrides_for db a uid)" by blast
  then show ?thesis using applicable_loaded(2)[OF ok refl L_def] by simp
qed

lemma best_extra_Max: "best_extra accs = Max (set (0 # List.map_filter ac_ExtraDays accs))"
proof (rule Max_eqI[symmetric])
  have "best_extra accs = 0 \<or> Some (best_extra accs) \<in> ac_ExtraDays ` set accs"
  proof (induction accs rule: rev_induct)
    case (snoc a accs)
    then show ?case by (auto simp: best_extra_def split: option.splits)
  qed (simp add: best_extra_def)
  then show "best_extra accs \<in> set (0 # List.map_filter ac_ExtraDays accs)" by (force simp: in_map_filter)
qed (use best_extra_max[of accs] in \<open>auto simp: in_map_filter\<close>)

text \<open>
  C36. The due date that grading uses for a student is determined by the tables, with no override and
  no accommodation lost. The base is the latest due date among the live overrides that name the
  student or one of the student's sections - no due date when one of them has none - and the
  assignment's own due date only when there is no such override; the most extra days that any
  accommodation in effect grants, in the course or everywhere, are added to it. The hypothesis is the
  database's own constraints.
\<close>

theorem effective_due_date_is_most_lenient:
  assumes "dates_db_ok db"
  shows "EffectiveDueAt now db a uid =
    (if None \<in> candidate_due_dates db a uid then None
     else Some (add_days (Max (the ` candidate_due_dates db a uid)) (Max (granted_days now db a uid))))"
proof -
  let ?app = "applicable_overrides db a uid" and ?extra = "best_extra (ListByUserAndCourse now db uid (asg_CourseID a))"
  have extra: "0 \<le> ?extra" "Max (granted_days now db a uid) = ?extra"
    using best_extra_max by (auto simp: best_extra_Max granted_days_def ListByUserAndCourse_def)
  have "?app = [] \<longleftrightarrow> overrides_for db a uid = []" using applicable_overrides_set[OF assms, of a uid] by (metis set_empty)
  then have bases: "candidate_due_dates db a uid = (if ?app = [] then {asg_DueAt a} else ov_DueAt ` set ?app)"
    using applicable_overrides_set[OF assms, of a uid] by (simp add: candidate_due_dates_def)
  have due: "EffectiveDueAt now db a uid = map_option (\<lambda>t. add_days t ?extra)
      (case lenient_of ?app of None \<Rightarrow> asg_DueAt a | Some b \<Rightarrow> ov_DueAt b)"
    using extra(1) by (auto simp: EffectiveDueAt_def EffectiveDatesAssigned_def EffectiveDatesWithOverride_lenient Let_def add_days_def
        split: option.split)
  show ?thesis
  proof (cases "lenient_of ?app")
    case None
    then have "?app = []" by (auto simp: lenient_of_def split: list.splits)
    then show ?thesis using None by (cases "asg_DueAt a") (simp_all add: due bases extra(2))
  next
    case (Some b)
    note b = lenient_of_max[OF Some]
    show ?thesis
    proof (cases "ov_DueAt b")
      case None
      then have "None \<in> ov_DueAt ` set ?app" using b by force
      then show ?thesis using Some \<open>ov_DueAt b = None\<close> by (auto simp: due bases)
    next
      case (Some t)
      have later: "\<exists>u. ov_DueAt x = Some u \<and> u \<le> t" if "x \<in> set ?app" for x
        using b that Some by (fastforce simp: laterDue_def split: option.splits)
      have "Max (the ` ov_DueAt ` set ?app) = t"
      proof (rule Max_eqI)
        show "t \<in> the ` ov_DueAt ` set ?app" using b Some by (intro image_eqI[of _ _ "Some t"] image_eqI[of _ _ b]) auto
      qed (use later in \<open>fastforce+\<close>)
      moreover have "None \<notin> ov_DueAt ` set ?app" using later by force
      ultimately show ?thesis using b Some \<open>lenient_of ?app = Some b\<close> by (auto simp: due bases extra(2))
    qed
  qed
qed

section \<open>The gradebook's dates\<close>

text \<open>
  Every enrollment of the user in the course is an active student enrollment, or is deleted or
  rejected.
\<close>

definition only_active_student :: "dates_db \<Rightarrow> nat \<Rightarrow> nat \<Rightarrow> bool" where
  "only_active_student db uid cid =
     list_all (\<lambda>e. en_UserID e = uid \<and> en_CourseID e = cid \<longrightarrow>
       (en_Type e = ''StudentEnrollment'' \<and> en_WorkflowState e = ''active'') \<or>
       en_WorkflowState e = ''deleted'' \<or> en_WorkflowState e = ''rejected'') (dd_Enrollments db)"

lemma same_sections:
  assumes "only_active_student db uid cid"
  shows "set (enrolled_sections db uid cid) = set (di_StudentSections (load_input now db cid periods) uid)"
  using assms
  by (fastforce simp: enrolled_sections_def load_input_def ListCourseStudents_def Let_def in_map_filter only_active_student_def list_all_iff
      split: if_splits)


section \<open>A course with two overrides and an accommodation\<close>

definition dated_assignment :: assignment where
  "dated_assignment =
     \<lparr>asg_ID = 4, asg_CourseID = 1, asg_DueAt = Some (10 * day), asg_UnlockAt = None, asg_LockAt = Some (12 * day),
      asg_PointsPossible = Some 10, asg_GradingType = ''points'', asg_SubmissionTypes = ''online_text_entry'', asg_GroupID = None,
      asg_WorkflowState = ''published'', asg_Published = True, asg_PostPolicy = ''automatic'', asg_GroupCategoryID = None,
      asg_OnlyVisibleToOverrides = True, asg_GradingStandardID = None, asg_AllowedAttempts = None, asg_AllowedExtensions = [],
      asg_AnnotatableAttachmentID = None, asg_GradeGroupStudentsIndividually = False, asg_ModeratedGrading = False,
      asg_GradesPublishedAt = None, asg_OmitFromFinalGrade = False\<rparr>"

definition section_override :: assignment_override where
  "section_override = \<lparr>ov_ID = 1, ov_AssignmentID = 4, ov_DueAt = Some (11 * day), ov_UnlockAt = None, ov_LockAt = None,
     ov_CourseSectionID = Some 3, ov_WorkflowState = ''active''\<rparr>"

definition student_override :: assignment_override where
  "student_override = \<lparr>ov_ID = 2, ov_AssignmentID = 4, ov_DueAt = Some (10 * day), ov_UnlockAt = None, ov_LockAt = None,
     ov_CourseSectionID = None, ov_WorkflowState = ''active''\<rparr>"

definition two_more_days :: accommodation where
  "two_more_days = \<lparr>ac_ID = 1, ac_UserID = 7, ac_CourseID = None, ac_ExtraDays = Some 2, ac_Status = ''active'', ac_EffectiveFrom = 0,
     ac_EffectiveUntil = None, ac_TimeMultiplier = None\<rparr>"

definition sample_dates :: dates_db where
  "sample_dates = \<lparr>dd_Assignments = [dated_assignment], dd_Overrides = [section_override, student_override],
     dd_OverrideStudents = [\<lparr>os_ID = 1, os_OverrideID = 2, os_UserID = 7, os_AssignmentID = 4\<rparr>],
     dd_Enrollments = [\<lparr>en_ID = 1, en_UserID = 7, en_CourseID = 1, en_Type = ''StudentEnrollment'', en_CourseSectionID = Some 3,
       en_WorkflowState = ''active''\<rparr>],
     dd_Accommodations = [two_more_days]\<rparr>"

lemma sample_dates_values:
  "EffectiveDueAt (9 * day) sample_dates dated_assignment 7 = Some (13 * day)"
  "applicable_overrides sample_dates dated_assignment 7 = [student_override, section_override]"
  "ListByUserAndCourse (9 * day) sample_dates 7 (asg_CourseID dated_assignment) = [two_more_days]"
  by (simp_all add: EffectiveDueAt_def EffectiveDatesAssigned_def EffectiveDatesWithOverride_def applicable_overrides_def sample_dates_def
      dated_assignment_def section_override_def student_override_def two_more_days_def ListByUserAndAssignment_def override_FindByID_def
      List.map_filter_def enrolled_sections_def ListByAssignmentID_def for_section_def add_override_def most_lenient_def laterDue_def
      ListByUserAndCourse_def in_effect_def best_extra_def add_days_def time_units)

lemma sample_dates_ok: "dates_db_ok sample_dates"
  by (simp add: dates_db_ok_def sample_dates_def dated_assignment_def section_override_def student_override_def)

theorem effective_due_date_is_most_lenient_witness:
  "EffectiveDueAt (9 * day) sample_dates dated_assignment 7 = Some (13 * day) \<and>
   candidate_due_dates sample_dates dated_assignment 7 = {Some (11 * day), Some (10 * day)} \<and>
   granted_days (9 * day) sample_dates dated_assignment 7 = {0, 2}"
proof -
  have "candidate_due_dates sample_dates dated_assignment 7 = {Some (11 * day), Some (10 * day)}"
    "granted_days (9 * day) sample_dates dated_assignment 7 = {0, 2}"
    by (auto simp: candidate_due_dates_def granted_days_def overrides_for_def names_student_def names_section_def sample_dates_def
        dated_assignment_def section_override_def student_override_def two_more_days_def List.map_filter_def in_effect_def time_units)
  then show ?thesis
    using effective_due_date_is_most_lenient[OF sample_dates_ok, of "9 * day" dated_assignment 7] by (simp add: add_days_def time_units)
qed


end
