(* ===== verification/Late_Policy.thy ===== *)
theory Late_Policy imports Grading_Scheme Due_Dates begin

text \<open>
  Late and missing work (\<open>internal/service/submission_status.go\<close>, \<open>late_policy_service.go\<close>, and
  \<open>LatePointsDeducted\<close> of \<open>submission_service.go\<close>): the status of a submission against its effective
  due date, the points the late policy takes off, and the score of missing work.
\<close>

section \<open>The late policy of a course\<close>

record late_policy =
  lp_CourseID :: nat
  lp_MissingSubmissionDeductionEnabled :: bool
  lp_MissingSubmissionDeduction :: rat
  lp_LateSubmissionDeductionEnabled :: bool
  lp_LateSubmissionDeduction :: rat
  lp_LateSubmissionInterval :: string
  lp_LateSubmissionMinimumPercentEnabled :: bool
  lp_LateSubmissionMinimumPercent :: rat

datatype policy_error = NoCourse | BadInterval

definition valid_interval :: "string \<Rightarrow> bool" where
  "valid_interval i = (i = ''day'' \<or> i = ''hour'')"

definition LatePolicy_Create :: "late_policy \<Rightarrow> policy_error + late_policy" where
  "LatePolicy_Create p =
     (if lp_CourseID p = 0 then Inl NoCourse
      else let p = (if lp_LateSubmissionInterval p = [] then p\<lparr>lp_LateSubmissionInterval := ''day''\<rparr> else p)
           in if valid_interval (lp_LateSubmissionInterval p) then Inr p else Inl BadInterval)"

definition LatePolicy_Update :: "late_policy \<Rightarrow> policy_error + late_policy" where
  "LatePolicy_Update p =
     (if lp_LateSubmissionInterval p \<noteq> [] \<and> \<not> valid_interval (lp_LateSubmissionInterval p) then Inl BadInterval else Inr p)"

section \<open>Late and missing\<close>

definition noSubmissionTypes :: "string list" where
  "noSubmissionTypes = [''none'', ''on_paper'', ''not_graded'', ''wiki_page'', ''external_tool'']"

definition ExpectsSubmission :: "assignment \<Rightarrow> bool" where
  "ExpectsSubmission a =
     (TrimSpace (asg_SubmissionTypes a) \<noteq> [] \<and>
      list_ex (\<lambda>t. TrimSpace t \<noteq> [] \<and> TrimSpace t \<notin> set noSubmissionTypes) (split_on (CHR '','') (asg_SubmissionTypes a)))"

record tardiness =
  td_Late :: bool
  td_Missing :: bool
  td_Extended :: bool
  td_SecondsLate :: int

definition on_time :: tardiness where
  "on_time = \<lparr>td_Late = False, td_Missing = False, td_Extended = False, td_SecondsLate = 0\<rparr>"

definition seconds_past_due :: "submission \<Rightarrow> instant option \<Rightarrow> instant \<Rightarrow> int" where
  "seconds_past_due sub dueAt now =
     (case dueAt of
        None \<Rightarrow> 0
      | Some due \<Rightarrow>
          (let t = (case sub_SubmittedAt sub of Some s \<Rightarrow> s | None \<Rightarrow> now)
           in if t > due then go_quot (time_sub t due) second else 0))"

definition computed_tardiness :: "assignment \<Rightarrow> submission \<Rightarrow> instant option \<Rightarrow> instant \<Rightarrow> tardiness" where
  "computed_tardiness a sub dueAt now =
     (let secs = seconds_past_due sub dueAt now
      in if sub_SubmittedAt sub \<noteq> None then on_time\<lparr>td_SecondsLate := secs, td_Late := secs > 0\<rparr>
         else if sub_GraderID sub \<noteq> None \<and> sub_Score sub \<noteq> None then on_time\<lparr>td_SecondsLate := secs\<rparr>
         else on_time\<lparr>td_SecondsLate := secs, td_Missing := secs > 0 \<and> ExpectsSubmission a\<rparr>)"

definition ComputeTardiness :: "assignment \<Rightarrow> submission \<Rightarrow> instant option \<Rightarrow> instant \<Rightarrow> tardiness" where
  "ComputeTardiness a sub dueAt now =
     (if sub_Excused sub then on_time
      else let status = (case sub_LatePolicyStatus sub of Some s \<Rightarrow> s | None \<Rightarrow> [])
           in if status = ''late''
              then on_time\<lparr>td_Late := True, td_SecondsLate :=
                (case sub_SecondsLateOverride sub of Some n \<Rightarrow> if n > 0 then n else 0 | None \<Rightarrow> 0)\<rparr>
              else if status = ''missing'' then on_time\<lparr>td_Missing := True\<rparr>
              else if status = ''extended'' then on_time\<lparr>td_Extended := True\<rparr>
              else if status = ''none'' then on_time
              else computed_tardiness a sub dueAt now)"

definition ValidLatePolicyStatus :: "string \<Rightarrow> bool" where
  "ValidLatePolicyStatus s = (s \<in> set [''none'', ''missing'', ''late'', ''extended''])"

text \<open>Handing work in clears a manual missing status.\<close>

definition markSubmitted :: "assignment \<Rightarrow> submission \<Rightarrow> instant option \<Rightarrow> instant \<Rightarrow> submission" where
  "markSubmitted a sub dueAt t =
     (let sub = (if sub_LatePolicyStatus sub = Some ''missing'' then sub\<lparr>sub_LatePolicyStatus := None\<rparr> else sub)
      in sub\<lparr>sub_Late := td_Late (ComputeTardiness a sub dueAt t), sub_Missing := False\<rparr>)"

section \<open>Deductions\<close>

definition pointDeductibleGradingTypes :: "string list" where
  "pointDeductibleGradingTypes = [''points'', ''percent'', ''letter_grade'', ''gpa_scale'']"

definition LatePointsDeducted :: "late_policy \<Rightarrow> rat \<Rightarrow> rat \<Rightarrow> duration \<Rightarrow> rat" where
  "LatePointsDeducted p score possible lateFor =
     (if \<not> lp_LateSubmissionDeductionEnabled p \<or> possible \<le> 0 \<or> lateFor \<le> 0 then 0
      else let interval = (if lp_LateSubmissionInterval p = ''hour'' then hour else 24 * hour);
               intervals = math_Ceil (fdiv (float_of_int lateFor) (float_of_int interval));
               minimumPercent = (if lp_LateSubmissionMinimumPercentEnabled p then lp_LateSubmissionMinimumPercent p else 0);
               rawScorePercent = fdiv (fmul score 100) possible;
               maximumDeduct = max (fsub rawScorePercent minimumPercent) 0;
               latePercentDeduct = fmul (lp_LateSubmissionDeduction p) intervals
           in round6 (fdiv (fmul possible (min latePercentDeduct maximumDeduct)) 100))"

definition deductible :: "assignment \<Rightarrow> rat option" where
  "deductible a =
     (if grading_type a \<notin> set pointDeductibleGradingTypes then None
      else case asg_PointsPossible a of Some p \<Rightarrow> if p \<le> 0 then None else Some p | None \<Rightarrow> None)"

definition manual_late :: "submission \<Rightarrow> duration option" where
  "manual_late sub =
     (if sub_LatePolicyStatus sub \<noteq> Some ''late'' then None
      else case sub_SecondsLateOverride sub of Some n \<Rightarrow> if n \<le> 0 then None else Some (dur_mul n second) | None \<Rightarrow> None)"

definition LateDeductionFor :: "late_policy option \<Rightarrow> assignment \<Rightarrow> submission \<Rightarrow> rat \<Rightarrow> instant option \<Rightarrow> rat" where
  "LateDeductionFor policy a sub entered dueAt =
     (case policy of
        None \<Rightarrow> 0
      | Some p \<Rightarrow>
          (if sub_Excused sub then 0
           else case deductible a of
               None \<Rightarrow> 0
             | Some possible \<Rightarrow>
                 (if sub_LatePolicyStatus sub \<noteq> None
                  then (case manual_late sub of None \<Rightarrow> 0 | Some d \<Rightarrow> LatePointsDeducted p entered possible d)
                  else case (sub_SubmittedAt sub, dueAt) of
                      (Some s, Some due) \<Rightarrow>
                        (if time_sub s due \<le> 0 then 0 else LatePointsDeducted p entered possible (time_sub s due))
                    | _ \<Rightarrow> 0)))"

text \<open>The method of the service: the same deduction, with the policy looked up last.\<close>

definition latePointsDeducted :: "(unit \<Rightarrow> late_policy option) \<Rightarrow> (unit \<Rightarrow> instant option) \<Rightarrow> assignment \<Rightarrow> submission \<Rightarrow> rat \<Rightarrow> rat" where
  "latePointsDeducted find_policy due_of a sub entered =
     (if sub_LatePolicyStatus sub \<noteq> None
      then (if sub_LatePolicyStatus sub \<noteq> Some ''late'' then 0
            else case (deductible a, manual_late sub) of
                (Some possible, Some d) \<Rightarrow>
                  (case find_policy () of None \<Rightarrow> 0 | Some p \<Rightarrow> LatePointsDeducted p entered possible d)
              | _ \<Rightarrow> 0)
      else case sub_SubmittedAt sub of
          None \<Rightarrow> 0
        | Some s \<Rightarrow>
            (case deductible a of
               None \<Rightarrow> 0
             | Some possible \<Rightarrow>
                 (case due_of () of
                    None \<Rightarrow> 0
                  | Some due \<Rightarrow>
                      (if time_sub s due \<le> 0 then 0
                       else case find_policy () of
                           None \<Rightarrow> 0
                         | Some p \<Rightarrow> LatePointsDeducted p entered possible (time_sub s due)))))"

definition MissingPoints :: "late_policy option \<Rightarrow> assignment \<Rightarrow> rat option" where
  "MissingPoints policy a =
     (case policy of
        None \<Rightarrow> None
      | Some p \<Rightarrow>
          (if \<not> lp_MissingSubmissionDeductionEnabled p \<or> asg_GradingType a = ''not_graded'' then None
           else let possible = points_or_0 a;
                    deducted = (if asg_GradingType a = ''pass_fail'' then possible
                      else fdiv (fmul possible (lp_MissingSubmissionDeduction p)) 100)
                in Some (fdiv (math_Round (fmul (fsub possible deducted) 100)) 100)))"

section \<open>Properties\<close>

lemma bulk_twin: "\<not> sub_Excused sub \<Longrightarrow> LateDeductionFor policy a sub entered due = latePointsDeducted (\<lambda>_. policy) (\<lambda>_. due) a sub entered"
  by (auto simp: LateDeductionFor_def latePointsDeducted_def manual_late_def split: option.split)

lemma math_Ceil_mono: "x \<le> y \<Longrightarrow> math_Ceil x \<le> math_Ceil y"
  by (simp add: math_Ceil_def ceiling_mono)

lemma float_of_int_mono: "m \<le> n \<Longrightarrow> float_of_int m \<le> float_of_int n"
  by (simp add: float_of_int_def f64_mono)

lemma LatePointsDeducted_nonneg:
  assumes "0 \<le> lp_LateSubmissionDeduction p" shows "0 \<le> LatePointsDeducted p score possible d"
proof (cases "\<not> lp_LateSubmissionDeductionEnabled p \<or> possible \<le> 0 \<or> d \<le> 0")
  case False
  define interval where "interval = (if lp_LateSubmissionInterval p = ''hour'' then hour else 24 * hour)"
  have "0 \<le> fdiv (float_of_int d) (float_of_int interval)"
    using False by (simp add: interval_def fdiv_def float_of_int_def ieee.nonneg time_units)
  then have "0 \<le> fmul (lp_LateSubmissionDeduction p) (math_Ceil (fdiv (float_of_int d) (float_of_int interval)))"
    using assms math_Ceil_mono[of 0] by (simp add: fmul_def ieee.nonneg math_Ceil_def)
  then have "0 \<le> fdiv (fmul possible (min (fmul (lp_LateSubmissionDeduction p) (math_Ceil (fdiv (float_of_int d) (float_of_int interval)))) (max x 0))) 100" for x
    using False by (simp add: fdiv_def fmul_def ieee.nonneg)
  then have "0 \<le> round6 (fdiv (fmul possible (min (fmul (lp_LateSubmissionDeduction p) (math_Ceil (fdiv (float_of_int d) (float_of_int interval)))) (max x 0))) 100)" for x
    by (simp add: round6_def fdiv_def fmul_def ieee.nonneg math_Round_nonneg)
  then show ?thesis using False unfolding LatePointsDeducted_def Let_def interval_def[symmetric] by simp
qed (auto simp: LatePointsDeducted_def)

lemma fmul_mono_left: "x \<le> y \<Longrightarrow> 0 \<le> c \<Longrightarrow> fmul c x \<le> fmul c y"
  by (simp add: fmul_def f64_mono mult_left_mono)

text \<open>
  C37. The late policy never adds points, and handing work in later never costs less: with a
  non-negative deduction per interval the points taken off grow with the lateness, through every
  rounding of the computation.
\<close>

theorem later_work_loses_no_less:
  assumes "0 \<le> lp_LateSubmissionDeduction p" "d \<le> d'"
  shows "0 \<le> LatePointsDeducted p score possible d \<and> LatePointsDeducted p score possible d \<le> LatePointsDeducted p score possible d'"
proof -
  have "LatePointsDeducted p score possible d \<le> LatePointsDeducted p score possible d'"
  proof (cases "\<not> lp_LateSubmissionDeductionEnabled p \<or> possible \<le> 0 \<or> d \<le> 0")
    case True
    then have "LatePointsDeducted p score possible d = 0" by (simp only: LatePointsDeducted_def if_True)
    then show ?thesis using LatePointsDeducted_nonneg[OF assms(1)] by simp
  next
    case False
    define interval where "interval = (if lp_LateSubmissionInterval p = ''hour'' then hour else 24 * hour)"
    define cap where "cap = max (fsub (fdiv (fmul score 100) possible)
      (if lp_LateSubmissionMinimumPercentEnabled p then lp_LateSubmissionMinimumPercent p else 0)) 0"
    have "0 \<le> float_of_int interval" by (simp add: interval_def float_of_int_def ieee.nonneg time_units)
    then have "fdiv (float_of_int d) (float_of_int interval) \<le> fdiv (float_of_int d') (float_of_int interval)"
      using float_of_int_mono[OF assms(2)] by (simp add: fdiv_def f64_mono divide_right_mono)
    then have "fmul (lp_LateSubmissionDeduction p) (math_Ceil (fdiv (float_of_int d) (float_of_int interval)))
        \<le> fmul (lp_LateSubmissionDeduction p) (math_Ceil (fdiv (float_of_int d') (float_of_int interval)))"
      using assms(1) by (intro fmul_mono_left math_Ceil_mono)
    then have "fmul possible (min (fmul (lp_LateSubmissionDeduction p) (math_Ceil (fdiv (float_of_int d) (float_of_int interval)))) cap)
        \<le> fmul possible (min (fmul (lp_LateSubmissionDeduction p) (math_Ceil (fdiv (float_of_int d') (float_of_int interval)))) cap)"
      by (rule fmul_mono_left[OF min.mono[OF _ order.refl]]) (use False in simp)
    then have "round6 (fdiv (fmul possible (min (fmul (lp_LateSubmissionDeduction p) (math_Ceil (fdiv (float_of_int d) (float_of_int interval)))) cap)) 100)
        \<le> round6 (fdiv (fmul possible (min (fmul (lp_LateSubmissionDeduction p) (math_Ceil (fdiv (float_of_int d') (float_of_int interval)))) cap)) 100)"
      by (rule round6_mono[OF fdiv_mono]) simp
    then show ?thesis
      using False assms(2) unfolding LatePointsDeducted_def Let_def interval_def[symmetric] cap_def[symmetric] by simp
  qed
  with LatePointsDeducted_nonneg[OF assms(1)] show ?thesis by blast
qed

definition ten_percent_a_day :: late_policy where
  "ten_percent_a_day = \<lparr>lp_CourseID = 1, lp_MissingSubmissionDeductionEnabled = True, lp_MissingSubmissionDeduction = 100,
     lp_LateSubmissionDeductionEnabled = True, lp_LateSubmissionDeduction = 10, lp_LateSubmissionInterval = ''day'',
     lp_LateSubmissionMinimumPercentEnabled = False, lp_LateSubmissionMinimumPercent = 0\<rparr>"

theorem later_work_loses_no_less_witness:
  "0 \<le> LatePointsDeducted ten_percent_a_day 8 10 hour \<and> LatePointsDeducted ten_percent_a_day 8 10 hour \<le> LatePointsDeducted ten_percent_a_day 8 10 (30 * hour)"
  by (rule later_work_loses_no_less) (simp_all add: ten_percent_a_day_def time_units)

lemma seconds_positive: "0 < go_quot (time_sub s due) second" if "second \<le> time_sub s due"
proof -
  have "0 \<le> time_sub s due" using that by (simp add: time_units)
  then show ?thesis using that by (simp add: time_units pos_imp_zdiv_pos_iff)
qed

text \<open>
  Points are taken off for lateness only from work that is shown as late, with one exception:
  work handed in less than a second after its due date, which counts as on time but is charged a
  whole interval.
\<close>

theorem deducted_work_is_late:
  assumes "LateDeductionFor policy a sub entered due \<noteq> 0"
  shows "td_Late (ComputeTardiness a sub due now) \<or>
    (\<exists>s d. sub_SubmittedAt sub = Some s \<and> due = Some d \<and> 0 < time_sub s d \<and> time_sub s d < second)"
proof -
  have ne: "\<not> sub_Excused sub" using assms by (auto simp: LateDeductionFor_def split: option.splits)
  show ?thesis
  proof (cases "sub_LatePolicyStatus sub")
    case (Some st)
    then have "st = ''late''"
      using assms by (auto simp: LateDeductionFor_def manual_late_def split: option.splits if_splits)
    then show ?thesis using Some ne by (simp add: ComputeTardiness_def)
  next
    case None
    then obtain s d where sd: "sub_SubmittedAt sub = Some s" "due = Some d" "0 < time_sub s d"
      using assms by (auto simp: LateDeductionFor_def split: option.splits if_splits)
    show ?thesis
    proof (cases "time_sub s d < second")
      case False
      have "d < s" using sd(3) by (simp add: time_sub_pos_iff)
      then have "0 < seconds_past_due sub due now"
        using seconds_positive[of s d] False sd by (simp add: seconds_past_due_def)
      then show ?thesis using None ne sd(1) by (simp add: ComputeTardiness_def computed_tardiness_def Let_def)
    qed (use sd in blast)
  qed
qed

theorem deducted_work_is_late_witness:
  "LateDeductionFor (Some ten_percent_a_day) dated_assignment
     \<lparr>sub_ID = 1, sub_AssignmentID = 4, sub_UserID = 7, sub_SubmissionType = None, sub_Body = None, sub_URL = None, sub_Score = None,
      sub_Grade = None, sub_EnteredScore = None, sub_EnteredGrade = None, sub_PointsDeducted = None, sub_GradedAt = None,
      sub_GraderID = None, sub_SubmittedAt = Some (11 * day), sub_Attempt = 1, sub_Late = False, sub_Missing = False, sub_Excused = False,
      sub_Attachments = None, sub_WorkflowState = ''submitted'', sub_PostedAt = None, sub_LatePolicyStatus = None,
      sub_SecondsLateOverride = None, sub_CachedDueDate = None, sub_ExtraAttempts = None\<rparr> 8 (Some (10 * day)) = 1 \<and>
   td_Late (ComputeTardiness dated_assignment
     \<lparr>sub_ID = 1, sub_AssignmentID = 4, sub_UserID = 7, sub_SubmissionType = None, sub_Body = None, sub_URL = None, sub_Score = None,
      sub_Grade = None, sub_EnteredScore = None, sub_EnteredGrade = None, sub_PointsDeducted = None, sub_GradedAt = None,
      sub_GraderID = None, sub_SubmittedAt = Some (11 * day), sub_Attempt = 1, sub_Late = False, sub_Missing = False, sub_Excused = False,
      sub_Attachments = None, sub_WorkflowState = ''submitted'', sub_PostedAt = None, sub_LatePolicyStatus = None,
      sub_SecondsLateOverride = None, sub_CachedDueDate = None, sub_ExtraAttempts = None\<rparr> (Some (10 * day)) 0)"
  (is "LateDeductionFor _ _ ?sub _ _ = 1 \<and> _")
proof -
  have "LateDeductionFor (Some ten_percent_a_day) dated_assignment ?sub 8 (Some (10 * day)) = 1" by code_simp
  then show ?thesis
    using deducted_work_is_late[of "Some ten_percent_a_day" dated_assignment ?sub 8 "Some (10 * day)" 0]
    by (simp add: time_sub_def time_units int64_min_def int64_max_def)
qed

end
