(* ===== verification/Submission_Store.thy ===== *)
theory Submission_Store imports Late_Policy begin

text \<open>
  The state behind \<open>SubmissionService\<close> (\<open>internal/service/submission_service.go\<close>, \<open>submission_policy.go\<close>
  and the repositories they call): the tables it reads and writes, the lookups scoped to a tenant,
  attempt history, the grade-change log, the resolution of the grading scheme and of closed
  grading periods, and the members of a student's group.
\<close>

section \<open>Tables\<close>

record course =
  co_ID :: nat
  co_AccountID :: nat
  co_GradingStandardID :: "nat option"
  co_WorkflowState :: string

record group_row =
  gr_ID :: nat
  gr_GroupCategoryID :: nat
  gr_WorkflowState :: string

record group_membership =
  gm_ID :: nat
  gm_GroupID :: nat
  gm_UserID :: nat
  gm_WorkflowState :: string

record submission_version =
  hv_SubmissionID :: nat
  hv_Attempt :: int
  hv_AssignmentID :: nat
  hv_UserID :: nat
  hv_SubmissionType :: "string option"
  hv_Body :: "string option"
  hv_URL :: "string option"
  hv_Attachments :: "string option"
  hv_SubmittedAt :: "instant option"
  hv_Late :: bool
  hv_Score :: "rat option"
  hv_Grade :: "string option"
  hv_EnteredScore :: "rat option"
  hv_GraderID :: "nat option"
  hv_GradedAt :: "instant option"

record grade_change =
  gc_CourseID :: nat
  gc_AssignmentID :: nat
  gc_StudentID :: nat
  gc_GraderID :: nat
  gc_SubmissionID :: nat
  gc_OldGrade :: string
  gc_NewGrade :: string
  gc_OldScore :: "rat option"
  gc_NewScore :: "rat option"
  gc_Excused :: bool

text \<open>
  \<open>sx_Periods\<close> gives the active grading periods of a course's set, empty when there is none.
  \<open>sx_Log\<close>, \<open>sx_Fired\<close> and \<open>sx_Notified\<close> record the calls to the audit logger, to the graded
  callbacks and to the notifier.
\<close>

record sub_store =
  sx_Courses :: "course list"
  sx_Assignments :: "assignment list"
  sx_Submissions :: "submission list"
  sx_NextID :: nat
  sx_Policies :: "late_policy list"
  sx_Dates :: dates_db
  sx_Periods :: "nat \<Rightarrow> grading_period list"
  sx_Standards :: "grading_standard list"
  sx_Groups :: "group_row list"
  sx_Memberships :: "group_membership list"
  sx_Versions :: "submission_version list"
  sx_Log :: "grade_change list"
  sx_Fired :: "nat list"
  sx_Notified :: "nat list"

text \<open>Code outside the repository: the JSON scanner, Unicode case tables, the HTML sanitizer, and
  \<open>net/url\<close>, which returns the normalised text of an http or https link with a host.\<close>

record sub_env =
  se_parse :: "string \<Rightarrow> json option"
  se_text :: text_ops
  se_sanitize :: "string \<Rightarrow> string"
  se_http_url :: "string \<Rightarrow> string option"

datatype sub_error =
  AssignmentUnavailable | TypeRequired | TypeNotAllowed | BodyRequired | UrlRequired | BadUrl | FileRequired |
  ExtensionNotAllowed string | RecordingRequired | NotMedia | NothingToAnnotate | AttemptsExhausted | NotYetUnlocked |
  SubmissionLocked | GradeCrossTenant | ModerationInProgress | PeriodClosed string | SubmissionNotFound | InvalidLateStatus |
  GradeRefused grade_error | StoreFailed

section \<open>Lookups\<close>

definition in_tenant :: "sub_store \<Rightarrow> nat \<Rightarrow> nat \<Rightarrow> bool" where
  "in_tenant db account cid = list_ex (\<lambda>c. co_ID c = cid \<and> co_AccountID c = account) (sx_Courses db)"

definition assignment_FindByID :: "sub_store \<Rightarrow> nat \<Rightarrow> nat \<Rightarrow> assignment option" where
  "assignment_FindByID db i account =
     find (\<lambda>a. asg_ID a = i \<and> (account \<noteq> 0 \<longrightarrow> in_tenant db account (asg_CourseID a))) (sx_Assignments db)"

definition assignment_in_tenant :: "sub_store \<Rightarrow> nat \<Rightarrow> nat \<Rightarrow> bool" where
  "assignment_in_tenant db account aid =
     list_ex (\<lambda>a. asg_ID a = aid \<and> in_tenant db account (asg_CourseID a)) (sx_Assignments db)"

definition FindByAssignmentAndUser :: "sub_store \<Rightarrow> nat \<Rightarrow> nat \<Rightarrow> nat \<Rightarrow> submission option" where
  "FindByAssignmentAndUser db aid uid account =
     find (\<lambda>s. sub_AssignmentID s = aid \<and> sub_UserID s = uid \<and> (account \<noteq> 0 \<longrightarrow> assignment_in_tenant db account aid))
       (sort_stable_by sub_ID (sx_Submissions db))"

text \<open>\<open>Create\<close> fails on the unique index of assignment and user; \<open>Update\<close> saves the row by its id.\<close>

definition submission_Create :: "sub_store \<Rightarrow> submission \<Rightarrow> (submission \<times> sub_store) option" where
  "submission_Create db s =
     (if list_ex (\<lambda>r. sub_AssignmentID r = sub_AssignmentID s \<and> sub_UserID r = sub_UserID s) (sx_Submissions db) then None
      else let s = s\<lparr>sub_ID := sx_NextID db\<rparr>
           in Some (s, db\<lparr>sx_Submissions := sx_Submissions db @ [s], sx_NextID := Suc (sx_NextID db)\<rparr>))"

definition submission_Update :: "sub_store \<Rightarrow> submission \<Rightarrow> sub_store" where
  "submission_Update db s =
     db\<lparr>sx_Submissions := map (\<lambda>r. if sub_ID r = sub_ID s then s else r) (sx_Submissions db)\<rparr>"

text \<open>Saving the row a handler worked on: a new one is created, an existing one updated.\<close>

definition save_submission :: "bool \<Rightarrow> sub_store \<Rightarrow> submission \<Rightarrow> (submission \<times> sub_store) option" where
  "save_submission isNew db s = (if isNew then submission_Create db s else Some (s, submission_Update db s))"

definition policy_of :: "sub_store \<Rightarrow> nat \<Rightarrow> late_policy option" where
  "policy_of db cid = find (\<lambda>p. lp_CourseID p = cid) (sx_Policies db)"

section \<open>Group members\<close>

definition FindUserGroupInCategory :: "sub_store \<Rightarrow> nat \<Rightarrow> nat \<Rightarrow> group_row option" where
  "FindUserGroupInCategory db uid cat =
     find (\<lambda>g. gr_GroupCategoryID g = cat \<and> gr_WorkflowState g \<noteq> ''deleted'' \<and>
         list_ex (\<lambda>m. gm_GroupID m = gr_ID g \<and> gm_UserID m = uid \<and> gm_WorkflowState m = ''accepted'') (sx_Memberships db))
       (sort_stable_by gr_ID (sx_Groups db))"

definition getGroupMemberIDs :: "sub_store \<Rightarrow> nat \<Rightarrow> nat \<Rightarrow> nat list" where
  "getGroupMemberIDs db uid cat =
     (case FindUserGroupInCategory db uid cat of
        None \<Rightarrow> []
      | Some g \<Rightarrow>
          map gm_UserID (filter (\<lambda>m. gm_UserID m \<noteq> uid \<and> gm_WorkflowState m = ''accepted'')
            (take 1000 (sort_stable_by gm_ID (filter (\<lambda>m. gm_GroupID m = gr_ID g) (sx_Memberships db))))))"

definition group_category :: "assignment \<Rightarrow> nat" where
  "group_category a = (case asg_GroupCategoryID a of Some g \<Rightarrow> g | None \<Rightarrow> 0)"

section \<open>Scheme and grading period\<close>

definition StandardVisibleToCourse :: "grading_standard \<Rightarrow> course option \<Rightarrow> bool" where
  "StandardVisibleToCourse gs c =
     (case c of
        None \<Rightarrow> False
      | Some c \<Rightarrow>
          (if gst_ContextType gs = ''Course'' then gst_ContextID gs = co_ID c
           else if gst_ContextType gs = ''Account'' then gst_ContextID gs = co_AccountID c else False))"

definition try_standard :: "(string \<Rightarrow> json option) \<Rightarrow> grading_standard list \<Rightarrow> course option \<Rightarrow> nat option \<Rightarrow> grading_scheme option" where
  "try_standard parse standards c i =
     (case i of
        None \<Rightarrow> None
      | Some i \<Rightarrow>
          (if i = 0 then None
           else case find (\<lambda>gs. gst_ID gs = i) standards of
               None \<Rightarrow> None
             | Some gs \<Rightarrow>
                 (if gst_WorkflowState gs = ''deleted'' \<or> \<not> StandardVisibleToCourse gs c then None else SchemeFromStandard parse gs)))"

definition FindActiveByCourse :: "grading_standard list \<Rightarrow> nat \<Rightarrow> grading_standard option" where
  "FindActiveByCourse standards cid =
     find (\<lambda>gs. gst_ContextType gs = ''Course'' \<and> gst_ContextID gs = cid \<and> gst_WorkflowState gs = ''active'')
       (rev (sort_stable_by gst_ID standards))"

definition ResolveGradingScheme :: "(string \<Rightarrow> json option) \<Rightarrow> grading_standard list \<Rightarrow> course option \<Rightarrow> assignment \<Rightarrow> grading_scheme" where
  "ResolveGradingScheme parse standards c a =
     (case try_standard parse standards c (asg_GradingStandardID a) of
        Some sch \<Rightarrow> sch
      | None \<Rightarrow>
          (case c of
             None \<Rightarrow> DefaultGradingScheme
           | Some cr \<Rightarrow>
               (case try_standard parse standards c (co_GradingStandardID cr) of
                  Some sch \<Rightarrow> sch
                | None \<Rightarrow>
                    (case FindActiveByCourse standards (co_ID cr) of
                       None \<Rightarrow> DefaultGradingScheme
                     | Some gs \<Rightarrow> (case SchemeFromStandard parse gs of Some sch \<Rightarrow> sch | None \<Rightarrow> DefaultGradingScheme)))))"

definition resolveScheme :: "sub_env \<Rightarrow> sub_store \<Rightarrow> assignment \<Rightarrow> grading_scheme" where
  "resolveScheme env db a =
     ResolveGradingScheme (se_parse env) (sx_Standards db) (find (\<lambda>c. co_ID c = asg_CourseID a) (sx_Courses db)) a"

text \<open>\<open>isGradingPeriodClosedFor\<close>: the title of the closed period the student's due date falls in.\<close>

definition closed_period :: "instant \<Rightarrow> sub_store \<Rightarrow> assignment \<Rightarrow> nat \<Rightarrow> string option" where
  "closed_period now db a uid =
     (let periods = sx_Periods db (asg_CourseID a)
      in if periods = [] then None
         else let p = GradingPeriodForDate periods (EffectiveDueAt now (sx_Dates db) a uid)
              in if GradingPeriodClosed p now then map_option per_Title p else None)"

section \<open>History, log, callbacks\<close>

definition version_of :: "submission \<Rightarrow> submission_version" where
  "version_of s =
     \<lparr>hv_SubmissionID = sub_ID s, hv_Attempt = max 1 (sub_Attempt s), hv_AssignmentID = sub_AssignmentID s, hv_UserID = sub_UserID s,
      hv_SubmissionType = sub_SubmissionType s, hv_Body = sub_Body s, hv_URL = sub_URL s, hv_Attachments = sub_Attachments s,
      hv_SubmittedAt = sub_SubmittedAt s, hv_Late = sub_Late s, hv_Score = sub_Score s, hv_Grade = sub_Grade s,
      hv_EnteredScore = sub_EnteredScore s, hv_GraderID = sub_GraderID s, hv_GradedAt = sub_GradedAt s\<rparr>"

definition same_version :: "submission_version \<Rightarrow> submission_version \<Rightarrow> bool" where
  "same_version v w = (hv_SubmissionID v = hv_SubmissionID w \<and> hv_Attempt v = hv_Attempt w)"

text \<open>The upsert keeps the assignment and user of an existing row.\<close>

definition UpsertSubmissionVersion :: "submission_version list \<Rightarrow> submission_version \<Rightarrow> submission_version list" where
  "UpsertSubmissionVersion vs v =
     (if list_ex (same_version v) vs
      then map (\<lambda>w. if same_version v w then v\<lparr>hv_AssignmentID := hv_AssignmentID w, hv_UserID := hv_UserID w\<rparr> else w) vs
      else vs @ [v])"

definition recordAttempt :: "sub_store \<Rightarrow> submission \<Rightarrow> sub_store" where
  "recordAttempt db s =
     (if sub_ID s = 0 \<or> sub_SubmittedAt s = None then db
      else db\<lparr>sx_Versions := UpsertSubmissionVersion (sx_Versions db) (version_of s)\<rparr>)"

definition recordAttemptGrade :: "sub_store \<Rightarrow> submission \<Rightarrow> sub_store" where
  "recordAttemptGrade db s =
     (if sub_ID s = 0 \<or> sub_Attempt s < 1 then db
      else db\<lparr>sx_Versions := map (\<lambda>w. if hv_SubmissionID w = sub_ID s \<and> hv_Attempt w = sub_Attempt s
        then w\<lparr>hv_Score := sub_Score s, hv_Grade := sub_Grade s, hv_EnteredScore := sub_EnteredScore s, hv_GraderID := sub_GraderID s,
          hv_GradedAt := sub_GradedAt s\<rparr> else w) (sx_Versions db)\<rparr>)"

definition text_or_empty :: "string option \<Rightarrow> string" where
  "text_or_empty p = (case p of None \<Rightarrow> [] | Some s \<Rightarrow> s)"

definition logGradeChange :: "sub_store \<Rightarrow> assignment \<Rightarrow> submission \<Rightarrow> nat \<Rightarrow> string option \<Rightarrow> rat option \<Rightarrow> sub_store" where
  "logGradeChange db a s grader oldGrade oldScore =
     db\<lparr>sx_Log := sx_Log db @ [\<lparr>gc_CourseID = asg_CourseID a, gc_AssignmentID = asg_ID a, gc_StudentID = sub_UserID s,
       gc_GraderID = grader, gc_SubmissionID = sub_ID s, gc_OldGrade = text_or_empty oldGrade, gc_NewGrade = text_or_empty (sub_Grade s),
       gc_OldScore = oldScore, gc_NewScore = sub_Score s, gc_Excused = sub_Excused s\<rparr>]\<rparr>"

definition fireOnGraded :: "sub_store \<Rightarrow> nat \<Rightarrow> sub_store" where
  "fireOnGraded db i = (if i = 0 then db else db\<lparr>sx_Fired := sx_Fired db @ [i]\<rparr>)"

definition fireIfPosted :: "sub_store \<Rightarrow> submission \<Rightarrow> sub_store" where
  "fireIfPosted db s = (if sub_PostedAt s \<noteq> None then fireOnGraded db (sub_ID s) else db)"

definition sameScore :: "rat option \<Rightarrow> rat option \<Rightarrow> bool" where
  "sameScore a b =
     (case (a, b) of (Some x, Some y) \<Rightarrow> \<bar>fsub x y\<bar> < f64 (1 / 10 ^ 9) | (None, None) \<Rightarrow> True | _ \<Rightarrow> False)"

definition notifyGradeChange :: "sub_store \<Rightarrow> submission \<Rightarrow> string option \<Rightarrow> rat option \<Rightarrow> bool \<Rightarrow> sub_store" where
  "notifyGradeChange db s oldGrade oldScore wasPosted =
     (if sub_PostedAt s = None \<or> (sub_Score s = None \<and> \<not> sub_Excused s) then db
      else if wasPosted \<and> sameScore oldScore (sub_Score s) \<and> oldGrade = sub_Grade s then db
      else db\<lparr>sx_Notified := sx_Notified db @ [sub_ID s]\<rparr>)"

definition blank_submission :: "nat \<Rightarrow> nat \<Rightarrow> string \<Rightarrow> submission" where
  "blank_submission aid uid st =
     \<lparr>sub_ID = 0, sub_AssignmentID = aid, sub_UserID = uid, sub_SubmissionType = None, sub_Body = None, sub_URL = None, sub_Score = None,
      sub_Grade = None, sub_EnteredScore = None, sub_EnteredGrade = None, sub_PointsDeducted = None, sub_GradedAt = None,
      sub_GraderID = None, sub_SubmittedAt = None, sub_Attempt = 0, sub_Late = False, sub_Missing = False, sub_Excused = False,
      sub_Attachments = None, sub_WorkflowState = st, sub_PostedAt = None, sub_LatePolicyStatus = None,
      sub_SecondsLateOverride = None, sub_CachedDueDate = None, sub_ExtraAttempts = None\<rparr>"

end
