(* ===== verification/Submissions.thy ===== *)
theory Submissions imports Submission_Store begin

text \<open>
  How a student hands work in (\<open>internal/service/submission_service.go\<close>): the checks of a submission
  by its type, the limit on attempts, the windows of the effective dates, the row that is created
  or replaced, and the copies made for the other members of a group.
\<close>

section \<open>What an assignment accepts\<close>

definition onlineSubmissionTypes :: "string list" where
  "onlineSubmissionTypes = [''online_text_entry'', ''online_url'', ''online_upload'', ''media_recording'', ''student_annotation'']"

definition SubmissionTypeAllowed :: "assignment \<Rightarrow> string \<Rightarrow> bool" where
  "SubmissionTypeAllowed a t =
     (t \<in> set onlineSubmissionTypes \<and> list_ex (\<lambda>x. TrimSpace x = t) (split_on (CHR '','') (asg_SubmissionTypes a)))"

text \<open>The text after the last dot, when there is one and it is not the last byte.\<close>

definition extension_of :: "string \<Rightarrow> string option" where
  "extension_of filename =
     (let tail = rev (takeWhile (\<lambda>c. c \<noteq> CHR ''.'') (rev filename))
      in if CHR ''.'' \<notin> set filename \<or> tail = [] then None else Some tail)"

definition FileExtensionAllowed :: "text_ops \<Rightarrow> assignment \<Rightarrow> string \<Rightarrow> bool" where
  "FileExtensionAllowed tx a filename =
     (if TrimSpace (asg_AllowedExtensions a) = [] then True
      else case extension_of filename of
          None \<Rightarrow> False
        | Some e \<Rightarrow> list_ex (\<lambda>x. TrimSpace x = tx_ToLower tx e) (split_on (CHR '','') (asg_AllowedExtensions a)))"

definition IsMediaContentType :: "text_ops \<Rightarrow> string \<Rightarrow> bool" where
  "IsMediaContentType tx ct0 =
     (let ct = tx_ToLower tx (TrimSpace ct0) in has_prefix ct ''audio/'' \<or> has_prefix ct ''video/'')"

text \<open>The stored form of the extensions an instructor typed; \<open>strings.FieldsFunc\<close> drops empty fields.\<close>

fun fields_on :: "(char \<Rightarrow> bool) \<Rightarrow> string \<Rightarrow> string list" where
  "fields_on sep [] = [[]]"
| "fields_on sep (x # xs) = (if sep x then [] # fields_on sep xs
     else case fields_on sep xs of [] \<Rightarrow> [[x]] | w # ws \<Rightarrow> (x # w) # ws)"

definition FieldsFunc :: "(char \<Rightarrow> bool) \<Rightarrow> string \<Rightarrow> string list" where
  "FieldsFunc sep s = filter (\<lambda>w. w \<noteq> []) (fields_on sep s)"

definition typed_extension :: "text_ops \<Rightarrow> string \<Rightarrow> string" where
  "typed_extension tx part =
     (let t = TrimSpace part in tx_ToLower tx (if t \<noteq> [] \<and> hd t = CHR ''.'' then tl t else t))"

fun join :: "string \<Rightarrow> string list \<Rightarrow> string" where
  "join sep [] = []"
| "join sep [w] = w"
| "join sep (w # v # ws) = w @ sep @ join sep (v # ws)"

definition extensions_of :: "text_ops \<Rightarrow> string \<Rightarrow> string list" where
  "extensions_of tx raw =
     rev (foldl (\<lambda>out part. let ext = typed_extension tx part in if ext = [] \<or> ext \<in> set out then out else ext # out) []
       (FieldsFunc (\<lambda>c. c = CHR '','' \<or> c = CHR '' '' \<or> c = CHR '';'') raw))"

definition NormalizeAllowedExtensions :: "text_ops \<Rightarrow> string \<Rightarrow> string" where
  "NormalizeAllowedExtensions tx raw = join '','' (extensions_of tx raw)"

section \<open>Attached files\<close>

record submission_file =
  fi_ID :: nat
  fi_DisplayName :: string
  fi_Filename :: string
  fi_ContentType :: string
  fi_Size :: int

definition submission_file_fields :: "submission_file field list" where
  "submission_file_fields =
     [(''id'', into_uint (\<lambda>x s. s\<lparr>fi_ID := x\<rparr>)),
      (''display_name'', into_string (\<lambda>x s. s\<lparr>fi_DisplayName := x\<rparr>)),
      (''filename'', into_string (\<lambda>x s. s\<lparr>fi_Filename := x\<rparr>)),
      (''content_type'', into_string (\<lambda>x s. s\<lparr>fi_ContentType := x\<rparr>)),
      (''size'', into_int (\<lambda>x s. s\<lparr>fi_Size := x\<rparr>))]"

definition no_file :: submission_file where
  "no_file = \<lparr>fi_ID = 0, fi_DisplayName = [], fi_Filename = [], fi_ContentType = [], fi_Size = 0\<rparr>"

text \<open>A list that does not decode is no files at all.\<close>

definition submissionAttachmentFiles :: "(string \<Rightarrow> json option) \<Rightarrow> string option \<Rightarrow> submission_file list" where
  "submissionAttachmentFiles parse raw =
     (case raw of
        None \<Rightarrow> []
      | Some t \<Rightarrow>
          (if t = [] then []
           else case parse t of
               Some (JArr xs) \<Rightarrow> (case those (map (decode_struct submission_file_fields no_file) xs) of Some fs \<Rightarrow> fs | None \<Rightarrow> [])
             | _ \<Rightarrow> []))"

section \<open>Attempts\<close>

text \<open>\<open>-1\<close> when the assignment does not limit attempts.\<close>

definition AttemptsRemaining :: "assignment \<Rightarrow> submission option \<Rightarrow> int" where
  "AttemptsRemaining a sub =
     (let limit = AttemptsLimit a
      in if limit = 0 then -1
         else let used = (case sub of Some s \<Rightarrow> sub_Attempt s | None \<Rightarrow> 0);
                  extra = (case sub of None \<Rightarrow> 0
                    | Some s \<Rightarrow> (case sub_ExtraAttempts s of Some n \<Rightarrow> if n > 0 then n else 0 | None \<Rightarrow> 0));
                  limit = wrap64 (limit + extra)
              in if used \<ge> limit then 0 else wrap64 (limit - used))"

definition attempts_exhausted :: "sub_store \<Rightarrow> assignment \<Rightarrow> nat \<Rightarrow> bool" where
  "attempts_exhausted db a uid =
     (AttemptsLimit a \<noteq> 0 \<and>
      (case FindByAssignmentAndUser db (asg_ID a) uid 0 of None \<Rightarrow> False | Some s \<Rightarrow> AttemptsRemaining a (Some s) = 0))"

section \<open>Creating the rows\<close>

definition sanitized :: "(string \<Rightarrow> string) \<Rightarrow> submission \<Rightarrow> submission" where
  "sanitized clean s = (case sub_Body s of Some b \<Rightarrow> if b \<noteq> [] then s\<lparr>sub_Body := Some (clean b)\<rparr> else s | None \<Rightarrow> s)"

text \<open>The content of a new attempt, on a row the student already has and on a new one.\<close>

definition next_attempt :: "submission \<Rightarrow> submission \<Rightarrow> instant option \<Rightarrow> instant option \<Rightarrow> submission" where
  "next_attempt row s due t =
     row\<lparr>sub_SubmissionType := sub_SubmissionType s, sub_Body := sub_Body s, sub_URL := sub_URL s, sub_Attachments := sub_Attachments s,
       sub_SubmittedAt := t, sub_Attempt := wrap64 (sub_Attempt row + 1), sub_CachedDueDate := due, sub_WorkflowState := ''submitted''\<rparr>"

definition first_attempt :: "submission \<Rightarrow> instant option \<Rightarrow> instant \<Rightarrow> submission" where
  "first_attempt s due now =
     s\<lparr>sub_SubmittedAt := Some now, sub_Attempt := 1, sub_WorkflowState := ''submitted'', sub_CachedDueDate := due\<rparr>"

definition member_attempt :: "submission \<Rightarrow> nat \<Rightarrow> instant option \<Rightarrow> submission" where
  "member_attempt s uid due =
     (blank_submission (sub_AssignmentID s) uid ''submitted'')\<lparr>sub_SubmissionType := sub_SubmissionType s, sub_Body := sub_Body s,
       sub_URL := sub_URL s, sub_Attachments := sub_Attachments s, sub_SubmittedAt := sub_SubmittedAt s, sub_Attempt := 1,
       sub_CachedDueDate := due\<rparr>"

definition create_for_member :: "instant \<Rightarrow> assignment \<Rightarrow> submission \<Rightarrow> sub_store \<Rightarrow> nat \<Rightarrow> sub_store" where
  "create_for_member now a s db uid =
     (let due = EffectiveDueAt now (sx_Dates db) a uid;
          submittedAt = (case sub_SubmittedAt s of Some t \<Rightarrow> t | None \<Rightarrow> now);
          existing = FindByAssignmentAndUser db (sub_AssignmentID s) uid 0;
          row = (case existing of Some r \<Rightarrow> next_attempt r s due (sub_SubmittedAt s) | None \<Rightarrow> member_attempt s uid due)
      in case save_submission (existing = None) db (markSubmitted a row due submittedAt) of
           None \<Rightarrow> db
         | Some (r, db) \<Rightarrow> recordAttempt db r)"

definition createGroupSubmissions :: "instant \<Rightarrow> sub_store \<Rightarrow> assignment \<Rightarrow> submission \<Rightarrow> sub_store" where
  "createGroupSubmissions now db a s =
     foldl (create_for_member now a s) db (getGroupMemberIDs db (sub_UserID s) (group_category a))"

definition closed_window :: "instant \<Rightarrow> sub_store \<Rightarrow> assignment \<Rightarrow> nat \<Rightarrow> sub_error option" where
  "closed_window now db a uid =
     (let ((due, unlock, lock), assigned) = EffectiveDatesAssigned now (sx_Dates db) a uid
      in if \<not> assigned then Some AssignmentUnavailable
         else if (case unlock of Some t \<Rightarrow> now < t | None \<Rightarrow> False) then Some NotYetUnlocked
         else if (case lock of Some t \<Rightarrow> now > t | None \<Rightarrow> False) then Some SubmissionLocked
         else None)"

type_synonym sub_result = "(sub_error + submission) \<times> sub_store"

definition createForAssignment :: "sub_env \<Rightarrow> instant \<Rightarrow> sub_store \<Rightarrow> assignment \<Rightarrow> submission \<Rightarrow> sub_result" where
  "createForAssignment env now db a s0 =
     (let s = sanitized (se_sanitize env) s0
      in case closed_window now db a (sub_UserID s) of
           Some e \<Rightarrow> (Inl e, db)
         | None \<Rightarrow>
             (let due = EffectiveDueAt now (sx_Dates db) a (sub_UserID s);
                  existing = FindByAssignmentAndUser db (sub_AssignmentID s) (sub_UserID s) 0;
                  row = (case existing of Some r \<Rightarrow> next_attempt r s due (Some now) | None \<Rightarrow> first_attempt s due now)
              in case save_submission (existing = None) db (markSubmitted a row due now) of
                   None \<Rightarrow> (Inl StoreFailed, db)
                 | Some (r, db1) \<Rightarrow>
                     (let db2 = recordAttempt db1 r
                      in (Inr r, if IsGroupAssignment a then createGroupSubmissions now db2 a r else db2))))"

section \<open>The student's request\<close>

definition no_text :: "string option \<Rightarrow> bool" where
  "no_text t = (case t of None \<Rightarrow> True | Some s \<Rightarrow> TrimSpace s = [])"

definition check_url :: "sub_env \<Rightarrow> submission \<Rightarrow> sub_error + submission" where
  "check_url env s =
     (if no_text (sub_URL s) then Inl UrlRequired
      else case se_http_url env (TrimSpace (text_or_empty (sub_URL s))) of
          None \<Rightarrow> Inl BadUrl
        | Some clean \<Rightarrow> Inr (s\<lparr>sub_URL := Some clean\<rparr>))"

definition check_upload :: "sub_env \<Rightarrow> assignment \<Rightarrow> submission \<Rightarrow> sub_error + submission" where
  "check_upload env a s =
     (if text_or_empty (sub_Attachments s) = [] then Inl FileRequired
      else case find (\<lambda>f. \<not> FileExtensionAllowed (se_text env) a (fi_Filename f))
                  (submissionAttachmentFiles (se_parse env) (sub_Attachments s)) of
          Some f \<Rightarrow> Inl (ExtensionNotAllowed (fi_Filename f))
        | None \<Rightarrow> Inr s)"

definition check_recording :: "sub_env \<Rightarrow> submission \<Rightarrow> sub_error + submission" where
  "check_recording env s =
     (let files = submissionAttachmentFiles (se_parse env) (sub_Attachments s)
      in if files = [] then Inl RecordingRequired
         else if list_ex (\<lambda>f. \<not> IsMediaContentType (se_text env) (fi_ContentType f)) files then Inl NotMedia else Inr s)"

definition check_annotation :: "assignment \<Rightarrow> submission \<Rightarrow> sub_error + submission" where
  "check_annotation a s =
     (if (case asg_AnnotatableAttachmentID a of Some i \<Rightarrow> i = 0 | None \<Rightarrow> True) then Inl NothingToAnnotate
      else Inr (s\<lparr>sub_Body := None, sub_URL := None, sub_Attachments := None\<rparr>))"

text \<open>The switch over the submission type.\<close>

definition check_content :: "sub_env \<Rightarrow> assignment \<Rightarrow> submission \<Rightarrow> string \<Rightarrow> sub_error + submission" where
  "check_content env a s t =
     (if t = ''online_text_entry'' then (if no_text (sub_Body s) then Inl BodyRequired else Inr s)
      else if t = ''online_url'' then check_url env s
      else if t = ''online_upload'' then check_upload env a s
      else if t = ''media_recording'' then check_recording env s
      else if t = ''student_annotation'' then check_annotation a s
      else Inr s)"

definition checked_request :: "sub_env \<Rightarrow> assignment \<Rightarrow> submission \<Rightarrow> sub_error + submission" where
  "checked_request env a s =
     (let t = text_or_empty (sub_SubmissionType s)
      in if t = [] then Inl TypeRequired
         else if \<not> SubmissionTypeAllowed a t then Inl TypeNotAllowed
         else check_content env a s t)"

definition submit_loaded :: "sub_env \<Rightarrow> instant \<Rightarrow> sub_store \<Rightarrow> assignment \<Rightarrow> submission \<Rightarrow> sub_result" where
  "submit_loaded env now db a s =
     (case checked_request env a s of
        Inl e \<Rightarrow> (Inl e, db)
      | Inr s' \<Rightarrow>
          (if attempts_exhausted db a (sub_UserID s') then (Inl AttemptsExhausted, db) else createForAssignment env now db a s'))"

definition Submit :: "sub_env \<Rightarrow> instant \<Rightarrow> sub_store \<Rightarrow> submission \<Rightarrow> nat \<Rightarrow> nat \<Rightarrow> sub_result" where
  "Submit env now db s courseID accountID =
     (case assignment_FindByID db (sub_AssignmentID s) accountID of
        None \<Rightarrow> (Inl AssignmentUnavailable, db)
      | Some a \<Rightarrow>
          (if asg_CourseID a \<noteq> courseID \<or> \<not> IsPublished a then (Inl AssignmentUnavailable, db)
           else submit_loaded env now db a s))"

section \<open>Internal paths\<close>

definition Create :: "sub_env \<Rightarrow> instant \<Rightarrow> sub_store \<Rightarrow> submission \<Rightarrow> sub_result" where
  "Create env now db s =
     (case assignment_FindByID db (sub_AssignmentID s) 0 of
        None \<Rightarrow> (Inl AssignmentUnavailable, db)
      | Some a \<Rightarrow>
          (if text_or_empty (sub_SubmissionType s) = [] then (Inl TypeRequired, db) else createForAssignment env now db a s))"

definition RecordExternalToolSubmission :: "sub_env \<Rightarrow> instant \<Rightarrow> sub_store \<Rightarrow> assignment \<Rightarrow> nat \<Rightarrow> string \<Rightarrow> sub_result" where
  "RecordExternalToolSubmission env now db a uid submittedURL =
     (let s = (blank_submission (asg_ID a) uid [])\<lparr>sub_SubmissionType := Some ''basic_lti_launch''\<rparr>;
          u = TrimSpace submittedURL
      in case (if u = [] then Inr s
               else case se_http_url env u of None \<Rightarrow> Inl BadUrl | Some clean \<Rightarrow> Inr (s\<lparr>sub_URL := Some clean\<rparr>)) of
           Inl e \<Rightarrow> (Inl e, db)
         | Inr s \<Rightarrow>
             (if attempts_exhausted db a uid then (Inl AttemptsExhausted, db) else createForAssignment env now db a s))"

text \<open>The report of a tool that the student is done.\<close>

definition assignmentHasType :: "assignment \<Rightarrow> string \<Rightarrow> bool" where
  "assignmentHasType a t = list_ex (\<lambda>x. TrimSpace x = t) (split_on (CHR '','') (asg_SubmissionTypes a))"

definition RecordExternalToolActivity :: "sub_env \<Rightarrow> instant \<Rightarrow> sub_store \<Rightarrow> assignment \<Rightarrow> nat \<Rightarrow> sub_error option \<times> sub_store" where
  "RecordExternalToolActivity env now db a uid =
     (if \<not> assignmentHasType a ''external_tool'' then (None, db)
      else if (case FindByAssignmentAndUser db (asg_ID a) uid 0 of Some r \<Rightarrow> sub_SubmittedAt r \<noteq> None | None \<Rightarrow> False) then (None, db)
      else case RecordExternalToolSubmission env now db a uid [] of
          (Inl e, db1) \<Rightarrow> (Some e, db1)
        | (Inr r, db1) \<Rightarrow> (None, db1))"

text \<open>The row the handler builds from a student's request.\<close>

definition student_request :: "nat \<Rightarrow> nat \<Rightarrow> string \<Rightarrow> string option \<Rightarrow> string option \<Rightarrow> string option \<Rightarrow> submission" where
  "student_request aid uid t body url attachments =
     (blank_submission aid uid [])\<lparr>sub_SubmissionType := Some t, sub_Body := body, sub_URL := url, sub_Attachments := attachments\<rparr>"

end
