(* ===== verification/Submission_Grading.thy ===== *)
theory Submission_Grading imports Submissions begin

text \<open>
  How a grade is written (\<open>internal/service/submission_service.go\<close>, \<open>submission_status.go\<close>): typed
  and machine grades, excusing, clearing, the manual late status, posting, and the propagation to
  the members of a group.
\<close>

section \<open>The score of a row\<close>

definition posts_now :: "assignment \<Rightarrow> submission \<Rightarrow> bool" where
  "posts_now a s = (\<not> UsesManualPostPolicy a \<and> sub_PostedAt s = None)"

definition posted :: "assignment \<Rightarrow> instant \<Rightarrow> submission \<Rightarrow> submission" where
  "posted a now s = (if posts_now a s then s\<lparr>sub_PostedAt := Some now\<rparr> else s)"

definition late_deduction :: "instant \<Rightarrow> sub_store \<Rightarrow> assignment \<Rightarrow> submission \<Rightarrow> rat \<Rightarrow> rat" where
  "late_deduction now db a s entered =
     latePointsDeducted (\<lambda>_. policy_of db (asg_CourseID a)) (\<lambda>_. EffectiveDueAt now (sx_Dates db) a (sub_UserID s)) a s entered"

text \<open>\<open>applyGradeGiven\<close> as a function of the deduction and of the two formatted grades.\<close>

definition graded_row :: "assignment \<Rightarrow> submission \<Rightarrow> rat \<Rightarrow> rat \<Rightarrow> string \<Rightarrow> string \<Rightarrow> nat \<Rightarrow> instant \<Rightarrow> submission" where
  "graded_row a s entered deducted enteredGrade finalGrade grader now =
     posted a now
       (s\<lparr>sub_EnteredScore := Some entered, sub_EnteredGrade := Some enteredGrade,
          sub_PointsDeducted := (if deducted > 0 then Some deducted else None), sub_Score := Some (fsub entered deducted),
          sub_Grade := Some finalGrade, sub_GradedAt := Some now, sub_GraderID := Some grader, sub_WorkflowState := ''graded'',
          sub_Excused := False,
          sub_Missing := (if sub_LatePolicyStatus s \<noteq> Some ''missing'' then False else sub_Missing s)\<rparr>)"

definition applyGradeGiven :: "sub_env \<Rightarrow> sub_store \<Rightarrow> assignment \<Rightarrow> submission \<Rightarrow> rat \<Rightarrow> string \<Rightarrow> nat \<Rightarrow> instant \<Rightarrow> submission" where
  "applyGradeGiven env db a s entered given grader now =
     (let deducted = late_deduction now db a s entered; scheme = resolveScheme env db a
      in graded_row a s entered deducted (FormatGrade (se_text env) a (Some scheme) entered given)
           (FormatGrade (se_text env) a (Some scheme) (fsub entered deducted) given) grader now)"

definition handed_in_state :: "submission \<Rightarrow> string" where
  "handed_in_state s = (if sub_SubmittedAt s \<noteq> None then ''submitted'' else ''unsubmitted'')"

definition clearGrade :: "submission \<Rightarrow> nat \<Rightarrow> submission" where
  "clearGrade s grader =
     s\<lparr>sub_Score := None, sub_Grade := None, sub_EnteredScore := None, sub_EnteredGrade := None, sub_PointsDeducted := None,
       sub_GradedAt := None, sub_GraderID := Some grader, sub_WorkflowState := handed_in_state s\<rparr>"

section \<open>Groups\<close>

definition saved_grade :: "sub_store \<Rightarrow> assignment \<Rightarrow> submission \<Rightarrow> nat \<Rightarrow> string option \<Rightarrow> rat option \<Rightarrow> sub_store" where
  "saved_grade db a s grader oldGrade oldScore = logGradeChange (recordAttemptGrade db s) a s grader oldGrade oldScore"

definition grade_member :: "sub_env \<Rightarrow> assignment \<Rightarrow> nat \<Rightarrow> nat \<Rightarrow> rat \<Rightarrow> string \<Rightarrow> instant \<Rightarrow> sub_store \<Rightarrow> nat \<Rightarrow> sub_store" where
  "grade_member env a tenantScope grader entered given gradedAt db uid =
     (case FindByAssignmentAndUser db (asg_ID a) uid tenantScope of
        Some r \<Rightarrow>
          (let r' = applyGradeGiven env db a r entered given grader gradedAt
           in fireIfPosted (saved_grade (submission_Update db r') a r' grader (sub_Grade r) (sub_Score r)) r')
      | None \<Rightarrow>
          (case submission_Create db (applyGradeGiven env db a (blank_submission (asg_ID a) uid []) entered given grader gradedAt) of
             None \<Rightarrow> db
           | Some (r', db1) \<Rightarrow> fireIfPosted (logGradeChange db1 a r' grader None None) r'))"

definition gradeGroupMembers :: "sub_env \<Rightarrow> sub_store \<Rightarrow> assignment \<Rightarrow> nat \<Rightarrow> nat \<Rightarrow> rat \<Rightarrow> string \<Rightarrow> instant \<Rightarrow> sub_store" where
  "gradeGroupMembers env db a uid grader entered given gradedAt =
     (let tenantScope = (case find (\<lambda>c. co_ID c = asg_CourseID a) (sx_Courses db) of Some c \<Rightarrow> co_AccountID c | None \<Rightarrow> 0)
      in foldl (grade_member env a tenantScope grader entered given gradedAt) db (getGroupMemberIDs db uid (group_category a)))"

definition clear_member :: "assignment \<Rightarrow> nat \<Rightarrow> nat \<Rightarrow> sub_store \<Rightarrow> nat \<Rightarrow> sub_store" where
  "clear_member a account grader db uid =
     (case FindByAssignmentAndUser db (asg_ID a) uid account of
        None \<Rightarrow> db
      | Some r \<Rightarrow>
          (if sub_Score r = None \<and> sub_Grade r = None then db
           else let r' = clearGrade r grader
                in logGradeChange (submission_Update db r') a r' grader (sub_Grade r) (sub_Score r)))"

section \<open>Writing a grade\<close>

definition clear_loaded :: "sub_store \<Rightarrow> assignment \<Rightarrow> nat \<Rightarrow> nat \<Rightarrow> nat \<Rightarrow> sub_result" where
  "clear_loaded db a uid grader account =
     (case FindByAssignmentAndUser db (asg_ID a) uid account of
        None \<Rightarrow> (Inr (blank_submission (asg_ID a) uid ''unsubmitted''), db)
      | Some r \<Rightarrow>
          (let r' = clearGrade r grader;
               db1 = logGradeChange (submission_Update db r') a r' grader (sub_Grade r) (sub_Score r)
           in (Inr r', if GradesGroupTogether a
                       then foldl (clear_member a account grader) db1 (getGroupMemberIDs db1 uid (group_category a)) else db1)))"

definition write_loaded :: "sub_env \<Rightarrow> instant \<Rightarrow> sub_store \<Rightarrow> assignment \<Rightarrow> nat \<Rightarrow> nat \<Rightarrow> nat \<Rightarrow> rat \<Rightarrow> string \<Rightarrow> sub_result" where
  "write_loaded env now db a uid grader account entered given =
     (let existing = FindByAssignmentAndUser db (asg_ID a) uid account;
          row = (case existing of Some r \<Rightarrow> r | None \<Rightarrow> blank_submission (asg_ID a) uid []);
          row' = applyGradeGiven env db a row entered given grader now
      in case save_submission (existing = None) db row' of
           None \<Rightarrow> (Inl StoreFailed, db)
         | Some (r, db1) \<Rightarrow>
             (let db2 = saved_grade db1 a r grader (sub_Grade row) (sub_Score row);
                  db3 = (if GradesGroupTogether a then gradeGroupMembers env db2 a uid grader entered given now else db2)
              in (Inr r, fireIfPosted db3 r)))"

definition gradeLoaded :: "sub_env \<Rightarrow> instant \<Rightarrow> sub_store \<Rightarrow> assignment \<Rightarrow> nat \<Rightarrow> nat \<Rightarrow> nat \<Rightarrow> bool \<Rightarrow> rat \<Rightarrow> string \<Rightarrow> sub_result" where
  "gradeLoaded env now db a uid grader account clearing entered given =
     (if clearing then clear_loaded db a uid grader account else write_loaded env now db a uid grader account entered given)"

definition PublishModeratedGrade :: "sub_env \<Rightarrow> instant \<Rightarrow> sub_store \<Rightarrow> assignment \<Rightarrow> nat \<Rightarrow> nat \<Rightarrow> nat \<Rightarrow> rat \<Rightarrow> string \<Rightarrow> sub_result" where
  "PublishModeratedGrade env now db a uid grader account score given = gradeLoaded env now db a uid grader account False score given"

section \<open>The gates\<close>

text \<open>The assignment in the caller's tenant, and the moderation gate.\<close>

definition load_gradable :: "sub_store \<Rightarrow> nat \<Rightarrow> nat \<Rightarrow> sub_error + assignment" where
  "load_gradable db aid account =
     (case assignment_FindByID db aid account of
        None \<Rightarrow> Inl GradeCrossTenant
      | Some a \<Rightarrow> if GradesPublished a then Inr a else Inl ModerationInProgress)"

definition excused_row :: "assignment \<Rightarrow> submission \<Rightarrow> nat \<Rightarrow> instant \<Rightarrow> submission" where
  "excused_row a s grader now =
     posted a now
       (s\<lparr>sub_Excused := True, sub_GraderID := Some grader, sub_GradedAt := Some now, sub_Score := None, sub_Grade := None,
          sub_EnteredScore := None, sub_EnteredGrade := None, sub_PointsDeducted := None, sub_LatePolicyStatus := None,
          sub_SecondsLateOverride := None, sub_Late := False, sub_Missing := False, sub_WorkflowState := ''graded''\<rparr>)"

definition unexcused_row :: "instant \<Rightarrow> sub_store \<Rightarrow> assignment \<Rightarrow> submission \<Rightarrow> nat \<Rightarrow> submission" where
  "unexcused_row now db a s0 grader =
     (let s = s0\<lparr>sub_Excused := False, sub_GraderID := Some grader, sub_GradedAt := Some now\<rparr>
      in if sub_Score s \<noteq> None then s
         else let due = EffectiveDueAt now (sx_Dates db) a (sub_UserID s);
                  s = s\<lparr>sub_WorkflowState := handed_in_state s, sub_CachedDueDate := due\<rparr>;
                  t = ComputeTardiness a s due now
              in s\<lparr>sub_Late := td_Late t, sub_Missing := td_Missing t\<rparr>)"

definition excuse_loaded :: "instant \<Rightarrow> sub_store \<Rightarrow> assignment \<Rightarrow> nat \<Rightarrow> nat \<Rightarrow> nat \<Rightarrow> bool \<Rightarrow> sub_result" where
  "excuse_loaded now db a uid grader account excused =
     (let existing = FindByAssignmentAndUser db (asg_ID a) uid account
      in if existing = None \<and> \<not> excused then (Inl SubmissionNotFound, db)
         else let row = (case existing of Some r \<Rightarrow> r | None \<Rightarrow> blank_submission (asg_ID a) uid ''unsubmitted'');
                  row' = (if excused then excused_row a row grader now else unexcused_row now db a row grader)
              in case save_submission (existing = None) db row' of
                   None \<Rightarrow> (Inl StoreFailed, db)
                 | Some (r, db1) \<Rightarrow> (Inr r, logGradeChange db1 a r grader (sub_Grade row) (sub_Score row)))"

definition SetExcused :: "instant \<Rightarrow> sub_store \<Rightarrow> nat \<Rightarrow> nat \<Rightarrow> nat \<Rightarrow> nat \<Rightarrow> bool \<Rightarrow> sub_result" where
  "SetExcused now db aid uid grader account excused =
     (case load_gradable db aid account of
        Inl e \<Rightarrow> (Inl e, db)
      | Inr a \<Rightarrow>
          (case closed_period now db a uid of
             Some t \<Rightarrow> (Inl (PeriodClosed t), db)
           | None \<Rightarrow> excuse_loaded now db a uid grader account excused))"

definition types_excused :: "text_ops \<Rightarrow> string \<Rightarrow> bool" where
  "types_excused tx g = (tx_EqualFold tx g ''EX'' \<or> tx_EqualFold tx g ''excused'')"

definition Grade :: "sub_env \<Rightarrow> instant \<Rightarrow> sub_store \<Rightarrow> nat \<Rightarrow> nat \<Rightarrow> nat \<Rightarrow> nat \<Rightarrow> string \<Rightarrow> sub_result" where
  "Grade env now db aid uid grader account typed =
     (let g = TrimSpace typed
      in case load_gradable db aid account of
           Inl e \<Rightarrow> (Inl e, db)
         | Inr a \<Rightarrow>
             (if types_excused (se_text env) g then SetExcused now db aid uid grader account True
              else case (if g = [] then Inr 0 else InterpretGrade (se_text env) a (Some (resolveScheme env db a)) g) of
                  Inl e \<Rightarrow> (Inl (GradeRefused e), db)
                | Inr entered \<Rightarrow>
                    (case closed_period now db a uid of
                       Some t \<Rightarrow> (Inl (PeriodClosed t), db)
                     | None \<Rightarrow> gradeLoaded env now db a uid grader account (g = []) entered g)))"

definition GradeScore :: "sub_env \<Rightarrow> instant \<Rightarrow> sub_store \<Rightarrow> nat \<Rightarrow> nat \<Rightarrow> nat \<Rightarrow> nat \<Rightarrow> rat \<Rightarrow> sub_result" where
  "GradeScore env now db aid uid grader account points =
     (case load_gradable db aid account of
        Inl e \<Rightarrow> (Inl e, db)
      | Inr a \<Rightarrow>
          (if asg_GradingType a = ''not_graded'' then (Inl (GradeRefused NotGradable), db)
           else case closed_period now db a uid of
               Some t \<Rightarrow> (Inl (PeriodClosed t), db)
             | None \<Rightarrow>
                 (let prev = FindByAssignmentAndUser db aid uid account;
                      oldGrade = Option.bind prev sub_Grade; oldScore = Option.bind prev sub_Score;
                      wasPosted = (Option.bind prev sub_PostedAt \<noteq> None)
                  in case gradeLoaded env now db a uid grader account False (round6 points) [] of
                       (Inl e, db1) \<Rightarrow> (Inl e, db1)
                     | (Inr r, db1) \<Rightarrow> (Inr r, notifyGradeChange db1 r oldGrade oldScore wasPosted))))"

section \<open>Late status\<close>

definition missing_row :: "sub_env \<Rightarrow> sub_store \<Rightarrow> assignment \<Rightarrow> submission \<Rightarrow> rat \<Rightarrow> instant \<Rightarrow> submission" where
  "missing_row env db a s points now =
     (let grade = FormatGrade (se_text env) a (Some (resolveScheme env db a)) points []
      in posted a now
           (s\<lparr>sub_Score := Some points, sub_EnteredScore := Some points, sub_Grade := Some grade, sub_EnteredGrade := Some grade,
              sub_PointsDeducted := None, sub_WorkflowState := ''graded'', sub_GradedAt := Some now\<rparr>))"

definition applyMissingPolicy :: "sub_env \<Rightarrow> sub_store \<Rightarrow> assignment \<Rightarrow> submission \<Rightarrow> instant \<Rightarrow> submission" where
  "applyMissingPolicy env db a s now =
     (if sub_Score s \<noteq> None \<or> sub_Excused s then s
      else case MissingPoints (policy_of db (asg_CourseID a)) a of None \<Rightarrow> s | Some points \<Rightarrow> missing_row env db a s points now)"

definition with_status :: "submission \<Rightarrow> string \<Rightarrow> int option \<Rightarrow> submission" where
  "with_status s status secondsLate =
     (let s = (if status = [] then s\<lparr>sub_LatePolicyStatus := None\<rparr> else s\<lparr>sub_LatePolicyStatus := Some status, sub_Excused := False\<rparr>)
      in s\<lparr>sub_SecondsLateOverride := (if status = ''late'' then (case secondsLate of Some n \<Rightarrow> if n > 0 then Some n else None | None \<Rightarrow> None)
           else None)\<rparr>)"

definition status_row :: "sub_env \<Rightarrow> instant \<Rightarrow> sub_store \<Rightarrow> assignment \<Rightarrow> submission \<Rightarrow> nat \<Rightarrow> string \<Rightarrow> int option \<Rightarrow> submission" where
  "status_row env now db a s0 grader status secondsLate =
     (let due = EffectiveDueAt now (sx_Dates db) a (sub_UserID s0);
          s1 = (with_status s0 status secondsLate)\<lparr>sub_CachedDueDate := due\<rparr>;
          t = ComputeTardiness a s1 due now;
          s = s1\<lparr>sub_Late := td_Late t, sub_Missing := td_Missing t\<rparr>
      in case sub_EnteredScore s of
           Some entered \<Rightarrow>
             (applyGradeGiven env db a s entered (text_or_empty (sub_EnteredGrade s)) grader now)
               \<lparr>sub_Late := td_Late t, sub_Missing := td_Missing t\<rparr>
         | None \<Rightarrow> if td_Missing t \<and> sub_Score s = None then applyMissingPolicy env db a s now else s)"

definition status_loaded ::
  "sub_env \<Rightarrow> instant \<Rightarrow> sub_store \<Rightarrow> assignment \<Rightarrow> nat \<Rightarrow> nat \<Rightarrow> nat \<Rightarrow> string \<Rightarrow> int option \<Rightarrow> sub_result" where
  "status_loaded env now db a uid grader account status secondsLate =
     (let existing = FindByAssignmentAndUser db (asg_ID a) uid account;
          row = (case existing of Some r \<Rightarrow> r | None \<Rightarrow> blank_submission (asg_ID a) uid ''unsubmitted'')
      in case save_submission (existing = None) db (status_row env now db a row grader status secondsLate) of
           None \<Rightarrow> (Inl StoreFailed, db)
         | Some (r, db1) \<Rightarrow>
             (Inr r, if sub_Score r \<noteq> None \<and> sub_Score r \<noteq> sub_Score row
                     then fireIfPosted (logGradeChange db1 a r grader (sub_Grade row) (sub_Score row)) r else db1))"

definition SetLatePolicyStatus ::
  "sub_env \<Rightarrow> instant \<Rightarrow> sub_store \<Rightarrow> nat \<Rightarrow> nat \<Rightarrow> nat \<Rightarrow> nat \<Rightarrow> string \<Rightarrow> int option \<Rightarrow> sub_result" where
  "SetLatePolicyStatus env now db aid uid grader account status secondsLate =
     (if status \<noteq> [] \<and> \<not> ValidLatePolicyStatus status then (Inl InvalidLateStatus, db)
      else case load_gradable db aid account of
          Inl e \<Rightarrow> (Inl e, db)
        | Inr a \<Rightarrow>
            (case closed_period now db a uid of
               Some t \<Rightarrow> (Inl (PeriodClosed t), db)
             | None \<Rightarrow> status_loaded env now db a uid grader account status secondsLate))"

section \<open>Posting\<close>

definition MarkPosted :: "instant \<Rightarrow> sub_store \<Rightarrow> submission \<Rightarrow> sub_store" where
  "MarkPosted now db s = (if sub_PostedAt s \<noteq> None then db else submission_Update db (s\<lparr>sub_PostedAt := Some now\<rparr>))"

definition post_row :: "instant option \<Rightarrow> submission \<Rightarrow> submission" where
  "post_row postedAt s =
     (case postedAt of
        None \<Rightarrow> s\<lparr>sub_PostedAt := None\<rparr>
      | Some t \<Rightarrow> if sub_PostedAt s = None \<and> (sub_Score s \<noteq> None \<or> sub_Excused s) then s\<lparr>sub_PostedAt := Some t\<rparr> else s)"

definition PostGradesByAssignment :: "sub_store \<Rightarrow> nat \<Rightarrow> instant option \<Rightarrow> sub_store" where
  "PostGradesByAssignment db aid postedAt =
     db\<lparr>sx_Submissions := map (\<lambda>s. if sub_AssignmentID s = aid then post_row postedAt s else s) (sx_Submissions db)\<rparr>"

definition FirePosted :: "sub_store \<Rightarrow> nat list \<Rightarrow> sub_store" where
  "FirePosted db ids = foldl fireOnGraded db ids"

text \<open>
  The post and hide actions of the submissions handler without a grading-policy service: the rows a
  post releases are read before it and fired after it.
\<close>

definition newly_posted :: "sub_store \<Rightarrow> nat \<Rightarrow> submission list" where
  "newly_posted db aid =
     filter (\<lambda>s. sub_PostedAt s = None \<and> (sub_Score s \<noteq> None \<or> sub_Excused s))
       (take 10000 (sort_stable_by sub_ID (filter (\<lambda>s. sub_AssignmentID s = aid) (sx_Submissions db))))"

definition PostGrades :: "instant \<Rightarrow> sub_store \<Rightarrow> assignment \<Rightarrow> (sub_error + unit) \<times> sub_store" where
  "PostGrades now db a =
     (if \<not> GradesPublished a then (Inl ModerationInProgress, db)
      else (Inr (), FirePosted (PostGradesByAssignment db (asg_ID a) (Some now)) (map sub_ID (newly_posted db (asg_ID a)))))"

definition HideGrades :: "sub_store \<Rightarrow> assignment \<Rightarrow> sub_store" where
  "HideGrades db a =
     (let db1 = (if UsesManualPostPolicy a then db
        else db\<lparr>sx_Assignments := map (\<lambda>x. if asg_ID x = asg_ID a then a\<lparr>asg_PostPolicy := ''manual''\<rparr> else x) (sx_Assignments db)\<rparr>)
      in PostGradesByAssignment db1 (asg_ID a) None)"

end
