(* ===== verification/Submission_Steps.thy ===== *)
theory Submission_Steps imports Submission_Grading begin

text \<open>
  What the operations of the submission service do to its tables: the consistency of the rows and of
  their scores is kept, a refused operation leaves the store as it was, and grading reaches only the
  rows it is meant to reach.
\<close>

section \<open>Tables an operation leaves alone\<close>

named_theorems sub_frame

lemma sx_recordAttempt [sub_frame]:
  "sx_Submissions (recordAttempt db s) = sx_Submissions db" "sx_NextID (recordAttempt db s) = sx_NextID db"
  "sx_Policies (recordAttempt db s) = sx_Policies db" "sx_Fired (recordAttempt db s) = sx_Fired db"
  "sx_Dates (recordAttempt db s) = sx_Dates db" "sx_Courses (recordAttempt db s) = sx_Courses db"
  "sx_Assignments (recordAttempt db s) = sx_Assignments db"
  by (simp_all add: recordAttempt_def)

lemma sx_recordAttemptGrade [sub_frame]:
  "sx_Submissions (recordAttemptGrade db s) = sx_Submissions db" "sx_NextID (recordAttemptGrade db s) = sx_NextID db"
  "sx_Policies (recordAttemptGrade db s) = sx_Policies db" "sx_Fired (recordAttemptGrade db s) = sx_Fired db"
  "sx_Dates (recordAttemptGrade db s) = sx_Dates db" "sx_Courses (recordAttemptGrade db s) = sx_Courses db"
  "sx_Assignments (recordAttemptGrade db s) = sx_Assignments db"
  by (simp_all add: recordAttemptGrade_def)

lemma sx_logGradeChange [sub_frame]:
  "sx_Submissions (logGradeChange db a s g og os) = sx_Submissions db" "sx_NextID (logGradeChange db a s g og os) = sx_NextID db"
  "sx_Policies (logGradeChange db a s g og os) = sx_Policies db" "sx_Fired (logGradeChange db a s g og os) = sx_Fired db"
  "sx_Dates (logGradeChange db a s g og os) = sx_Dates db" "sx_Courses (logGradeChange db a s g og os) = sx_Courses db"
  "sx_Assignments (logGradeChange db a s g og os) = sx_Assignments db"
  by (simp_all add: logGradeChange_def)

lemma sx_fireIfPosted [sub_frame]:
  "sx_Submissions (fireIfPosted db s) = sx_Submissions db" "sx_NextID (fireIfPosted db s) = sx_NextID db"
  "sx_Policies (fireIfPosted db s) = sx_Policies db" "sx_Dates (fireIfPosted db s) = sx_Dates db"
  "sx_Courses (fireIfPosted db s) = sx_Courses db" "sx_Assignments (fireIfPosted db s) = sx_Assignments db"
  by (simp_all add: fireIfPosted_def fireOnGraded_def)

lemma sx_notifyGradeChange [sub_frame]:
  "sx_Submissions (notifyGradeChange db s og os w) = sx_Submissions db" "sx_NextID (notifyGradeChange db s og os w) = sx_NextID db"
  "sx_Policies (notifyGradeChange db s og os w) = sx_Policies db" "sx_Fired (notifyGradeChange db s og os w) = sx_Fired db"
  by (simp_all add: notifyGradeChange_def)

lemma sx_saved_grade [sub_frame]:
  "sx_Submissions (saved_grade db a s g og os) = sx_Submissions db" "sx_NextID (saved_grade db a s g og os) = sx_NextID db"
  "sx_Policies (saved_grade db a s g og os) = sx_Policies db" "sx_Fired (saved_grade db a s g og os) = sx_Fired db"
  "sx_Dates (saved_grade db a s g og os) = sx_Dates db" "sx_Courses (saved_grade db a s g og os) = sx_Courses db"
  "sx_Assignments (saved_grade db a s g og os) = sx_Assignments db"
  by (simp_all add: saved_grade_def sub_frame)

lemma sx_submission_Update [sub_frame]:
  "sx_NextID (submission_Update db s) = sx_NextID db" "sx_Policies (submission_Update db s) = sx_Policies db"
  "sx_Fired (submission_Update db s) = sx_Fired db" "sx_Dates (submission_Update db s) = sx_Dates db"
  "sx_Courses (submission_Update db s) = sx_Courses db" "sx_Assignments (submission_Update db s) = sx_Assignments db"
  by (simp_all add: submission_Update_def)

lemma rows_Update: "sx_Submissions (submission_Update db s) = map (\<lambda>r. if sub_ID r = sub_ID s then s else r) (sx_Submissions db)"
  by (simp add: submission_Update_def)

section \<open>Consistent rows\<close>

definition row_key :: "submission \<Rightarrow> nat \<times> nat" where
  "row_key s = (sub_AssignmentID s, sub_UserID s)"

text \<open>
  The scores of a row explain each other: without an entered score there is neither a score nor a
  deduction; a recorded deduction is positive and the final score is the entered score less it;
  without a recorded deduction the final score is at least the entered score, and it is the entered
  score when the policies are fair. \<open>fair\<close> says whether the late policies of the store are known to
  take points off only: \<open>LatePolicyService.Create\<close> and \<open>Update\<close> store a negative deduction as well,
  and one raises the score without being recorded. Every claim below holds for both values.
\<close>

fun explained :: "bool \<Rightarrow> rat option \<Rightarrow> rat option \<Rightarrow> rat option \<Rightarrow> bool" where
  "explained fair None deducted score = (deducted = None \<and> score = None)"
| "explained fair (Some entered) (Some d) score = (0 < d \<and> score = Some (fsub entered d))"
| "explained fair (Some entered) None None = False"
| "explained fair (Some entered) None (Some v) = (f64 entered \<le> v \<and> (fair \<longrightarrow> v = f64 entered))"

definition grade_ok :: "bool \<Rightarrow> submission \<Rightarrow> bool" where
  "grade_ok fair s =
     (explained fair (sub_EnteredScore s) (sub_PointsDeducted s) (sub_Score s) \<and>
      (sub_Score s = None \<longleftrightarrow> sub_Grade s = None) \<and> (sub_Excused s \<longrightarrow> sub_EnteredScore s = None))"

definition policies_ok :: "bool \<Rightarrow> late_policy list \<Rightarrow> bool" where
  "policies_ok fair ps = (fair \<longrightarrow> list_all (\<lambda>p. 0 \<le> lp_LateSubmissionDeduction p) ps)"

definition store_ok :: "bool \<Rightarrow> sub_store \<Rightarrow> bool" where
  "store_ok fair db =
     (distinct (map sub_ID (sx_Submissions db)) \<and> distinct (map row_key (sx_Submissions db)) \<and>
      list_all (\<lambda>s. 0 < sub_ID s \<and> sub_ID s < sx_NextID db \<and> grade_ok fair s) (sx_Submissions db) \<and>
      0 < sx_NextID db \<and> policies_ok fair (sx_Policies db))"

text \<open>What holds of fair policies holds of any.\<close>

lemma explained_any: "explained fair e d v \<Longrightarrow> explained False e d v"
  by (induction fair e d v rule: explained.induct) auto

lemma store_ok_any: "store_ok fair db \<Longrightarrow> store_ok False db"
  by (auto simp: store_ok_def grade_ok_def policies_ok_def list_all_iff explained_any)

text \<open>Two versions of one row.\<close>

definition same_row :: "submission \<Rightarrow> submission \<Rightarrow> bool" where
  "same_row r s = (sub_ID r = sub_ID s \<and> row_key r = row_key s)"

lemma store_ok_cong:
  "sx_Submissions db' = sx_Submissions db \<Longrightarrow> sx_NextID db' = sx_NextID db \<Longrightarrow> sx_Policies db' = sx_Policies db \<Longrightarrow>
   store_ok fair db' = store_ok fair db"
  by (simp add: store_ok_def)

lemma store_ok_side [sub_frame]:
  "store_ok fair (recordAttempt db s) = store_ok fair db" "store_ok fair (recordAttemptGrade db s) = store_ok fair db"
  "store_ok fair (logGradeChange db a s g og os) = store_ok fair db" "store_ok fair (fireIfPosted db s) = store_ok fair db"
  "store_ok fair (notifyGradeChange db s og os w) = store_ok fair db" "store_ok fair (saved_grade db a s g og os) = store_ok fair db"
  by (rule store_ok_cong; simp add: sub_frame)+

lemma FindBy_Some:
  assumes "FindByAssignmentAndUser db aid uid acc = Some r"
  shows "r \<in> set (sx_Submissions db)" "row_key r = (aid, uid)"
  using assms by (auto simp: FindByAssignmentAndUser_def find_Some_iff row_key_def) (metis nth_mem set_sort length_sort)+

lemma map_key_update:
  "r \<in> set xs \<Longrightarrow> distinct (map sub_ID xs) \<Longrightarrow> same_row r s \<Longrightarrow>
   map row_key (map (\<lambda>x. if sub_ID x = sub_ID s then s else x) xs) = map row_key xs"
  by (auto simp: same_row_def inj_on_def distinct_map intro!: map_cong)

lemma store_ok_update:
  assumes "store_ok fair db" "r \<in> set (sx_Submissions db)" "same_row r s" "grade_ok fair s"
  shows "store_ok fair (submission_Update db s)"
proof -
  let ?rows = "map (\<lambda>x. if sub_ID x = sub_ID s then s else x) (sx_Submissions db)"
  have "map sub_ID ?rows = map sub_ID (sx_Submissions db)" by simp
  moreover have "map row_key ?rows = map row_key (sx_Submissions db)"
    by (rule map_key_update[OF assms(2) _ assms(3)]) (use assms(1) in \<open>simp add: store_ok_def\<close>)
  moreover have "list_all (\<lambda>x. 0 < sub_ID x \<and> sub_ID x < sx_NextID db \<and> grade_ok fair x) ?rows"
    using assms by (auto simp: store_ok_def list_all_iff same_row_def)
  ultimately show ?thesis
    using assms(1) by (simp only: store_ok_def rows_Update sx_submission_Update simp_thms)
qed

lemma grade_ok_new_id [simp]: "grade_ok fair (s\<lparr>sub_ID := i\<rparr>) = grade_ok fair s"
  by (simp add: grade_ok_def)

lemma store_ok_create:
  assumes "store_ok fair db" "grade_ok fair s" "submission_Create db s = Some (r, db')"
  shows "store_ok fair db'" "r = s\<lparr>sub_ID := sx_NextID db\<rparr>" "sx_Submissions db' = sx_Submissions db @ [r]"
proof -
  show r: "r = s\<lparr>sub_ID := sx_NextID db\<rparr>" and rows: "sx_Submissions db' = sx_Submissions db @ [r]"
    using assms(3) by (auto simp: submission_Create_def Let_def split: if_splits)
  have "grade_ok fair r" using assms(2) by (simp only: r grade_ok_new_id)
  with assms r rows show "store_ok fair db'"
    by (auto simp: store_ok_def submission_Create_def row_key_def list_ex_iff list_all_iff Let_def split: if_splits)
qed

section \<open>The rows the operations write\<close>

lemma posted_frame [simp]:
  "grade_ok fair (posted a now s) = grade_ok fair s" "same_row r (posted a now s) = same_row r s" "row_key (posted a now s) = row_key s"
  "sub_ID (posted a now s) = sub_ID s"
  by (simp_all add: posted_def grade_ok_def same_row_def row_key_def)

lemma late_deduction_nonneg: "policies_ok fair (sx_Policies db) \<Longrightarrow> fair \<Longrightarrow> 0 \<le> late_deduction now db a s entered"
  unfolding late_deduction_def latePointsDeducted_def policy_of_def
  by (auto simp: find_Some_iff policies_ok_def list_all_length split: option.splits intro!: LatePointsDeducted_nonneg)

lemma explained_by_deduction:
  assumes "fair \<Longrightarrow> 0 \<le> d"
  shows "explained fair (Some e) (if 0 < d then Some d else None) (Some (fsub e d))"
  using assms by (auto simp: fsub_def f64_mono)

lemma graded_row_ok: "(fair \<Longrightarrow> 0 \<le> d) \<Longrightarrow> grade_ok fair (graded_row a s e d eg fg g now)"
  using explained_by_deduction[of fair d e] by (simp add: grade_ok_def graded_row_def posted_def)

lemma graded_row_same [simp]: "same_row r (graded_row a s e d eg fg g now) = same_row r s" "row_key (graded_row a s e d eg fg g now) = row_key s"
  by (simp_all add: graded_row_def same_row_def row_key_def posted_def)

lemma applyGradeGiven_ok: "policies_ok fair (sx_Policies db) \<Longrightarrow> grade_ok fair (applyGradeGiven env db a s e given g now)"
  by (simp add: applyGradeGiven_def Let_def graded_row_ok late_deduction_nonneg)

lemma applyGradeGiven_same [simp]:
  "same_row r (applyGradeGiven env db a s e given g now) = same_row r s"
  "row_key (applyGradeGiven env db a s e given g now) = row_key s"
  by (simp_all add: applyGradeGiven_def Let_def)

lemma clearGrade_ok [simp]: "grade_ok fair (clearGrade s g)" "same_row r (clearGrade s g) = same_row r s"
  by (simp_all add: clearGrade_def grade_ok_def same_row_def row_key_def)

lemma excused_row_ok [simp]: "grade_ok fair (excused_row a s g now)" "same_row r (excused_row a s g now) = same_row r s"
  "row_key (excused_row a s g now) = row_key s"
  by (simp_all add: excused_row_def grade_ok_def same_row_def row_key_def posted_def)

lemma unexcused_row_frame:
  "sub_Score (unexcused_row now db a s g) = sub_Score s" "sub_Grade (unexcused_row now db a s g) = sub_Grade s"
  "sub_EnteredScore (unexcused_row now db a s g) = sub_EnteredScore s"
  "sub_PointsDeducted (unexcused_row now db a s g) = sub_PointsDeducted s" "sub_Excused (unexcused_row now db a s g) = False"
  "sub_ID (unexcused_row now db a s g) = sub_ID s" "row_key (unexcused_row now db a s g) = row_key s"
  by (simp_all add: unexcused_row_def Let_def row_key_def)

lemma unexcused_row_ok [simp]: "grade_ok fair s \<Longrightarrow> grade_ok fair (unexcused_row now db a s g)" "same_row r (unexcused_row now db a s g) = same_row r s"
  by (auto simp: grade_ok_def same_row_def unexcused_row_frame)

lemma missing_row_ok: "f64 points = points \<Longrightarrow> \<not> sub_Excused s \<Longrightarrow> grade_ok fair (missing_row env db a s points now)"
  unfolding missing_row_def Let_def posted_frame by (simp add: grade_ok_def fsub_def)

lemma MissingPoints_f64: "MissingPoints p a = Some points \<Longrightarrow> f64 points = points"
  by (auto simp: MissingPoints_def fdiv_def Let_def split: option.splits if_splits)

lemma applyMissingPolicy_ok: "grade_ok fair s \<Longrightarrow> grade_ok fair (applyMissingPolicy env db a s now)"
  by (auto simp: applyMissingPolicy_def intro!: missing_row_ok MissingPoints_f64 split: option.split)

lemma applyMissingPolicy_same [simp]: "same_row r (applyMissingPolicy env db a s now) = same_row r s"
  "row_key (applyMissingPolicy env db a s now) = row_key s"
  by (auto simp: applyMissingPolicy_def missing_row_def Let_def same_row_def row_key_def posted_def split: option.split)

lemma with_status_frame:
  "sub_Score (with_status s st n) = sub_Score s" "sub_Grade (with_status s st n) = sub_Grade s"
  "sub_EnteredScore (with_status s st n) = sub_EnteredScore s" "sub_PointsDeducted (with_status s st n) = sub_PointsDeducted s"
  "sub_Excused (with_status s st n) \<longrightarrow> sub_Excused s"
  "sub_ID (with_status s st n) = sub_ID s" "row_key (with_status s st n) = row_key s"
  by (simp_all add: with_status_def Let_def row_key_def)

text \<open>Fields the score does not depend on.\<close>

lemma grade_ok_flags [simp]:
  "grade_ok fair (s\<lparr>sub_Late := l\<rparr>) = grade_ok fair s" "grade_ok fair (s\<lparr>sub_Missing := m\<rparr>) = grade_ok fair s"
  "grade_ok fair (s\<lparr>sub_CachedDueDate := c\<rparr>) = grade_ok fair s" "grade_ok fair (s\<lparr>sub_PostedAt := p\<rparr>) = grade_ok fair s"
  by (simp_all add: grade_ok_def)

lemma same_row_flags [simp]:
  "same_row r (s\<lparr>sub_Late := l\<rparr>) = same_row r s" "same_row r (s\<lparr>sub_Missing := m\<rparr>) = same_row r s"
  "same_row r (s\<lparr>sub_CachedDueDate := c\<rparr>) = same_row r s" "same_row r (s\<lparr>sub_PostedAt := p\<rparr>) = same_row r s"
  by (simp_all add: same_row_def row_key_def)

lemma with_status_ok [simp]: "grade_ok fair s \<Longrightarrow> grade_ok fair (with_status s st n)" "same_row r (with_status s st n) = same_row r s"
  using with_status_frame[of s st n] by (auto simp: grade_ok_def same_row_def)

lemma status_row_same: "same_row r (status_row env now db a s g st n) = same_row r s"
  by (auto simp: status_row_def Let_def split: option.split)

lemma status_row_ok:
  assumes "policies_ok fair (sx_Policies db)" "grade_ok fair s"
  shows "grade_ok fair (status_row env now db a s g st n)" "same_row r (status_row env now db a s g st n) = same_row r s"
  using assms by (auto simp: status_row_def Let_def applyGradeGiven_ok applyMissingPolicy_ok split: option.split)

section \<open>The steps of the service\<close>

datatype sub_op =
  OpSubmit nat nat string "string option" "string option" "string option" nat nat
| OpCreate nat nat string "string option" "string option" "string option"
| OpTool assignment nat string
| OpGrade nat nat nat nat string
| OpScore nat nat nat nat rat
| OpExcuse nat nat nat nat bool
| OpStatus nat nat nat nat string "int option"
| OpPublish assignment nat nat nat rat string

fun run_op :: "sub_env \<Rightarrow> instant \<Rightarrow> sub_store \<Rightarrow> sub_op \<Rightarrow> sub_result" where
  "run_op env now db (OpSubmit aid uid t body url files cid account) = Submit env now db (student_request aid uid t body url files) cid account"
| "run_op env now db (OpCreate aid uid t body url files) = Create env now db (student_request aid uid t body url files)"
| "run_op env now db (OpTool a uid url) = RecordExternalToolSubmission env now db a uid url"
| "run_op env now db (OpGrade aid uid g account typed) = Grade env now db aid uid g account typed"
| "run_op env now db (OpScore aid uid g account points) = GradeScore env now db aid uid g account points"
| "run_op env now db (OpExcuse aid uid g account e) = SetExcused now db aid uid g account e"
| "run_op env now db (OpStatus aid uid g account st n) = SetLatePolicyStatus env now db aid uid g account st n"
| "run_op env now db (OpPublish a uid g account score given) = PublishModeratedGrade env now db a uid g account score given"

lemma next_attempt_ok [simp]: "grade_ok fair (next_attempt r s due t) = grade_ok fair r" "same_row x (next_attempt r s due t) = same_row x r"
  by (simp_all add: next_attempt_def grade_ok_def same_row_def row_key_def)

lemma markSubmitted_ok [simp]: "grade_ok fair (markSubmitted a s due t) = grade_ok fair s" "same_row x (markSubmitted a s due t) = same_row x s"
  by (simp_all add: markSubmitted_def Let_def grade_ok_def same_row_def row_key_def)

lemma blank_ok [simp]: "grade_ok fair (blank_submission aid uid st)"
  by (simp add: blank_submission_def grade_ok_def)

lemma member_attempt_ok [simp]: "grade_ok fair (member_attempt s uid due)"
  by (simp add: member_attempt_def blank_submission_def grade_ok_def)

lemma first_attempt_ok [simp]: "grade_ok fair (first_attempt s due t) = grade_ok fair s"
  by (simp add: first_attempt_def grade_ok_def)

lemma sanitized_ok [simp]: "grade_ok fair (sanitized clean s) = grade_ok fair s"
  by (auto simp: sanitized_def grade_ok_def split: option.split)

lemma same_row_refl [simp]: "same_row r r"
  by (simp add: same_row_def)

lemma store_ok_found:
  "store_ok fair db \<Longrightarrow> FindByAssignmentAndUser db aid uid acc = Some r \<Longrightarrow> grade_ok fair r"
  using FindBy_Some(1) by (fastforce simp: store_ok_def list_all_iff)

lemma store_ok_policies: "store_ok fair db \<Longrightarrow> policies_ok fair (sx_Policies db)"
  by (simp add: store_ok_def)

text \<open>Saving a row made from the one that was found, or a new one.\<close>

lemma store_ok_save:
  assumes "store_ok fair db" "save_submission (FindByAssignmentAndUser db aid uid acc = None) db s = Some (r, db1)"
    "\<And>x. FindByAssignmentAndUser db aid uid acc = Some x \<Longrightarrow> grade_ok fair x \<Longrightarrow> grade_ok fair s \<and> same_row x s"
    "FindByAssignmentAndUser db aid uid acc = None \<Longrightarrow> grade_ok fair s"
  shows "store_ok fair db1"
proof (cases "FindByAssignmentAndUser db aid uid acc")
  case None
  with assms(2) have "submission_Create db s = Some (r, db1)" by (simp add: save_submission_def)
  then show ?thesis by (rule store_ok_create(1)[OF assms(1) assms(4)[OF None]])
next
  case (Some x)
  with assms(2) have "submission_Update db s = db1" by (auto simp: save_submission_def)
  then show ?thesis
    using store_ok_update[OF assms(1) FindBy_Some(1)[OF Some]] assms(3)[OF Some store_ok_found[OF assms(1) Some]] by blast
qed

lemma foldl_invariant: "P s \<Longrightarrow> (\<And>s x. P s \<Longrightarrow> x \<in> set xs \<Longrightarrow> P (f s x)) \<Longrightarrow> P (foldl f s xs)"
  by (induction xs arbitrary: s) auto

lemma create_for_member_ok:
  assumes "store_ok fair db" shows "store_ok fair (create_for_member now a s db uid)"
proof -
  define due where "due = EffectiveDueAt now (sx_Dates db) a uid"
  define ts where "ts = (case sub_SubmittedAt s of Some t \<Rightarrow> t | None \<Rightarrow> now)"
  let ?found = "FindByAssignmentAndUser db (sub_AssignmentID s) uid 0"
  define row where "row = markSubmitted a (case ?found of Some r \<Rightarrow> next_attempt r s due (sub_SubmittedAt s)
    | None \<Rightarrow> member_attempt s uid due) due ts"
  have "store_ok fair db1" if "save_submission (?found = None) db row = Some (r, db1)" for r db1
    by (rule store_ok_save[OF assms that]) (simp_all add: row_def)
  then show ?thesis
    unfolding create_for_member_def Let_def due_def[symmetric] ts_def[symmetric] row_def[symmetric]
    using assms by (auto simp: sub_frame split: option.split)
qed

lemma createForAssignment_ok:
  assumes "store_ok fair db" "grade_ok fair s" shows "store_ok fair (snd (createForAssignment env now db a s))"
proof (cases "closed_window now db a (sub_UserID (sanitized (se_sanitize env) s))")
  case None
  define s1 where "s1 = sanitized (se_sanitize env) s"
  define due where "due = EffectiveDueAt now (sx_Dates db) a (sub_UserID s1)"
  let ?found = "FindByAssignmentAndUser db (sub_AssignmentID s1) (sub_UserID s1) 0"
  define row where "row = markSubmitted a (case ?found of Some r \<Rightarrow> next_attempt r s1 due (Some now)
    | None \<Rightarrow> first_attempt s1 due now) due now"
  have "store_ok fair db1" if "save_submission (?found = None) db row = Some (r, db1)" for r db1
    by (rule store_ok_save[OF assms(1) that]) (simp_all add: row_def s1_def assms(2))
  moreover have "store_ok fair (createGroupSubmissions now db2 a r)" if "store_ok fair db2" for db2 r
    unfolding createGroupSubmissions_def by (rule foldl_invariant[where P = "store_ok fair", OF that]) (rule create_for_member_ok)
  ultimately show ?thesis
    unfolding createForAssignment_def Let_def s1_def[symmetric] None[folded s1_def] option.case due_def[symmetric] row_def[symmetric]
    using assms(1) by (auto simp: sub_frame split: option.split)
qed (simp add: createForAssignment_def assms(1))

lemma check_content_ok: "checked_request env a s = Inr s' \<Longrightarrow> grade_ok fair s \<Longrightarrow> grade_ok fair s'"
  by (auto simp: checked_request_def check_content_def check_url_def check_upload_def check_recording_def check_annotation_def
      grade_ok_def Let_def split: if_splits option.splits)

lemma Submit_ok: "store_ok fair db \<Longrightarrow> grade_ok fair s \<Longrightarrow> store_ok fair (snd (Submit env now db s cid account))"
  by (auto simp: Submit_def submit_loaded_def createForAssignment_ok check_content_ok split: option.split sum.split)

lemma student_request_ok [simp]: "grade_ok fair (student_request aid uid t body url files)"
  by (simp add: student_request_def blank_submission_def grade_ok_def)

lemma Create_ok: "store_ok fair db \<Longrightarrow> grade_ok fair s \<Longrightarrow> store_ok fair (snd (Create env now db s))"
  by (auto simp: Create_def createForAssignment_ok split: option.split)

lemma tool_row_ok [simp]:
  "grade_ok fair ((blank_submission aid uid [])\<lparr>sub_SubmissionType := t\<rparr>)"
  "grade_ok fair ((blank_submission aid uid [])\<lparr>sub_SubmissionType := t, sub_URL := u\<rparr>)"
  by (simp_all add: blank_submission_def grade_ok_def)

lemma RecordExternalToolSubmission_ok: "store_ok fair db \<Longrightarrow> store_ok fair (snd (RecordExternalToolSubmission env now db a uid u))"
  by (auto simp: RecordExternalToolSubmission_def Let_def createForAssignment_ok split: option.split)

section \<open>Grading keeps the rows consistent\<close>

lemma write_row_ok:
  assumes "store_ok fair db"
    "row = (case FindByAssignmentAndUser db aid uid acc of Some r \<Rightarrow> r | None \<Rightarrow> blank_submission aid uid st)"
    "grade_ok fair row \<Longrightarrow> grade_ok fair row'" "\<And>x. same_row x row \<Longrightarrow> same_row x row'"
    "save_submission (FindByAssignmentAndUser db aid uid acc = None) db row' = Some (r, db1)"
  shows "store_ok fair db1"
  by (rule store_ok_save[OF assms(1,5)]) (use assms(2-4) in auto)

lemma grade_member_ok:
  assumes "store_ok fair db" shows "store_ok fair (grade_member env a scope g e given t db uid)"
proof (cases "FindByAssignmentAndUser db (asg_ID a) uid scope")
  case (Some r)
  have "store_ok fair (submission_Update db (applyGradeGiven env db a r e given g t))"
    using store_ok_update[OF assms FindBy_Some(1)[OF Some]] store_ok_policies[OF assms] by (simp add: applyGradeGiven_ok)
  then show ?thesis using Some by (simp add: grade_member_def Let_def sub_frame)
next
  case None
  let ?row = "applyGradeGiven env db a (blank_submission (asg_ID a) uid []) e given g t"
  have "store_ok fair db1" if "submission_Create db ?row = Some (r, db1)" for r db1
    by (rule store_ok_create(1)[OF assms _ that]) (simp add: applyGradeGiven_ok store_ok_policies[OF assms])
  then show ?thesis using None assms by (auto simp: grade_member_def sub_frame split: option.split)
qed

lemma gradeGroupMembers_ok: "store_ok fair db \<Longrightarrow> store_ok fair (gradeGroupMembers env db a uid g e given t)"
  unfolding gradeGroupMembers_def Let_def by (rule foldl_invariant) (simp_all add: grade_member_ok)

lemma clear_member_ok:
  assumes "store_ok fair db" shows "store_ok fair (clear_member a account g db uid)"
proof (cases "FindByAssignmentAndUser db (asg_ID a) uid account")
  case (Some r)
  then show ?thesis
    using store_ok_update[OF assms FindBy_Some(1)[OF Some], of "clearGrade r g"] assms
    by (simp add: clear_member_def Let_def sub_frame)
qed (simp add: clear_member_def assms)

lemma clear_loaded_ok:
  assumes "store_ok fair db" shows "store_ok fair (snd (clear_loaded db a uid g account))"
proof (cases "FindByAssignmentAndUser db (asg_ID a) uid account")
  case (Some r)
  have "store_ok fair (submission_Update db (clearGrade r g))"
    using store_ok_update[OF assms FindBy_Some(1)[OF Some], of "clearGrade r g"] by simp
  then show ?thesis
    using Some by (auto simp: clear_loaded_def Let_def sub_frame intro!: foldl_invariant[where P = "store_ok fair"] clear_member_ok)
qed (simp add: clear_loaded_def assms)

lemma write_loaded_ok:
  assumes "store_ok fair db" shows "store_ok fair (snd (write_loaded env now db a uid g account e given))"
proof -
  let ?found = "FindByAssignmentAndUser db (asg_ID a) uid account"
  define row where "row = (case ?found of Some r \<Rightarrow> r | None \<Rightarrow> blank_submission (asg_ID a) uid [])"
  let ?row' = "applyGradeGiven env db a row e given g now"
  have "store_ok fair db1" if "save_submission (?found = None) db ?row' = Some (r, db1)" for r db1
    by (rule write_row_ok[OF assms row_def _ _ that]) (simp_all add: applyGradeGiven_ok store_ok_policies[OF assms])
  then show ?thesis
    unfolding write_loaded_def Let_def row_def[symmetric]
    using assms by (auto simp: sub_frame gradeGroupMembers_ok split: option.split)
qed

lemma excuse_loaded_ok:
  assumes "store_ok fair db" shows "store_ok fair (snd (excuse_loaded now db a uid g account excused))"
proof -
  let ?found = "FindByAssignmentAndUser db (asg_ID a) uid account"
  define row where "row = (case ?found of Some r \<Rightarrow> r | None \<Rightarrow> blank_submission (asg_ID a) uid ''unsubmitted'')"
  let ?row' = "if excused then excused_row a row g now else unexcused_row now db a row g"
  have "store_ok fair db1" if "save_submission (?found = None) db ?row' = Some (r, db1)" for r db1
    by (rule write_row_ok[OF assms row_def _ _ that]) simp_all
  then show ?thesis
    unfolding excuse_loaded_def Let_def row_def[symmetric] using assms by (auto simp: sub_frame split: option.split)
qed

lemma status_loaded_ok:
  assumes "store_ok fair db" shows "store_ok fair (snd (status_loaded env now db a uid g account st n))"
proof -
  let ?found = "FindByAssignmentAndUser db (asg_ID a) uid account"
  define row where "row = (case ?found of Some r \<Rightarrow> r | None \<Rightarrow> blank_submission (asg_ID a) uid ''unsubmitted'')"
  have "grade_ok fair row" by (auto simp: row_def store_ok_found[OF assms] split: option.split)
  note row_ok = status_row_ok[OF store_ok_policies[OF assms] this]
  have "store_ok fair db1" if "save_submission (?found = None) db (status_row env now db a row g st n) = Some (r, db1)" for r db1
    by (rule write_row_ok[OF assms row_def _ _ that]) (simp_all add: row_ok)
  then show ?thesis
    unfolding status_loaded_def Let_def row_def[symmetric] using assms by (auto simp: sub_frame split: option.split)
qed

lemma gradeLoaded_ok: "store_ok fair db \<Longrightarrow> store_ok fair (snd (gradeLoaded env now db a uid g account c e given))"
  by (simp add: gradeLoaded_def clear_loaded_ok write_loaded_ok)

lemma SetExcused_ok: "store_ok fair db \<Longrightarrow> store_ok fair (snd (SetExcused now db aid uid g account e))"
  by (simp add: SetExcused_def excuse_loaded_ok split: option.split sum.split)

lemma Grade_ok: "store_ok fair db \<Longrightarrow> store_ok fair (snd (Grade env now db aid uid g account typed))"
  by (simp add: Grade_def Let_def SetExcused_ok gradeLoaded_ok split: option.split sum.split)

lemma GradeScore_ok: "store_ok fair db \<Longrightarrow> store_ok fair (snd (GradeScore env now db aid uid g account points))"
  using gradeLoaded_ok[of fair db env now _ uid g account False "round6 points" "[]"]
  by (auto simp: GradeScore_def Let_def sub_frame split: option.split sum.split prod.split)
    (metis snd_conv sub_frame store_ok_side(5))+

lemma SetLatePolicyStatus_ok: "store_ok fair db \<Longrightarrow> store_ok fair (snd (SetLatePolicyStatus env now db aid uid g account st n))"
  by (simp add: SetLatePolicyStatus_def status_loaded_ok split: option.split sum.split)

lemma run_op_ok: "store_ok fair db \<Longrightarrow> store_ok fair (snd (run_op env now db op))"
  by (cases op) (simp_all add: Submit_ok Create_ok RecordExternalToolSubmission_ok Grade_ok GradeScore_ok SetExcused_ok
      SetLatePolicyStatus_ok PublishModeratedGrade_def gradeLoaded_ok)

lemma store_ok_map_rows:
  assumes "store_ok fair db" "\<And>s. same_row s (f s)" "\<And>s. grade_ok fair s \<Longrightarrow> grade_ok fair (f s)"
    "sx_Submissions db' = map f (sx_Submissions db)" "sx_NextID db' = sx_NextID db" "sx_Policies db' = sx_Policies db"
  shows "store_ok fair db'"
proof -
  have "sub_ID \<circ> f = sub_ID" "row_key \<circ> f = row_key" using assms(2) by (auto simp: fun_eq_iff same_row_def)
  moreover have "sub_ID (f s) = sub_ID s" for s using assms(2)[of s] by (simp add: same_row_def)
  ultimately show ?thesis using assms(1,3) by (simp add: store_ok_def assms(4-6) list_all_iff)
qed

lemma PostGradesByAssignment_frame:
  "sx_Submissions (PostGradesByAssignment db aid p) = map (\<lambda>s. if sub_AssignmentID s = aid then post_row p s else s) (sx_Submissions db)"
  "sx_NextID (PostGradesByAssignment db aid p) = sx_NextID db" "sx_Policies (PostGradesByAssignment db aid p) = sx_Policies db"
  "sx_Fired (PostGradesByAssignment db aid p) = sx_Fired db"
  by (simp_all add: PostGradesByAssignment_def)

lemma post_row_ok [simp]: "same_row r (post_row p s) = same_row r s" "grade_ok fair (post_row p s) = grade_ok fair s"
  by (auto simp: post_row_def split: option.split)

lemma PostGradesByAssignment_ok: "store_ok fair db \<Longrightarrow> store_ok fair (PostGradesByAssignment db aid p)"
  by (rule store_ok_map_rows[OF _ _ _ PostGradesByAssignment_frame(1-3)]) auto

lemma FirePosted_frame:
  "sx_Submissions (FirePosted db ids) = sx_Submissions db" "sx_NextID (FirePosted db ids) = sx_NextID db"
  "sx_Policies (FirePosted db ids) = sx_Policies db"
  "sx_Fired (FirePosted db ids) = sx_Fired db @ filter (\<lambda>i. i \<noteq> 0) ids"
  by (induction ids arbitrary: db) (simp_all add: FirePosted_def fireOnGraded_def)

lemma PostGrades_ok: "store_ok fair db \<Longrightarrow> store_ok fair (snd (PostGrades now db a))"
  using store_ok_cong[OF FirePosted_frame(1-3)] by (simp add: PostGrades_def PostGradesByAssignment_ok)

lemma HideGrades_ok: "store_ok fair db \<Longrightarrow> store_ok fair (HideGrades db a)"
  unfolding HideGrades_def Let_def
  by (intro PostGradesByAssignment_ok) (simp add: store_ok_def)

lemma MarkPosted_ok: "store_ok fair db \<Longrightarrow> r \<in> set (sx_Submissions db) \<Longrightarrow> store_ok fair (MarkPosted now db r)"
  using store_ok_update[of fair db r "r\<lparr>sub_PostedAt := Some now\<rparr>"]
  by (auto simp: MarkPosted_def store_ok_def list_all_iff)

section \<open>A refused operation\<close>

lemma createForAssignment_refused: "fst (createForAssignment env now db a s) = Inl e \<Longrightarrow> snd (createForAssignment env now db a s) = db"
  by (auto simp: createForAssignment_def Let_def split: option.splits)

lemma Submit_refused: "fst (Submit env now db s cid account) = Inl e \<Longrightarrow> snd (Submit env now db s cid account) = db"
  by (auto simp: Submit_def submit_loaded_def intro: createForAssignment_refused split: option.splits sum.splits if_splits)

lemma Create_refused: "fst (Create env now db s) = Inl e \<Longrightarrow> snd (Create env now db s) = db"
  by (auto simp: Create_def intro: createForAssignment_refused split: option.splits if_splits)

lemma tool_refused:
  "fst (RecordExternalToolSubmission env now db a uid u) = Inl e \<Longrightarrow> snd (RecordExternalToolSubmission env now db a uid u) = db"
  by (auto simp: RecordExternalToolSubmission_def Let_def intro: createForAssignment_refused split: option.splits sum.splits if_splits)

lemma gradeLoaded_refused:
  "fst (gradeLoaded env now db a uid g account c e given) = Inl x \<Longrightarrow> snd (gradeLoaded env now db a uid g account c e given) = db"
  by (auto simp: gradeLoaded_def clear_loaded_def write_loaded_def Let_def split: option.splits if_splits)

lemma SetExcused_refused:
  "fst (SetExcused now db aid uid g account e) = Inl x \<Longrightarrow> snd (SetExcused now db aid uid g account e) = db"
  by (auto simp: SetExcused_def excuse_loaded_def Let_def split: option.splits sum.splits if_splits)

lemma Grade_refused: "fst (Grade env now db aid uid g account typed) = Inl x \<Longrightarrow> snd (Grade env now db aid uid g account typed) = db"
  by (auto simp: Grade_def Let_def intro: SetExcused_refused gradeLoaded_refused split: option.splits sum.splits if_splits)

lemma GradeScore_refused: "fst (GradeScore env now db aid uid g account p) = Inl x \<Longrightarrow> snd (GradeScore env now db aid uid g account p) = db"
  using gradeLoaded_refused[of env now db _ uid g account False "round6 p" "[]"]
  by (auto simp: GradeScore_def Let_def split: option.splits sum.splits if_splits prod.splits) (metis fst_conv snd_conv)+

lemma save_case_snd:
  "P db \<Longrightarrow> (\<And>r db1. x = Some (r, db1) \<Longrightarrow> P (h r db1)) \<Longrightarrow>
   P (snd (case x of None \<Rightarrow> (Inl e, db) | Some (r, db1) \<Rightarrow> (Inr r, h r db1)))"
  by (cases x) auto

lemma save_case_refused:
  "fst (case x of None \<Rightarrow> (Inl e, db) | Some (r, db1) \<Rightarrow> (Inr r, h r db1)) = Inl y \<Longrightarrow>
   snd (case x of None \<Rightarrow> (Inl e, db) | Some (r, db1) \<Rightarrow> (Inr r, h r db1)) = db"
  by (cases x) auto

lemma status_loaded_refused:
  "fst (status_loaded env now db a uid g account st n) = Inl x \<Longrightarrow> snd (status_loaded env now db a uid g account st n) = db"
  unfolding status_loaded_def Let_def by (rule save_case_refused)

lemma SetLatePolicyStatus_refused:
  "fst (SetLatePolicyStatus env now db aid uid g account st n) = Inl x \<Longrightarrow> snd (SetLatePolicyStatus env now db aid uid g account st n) = db"
  by (cases "load_gradable db aid account"; simp only: SetLatePolicyStatus_def sum.case)
    (auto intro: status_loaded_refused split: if_splits option.splits)

section \<open>The rows a grade can reach\<close>

text \<open>
  \<open>evolves a D\<close>: every row is an old row, or a row of the assignment and of a user in \<open>D\<close> that is
  posted only if it was posted before or the assignment posts automatically.
\<close>

definition evolves :: "assignment \<Rightarrow> nat set \<Rightarrow> sub_store \<Rightarrow> sub_store \<Rightarrow> bool" where
  "evolves a D db db' =
     (\<forall>r'\<in>set (sx_Submissions db'). r' \<in> set (sx_Submissions db) \<or>
        sub_AssignmentID r' = asg_ID a \<and> sub_UserID r' \<in> D \<and>
        (UsesManualPostPolicy a \<and> sub_PostedAt r' \<noteq> None \<longrightarrow>
          (\<exists>r\<in>set (sx_Submissions db). same_row r r' \<and> sub_PostedAt r = sub_PostedAt r')))"

lemma evolves_refl [simp]: "evolves a D db db"
  by (simp add: evolves_def)

lemma evolves_mono: "evolves a D db db' \<Longrightarrow> D \<subseteq> D' \<Longrightarrow> evolves a D' db db'"
  unfolding evolves_def by blast

lemma same_row_trans: "same_row r s \<Longrightarrow> same_row s t \<Longrightarrow> same_row r t"
  by (simp add: same_row_def)

lemma evolves_trans:
  assumes "evolves a D db db'" "evolves a D db' db''" shows "evolves a D db db''"
  unfolding evolves_def
proof
  fix r'' assume r'': "r'' \<in> set (sx_Submissions db'')"
  show "r'' \<in> set (sx_Submissions db) \<or> sub_AssignmentID r'' = asg_ID a \<and> sub_UserID r'' \<in> D \<and>
    (UsesManualPostPolicy a \<and> sub_PostedAt r'' \<noteq> None \<longrightarrow> (\<exists>r\<in>set (sx_Submissions db). same_row r r'' \<and> sub_PostedAt r = sub_PostedAt r''))"
  proof (cases "r'' \<in> set (sx_Submissions db')")
    case True
    then show ?thesis using assms(1) unfolding evolves_def by blast
  next
    case False
    then have new: "sub_AssignmentID r'' = asg_ID a" "sub_UserID r'' \<in> D"
      and old: "UsesManualPostPolicy a \<and> sub_PostedAt r'' \<noteq> None \<Longrightarrow>
        \<exists>r'\<in>set (sx_Submissions db'). same_row r' r'' \<and> sub_PostedAt r' = sub_PostedAt r''"
      using assms(2) r'' unfolding evolves_def by blast+
    have "\<exists>r\<in>set (sx_Submissions db). same_row r r'' \<and> sub_PostedAt r = sub_PostedAt r''"
      if manual: "UsesManualPostPolicy a \<and> sub_PostedAt r'' \<noteq> None"
    proof -
      obtain r' where r': "r' \<in> set (sx_Submissions db')" "same_row r' r''" "sub_PostedAt r' = sub_PostedAt r''"
        using old[OF manual] by blast
      show ?thesis
      proof (cases "r' \<in> set (sx_Submissions db)")
        case True
        then show ?thesis using r' by blast
      next
        case False
        then obtain r where "r \<in> set (sx_Submissions db)" "same_row r r'" "sub_PostedAt r = sub_PostedAt r'"
          using assms(1) r' manual unfolding evolves_def by metis
        then show ?thesis using r'(2,3) same_row_trans by metis
      qed
    qed
    with new show ?thesis by blast
  qed
qed

lemma evolves_cong: "sx_Submissions db'' = sx_Submissions db' \<Longrightarrow> evolves a D db db'' = evolves a D db db'"
  by (simp add: evolves_def)

lemma evolves_side [sub_frame]:
  "evolves a D db (recordAttempt db' s) = evolves a D db db'" "evolves a D db (recordAttemptGrade db' s) = evolves a D db db'"
  "evolves a D db (logGradeChange db' b s g og os) = evolves a D db db'" "evolves a D db (fireIfPosted db' s) = evolves a D db db'"
  "evolves a D db (notifyGradeChange db' s og os w) = evolves a D db db'" "evolves a D db (saved_grade db' b s g og os) = evolves a D db db'"
  by (rule evolves_cong; simp add: sub_frame)+

text \<open>A row keeps its posting, or is posted by an assignment that posts automatically.\<close>

definition keeps_posting :: "assignment \<Rightarrow> submission \<Rightarrow> submission \<Rightarrow> bool" where
  "keeps_posting a r s = (sub_PostedAt s = sub_PostedAt r \<or> sub_PostedAt r = None \<and> \<not> UsesManualPostPolicy a)"

lemma evolves_update:
  assumes "FindByAssignmentAndUser db (asg_ID a) uid acc = Some r" "same_row r s" "keeps_posting a r s"
  shows "evolves a {uid} db (submission_Update db s)"
  using FindBy_Some[OF assms(1)] assms(2,3)
  by (auto simp: evolves_def rows_Update keeps_posting_def same_row_def row_key_def)

lemma evolves_create:
  assumes "submission_Create db s = Some (r, db')" "row_key s = (asg_ID a, uid)" "keeps_posting a (blank_submission i j w) s"
  shows "evolves a {uid} db db'"
  using assms by (auto simp: evolves_def submission_Create_def keeps_posting_def row_key_def blank_submission_def Let_def split: if_splits)

lemma evolves_save:
  assumes "save_submission (FindByAssignmentAndUser db (asg_ID a) uid acc = None) db s = Some (r, db1)"
    "row = (case FindByAssignmentAndUser db (asg_ID a) uid acc of Some x \<Rightarrow> x | None \<Rightarrow> blank_submission (asg_ID a) uid w)"
    "same_row row s" "keeps_posting a row s"
  shows "evolves a {uid} db db1"
proof (cases "FindByAssignmentAndUser db (asg_ID a) uid acc")
  case None
  have "row_key s = (asg_ID a, uid)" using assms(2,3) None by (simp add: same_row_def row_key_def blank_submission_def)
  then show ?thesis
    using evolves_create[of db s r db1 a uid] assms None by (simp add: save_submission_def)
next
  case (Some x)
  then show ?thesis
    using evolves_update[OF Some, of s] assms by (auto simp: save_submission_def)
qed

lemma keeps_posting_refl [simp]: "keeps_posting a s s"
  by (simp add: keeps_posting_def)

lemma row_key_blank [simp]: "row_key (blank_submission aid uid st) = (aid, uid)"
  by (simp add: row_key_def blank_submission_def)

lemma keeps_posting_rows [simp]:
  "keeps_posting a s (graded_row a s e d eg fg g now)" "keeps_posting a s (applyGradeGiven env db a s e given g now)"
  "keeps_posting a s (clearGrade s g)" "keeps_posting a s (excused_row a s g now)" "keeps_posting a s (unexcused_row t db a s g)"
  by (auto simp: keeps_posting_def applyGradeGiven_def graded_row_def Let_def posted_def posts_now_def clearGrade_def excused_row_def
      unexcused_row_def)

lemma keeps_posting_missing [simp]: "keeps_posting a s (applyMissingPolicy env db a s now)"
  by (auto simp: keeps_posting_def applyMissingPolicy_def missing_row_def Let_def posted_def posts_now_def split: option.split)

lemma with_status_posting: "sub_PostedAt (with_status s st n) = sub_PostedAt s"
  by (simp add: with_status_def Let_def)

lemma keeps_posting_flags:
  "keeps_posting a r (s\<lparr>sub_Late := l, sub_Missing := m\<rparr>) = keeps_posting a r s"
  "keeps_posting a (r\<lparr>sub_Late := l, sub_Missing := m\<rparr>) s = keeps_posting a r s"
  "keeps_posting a (r\<lparr>sub_CachedDueDate := c\<rparr>) s = keeps_posting a r s"
  "keeps_posting a (with_status r st n) s = keeps_posting a r s"
  by (simp_all add: keeps_posting_def with_status_posting)

lemma keeps_posting_status [simp]: "keeps_posting a s (status_row env now db a s g st n)"
proof -
  define s1 where "s1 = (with_status s st n)\<lparr>sub_CachedDueDate := EffectiveDueAt now (sx_Dates db) a (sub_UserID s)\<rparr>"
  define t where "t = ComputeTardiness a s1 (EffectiveDueAt now (sx_Dates db) a (sub_UserID s)) now"
  define s2 where "s2 = s1\<lparr>sub_Late := td_Late t, sub_Missing := td_Missing t\<rparr>"
  have "keeps_posting a s2 x = keeps_posting a s x" for x
    by (simp add: s2_def s1_def keeps_posting_flags)
  moreover have "keeps_posting a s2 (status_row env now db a s g st n)"
    unfolding status_row_def Let_def s1_def[symmetric] t_def[symmetric] s2_def[symmetric]
    by (auto simp: keeps_posting_flags split: option.split)
  ultimately show ?thesis by blast
qed

lemma evolves_foldl:
  assumes "\<And>db x. x \<in> set xs \<Longrightarrow> evolves a {x} db (f db x)" shows "evolves a (set xs) db (foldl f db xs)"
  using assms
proof (induction xs arbitrary: db)
  case (Cons x xs)
  have "evolves a (set (x # xs)) db (f db x)" by (rule evolves_mono[OF Cons.prems]) simp_all
  moreover have "evolves a (set (x # xs)) (f db x) (foldl f (f db x) xs)" by (rule evolves_mono[OF Cons.IH]) (use Cons.prems in auto)
  ultimately show ?case by (simp add: evolves_trans)
qed simp

lemma evolves_grade_member: "evolves a {uid} db (grade_member env a scope g e given t db uid)"
proof (cases "FindByAssignmentAndUser db (asg_ID a) uid scope")
  case None
  let ?blank = "blank_submission (asg_ID a) uid []"
  have "evolves a {uid} db db1" if "submission_Create db (applyGradeGiven env db a ?blank e given g t) = Some (r, db1)" for r db1
    by (rule evolves_create[OF that, where i = "asg_ID a" and j = uid and w = "[]"]) simp_all
  then show ?thesis using None by (auto simp: grade_member_def sub_frame split: option.split)
next
  case (Some r)
  show ?thesis using evolves_update[OF Some, of "applyGradeGiven env db a r e given g t"] Some
    by (simp add: grade_member_def Let_def sub_frame)
qed

lemma evolves_clear_member: "evolves a {uid} db (clear_member a account g db uid)"
proof (cases "FindByAssignmentAndUser db (asg_ID a) uid account")
  case (Some r)
  show ?thesis using evolves_update[OF Some, of "clearGrade r g"] Some by (simp add: clear_member_def Let_def sub_frame)
qed (simp add: clear_member_def)

text \<open>The student and, when the group is graded together, the accepted members of the group.\<close>

definition graded_users :: "sub_store \<Rightarrow> assignment \<Rightarrow> nat \<Rightarrow> nat set" where
  "graded_users db a uid = insert uid (if GradesGroupTogether a then set (getGroupMemberIDs db uid (group_category a)) else {})"

text \<open>The tables an operation of the service reads but never writes.\<close>

definition context_of where
  "context_of db = (sx_Courses db, sx_Assignments db, sx_Policies db, sx_Dates db, sx_Periods db, sx_Standards db, sx_Groups db, sx_Memberships db)"

lemma context_of_cong:
  assumes "context_of db' = context_of db"
  shows "getGroupMemberIDs db' u c = getGroupMemberIDs db u c" "resolveScheme env db' a = resolveScheme env db a"
    "late_deduction now db' a s e = late_deduction now db a s e" "assignment_in_tenant db' acc aid = assignment_in_tenant db acc aid"
    "graded_users db' a u = graded_users db a u"
proof -
  have eqs: "sx_Courses db' = sx_Courses db" "sx_Assignments db' = sx_Assignments db" "sx_Policies db' = sx_Policies db"
    "sx_Dates db' = sx_Dates db" "sx_Standards db' = sx_Standards db" "sx_Groups db' = sx_Groups db" "sx_Memberships db' = sx_Memberships db"
    using assms by (simp_all add: context_of_def)
  show groups: "getGroupMemberIDs db' u c = getGroupMemberIDs db u c" for c
    unfolding getGroupMemberIDs_def FindUserGroupInCategory_def eqs by (rule refl)
  show "graded_users db' a u = graded_users db a u" unfolding graded_users_def groups by (rule refl)
  show "resolveScheme env db' a = resolveScheme env db a" "late_deduction now db' a s e = late_deduction now db a s e"
    unfolding resolveScheme_def late_deduction_def policy_of_def eqs by (rule refl)+
  show "assignment_in_tenant db' acc aid = assignment_in_tenant db acc aid"
    unfolding assignment_in_tenant_def in_tenant_def eqs by (rule refl)
qed

lemma context_side [sub_frame]:
  "context_of (recordAttempt db s) = context_of db" "context_of (recordAttemptGrade db s) = context_of db"
  "context_of (logGradeChange db a s g og os) = context_of db" "context_of (fireIfPosted db s) = context_of db"
  "context_of (notifyGradeChange db s og os w) = context_of db" "context_of (saved_grade db a s g og os) = context_of db"
  "context_of (submission_Update db s) = context_of db"
  by (simp_all add: context_of_def recordAttempt_def recordAttemptGrade_def logGradeChange_def fireIfPosted_def fireOnGraded_def
      notifyGradeChange_def saved_grade_def submission_Update_def)

lemma context_Create: "submission_Create db s = Some (r, db') \<Longrightarrow> context_of db' = context_of db"
  by (auto simp: submission_Create_def context_of_def Let_def split: if_splits)

lemma context_save: "save_submission n db s = Some (r, db') \<Longrightarrow> context_of db' = context_of db"
  by (auto simp: save_submission_def sub_frame context_Create split: if_splits)

lemma context_grade_member [sub_frame]: "context_of (grade_member env a scope g e given t db uid) = context_of db"
  by (auto simp: grade_member_def Let_def sub_frame context_Create split: option.split)

lemma context_gradeGroupMembers [sub_frame]: "context_of (gradeGroupMembers env db a uid g e given t) = context_of db"
  unfolding gradeGroupMembers_def Let_def by (rule foldl_invariant) (simp_all add: sub_frame)

lemma context_clear_member [sub_frame]: "context_of (clear_member a account g db uid) = context_of db"
  by (auto simp: clear_member_def Let_def sub_frame split: option.split)

lemma evolves_gradeGroupMembers:
  "evolves a (set (getGroupMemberIDs db uid (group_category a))) db (gradeGroupMembers env db a uid g e given t)"
  unfolding gradeGroupMembers_def Let_def by (rule evolves_foldl) (rule evolves_grade_member)

lemma evolves_clear_loaded: "evolves a (graded_users db a uid) db (snd (clear_loaded db a uid g account))"
proof (cases "FindByAssignmentAndUser db (asg_ID a) uid account")
  case (Some r)
  define db1 where "db1 = logGradeChange (submission_Update db (clearGrade r g)) a (clearGrade r g) g (sub_Grade r) (sub_Score r)"
  have ctx: "context_of db1 = context_of db" by (simp add: db1_def sub_frame)
  have "evolves a {uid} db db1" using evolves_update[OF Some, of "clearGrade r g"] by (simp add: db1_def sub_frame)
  then have first: "evolves a (graded_users db a uid) db db1" by (rule evolves_mono) (simp add: graded_users_def)
  have "evolves a (graded_users db a uid) db1 (foldl (clear_member a account g) db1 (getGroupMemberIDs db1 uid (group_category a)))"
    if "GradesGroupTogether a"
    by (rule evolves_mono[OF evolves_foldl[OF evolves_clear_member]]) (use that in \<open>auto simp: graded_users_def context_of_cong[OF ctx]\<close>)
  from evolves_trans[OF first this] first show ?thesis
    using Some by (simp add: clear_loaded_def Let_def db1_def[symmetric])
qed (simp add: clear_loaded_def)

lemma evolves_write_loaded: "evolves a (graded_users db a uid) db (snd (write_loaded env now db a uid g account e given))"
proof -
  let ?found = "FindByAssignmentAndUser db (asg_ID a) uid account"
  define row where "row = (case ?found of Some r \<Rightarrow> r | None \<Rightarrow> blank_submission (asg_ID a) uid [])"
  define row' where "row' = applyGradeGiven env db a row e given g now"
  have step: "evolves a (graded_users db a uid) db (fireIfPosted (if GradesGroupTogether a then gradeGroupMembers env db2 a uid g e given now else db2) r)"
    if saved: "save_submission (?found = None) db row' = Some (r, db1)"
      and db2: "db2 = saved_grade db1 a r g (sub_Grade row) (sub_Score row)" for r db1 db2
  proof -
    have "evolves a {uid} db db1" by (rule evolves_save[OF saved row_def]) (simp_all add: row'_def)
    then have "evolves a {uid} db db2" by (simp add: db2 sub_frame)
    then have first: "evolves a (graded_users db a uid) db db2" by (rule evolves_mono) (simp add: graded_users_def)
    have ctx: "context_of db2 = context_of db" using context_save[OF saved] by (simp add: db2 sub_frame)
    have "evolves a (graded_users db a uid) db2 (gradeGroupMembers env db2 a uid g e given now)" if "GradesGroupTogether a"
      by (rule evolves_mono[OF evolves_gradeGroupMembers]) (use that in \<open>auto simp: graded_users_def context_of_cong[OF ctx]\<close>)
    from evolves_trans[OF first this] first show ?thesis by (simp add: sub_frame)
  qed
  then show ?thesis
    unfolding write_loaded_def Let_def row_def[symmetric] row'_def[symmetric]
    by (intro save_case_snd[where P = "evolves a (graded_users db a uid) db"]) simp_all
qed

lemma evolves_gradeLoaded: "evolves a (graded_users db a uid) db (snd (gradeLoaded env now db a uid g account c e given))"
  by (simp add: gradeLoaded_def evolves_clear_loaded evolves_write_loaded)

lemma evolves_excuse_loaded: "evolves a {uid} db (snd (excuse_loaded now db a uid g account excused))"
proof -
  let ?found = "FindByAssignmentAndUser db (asg_ID a) uid account"
  define row where "row = (case ?found of Some r \<Rightarrow> r | None \<Rightarrow> blank_submission (asg_ID a) uid ''unsubmitted'')"
  let ?row' = "if excused then excused_row a row g now else unexcused_row now db a row g"
  have "evolves a {uid} db db1" if "save_submission (?found = None) db ?row' = Some (r, db1)" for r db1
    by (rule evolves_save[OF that row_def]) simp_all
  then show ?thesis
    unfolding excuse_loaded_def Let_def row_def[symmetric] by (auto simp: sub_frame split: option.split)
qed

lemma evolves_status_loaded: "evolves a {uid} db (snd (status_loaded env now db a uid g account st n))"
proof -
  let ?found = "FindByAssignmentAndUser db (asg_ID a) uid account"
  define row where "row = (case ?found of Some r \<Rightarrow> r | None \<Rightarrow> blank_submission (asg_ID a) uid ''unsubmitted'')"
  have "evolves a {uid} db db1" if "save_submission (?found = None) db (status_row env now db a row g st n) = Some (r, db1)" for r db1
    by (rule evolves_save[OF that row_def]) (simp_all add: status_row_same)
  then show ?thesis
    unfolding status_loaded_def Let_def row_def[symmetric]
    by (intro save_case_snd[where P = "evolves a {uid} db"]) (simp_all add: sub_frame)
qed

end
