(* ===== verification/Grade_Refresh.thy ===== *)
theory Grade_Refresh imports Submission_Grading begin

text \<open>
  The grading policy service and the other writers of submission rows
  (\<open>internal/service/grading_policy_service.go\<close>, \<open>discussion_parity_service.go\<close>,
  \<open>grading_ui_service.go\<close>): the refresh of late and missing work when dates or policies change, the
  job that scores missing work, posting and hiding by section, the row of a graded discussion and
  the placeholder rows of the grading view.
\<close>

section \<open>Rows of an assignment\<close>

definition rows_of :: "sub_store \<Rightarrow> nat \<Rightarrow> submission list" where
  "rows_of db aid = sort_stable_by sub_ID (filter (\<lambda>s. sub_AssignmentID s = aid) (sx_Submissions db))"

text \<open>Three columns are written; the others keep what is in the table.\<close>

definition UpdateSubmissionStatus :: "sub_store \<Rightarrow> submission \<Rightarrow> sub_store" where
  "UpdateSubmissionStatus db s =
     db\<lparr>sx_Submissions := map (\<lambda>r. if sub_ID r = sub_ID s
       then r\<lparr>sub_CachedDueDate := sub_CachedDueDate s, sub_Late := sub_Late s, sub_Missing := sub_Missing s\<rparr> else r) (sx_Submissions db)\<rparr>"

text \<open>The insert does nothing on a conflict, and the row then keeps the id 0.\<close>

definition CreateSubmission :: "sub_store \<Rightarrow> submission \<Rightarrow> submission \<times> sub_store" where
  "CreateSubmission db s = (case submission_Create db s of None \<Rightarrow> (s, db) | Some (r, db1) \<Rightarrow> (r, db1))"

definition SetSubmissionsPostedAt :: "sub_store \<Rightarrow> nat \<Rightarrow> nat list \<Rightarrow> instant option \<Rightarrow> sub_store" where
  "SetSubmissionsPostedAt db aid ids postedAt =
     db\<lparr>sx_Submissions := map (\<lambda>r. if sub_AssignmentID r = aid \<and> sub_ID r \<in> set ids then r\<lparr>sub_PostedAt := postedAt\<rparr> else r)
       (sx_Submissions db)\<rparr>"

section \<open>The late deduction again\<close>

text \<open>\<open>reapplyLateDeduction\<close>: the row with the new deduction, when it changes.\<close>

definition reapplied :: "sub_env \<Rightarrow> sub_store \<Rightarrow> assignment \<Rightarrow> submission \<Rightarrow> late_policy option \<Rightarrow> instant option \<Rightarrow> submission option" where
  "reapplied env db a s policy dueAt =
     (case (sub_EnteredScore s, sub_Score s) of
        (Some entered, Some score) \<Rightarrow>
          (if sub_Excused s \<or> (sub_GraderID s = None \<and> sub_SubmittedAt s = None) then None
           else let deducted = LateDeductionFor policy a s entered dueAt;
                    current = (case sub_PointsDeducted s of Some d \<Rightarrow> d | None \<Rightarrow> 0)
                in if \<bar>fsub deducted current\<bar> < f64 (1 / 10 ^ 9) then None
                   else let final = fsub entered deducted
                        in Some (s\<lparr>sub_Score := Some final,
                             sub_Grade := Some (FormatGrade (se_text env) a (Some (resolveScheme env db a)) final (text_or_empty (sub_EnteredGrade s))),
                             sub_PointsDeducted := (if deducted > 0 then Some deducted else None)\<rparr>))
      | _ \<Rightarrow> None)"

definition reapplyLateDeduction ::
  "sub_env \<Rightarrow> sub_store \<Rightarrow> assignment \<Rightarrow> submission \<Rightarrow> late_policy option \<Rightarrow> instant option \<Rightarrow> bool \<times> submission \<times> sub_store" where
  "reapplyLateDeduction env db a s policy dueAt =
     (case reapplied env db a s policy dueAt of
        None \<Rightarrow> (False, s, db)
      | Some s' \<Rightarrow> (True, s', fireIfPosted (saved_grade (submission_Update db s') a s' 0 (sub_Grade s) (sub_Score s)) s'))"

definition applyMissingRow :: "sub_env \<Rightarrow> sub_store \<Rightarrow> assignment \<Rightarrow> submission \<Rightarrow> rat \<Rightarrow> instant \<Rightarrow> sub_store" where
  "applyMissingRow env db a s points now =
     (let s' = missing_row env db a s points now in fireIfPosted (logGradeChange (submission_Update db s') a s' 0 None None) s')"

section \<open>Refreshing a course\<close>

text \<open>One row: the flags, the deduction and the score of missing work. The number counts changes.\<close>

definition refreshed_status :: "instant \<Rightarrow> assignment \<Rightarrow> effective_due_date option \<Rightarrow> submission \<Rightarrow> submission" where
  "refreshed_status now a dd s =
     (let due = (case dd of Some d \<Rightarrow> ef_DueAt d | None \<Rightarrow> asg_DueAt a); t = ComputeTardiness a s due now
      in s\<lparr>sub_CachedDueDate := due, sub_Late := td_Late t, sub_Missing := (dd \<noteq> None \<and> td_Missing t)\<rparr>)"

definition inClosedPeriod :: "effective_due_date option \<Rightarrow> bool" where
  "inClosedPeriod dd = (case dd of Some d \<Rightarrow> ef_InClosedGradingPeriod d | None \<Rightarrow> False)"

definition refresh_row ::
  "sub_env \<Rightarrow> instant \<Rightarrow> late_policy option \<Rightarrow> bool \<Rightarrow> due_date_input \<Rightarrow> assignment \<Rightarrow> nat \<times> sub_store \<Rightarrow> submission \<Rightarrow> nat \<times> sub_store" where
  "refresh_row env now policy applyMissing inp a st s =
     (let (n, db) = st;
          dd = ResolveDueDates now inp (asg_ID a) (sub_UserID s);
          s1 = refreshed_status now a dd s;
          (n1, db1) = (if s1 \<noteq> s then (Suc n, UpdateSubmissionStatus db s1) else (n, db));
          (re, s2, db2) = (if inClosedPeriod dd then (False, s1, db1)
            else reapplyLateDeduction env db1 a s1 policy (sub_CachedDueDate s1));
          n2 = (if re then Suc n1 else n1)
      in if applyMissing \<and> sub_Missing s1 \<and> sub_Score s2 = None \<and> IsPublished a \<and> \<not> inClosedPeriod dd
         then (case MissingPoints policy a of None \<Rightarrow> (n2, db2) | Some points \<Rightarrow> (Suc n2, applyMissingRow env db2 a s2 points now))
         else (n2, db2))"

text \<open>A row for an assigned student who is past due without one.\<close>

definition missing_placeholder :: "sub_env \<Rightarrow> instant \<Rightarrow> sub_store \<Rightarrow> late_policy option \<Rightarrow> assignment \<Rightarrow> nat \<Rightarrow> instant \<Rightarrow> submission" where
  "missing_placeholder env now db policy a uid due =
     (let row = (blank_submission (asg_ID a) uid ''unsubmitted'')\<lparr>sub_CachedDueDate := Some due, sub_Missing := True\<rparr>
      in case MissingPoints policy a of None \<Rightarrow> row | Some points \<Rightarrow> missing_row env db a row points now)"

definition create_missing_row ::
  "sub_env \<Rightarrow> instant \<Rightarrow> late_policy option \<Rightarrow> due_date_input \<Rightarrow> assignment \<Rightarrow> nat \<times> sub_store \<Rightarrow> nat \<Rightarrow> nat \<times> sub_store" where
  "create_missing_row env now policy inp a st uid =
     (let (n, db) = st; dd = ResolveDueDates now inp (asg_ID a) uid
      in case Option.bind dd ef_DueAt of
           None \<Rightarrow> st
         | Some due \<Rightarrow>
             (if now \<le> due \<or> inClosedPeriod dd then st
              else let (row, db1) = CreateSubmission db (missing_placeholder env now db policy a uid due);
                       db2 = (if sub_ID row \<noteq> 0 \<and> MissingPoints policy a \<noteq> None then logGradeChange db1 a row 0 None None else db1)
                   in (Suc n, if sub_ID row \<noteq> 0 \<and> sub_PostedAt row \<noteq> None then FirePosted db2 [sub_ID row] else db2)))"

definition refresh_assignment ::
  "sub_env \<Rightarrow> instant \<Rightarrow> late_policy option \<Rightarrow> bool \<Rightarrow> due_date_input \<Rightarrow> nat \<times> sub_store \<Rightarrow> assignment \<Rightarrow> nat \<times> sub_store" where
  "refresh_assignment env now policy applyMissing inp st a =
     (let subs = rows_of (snd st) (asg_ID a);
          st1 = foldl (refresh_row env now policy applyMissing inp a) st subs
      in if \<not> applyMissing \<or> \<not> IsPublished a \<or> \<not> ExpectsSubmission a then st1
         else foldl (create_missing_row env now policy inp a) st1
           (filter (\<lambda>uid. uid \<notin> set (map sub_UserID subs)) (di_StudentIDs inp)))"

definition course_input :: "instant \<Rightarrow> sub_store \<Rightarrow> nat \<Rightarrow> due_date_input" where
  "course_input now db cid = load_input now (sx_Dates db) cid (sx_Periods db cid)"

definition refresh :: "sub_env \<Rightarrow> instant \<Rightarrow> sub_store \<Rightarrow> nat \<Rightarrow> nat list \<Rightarrow> bool \<Rightarrow> nat \<times> sub_store" where
  "refresh env now db cid ids applyMissing =
     (let inp = course_input now db cid
      in foldl (refresh_assignment env now (policy_of db cid) applyMissing inp) (0, db)
           (filter (\<lambda>a. ids = [] \<or> asg_ID a \<in> set ids) (di_Assignments inp)))"

definition course_exists :: "sub_store \<Rightarrow> nat \<Rightarrow> bool" where
  "course_exists db cid = list_ex (\<lambda>c. co_ID c = cid) (sx_Courses db)"

definition RefreshDueStatus :: "sub_env \<Rightarrow> instant \<Rightarrow> sub_store \<Rightarrow> nat \<Rightarrow> nat list \<Rightarrow> sub_store" where
  "RefreshDueStatus env now db cid ids = (if course_exists db cid then snd (refresh env now db cid ids False) else db)"

definition ApplyCourseMissingPolicy :: "sub_env \<Rightarrow> instant \<Rightarrow> sub_store \<Rightarrow> nat \<Rightarrow> nat \<times> sub_store" where
  "ApplyCourseMissingPolicy env now db cid = refresh env now db cid [] True"

text \<open>After an accommodation changed: in one course, or in every course of the student.\<close>

definition ListUserStudentCourseIDs :: "dates_db \<Rightarrow> nat \<Rightarrow> nat list" where
  "ListUserStudentCourseIDs db uid =
     remdups (map en_CourseID (filter (\<lambda>e. en_UserID e = uid \<and> en_Type e = ''StudentEnrollment'' \<and>
       en_WorkflowState e \<noteq> ''deleted'' \<and> en_WorkflowState e \<noteq> ''rejected'') (dd_Enrollments db)))"

fun refresh_courses :: "sub_env \<Rightarrow> instant \<Rightarrow> sub_store \<Rightarrow> nat list \<Rightarrow> sub_store" where
  "refresh_courses env now db [] = db"
| "refresh_courses env now db (cid # cs) =
     (if course_exists db cid then refresh_courses env now (RefreshDueStatus env now db cid []) cs else db)"

definition RefreshUserDueStatus :: "sub_env \<Rightarrow> instant \<Rightarrow> sub_store \<Rightarrow> nat \<Rightarrow> nat option \<Rightarrow> sub_store" where
  "RefreshUserDueStatus env now db uid cid =
     refresh_courses env now db
       (case cid of Some c \<Rightarrow> if c \<noteq> 0 then [c] else ListUserStudentCourseIDs (sx_Dates db) uid
        | None \<Rightarrow> ListUserStudentCourseIDs (sx_Dates db) uid)"

section \<open>The missing-work job\<close>

definition due_between :: "instant \<Rightarrow> instant \<Rightarrow> instant option \<Rightarrow> bool" where
  "due_between t u due = (case due of None \<Rightarrow> False | Some d \<Rightarrow> t \<le> d \<and> d \<le> u)"

definition extended_due_between :: "dates_db \<Rightarrow> instant \<Rightarrow> instant \<Rightarrow> assignment \<Rightarrow> accommodation \<Rightarrow> bool" where
  "extended_due_between db t u a acc =
     (case ac_ExtraDays acc of
        None \<Rightarrow> False
      | Some days \<Rightarrow>
          days > 0 \<and> in_effect u acc \<and> (ac_CourseID acc = None \<or> ac_CourseID acc = Some (asg_CourseID a)) \<and>
          list_ex (\<lambda>e. en_UserID e = ac_UserID acc \<and> en_CourseID e = asg_CourseID a \<and> en_Type e = ''StudentEnrollment'' \<and>
            en_WorkflowState e \<noteq> ''deleted'' \<and> en_WorkflowState e \<noteq> ''rejected'') (dd_Enrollments db) \<and>
          (due_between t u (map_option (\<lambda>d. add_days d days) (asg_DueAt a)) \<or>
           list_ex (\<lambda>o'. ov_AssignmentID o' = asg_ID a \<and> ov_WorkflowState o' \<noteq> ''deleted'' \<and>
             due_between t u (map_option (\<lambda>d. add_days d days) (ov_DueAt o'))) (dd_Overrides db)))"

definition ListAssignmentsDueBetween :: "sub_store \<Rightarrow> instant \<Rightarrow> instant \<Rightarrow> assignment list" where
  "ListAssignmentsDueBetween db t u =
     sort_stable_by asg_ID (filter (\<lambda>a. asg_WorkflowState a = ''published'' \<and>
       list_ex (\<lambda>c. co_ID c = asg_CourseID a \<and> co_WorkflowState c \<noteq> ''deleted'' \<and> co_WorkflowState c \<noteq> ''completed'') (sx_Courses db) \<and>
       (due_between t u (asg_DueAt a) \<or>
        list_ex (\<lambda>o'. ov_AssignmentID o' = asg_ID a \<and> ov_WorkflowState o' \<noteq> ''deleted'' \<and> due_between t u (ov_DueAt o'))
          (dd_Overrides (sx_Dates db)) \<or>
        list_ex (extended_due_between (sx_Dates db) t u a) (dd_Accommodations (sx_Dates db)))) (dd_Assignments (sx_Dates db)))"

definition missing_course :: "sub_env \<Rightarrow> instant \<Rightarrow> assignment list \<Rightarrow> nat \<times> sub_store \<Rightarrow> nat \<Rightarrow> nat \<times> sub_store" where
  "missing_course env now due st cid =
     (if course_exists (snd st) cid
      then let (n, db) = refresh env now (snd st) cid (map asg_ID (filter (\<lambda>a. asg_CourseID a = cid) due)) True in (fst st + n, db)
      else st)"

definition ApplyMissingPolicy :: "sub_env \<Rightarrow> instant \<Rightarrow> sub_store \<Rightarrow> duration \<Rightarrow> nat \<times> sub_store" where
  "ApplyMissingPolicy env now db lookback =
     (let due = ListAssignmentsDueBetween db (now - lookback) now
      in foldl (missing_course env now due) (0, db) (rev (remdups (rev (map asg_CourseID due)))))"

section \<open>Posting and hiding by section\<close>

definition in_post_scope :: "instant \<Rightarrow> due_date_input \<Rightarrow> assignment \<Rightarrow> nat list \<Rightarrow> nat \<Rightarrow> bool" where
  "in_post_scope now inp a sections uid =
     (uid \<in> set (di_StudentIDs inp) \<and> ResolveDueDates now inp (asg_ID a) uid \<noteq> None \<and>
      (sections = [] \<or> (di_StudentSections inp uid = [] \<and> 0 \<in> set sections) \<or>
       list_ex (\<lambda>sid. sid \<in> set sections) (di_StudentSections inp uid)))"

definition released_grade :: "submission \<Rightarrow> bool" where
  "released_grade s = (sub_Score s \<noteq> None \<or> sub_Excused s)"

text \<open>The row of a student without one, when everyone's grades are posted.\<close>

definition posted_placeholder :: "instant \<Rightarrow> due_date_input \<Rightarrow> assignment \<Rightarrow> nat \<Rightarrow> submission" where
  "posted_placeholder now inp a uid =
     (let row = (blank_submission (asg_ID a) uid ''unsubmitted'')\<lparr>sub_PostedAt := Some now\<rparr>
      in case ResolveDueDates now inp (asg_ID a) uid of
           None \<Rightarrow> row
         | Some dd \<Rightarrow>
             (let row = row\<lparr>sub_CachedDueDate := ef_DueAt dd\<rparr>
              in row\<lparr>sub_Missing := td_Missing (ComputeTardiness a row (ef_DueAt dd) now)\<rparr>))"

text \<open>The students without a row are visited in the order of a Go map, the argument \<open>order\<close>.\<close>

definition post_scoped ::
  "(nat list \<Rightarrow> nat list) \<Rightarrow> instant \<Rightarrow> sub_store \<Rightarrow> nat \<Rightarrow> assignment \<Rightarrow> bool \<Rightarrow> nat list \<Rightarrow> submission list \<times> submission list \<times> sub_store" where
  "post_scoped order now db cid a gradedOnly sections =
     (let inp = course_input now db cid; subs = rows_of db (asg_ID a);
          newly = filter (\<lambda>s. in_post_scope now inp a sections (sub_UserID s) \<and> sub_PostedAt s = None \<and> (gradedOnly \<longrightarrow> released_grade s)) subs;
          posted = map (\<lambda>s. s\<lparr>sub_PostedAt := Some now\<rparr>) newly;
          db1 = SetSubmissionsPostedAt db (asg_ID a) (map sub_ID newly) (Some now);
          rest = order (filter (\<lambda>u. in_post_scope now inp a sections u \<and> u \<notin> set (map sub_UserID subs)) (di_StudentIDs inp))
      in (filter released_grade posted, posted,
          if gradedOnly then db1 else foldl (\<lambda>db u. snd (CreateSubmission db (posted_placeholder now inp a u))) db1 rest))"

definition SetAssignmentPostPolicy :: "sub_store \<Rightarrow> nat \<Rightarrow> string \<Rightarrow> sub_store" where
  "SetAssignmentPostPolicy db aid policy =
     (let put = map (\<lambda>x. if asg_ID x = aid then x\<lparr>asg_PostPolicy := policy\<rparr> else x)
      in db\<lparr>sx_Assignments := put (sx_Assignments db),
            sx_Dates := (sx_Dates db)\<lparr>dd_Assignments := put (dd_Assignments (sx_Dates db))\<rparr>\<rparr>)"

definition hide_scoped :: "instant \<Rightarrow> sub_store \<Rightarrow> nat \<Rightarrow> assignment \<Rightarrow> nat list \<Rightarrow> sub_store" where
  "hide_scoped now db cid a sections =
     (let db1 = (if UsesManualPostPolicy a then db else SetAssignmentPostPolicy db (asg_ID a) ''manual'');
          inp = course_input now db1 cid;
          ids = map sub_ID (filter (\<lambda>s. in_post_scope now inp a sections (sub_UserID s) \<and> sub_PostedAt s \<noteq> None) (rows_of db1 (asg_ID a)))
      in SetSubmissionsPostedAt db1 (asg_ID a) ids None)"

section \<open>Graded discussions and the grading view\<close>

text \<open>
  The row of a student in a graded discussion, once the topic, its assignment and the enrollment
  passed the checks; \<open>first\<close> is the time of the student's first post.
\<close>

definition discussion_row :: "assignment \<Rightarrow> submission \<Rightarrow> instant \<Rightarrow> submission" where
  "discussion_row a s t =
     s\<lparr>sub_SubmissionType := Some ''discussion_topic'', sub_SubmittedAt := Some t,
       sub_Late := (case asg_DueAt a of Some d \<Rightarrow> t > d | None \<Rightarrow> False),
       sub_Attempt := (if sub_Attempt s = 0 then 1 else sub_Attempt s),
       sub_WorkflowState := (if sub_WorkflowState s \<noteq> ''graded'' then ''submitted'' else sub_WorkflowState s)\<rparr>"

definition SyncSubmissionForUser :: "sub_store \<Rightarrow> assignment \<Rightarrow> nat \<Rightarrow> instant option \<Rightarrow> sub_store" where
  "SyncSubmissionForUser db a uid first =
     (case (first, FindByAssignmentAndUser db (asg_ID a) uid 0) of
        (None, None) \<Rightarrow> db
      | (None, Some r) \<Rightarrow>
          (if sub_WorkflowState r \<noteq> ''submitted'' \<or> sub_SubmissionType r \<noteq> Some ''discussion_topic'' then db
           else submission_Update db
             (r\<lparr>sub_WorkflowState := ''unsubmitted'', sub_SubmittedAt := None, sub_SubmissionType := None, sub_Late := False\<rparr>))
      | (Some t, Some r) \<Rightarrow>
          (if sub_SubmittedAt r \<noteq> None \<and> sub_SubmissionType r = Some ''discussion_topic'' then db
           else submission_Update db (discussion_row a r t))
      | (Some t, None) \<Rightarrow>
          (case submission_Create db (discussion_row a (blank_submission (asg_ID a) uid ''submitted'') t) of
             None \<Rightarrow> db | Some (r, db1) \<Rightarrow> db1))"

text \<open>\<open>EnsureSubmissionRows\<close>, without the anonymous ids: a placeholder for every student.\<close>

definition EnsureSubmissionRows :: "sub_store \<Rightarrow> assignment \<Rightarrow> nat list \<Rightarrow> sub_store" where
  "EnsureSubmissionRows db a students =
     foldl (\<lambda>db uid. case submission_Create db (blank_submission (asg_ID a) uid ''unsubmitted'') of None \<Rightarrow> db | Some (r, db1) \<Rightarrow> db1)
       db (filter (\<lambda>uid. uid \<notin> set (map sub_UserID (rows_of db (asg_ID a)))) students)"

text \<open>The column of extra attempts, which a grader sets between 0 and 1000.\<close>

definition set_extra_attempts :: "sub_store \<Rightarrow> submission \<Rightarrow> int \<Rightarrow> sub_store" where
  "set_extra_attempts db s n =
     (if n < 0 \<or> n > 1000 then db
      else db\<lparr>sx_Submissions := map (\<lambda>r. if sub_ID r = sub_ID s then r\<lparr>sub_ExtraAttempts := Some n\<rparr> else r) (sx_Submissions db)\<rparr>)"

end
