(* ===== verification/Quiz_Grading.thy ===== *)
theory Quiz_Grading imports Grading_Scheme begin

text \<open>
  Automatic grading of quiz answers (\<open>internal/service/quiz_grading_service.go\<close>): the answer options
  as they are decoded from the question, numeric matching with tolerances, one grader per question
  type, and the dispatch on the type. A grader returns the points, whether the answer is correct and
  whether it can be graded at all.

  Parameters: the JSON scanner, Unicode lower case, \<open>big.Rat.SetString\<close> (which reads fractions and
  prefixed numbers too) and \<open>strconv.ParseFloat\<close>.
\<close>

section \<open>Decoding\<close>

record quiz_env =
  qe_parse :: "string \<Rightarrow> json option"
  qe_ToLower :: "string \<Rightarrow> string"
  qe_Rat :: "string \<Rightarrow> rat option"
  qe_ParseFloat :: "string \<Rightarrow> rat option"

text \<open>A slice: every element must decode; \<open>null\<close> is the empty slice.\<close>

definition decode_list :: "(json \<Rightarrow> 'a option) \<Rightarrow> json \<Rightarrow> 'a list option" where
  "decode_list d j = (case j of JArr xs \<Rightarrow> those (map d xs) | JNull \<Rightarrow> Some [] | _ \<Rightarrow> None)"

text \<open>A map from strings, as the members in order; the last member of a name counts.\<close>

definition decode_map :: "(json \<Rightarrow> 'a option) \<Rightarrow> json \<Rightarrow> (string \<times> 'a) list option" where
  "decode_map d j =
     (case j of JObj kvs \<Rightarrow> those (map (\<lambda>(k, v). map_option (Pair k) (d v)) kvs) | JNull \<Rightarrow> Some [] | _ \<Rightarrow> None)"

definition entry :: "(string \<times> 'a) list \<Rightarrow> string \<Rightarrow> 'a option" where
  "entry kvs k = map_of (rev kvs) k"

definition decode_string :: "json \<Rightarrow> string option" where
  "decode_string j = (case j of JStr s \<Rightarrow> Some s | JNull \<Rightarrow> Some [] | _ \<Rightarrow> None)"

text \<open>\<open>flexString\<close> accepts a string, and keeps a number or a boolean as its text; anything else is empty.\<close>

definition flex :: "json \<Rightarrow> string" where
  "flex j = (case j of JStr s \<Rightarrow> s | JNum t \<Rightarrow> t | JBool b \<Rightarrow> (if b then ''true'' else ''false'') | _ \<Rightarrow> [])"

definition into_flex :: "(string \<Rightarrow> 's \<Rightarrow> 's) \<Rightarrow> json \<Rightarrow> 's \<Rightarrow> 's option" where
  "into_flex put v s = Some (put (flex v) s)"

definition into_float :: "(rat \<Rightarrow> 's \<Rightarrow> 's) \<Rightarrow> json \<Rightarrow> 's \<Rightarrow> 's option" where
  "into_float put v s = (case v of JNum t \<Rightarrow> map_option (\<lambda>x. put x s) (parse_float t) | JNull \<Rightarrow> Some s | _ \<Rightarrow> None)"

definition into_list :: "(json \<Rightarrow> 'a option) \<Rightarrow> ('a list \<Rightarrow> 's \<Rightarrow> 's) \<Rightarrow> json \<Rightarrow> 's \<Rightarrow> 's option" where
  "into_list d put v s = map_option (\<lambda>xs. put xs s) (decode_list d v)"

section \<open>Answer options\<close>

record hot_spot_region =
  hs_X :: rat
  hs_Y :: rat
  hs_W :: rat
  hs_H :: rat

record categorization_bucket =
  cb_ID :: string
  cb_ItemIDs :: "string list"

record answer_option =
  qa_ID :: string
  qa_Text :: string
  qa_Comments :: string
  qa_Weight :: rat
  qa_Margin :: string
  qa_NumericalAnswerType :: string
  qa_Exact :: string
  qa_Start :: string
  qa_End :: string
  qa_Approximate :: string
  qa_Precision :: string
  qa_BlankID :: string
  qa_X :: rat
  qa_Y :: rat
  qa_Width :: rat
  qa_Height :: rat
  qa_Regions :: "hot_spot_region list"
  qa_RightID :: string
  qa_MatchID :: string
  qa_Left :: string
  qa_Items :: "string list"
  qa_Buckets :: "categorization_bucket list"
  qa_AnswerValue :: string
  qa_Tolerance :: string
  qa_Variables :: "json list"

definition no_option :: answer_option where
  "no_option = \<lparr>qa_ID = [], qa_Text = [], qa_Comments = [], qa_Weight = 0, qa_Margin = [], qa_NumericalAnswerType = [], qa_Exact = [],
     qa_Start = [], qa_End = [], qa_Approximate = [], qa_Precision = [], qa_BlankID = [], qa_X = 0, qa_Y = 0, qa_Width = 0, qa_Height = 0,
     qa_Regions = [], qa_RightID = [], qa_MatchID = [], qa_Left = [], qa_Items = [], qa_Buckets = [], qa_AnswerValue = [], qa_Tolerance = [],
     qa_Variables = []\<rparr>"

definition region_fields :: "hot_spot_region field list" where
  "region_fields = [(''x'', into_float (\<lambda>x s. s\<lparr>hs_X := x\<rparr>)), (''y'', into_float (\<lambda>x s. s\<lparr>hs_Y := x\<rparr>)),
     (''w'', into_float (\<lambda>x s. s\<lparr>hs_W := x\<rparr>)), (''h'', into_float (\<lambda>x s. s\<lparr>hs_H := x\<rparr>))]"

definition decode_region :: "json \<Rightarrow> hot_spot_region option" where
  "decode_region = decode_struct region_fields \<lparr>hs_X = 0, hs_Y = 0, hs_W = 0, hs_H = 0\<rparr>"

text \<open>A categorization item is its id.\<close>

definition decode_item :: "json \<Rightarrow> string option" where
  "decode_item = decode_struct [(''id'', into_string (\<lambda>x s. x))] []"

definition bucket_fields :: "categorization_bucket field list" where
  "bucket_fields = [(''id'', into_string (\<lambda>x s. s\<lparr>cb_ID := x\<rparr>)), (''item_ids'', into_list decode_string (\<lambda>x s. s\<lparr>cb_ItemIDs := x\<rparr>))]"

definition decode_bucket :: "json \<Rightarrow> categorization_bucket option" where
  "decode_bucket = decode_struct bucket_fields \<lparr>cb_ID = [], cb_ItemIDs = []\<rparr>"

definition answer_option_fields :: "answer_option field list" where
  "answer_option_fields =
     [(''id'', into_string (\<lambda>x s. s\<lparr>qa_ID := x\<rparr>)), (''text'', into_flex (\<lambda>x s. s\<lparr>qa_Text := x\<rparr>)),
      (''comments'', into_string (\<lambda>x s. s\<lparr>qa_Comments := x\<rparr>)), (''weight'', into_float (\<lambda>x s. s\<lparr>qa_Weight := x\<rparr>)),
      (''margin'', into_flex (\<lambda>x s. s\<lparr>qa_Margin := x\<rparr>)),
      (''numerical_answer_type'', into_string (\<lambda>x s. s\<lparr>qa_NumericalAnswerType := x\<rparr>)),
      (''exact'', into_flex (\<lambda>x s. s\<lparr>qa_Exact := x\<rparr>)), (''start'', into_flex (\<lambda>x s. s\<lparr>qa_Start := x\<rparr>)),
      (''end'', into_flex (\<lambda>x s. s\<lparr>qa_End := x\<rparr>)), (''approximate'', into_flex (\<lambda>x s. s\<lparr>qa_Approximate := x\<rparr>)),
      (''precision'', into_flex (\<lambda>x s. s\<lparr>qa_Precision := x\<rparr>)), (''blank_id'', into_string (\<lambda>x s. s\<lparr>qa_BlankID := x\<rparr>)),
      (''x'', into_float (\<lambda>x s. s\<lparr>qa_X := x\<rparr>)), (''y'', into_float (\<lambda>x s. s\<lparr>qa_Y := x\<rparr>)),
      (''w'', into_float (\<lambda>x s. s\<lparr>qa_Width := x\<rparr>)), (''h'', into_float (\<lambda>x s. s\<lparr>qa_Height := x\<rparr>)),
      (''regions'', into_list decode_region (\<lambda>x s. s\<lparr>qa_Regions := x\<rparr>)),
      (''right_id'', into_string (\<lambda>x s. s\<lparr>qa_RightID := x\<rparr>)), (''match_id'', into_string (\<lambda>x s. s\<lparr>qa_MatchID := x\<rparr>)),
      (''left'', into_string (\<lambda>x s. s\<lparr>qa_Left := x\<rparr>)), (''items'', into_list decode_item (\<lambda>x s. s\<lparr>qa_Items := x\<rparr>)),
      (''buckets'', into_list decode_bucket (\<lambda>x s. s\<lparr>qa_Buckets := x\<rparr>)),
      (''answer_value'', into_flex (\<lambda>x s. s\<lparr>qa_AnswerValue := x\<rparr>)), (''tolerance'', into_flex (\<lambda>x s. s\<lparr>qa_Tolerance := x\<rparr>)),
      (''variables'', into_raw_slice (\<lambda>x s. s\<lparr>qa_Variables := x\<rparr>))]"

definition decode_option :: "json \<Rightarrow> answer_option option" where
  "decode_option = decode_struct answer_option_fields no_option"

definition unmarshal_options :: "quiz_env \<Rightarrow> string \<Rightarrow> answer_option list option" where
  "unmarshal_options env raw = Option.bind (qe_parse env raw) (decode_list decode_option)"

section \<open>Numbers\<close>

definition roundScore :: "rat \<Rightarrow> rat" where
  "roundScore s = fdiv (math_Round (fmul s 100)) 100"

definition parseDecimal :: "quiz_env \<Rightarrow> string \<Rightarrow> rat option" where
  "parseDecimal env s0 =
     (let s = TrimSpace s0
      in if s = [] then None else qe_Rat env (if hd s = CHR ''+'' then tl s else s))"

definition parseMarginRat :: "quiz_env \<Rightarrow> string \<Rightarrow> rat \<Rightarrow> rat option" where
  "parseMarginRat env margin0 expected =
     (let margin = TrimSpace margin0
      in if has_suffix margin ''%'' then map_option (\<lambda>pct. \<bar>\<bar>expected\<bar> * pct / 100\<bar>) (parseDecimal env (trim_suffix margin ''%''))
         else map_option abs (parseDecimal env margin))"

text \<open>Sign, shortest significant digits and decimal exponent.\<close>

definition sciParts :: "rat \<Rightarrow> bool \<times> string \<times> int" where
  "sciParts v =
     (if v = 0 then (False, ''0'', 0)
      else let (d, e) = shortest_digits 16 1 \<bar>v\<bar>; s = show_nat d in (v < 0, s, e + int (length s) - 1))"

definition zero_pad :: "nat \<Rightarrow> string \<Rightarrow> string" where
  "zero_pad p s = take p (s @ replicate (p - length s) (CHR ''0''))"

definition precisionMatch :: "quiz_env \<Rightarrow> string \<Rightarrow> string \<Rightarrow> string \<Rightarrow> bool" where
  "precisionMatch env submitted approximate precision =
     (case parse_int (TrimSpace precision) of
        None \<Rightarrow> False
      | Some p \<Rightarrow>
          (if p \<le> 0 then False
           else let s = TrimSpace submitted
                in case (qe_ParseFloat env (if s \<noteq> [] \<and> hd s = CHR ''+'' then tl s else s), qe_ParseFloat env (TrimSpace approximate)) of
                     (Some u, Some a) \<Rightarrow>
                       (let (us, ud, ue) = sciParts u; (as, ad, ae) = sciParts a
                        in us = as \<and> ue = ae \<and> zero_pad (nat p) ud = zero_pad (nat p) ad)
                   | _ \<Rightarrow> False))"

definition range_option :: "answer_option \<Rightarrow> bool" where
  "range_option opt =
     (qa_NumericalAnswerType opt = ''range_answer'' \<or>
      qa_NumericalAnswerType opt = [] \<and> qa_Text opt = [] \<and> qa_Exact opt = [] \<and> qa_Start opt \<noteq> [] \<and> qa_End opt \<noteq> [])"

definition expected_text :: "answer_option \<Rightarrow> string" where
  "expected_text opt = (let t = TrimSpace (qa_Exact opt) in if t = [] then TrimSpace (qa_Text opt) else t)"

definition within_margin :: "quiz_env \<Rightarrow> string \<Rightarrow> rat \<Rightarrow> rat \<Rightarrow> bool" where
  "within_margin env margin0 user expected =
     (let margin = TrimSpace margin0
      in if margin = [] then user = expected
         else case parseMarginRat env margin expected of None \<Rightarrow> False | Some tol \<Rightarrow> \<bar>user - expected\<bar> \<le> tol)"

definition numericalMatch :: "quiz_env \<Rightarrow> string \<Rightarrow> answer_option \<Rightarrow> bool" where
  "numericalMatch env submitted0 opt =
     (let submitted = TrimSpace submitted0; user = parseDecimal env submitted
      in if submitted = [] then False
         else if range_option opt
         then (case (user, parseDecimal env (qa_Start opt), parseDecimal env (qa_End opt)) of
                 (Some u, Some lo, Some hi) \<Rightarrow> min lo hi \<le> u \<and> u \<le> max lo hi | _ \<Rightarrow> False)
         else if qa_NumericalAnswerType opt = ''precision_answer''
         then user \<noteq> None \<and> precisionMatch env submitted (qa_Approximate opt) (qa_Precision opt)
         else let t = expected_text opt
              in if t = [] then False
                 else case (user, parseDecimal env t) of
                     (Some u, Some e) \<Rightarrow> within_margin env (qa_Margin opt) u e
                   | (_, None) \<Rightarrow> t = submitted
                   | _ \<Rightarrow> False)"

section \<open>Graders\<close>

type_synonym graded = "rat \<times> bool \<times> bool"

definition ungradable :: graded where "ungradable = (0, False, False)"

definition wrong :: graded where "wrong = (0, False, True)"

definition credit :: "rat \<Rightarrow> rat \<Rightarrow> graded" where
  "credit points weight = (roundScore (fmul points (fdiv weight 100)), True, True)"

definition share :: "rat \<Rightarrow> nat \<Rightarrow> nat \<Rightarrow> graded" where
  "share points right all_of = (roundScore (fdiv (fmul points (float_of_int (int right))) (float_of_int (int all_of))), right = all_of, True)"

text \<open>The first option that is accepted decides.\<close>

definition first_match :: "(answer_option \<Rightarrow> bool) \<Rightarrow> answer_option list \<Rightarrow> rat \<Rightarrow> (answer_option \<Rightarrow> rat) \<Rightarrow> graded" where
  "first_match ok options points weight =
     (case find ok options of Some opt \<Rightarrow> credit points (weight opt) | None \<Rightarrow> wrong)"

definition with_options :: "quiz_env \<Rightarrow> string \<Rightarrow> (answer_option list \<Rightarrow> graded) \<Rightarrow> graded" where
  "with_options env answers grade = (case unmarshal_options env answers of None \<Rightarrow> ungradable | Some options \<Rightarrow> grade options)"

definition gradeMultipleChoice :: "quiz_env \<Rightarrow> string \<Rightarrow> string \<Rightarrow> rat \<Rightarrow> graded" where
  "gradeMultipleChoice env answers ans points =
     with_options env answers (\<lambda>options. first_match (\<lambda>opt. qa_ID opt = TrimSpace ans \<and> qa_Weight opt > 0) options points qa_Weight)"

definition folded :: "quiz_env \<Rightarrow> string \<Rightarrow> string" where
  "folded env s = TrimSpace (qe_ToLower env s)"

text \<open>A weight of zero on an accepted short answer is full credit.\<close>

definition short_weight :: "answer_option \<Rightarrow> rat" where
  "short_weight opt = (if qa_Weight opt = 0 then 100 else qa_Weight opt)"

definition gradeShortAnswer :: "quiz_env \<Rightarrow> string \<Rightarrow> string \<Rightarrow> rat \<Rightarrow> graded" where
  "gradeShortAnswer env answers ans points =
     with_options env answers (\<lambda>options.
       if folded env ans = [] then wrong
       else first_match (\<lambda>opt. short_weight opt > 0 \<and> folded env (qa_Text opt) = folded env ans) options points short_weight)"

definition gradeNumerical :: "quiz_env \<Rightarrow> string \<Rightarrow> string \<Rightarrow> rat \<Rightarrow> graded" where
  "gradeNumerical env answers ans points =
     with_options env answers (\<lambda>options.
       first_match (\<lambda>opt. qa_Weight opt > 0 \<and> numericalMatch env (TrimSpace ans) opt) options points qa_Weight)"

definition gradeFillInTheBlank :: "quiz_env \<Rightarrow> string \<Rightarrow> string \<Rightarrow> rat \<Rightarrow> graded" where
  "gradeFillInTheBlank env answers ans points =
     with_options env answers (\<lambda>options.
       if folded env ans = [] then wrong
       else first_match (\<lambda>opt. qa_Weight opt > 0 \<and> folded env (qa_Text opt) = folded env ans) options points qa_Weight)"

text \<open>The submitted document; blank text is the empty list or map.\<close>

definition submitted_doc :: "quiz_env \<Rightarrow> (json \<Rightarrow> 'a list option) \<Rightarrow> string \<Rightarrow> 'a list option" where
  "submitted_doc env decode ans = (if TrimSpace ans = [] then Some [] else Option.bind (qe_parse env ans) decode)"

definition with_submission :: "quiz_env \<Rightarrow> (json \<Rightarrow> 'a list option) \<Rightarrow> string \<Rightarrow> ('a list \<Rightarrow> graded) \<Rightarrow> graded" where
  "with_submission env decode ans grade = (case submitted_doc env decode ans of None \<Rightarrow> ungradable | Some xs \<Rightarrow> grade xs)"

text \<open>
  Checkboxes: each selected option is looked at once; a correct one adds its share, any other takes a
  share off.
\<close>

fun selection_loop :: "string set \<Rightarrow> rat \<Rightarrow> string list \<Rightarrow> string set \<Rightarrow> rat \<Rightarrow> bool \<Rightarrow> rat \<times> string set \<times> bool" where
  "selection_loop correct per [] seen score exact = (score, seen, exact)"
| "selection_loop correct per (sel # sels) seen score exact =
     (if sel \<in> seen then selection_loop correct per sels seen score exact
      else if sel \<in> correct then selection_loop correct per sels (insert sel seen) (fadd score per) exact
      else selection_loop correct per sels (insert sel seen) (fsub score per) False)"

definition correct_ids :: "answer_option list \<Rightarrow> string list" where
  "correct_ids options = remdups (map qa_ID (filter (\<lambda>opt. qa_Weight opt > 0) options))"

definition gradeMultipleAnswer :: "quiz_env \<Rightarrow> string \<Rightarrow> string \<Rightarrow> rat \<Rightarrow> graded" where
  "gradeMultipleAnswer env answers ans points =
     with_options env answers (\<lambda>options. with_submission env (decode_list decode_string) (TrimSpace ans) (\<lambda>selected.
       let ids = correct_ids options
       in if ids = [] then wrong
          else let (score, seen, exact) =
                 selection_loop (set ids) (fdiv points (float_of_int (int (length ids)))) selected {} 0 True
               in (roundScore (if score < 0 then 0 else score), exact \<and> set ids \<subseteq> seen, True)))"

text \<open>The shares of several right places add up one by one.\<close>

definition add_shares :: "rat \<Rightarrow> nat \<Rightarrow> rat" where
  "add_shares per n = ((\<lambda>s. fadd s per) ^^ n) 0"

definition blanks :: "answer_option list \<Rightarrow> string list" where
  "blanks options = remdups (filter (\<lambda>b. b \<noteq> []) (map qa_BlankID options))"

definition accepts_in :: "answer_option list \<Rightarrow> string \<Rightarrow> string \<Rightarrow> bool" where
  "accepts_in options blank i = list_ex (\<lambda>opt. qa_BlankID opt = blank \<and> qa_Weight opt > 0 \<and> qa_ID opt = i) options"

definition gradeMultipleDropdown :: "quiz_env \<Rightarrow> string \<Rightarrow> string \<Rightarrow> rat \<Rightarrow> graded" where
  "gradeMultipleDropdown env answers ans points =
     with_options env answers (\<lambda>options. with_submission env (decode_map decode_string) ans (\<lambda>submitted.
       let bs = blanks options;
           right = filter (\<lambda>b. accepts_in options b (case entry submitted b of Some i \<Rightarrow> i | None \<Rightarrow> [])) bs
       in if bs = [] then wrong
          else (roundScore (add_shares (fdiv points (float_of_int (int (length bs)))) (length right)), length right = length bs, True)))"

definition formula_candidate :: "answer_option \<Rightarrow> answer_option" where
  "formula_candidate opt =
     (if TrimSpace (qa_Text opt) = [] \<and> TrimSpace (qa_Exact opt) = []
      then let c = opt\<lparr>qa_Text := TrimSpace (qa_AnswerValue opt)\<rparr>; tol = TrimSpace (qa_Tolerance opt)
           in if TrimSpace (qa_Margin c) = [] \<and> tol \<noteq> [] \<and> tol \<noteq> ''0'' then c\<lparr>qa_Margin := tol\<rparr> else c
      else opt)"

definition has_key :: "answer_option \<Rightarrow> bool" where
  "has_key c = (TrimSpace (qa_Text c) \<noteq> [] \<or> TrimSpace (qa_Exact c) \<noteq> [] \<or> qa_NumericalAnswerType c \<noteq> [])"

definition gradeFormula :: "quiz_env \<Rightarrow> string \<Rightarrow> string \<Rightarrow> rat \<Rightarrow> graded" where
  "gradeFormula env answers ans points =
     with_options env answers (\<lambda>options.
       let keyed = filter (\<lambda>opt. qa_Weight opt > 0 \<and> has_key (formula_candidate opt)) options
       in if keyed = [] then ungradable
          else first_match (\<lambda>opt. numericalMatch env (TrimSpace ans) (formula_candidate opt)) keyed points qa_Weight)"

definition canonical_order :: "answer_option list \<Rightarrow> string list" where
  "canonical_order options = map qa_ID (filter (\<lambda>opt. qa_ID opt \<noteq> [] \<and> \<not> qa_Weight opt < 0) options)"

definition right_places :: "string list \<Rightarrow> string list \<Rightarrow> nat" where
  "right_places canonical submitted = length (filter (\<lambda>(x, y). x = y) (zip canonical submitted))"

definition gradeOrdering :: "quiz_env \<Rightarrow> string \<Rightarrow> string \<Rightarrow> rat \<Rightarrow> graded" where
  "gradeOrdering env answers ans points =
     with_options env answers (\<lambda>options. with_submission env (decode_list decode_string) ans (\<lambda>submitted.
       let canonical = canonical_order options
       in if canonical = [] then wrong else share points (right_places canonical submitted) (length canonical)))"

definition bucket_entries :: "answer_option \<Rightarrow> (string \<times> string) list" where
  "bucket_entries opt =
     (if qa_Buckets opt \<noteq> [] \<or> qa_Items opt \<noteq> []
      then concat (map (\<lambda>b. if cb_ID b = [] then [] else map (\<lambda>i. (i, cb_ID b)) (filter (\<lambda>i. i \<noteq> []) (cb_ItemIDs b))) (qa_Buckets opt))
      else if qa_Weight opt > 0 \<and> qa_ID opt \<noteq> [] \<and> qa_RightID opt \<noteq> [] then [(qa_ID opt, qa_RightID opt)] else [])"

definition gradeCategorization :: "quiz_env \<Rightarrow> string \<Rightarrow> string \<Rightarrow> rat \<Rightarrow> graded" where
  "gradeCategorization env answers ans points =
     with_options env answers (\<lambda>options. with_submission env (decode_map decode_string) ans (\<lambda>submitted.
       let key = concat (map bucket_entries options);
           items = remdups (map fst key);
           right = filter (\<lambda>i. entry submitted i = entry key i) items
       in if items = [] then wrong
          else (roundScore (add_shares (fdiv points (float_of_int (int (length items)))) (length right)), length right = length items, True)))"

definition inside_box :: "rat \<Rightarrow> rat \<Rightarrow> rat \<Rightarrow> rat \<Rightarrow> rat \<Rightarrow> rat \<Rightarrow> bool" where
  "inside_box cx cy x y w h =
     (if w \<le> 0 \<or> h \<le> 0 then False else cx \<ge> x \<and> cx \<le> fadd x w \<and> cy \<ge> y \<and> cy \<le> fadd y h)"

definition hit :: "rat \<Rightarrow> rat \<Rightarrow> answer_option \<Rightarrow> bool" where
  "hit cx cy opt =
     (qa_Weight opt > 0 \<and>
      (if qa_Regions opt \<noteq> [] then list_ex (\<lambda>r. inside_box cx cy (hs_X r) (hs_Y r) (hs_W r) (hs_H r)) (qa_Regions opt)
       else inside_box cx cy (qa_X opt) (qa_Y opt) (qa_Width opt) (qa_Height opt)))"

definition click_fields :: "(rat option \<times> rat option) field list" where
  "click_fields = [(''x'', into_float_ptr (\<lambda>v s. (v, snd s))), (''y'', into_float_ptr (\<lambda>v s. (fst s, v)))]"

definition gradeHotSpot :: "quiz_env \<Rightarrow> string \<Rightarrow> string \<Rightarrow> rat \<Rightarrow> graded" where
  "gradeHotSpot env answers ans points =
     with_options env answers (\<lambda>options.
       if TrimSpace ans = [] then wrong
       else case Option.bind (qe_parse env ans) (decode_struct click_fields (None, None)) of
           None \<Rightarrow> ungradable
         | Some (Some cx, Some cy) \<Rightarrow> if list_ex (hit cx cy) options then (roundScore points, True, True) else wrong
         | Some _ \<Rightarrow> wrong)"

definition matchOptionsSentinel :: string where
  "matchOptionsSentinel = ''_match_options_''"

definition matchingKey :: "answer_option \<Rightarrow> string" where
  "matchingKey opt = (if qa_Left opt \<noteq> [] then qa_Left opt else qa_ID opt)"

definition right_of :: "answer_option \<Rightarrow> string" where
  "right_of opt = (if qa_RightID opt = [] then qa_MatchID opt else qa_RightID opt)"

definition match_key :: "answer_option list \<Rightarrow> (string \<times> string) list" where
  "match_key options =
     map (\<lambda>opt. (matchingKey opt, right_of opt))
       (filter (\<lambda>opt. qa_BlankID opt \<noteq> matchOptionsSentinel \<and> matchingKey opt \<noteq> [] \<and> right_of opt \<noteq> []) options)"

definition pair_fields :: "(string \<times> string) field list" where
  "pair_fields = [(''left'', into_string (\<lambda>x s. (x, snd s))), (''right_id'', into_string (\<lambda>x s. (fst s, x)))]"

text \<open>Only the first pair submitted for a left side is looked at.\<close>

fun pair_loop :: "(string \<Rightarrow> string option) \<Rightarrow> (string \<times> string) list \<Rightarrow> string set \<Rightarrow> nat" where
  "pair_loop key [] seen = 0"
| "pair_loop key ((l, r) # pairs) seen =
     (if l \<in> seen then pair_loop key pairs seen
      else (if key l = Some r then 1 else 0) + pair_loop key pairs (insert l seen))"

definition gradeMatching :: "quiz_env \<Rightarrow> string \<Rightarrow> string \<Rightarrow> rat \<Rightarrow> graded" where
  "gradeMatching env answers ans points =
     with_options env answers (\<lambda>options. with_submission env (decode_list (decode_struct pair_fields ([], []))) ans (\<lambda>submitted.
       let key = match_key options; lefts = remdups (map fst key)
       in if lefts = [] then ungradable else share points (pair_loop (entry key) submitted {}) (length lefts)))"

definition parseBlankAnswers :: "quiz_env \<Rightarrow> string \<Rightarrow> (string \<times> string list) list option" where
  "parseBlankAnswers env raw =
     (let trimmed = TrimSpace raw
      in if has_prefix trimmed ''[''
         then map_option (\<lambda>options. map (\<lambda>b. (b, map qa_Text (filter (\<lambda>opt. qa_BlankID opt = b \<and> qa_Weight opt > 0) options)))
             (remdups (map qa_BlankID (filter (\<lambda>opt. qa_BlankID opt \<noteq> [] \<and> qa_Weight opt > 0) options))))
           (unmarshal_options env trimmed)
         else Option.bind (qe_parse env trimmed) (decode_map (decode_list decode_string)))"

definition blank_right :: "quiz_env \<Rightarrow> (string \<times> string) list \<Rightarrow> (string \<times> string list) list \<Rightarrow> string \<Rightarrow> bool" where
  "blank_right env submitted accepted b =
     (let user = folded env (case entry submitted b of Some t \<Rightarrow> t | None \<Rightarrow> [])
      in user \<noteq> [] \<and> list_ex (\<lambda>a. folded env a = user) (case entry accepted b of Some as \<Rightarrow> as | None \<Rightarrow> []))"

definition gradeFillInMultipleBlanks :: "quiz_env \<Rightarrow> string \<Rightarrow> string \<Rightarrow> rat \<Rightarrow> graded" where
  "gradeFillInMultipleBlanks env answers ans points =
     (case parseBlankAnswers env answers of
        None \<Rightarrow> ungradable
      | Some accepted \<Rightarrow> with_submission env (decode_map decode_string) ans (\<lambda>submitted.
          let bs = remdups (map fst accepted)
          in if bs = [] then ungradable else share points (length (filter (blank_right env submitted accepted) bs)) (length bs)))"

section \<open>Dispatch on the question type\<close>

definition NormalizeQuizQuestionType :: "string \<Rightarrow> string" where
  "NormalizeQuizQuestionType t =
     (case map_of
        [(''multiple_answers'', ''multiple_answer''), (''multiple_answers_question'', ''multiple_answer''),
         (''multiple_dropdowns'', ''multiple_dropdown''), (''multiple_dropdowns_question'', ''multiple_dropdown''),
         (''multiple_choice_question'', ''multiple_choice''), (''true_false_question'', ''true_false''),
         (''short_answer_question'', ''short_answer''), (''essay_question'', ''essay''), (''matching_question'', ''matching''),
         (''fill_in_multiple_blanks_question'', ''fill_in_multiple_blanks''), (''file_upload_question'', ''file_upload''),
         (''text_only_question'', ''text_only''), (''calculated_question'', ''formula'')] t of
        Some u \<Rightarrow> u | None \<Rightarrow> t)"

type_synonym grader = "quiz_env \<Rightarrow> string \<Rightarrow> string \<Rightarrow> rat \<Rightarrow> graded"

text \<open>Essays and uploads need a person; informational items are worth nothing and never block.\<close>

definition graders :: "(string \<times> grader) list" where
  "graders =
     [(''multiple_choice'', gradeMultipleChoice), (''true_false'', gradeMultipleChoice), (''short_answer'', gradeShortAnswer),
      (''numerical_question'', gradeNumerical), (''essay'', \<lambda>_ _ _ _. ungradable), (''matching'', gradeMatching),
      (''fill_in_multiple_blanks'', gradeFillInMultipleBlanks), (''multiple_answer'', gradeMultipleAnswer),
      (''multiple_dropdown'', gradeMultipleDropdown), (''fill_in_the_blank'', gradeFillInTheBlank), (''formula'', gradeFormula),
      (''file_upload'', \<lambda>_ _ _ _. ungradable), (''ordering'', gradeOrdering), (''categorization'', gradeCategorization),
      (''hot_spot'', gradeHotSpot), (''text_only'', \<lambda>_ _ _ _. wrong)]"

definition autoGradeWithPoints :: "quiz_env \<Rightarrow> string \<Rightarrow> string \<Rightarrow> string \<Rightarrow> rat \<Rightarrow> graded" where
  "autoGradeWithPoints env qtype answers ans points =
     (case map_of graders (NormalizeQuizQuestionType qtype) of Some g \<Rightarrow> g env answers ans points | None \<Rightarrow> ungradable)"

definition autoGrade :: "quiz_env \<Rightarrow> string \<Rightarrow> string \<Rightarrow> string \<Rightarrow> rat option \<Rightarrow> graded" where
  "autoGrade env qtype answers ans pointsPossible =
     autoGradeWithPoints env qtype answers ans (case pointsPossible of Some p \<Rightarrow> p | None \<Rightarrow> 1)"

section \<open>Scores\<close>

lemma roundScore_0 [simp]: "roundScore 0 = 0"
  by (simp add: roundScore_def float_ops math_Round_of_int [of 0, simplified])

lemma roundScore_mono: "x \<le> y \<Longrightarrow> roundScore x \<le> roundScore y"
  unfolding roundScore_def float_ops by (intro f64_mono divide_right_mono) (simp_all add: math_Round_mono f64_mono)

lemma roundScore_nonneg: "0 \<le> x \<Longrightarrow> 0 \<le> roundScore x"
  using roundScore_mono [of 0 x] by simp

lemma float_of_int_nonneg: "0 \<le> n \<Longrightarrow> 0 \<le> float_of_int n"
  unfolding float_of_int_def using f64_mono [of 0 "of_int n"] by simp

lemma share_mono:
  assumes "0 \<le> points" "r \<le> r'"
  shows "fst (share points r n) \<le> fst (share points r' n)"
  unfolding share_def fst_conv float_ops
  by (intro roundScore_mono f64_mono divide_right_mono mult_left_mono float_of_int_nonneg assms)
     (use assms(2) in \<open>simp_all add: float_of_int_def f64_mono\<close>)

lemma share_0 [simp]: "fst (share points 0 n) = 0"
  by (simp add: share_def float_ops float_of_int_def)

lemma share_nonneg: "0 \<le> points \<Longrightarrow> 0 \<le> fst (share points r n)"
  using share_mono [of points 0 r n] by simp

lemma add_shares_0 [simp]: "add_shares per 0 = 0"
  by (simp add: add_shares_def)

lemma add_shares_Suc: "add_shares per (Suc n) = fadd (add_shares per n) per"
  by (simp add: add_shares_def)

lemma add_shares_float: "f64 (add_shares per n) = add_shares per n"
  by (cases n) (simp_all add: add_shares_Suc float_ops)

lemma add_shares_step: "0 \<le> per \<Longrightarrow> add_shares per n \<le> add_shares per (Suc n)"
  using f64_mono [of "add_shares per n" "add_shares per n + per"] by (simp add: add_shares_Suc float_ops add_shares_float)

lemma add_shares_mono: "0 \<le> per \<Longrightarrow> m \<le> n \<Longrightarrow> add_shares per m \<le> add_shares per n"
  by (rule lift_Suc_mono_le [of "add_shares per", OF add_shares_step])

lemma add_shares_nonneg: "0 \<le> per \<Longrightarrow> 0 \<le> add_shares per n"
  using add_shares_mono [of per 0 n] by simp

lemma per_nonneg: "0 \<le> points \<Longrightarrow> 0 \<le> fdiv points (float_of_int (int n))"
  unfolding float_ops using f64_mono [of 0 "points / float_of_int (int n)"] float_of_int_nonneg [of "int n"] by simp

text \<open>The selection loop: the score never exceeds the shares of the correct options seen, and reaches them while nothing wrong was selected.\<close>

lemma selection_loop_bound:
  assumes "selection_loop correct per sels seen score exact = (score', seen', exact')" "0 \<le> per" "finite correct" "finite seen"
    "f64 score = score" "score \<le> add_shares per (card (seen \<inter> correct))"
  shows "score' \<le> add_shares per (card correct)"
  using assms
proof (induction correct per sels seen score exact rule: selection_loop.induct)
  case (1 correct per seen score exact)
  then have "add_shares per (card (seen \<inter> correct)) \<le> add_shares per (card correct)"
    by (intro add_shares_mono card_mono) auto
  with 1 show ?case by simp
next
  case (2 correct per sel sels seen score exact)
  consider "sel \<in> seen" | "sel \<notin> seen" "sel \<in> correct" | "sel \<notin> seen" "sel \<notin> correct" by blast
  then show ?case
  proof cases
    case 1
    then show ?thesis using 2 by simp
  next
    case 2
    with "2.prems" have "fadd score per \<le> add_shares per (card (insert sel seen \<inter> correct))"
      by (simp add: add_shares_Suc float_ops f64_mono)
    with 2 "2.IH"(2) "2.prems" show ?thesis by (simp add: float_ops)
  next
    case 3
    with "2.prems" have "fsub score per \<le> add_shares per (card (insert sel seen \<inter> correct))"
      using f64_mono [of "score - per" score] by (simp add: float_ops)
    with 3 "2.IH"(3) "2.prems" show ?thesis by (simp add: float_ops)
  qed
qed

lemma selection_loop_exact:
  assumes "selection_loop correct per sels seen score exact = (score', seen', exact')" "finite seen"
    "exact \<Longrightarrow> seen \<subseteq> correct \<and> score = add_shares per (card seen)"
  shows "seen' = seen \<union> set sels \<and> (exact' \<longleftrightarrow> exact \<and> set sels - seen \<subseteq> correct) \<and>
         (exact' \<longrightarrow> seen' \<subseteq> correct \<and> score' = add_shares per (card seen'))"
  using assms
proof (induction correct per sels seen score exact rule: selection_loop.induct)
  case (2 correct per sel sels seen score exact)
  consider "sel \<in> seen" | "sel \<notin> seen" "sel \<in> correct" | "sel \<notin> seen" "sel \<notin> correct" by blast
  then show ?case
  proof cases
    case 1
    then show ?thesis using 2 by auto
  next
    case 2
    with "2.prems" "2.IH"(2) show ?thesis by (auto simp: add_shares_Suc)
  next
    case 3
    with "2.prems" "2.IH"(3) show ?thesis by auto
  qed
qed auto

text \<open>
  A grader has a cap: every result lies between zero and the cap, and a result marked correct is
  the cap.
\<close>

definition capped :: "('b \<Rightarrow> graded) \<Rightarrow> bool" where
  "capped grade \<longleftrightarrow> (\<exists>cap\<ge>0. \<forall>x. 0 \<le> fst (grade x) \<and> fst (grade x) \<le> cap \<and> (fst (snd (grade x)) \<longrightarrow> fst (grade x) = cap))"

lemma cappedI:
  assumes "0 \<le> cap" "\<And>x. 0 \<le> fst (grade x)" "\<And>x. fst (grade x) \<le> cap" "\<And>x. fst (snd (grade x)) \<Longrightarrow> fst (grade x) = cap"
  shows "capped grade"
  using assms unfolding capped_def by blast

lemma capped_const [simp, intro]: "capped (\<lambda>_. ungradable)" "capped (\<lambda>_. wrong)"
  by (rule cappedI [of 0]; simp add: ungradable_def wrong_def)+

lemma capped_with_options:
  assumes "\<And>options. capped (grade options)"
  shows "capped (\<lambda>ans. with_options env answers (\<lambda>options. grade options ans))"
  using assms by (cases "unmarshal_options env answers") (simp_all add: with_options_def)

lemma capped_with_submission:
  assumes "capped grade"
  shows "capped (\<lambda>ans. with_submission env decode (pre ans) grade)"
proof -
  from assms obtain cap where cap: "0 \<le> cap"
    "\<And>x. 0 \<le> fst (grade x) \<and> fst (grade x) \<le> cap \<and> (fst (snd (grade x)) \<longrightarrow> fst (grade x) = cap)"
    unfolding capped_def by blast
  show ?thesis
    by (rule cappedI [OF cap(1)])
       (use cap in \<open>simp_all add: with_submission_def ungradable_def split: option.splits\<close>)
qed

lemma capped_if: "(\<not> b \<Longrightarrow> capped grade) \<Longrightarrow> capped other \<Longrightarrow> capped (\<lambda>x. if b then other x else grade x)"
  by (cases b) auto

lemma capped_share:
  assumes "0 \<le> points" "\<And>x. right x \<le> n"
  shows "capped (\<lambda>x. share points (right x) n)"
  using share_nonneg [OF assms(1)] share_mono [OF assms(1) assms(2)]
  by (intro cappedI [of "fst (share points n n)"]) (simp_all, simp add: share_def)

lemma capped_add_shares:
  assumes "0 \<le> per" "\<And>x. right x \<le> n"
  shows "capped (\<lambda>x. (roundScore (add_shares per (right x)), right x = n, True))"
  by (rule cappedI [of "roundScore (add_shares per n)"])
     (use assms in \<open>simp_all add: roundScore_nonneg add_shares_nonneg roundScore_mono add_shares_mono\<close>)

lemma right_places_le: "right_places canonical submitted \<le> length canonical"
  unfolding right_places_def by (rule order.trans [OF length_filter_le]) simp

lemma pair_loop_le: "finite (dom key) \<Longrightarrow> pair_loop key pairs seen \<le> card (dom key - seen)"
proof (induction key pairs seen rule: pair_loop.induct)
  case (2 key l r pairs seen)
  have sub: "dom key - insert l seen \<subseteq> dom key - seen" by blast
  have le: "card (dom key - insert l seen) \<le> card (dom key - seen)" using 2(3) by (intro card_mono sub) simp
  have lt: "card (dom key - insert l seen) < card (dom key - seen)" if "key l = Some r" "l \<notin> seen"
    using 2(3) that by (intro psubset_card_mono) auto
  show ?case using 2 le lt by fastforce
qed simp

lemma dom_entry: "dom (entry kvs) = set (map fst kvs)"
  using dom_map_of_conv_image_fst [of "rev kvs"] by (simp add: entry_def [abs_def])

lemma pair_loop_lefts: "pair_loop (entry key) pairs {} \<le> length (remdups (map fst key))"
  using pair_loop_le [of "entry key" pairs "{}"] by (simp only: dom_entry length_remdups_card_conv) simp

lemma capped_selection:
  assumes "0 \<le> points"
  shows "capped (\<lambda>selected. let (score, seen, exact) =
                 selection_loop (set ids) (fdiv points (float_of_int (int (length (remdups ids))))) selected {} 0 True
               in (roundScore (if score < 0 then 0 else score), exact \<and> set ids \<subseteq> seen, True))"
    (is "capped ?grade")
proof (rule cappedI [of "roundScore (add_shares (fdiv points (float_of_int (int (length (remdups ids))))) (card (set ids)))"])
  define per where "per = fdiv points (float_of_int (int (length (remdups ids))))"
  have per: "0 \<le> per" using assms by (simp add: per_def per_nonneg)
  let ?cap = "add_shares per (card (set ids))"
  show "0 \<le> roundScore (add_shares (fdiv points (float_of_int (int (length (remdups ids))))) (card (set ids)))"
    using per by (simp add: per_def roundScore_nonneg add_shares_nonneg)
  fix selected
  obtain score seen exact where run: "selection_loop (set ids) per selected {} 0 True = (score, seen, exact)"
    by (metis prod_cases3)
  have le: "score \<le> ?cap" using selection_loop_bound [OF run per] by simp
  have ex: "exact \<Longrightarrow> set ids \<subseteq> seen \<Longrightarrow> score = ?cap"
    using selection_loop_exact [OF run] by (simp add: subset_antisym)
  note run = run [unfolded per_def]
  show "0 \<le> fst (?grade selected)" by (simp add: run roundScore_nonneg)
  show "fst (?grade selected) \<le> roundScore (add_shares (fdiv points (float_of_int (int (length (remdups ids))))) (card (set ids)))"
    using le per by (simp add: run per_def roundScore_mono roundScore_nonneg add_shares_nonneg)
  show "fst (?grade selected) = roundScore (add_shares (fdiv points (float_of_int (int (length (remdups ids))))) (card (set ids)))"
    if "fst (snd (?grade selected))"
    using that ex add_shares_nonneg [OF per, of "card (set ids)"] by (simp add: run per_def not_less)
qed

lemma graders_cases:
  "map_of graders ''matching'' = Some gradeMatching" "map_of graders ''fill_in_multiple_blanks'' = Some gradeFillInMultipleBlanks"
  "map_of graders ''multiple_answer'' = Some gradeMultipleAnswer" "map_of graders ''multiple_dropdown'' = Some gradeMultipleDropdown"
  "map_of graders ''ordering'' = Some gradeOrdering" "map_of graders ''categorization'' = Some gradeCategorization"
  "map_of graders ''hot_spot'' = Some gradeHotSpot"
  by (simp_all add: graders_def)

lemma capped_gradeMatching: "0 \<le> points \<Longrightarrow> capped (\<lambda>ans. gradeMatching env answers ans points)"
  unfolding gradeMatching_def Let_def
  by (intro capped_with_options capped_with_submission capped_if capped_share capped_const pair_loop_lefts)

lemma capped_gradeOrdering: "0 \<le> points \<Longrightarrow> capped (\<lambda>ans. gradeOrdering env answers ans points)"
  unfolding gradeOrdering_def Let_def
  by (intro capped_with_options capped_with_submission capped_if capped_share capped_const right_places_le)

lemma capped_gradeFillInMultipleBlanks: "0 \<le> points \<Longrightarrow> capped (\<lambda>ans. gradeFillInMultipleBlanks env answers ans points)"
  unfolding gradeFillInMultipleBlanks_def Let_def
  by (cases "parseBlankAnswers env answers")
     (simp_all add: capped_with_submission capped_if capped_share)

lemma capped_gradeMultipleDropdown: "0 \<le> points \<Longrightarrow> capped (\<lambda>ans. gradeMultipleDropdown env answers ans points)"
  unfolding gradeMultipleDropdown_def Let_def
  by (intro capped_with_options capped_with_submission capped_if capped_add_shares capped_const per_nonneg length_filter_le)

lemma capped_gradeCategorization: "0 \<le> points \<Longrightarrow> capped (\<lambda>ans. gradeCategorization env answers ans points)"
  unfolding gradeCategorization_def Let_def
  by (intro capped_with_options capped_with_submission capped_if capped_add_shares capped_const per_nonneg length_filter_le)

lemma capped_gradeMultipleAnswer: "0 \<le> points \<Longrightarrow> capped (\<lambda>ans. gradeMultipleAnswer env answers ans points)"
  unfolding gradeMultipleAnswer_def Let_def
  using capped_selection [of points "correct_ids options" for options]
  by (intro capped_with_options capped_with_submission capped_if capped_const) (simp_all add: correct_ids_def Let_def remdups_remdups)

lemma capped_gradeHotSpot:
  assumes "0 \<le> points"
  shows "capped (\<lambda>ans. gradeHotSpot env answers ans points)"
  unfolding gradeHotSpot_def
  by (intro capped_with_options cappedI [of "roundScore points"])
     (use assms in \<open>auto simp: roundScore_nonneg wrong_def ungradable_def split: option.splits prod.splits if_splits\<close>)

definition part_credit_types :: "string list" where
  "part_credit_types = [''matching'', ''fill_in_multiple_blanks'', ''multiple_answer'', ''multiple_dropdown'', ''ordering'', ''categorization'', ''hot_spot'']"

lemma capped_autoGrade:
  assumes "NormalizeQuizQuestionType qtype \<in> set part_credit_types" "0 \<le> points"
  shows "capped (\<lambda>ans. autoGradeWithPoints env qtype answers ans points)"
  using assms
  by (simp add: part_credit_types_def autoGradeWithPoints_def) 
     (elim disjE; simp add: graders_cases capped_gradeMatching capped_gradeOrdering capped_gradeFillInMultipleBlanks
        capped_gradeMultipleDropdown capped_gradeCategorization capped_gradeMultipleAnswer capped_gradeHotSpot)

text \<open>
  C22. For the question types that give part credit, an answer marked correct is worth the most: if the
  grader marks some answer of a question correct, then every other answer to it earns between zero and
  the points of that one, whatever document was handed in, duplicates and unknown options included,
  and two answers marked correct earn the same.
\<close>

theorem correct_answer_is_worth_most:
  assumes "NormalizeQuizQuestionType qtype \<in> set part_credit_types" "0 \<le> points"
    "autoGradeWithPoints env qtype answers best points = (full, True, gr)"
    "autoGradeWithPoints env qtype answers ans points = (score, right, gr')"
  shows "0 \<le> score \<and> score \<le> full \<and> (right \<longrightarrow> score = full)"
proof -
  from capped_autoGrade [OF assms(1,2), of env answers] obtain cap where
    "\<And>x. 0 \<le> fst (autoGradeWithPoints env qtype answers x points) \<and> fst (autoGradeWithPoints env qtype answers x points) \<le> cap \<and>
       (fst (snd (autoGradeWithPoints env qtype answers x points)) \<longrightarrow> fst (autoGradeWithPoints env qtype answers x points) = cap)"
    unfolding capped_def by blast
  from this [of best] this [of ans] show ?thesis by (simp add: assms(3,4))
qed

section \<open>Blank answers\<close>

definition no_credit :: "graded \<Rightarrow> bool" where
  "no_credit r \<longleftrightarrow> fst r = 0 \<and> \<not> fst (snd r)"

lemma no_credit_simps [simp]: "no_credit ungradable" "no_credit wrong" "0 < n \<Longrightarrow> no_credit (share points 0 n)"
  by (simp_all add: no_credit_def ungradable_def wrong_def) (simp add: share_def)

lemma no_credit_with_options:
  "(\<And>options. unmarshal_options env answers = Some options \<Longrightarrow> no_credit (grade options)) \<Longrightarrow> no_credit (with_options env answers grade)"
  by (cases "unmarshal_options env answers") (simp_all add: with_options_def)

lemma with_submission_blank: "TrimSpace ans = [] \<Longrightarrow> with_submission env decode ans grade = grade []"
  by (simp add: with_submission_def submitted_doc_def)

lemma no_credit_no_match: "(\<And>opt. opt \<in> set options \<Longrightarrow> \<not> ok opt) \<Longrightarrow> no_credit (first_match ok options points weight)"
  by (simp add: first_match_def find_None_iff [THEN iffD2])

lemma numericalMatch_blank: "TrimSpace s = [] \<Longrightarrow> \<not> numericalMatch env s opt"
  by (simp add: numericalMatch_def)

lemma TrimSpace_Nil [simp]: "TrimSpace [] = []"
  by (simp add: TrimSpace_def)

lemma blank_texts:
  assumes "TrimSpace ans = []" "\<And>s. TrimSpace s = [] \<Longrightarrow> TrimSpace (qe_ToLower env s) = []"
  shows "no_credit (gradeShortAnswer env answers ans points)" "no_credit (gradeNumerical env answers ans points)"
    "no_credit (gradeFillInTheBlank env answers ans points)" "no_credit (gradeFormula env answers ans points)"
  using assms
  by (simp_all add: gradeShortAnswer_def gradeNumerical_def gradeFillInTheBlank_def gradeFormula_def folded_def Let_def
      no_credit_with_options no_credit_no_match numericalMatch_blank)

lemma blank_choices:
  assumes "TrimSpace ans = []" "\<And>options opt. unmarshal_options env answers = Some options \<Longrightarrow> opt \<in> set options \<Longrightarrow> qa_ID opt \<noteq> []"
  shows "no_credit (gradeMultipleChoice env answers ans points)" "no_credit (gradeMultipleDropdown env answers ans points)"
proof -
  show "no_credit (gradeMultipleChoice env answers ans points)"
    unfolding gradeMultipleChoice_def using assms by (intro no_credit_with_options no_credit_no_match) auto
  show "no_credit (gradeMultipleDropdown env answers ans points)"
    unfolding gradeMultipleDropdown_def with_submission_blank [OF assms(1)]
  proof (rule no_credit_with_options)
    fix options
    assume "unmarshal_options env answers = Some options"
    then have "\<not> accepts_in options b []" for b using assms(2) by (auto simp: accepts_in_def list_ex_iff)
    then show "no_credit (let bs = blanks options;
                 right = filter (\<lambda>b. accepts_in options b (case entry [] b of Some i \<Rightarrow> i | None \<Rightarrow> [])) bs
             in if bs = [] then wrong
                else (roundScore (add_shares (fdiv points (float_of_int (int (length bs)))) (length right)), length right = length bs, True))"
      by (simp add: entry_def no_credit_def wrong_def Let_def)
  qed
qed

lemma blank_documents:
  assumes "TrimSpace ans = []" "\<And>s. TrimSpace s = [] \<Longrightarrow> TrimSpace (qe_ToLower env s) = []"
  shows "no_credit (gradeMultipleAnswer env answers ans points)" "no_credit (gradeOrdering env answers ans points)"
    "no_credit (gradeCategorization env answers ans points)" "no_credit (gradeHotSpot env answers ans points)"
    "no_credit (gradeMatching env answers ans points)" "no_credit (gradeFillInMultipleBlanks env answers ans points)"
proof -
  note blank = with_submission_blank [OF assms(1)]
  show "no_credit (gradeMultipleAnswer env answers ans points)"
    unfolding gradeMultipleAnswer_def
    by (rule no_credit_with_options) (simp add: assms(1) with_submission_blank Let_def, simp add: no_credit_def)
  show "no_credit (gradeOrdering env answers ans points)"
    unfolding gradeOrdering_def blank by (rule no_credit_with_options) (simp add: Let_def right_places_def)
  show "no_credit (gradeCategorization env answers ans points)"
    unfolding gradeCategorization_def blank
  proof (rule no_credit_with_options)
    fix options :: "answer_option list"
    let ?key = "concat (map bucket_entries options)"
    have none: "filter (\<lambda>i. entry [] i = entry ?key i) (remdups (map fst ?key)) = []"
    proof -
      have "entry ?key i \<noteq> entry [] i" if "i \<in> set (map fst ?key)" for i
        using that unfolding dom_entry [symmetric] by (auto simp: entry_def)
      then show ?thesis by (simp add: filter_empty_conv del: set_map) metis
    qed
    show "no_credit (let key = ?key; items = remdups (map fst key); right = filter (\<lambda>i. entry [] i = entry key i) items
             in if items = [] then wrong
                else (roundScore (add_shares (fdiv points (float_of_int (int (length items)))) (length right)), length right = length items, True))"
      unfolding Let_def none by (simp add: no_credit_def wrong_def)
  qed
  show "no_credit (gradeHotSpot env answers ans points)"
    unfolding gradeHotSpot_def by (rule no_credit_with_options) (simp add: assms(1))
  show "no_credit (gradeMatching env answers ans points)"
    unfolding gradeMatching_def blank by (rule no_credit_with_options) (simp add: Let_def)
  show "no_credit (gradeFillInMultipleBlanks env answers ans points)"
    unfolding gradeFillInMultipleBlanks_def blank
    by (cases "parseBlankAnswers env answers") (simp_all add: Let_def blank_right_def entry_def folded_def assms(2))
qed


text \<open>
  C21. A checkbox answer is marked correct exactly when the set of selected ids is the set of the ids
  of the options with a positive weight: the order and repetitions of the selection do not matter, and
  one unknown or wrong id is enough to lose the mark.
\<close>

theorem checkboxes_correct_iff_exact_set:
  assumes "unmarshal_options env answers = Some options"
    "submitted_doc env (decode_list decode_string) (TrimSpace ans) = Some selected"
  shows "fst (snd (gradeMultipleAnswer env answers ans points)) \<longleftrightarrow>
           selected \<noteq> [] \<and> set selected = {qa_ID opt | opt. opt \<in> set options \<and> qa_Weight opt > 0}"
proof -
  let ?ids = "correct_ids options"
  have ids: "{qa_ID opt | opt. opt \<in> set options \<and> qa_Weight opt > 0} = set ?ids" by (auto simp: correct_ids_def)
  obtain score seen exact where
    run: "selection_loop (set ?ids) (fdiv points (float_of_int (int (length ?ids)))) selected {} 0 True = (score, seen, exact)"
    by (metis prod_cases3)
  from selection_loop_exact [OF run] have loop: "seen = set selected \<and> (exact \<longleftrightarrow> set selected \<subseteq> set ?ids)" by simp
  show ?thesis
  proof (cases "?ids = []")
    case True
    then show ?thesis
      by (simp add: ids gradeMultipleAnswer_def with_options_def with_submission_def assms wrong_def)
  next
    case False
    then show ?thesis
      using loop by (auto simp: ids gradeMultipleAnswer_def with_options_def with_submission_def assms run Let_def)
  qed
qed

section \<open>A sample question\<close>

definition pair_json :: "string \<Rightarrow> string \<Rightarrow> json" where
  "pair_json l r = JObj [(''left'', JStr l), (''right_id'', JStr r)]"

definition choice_json :: "string \<Rightarrow> string \<Rightarrow> json" where
  "choice_json i w = JObj [(''id'', JStr i), (''weight'', JNum w)]"

text \<open>Each text stands for the document that the scanner makes of it.\<close>

definition exam_env :: quiz_env where
  "exam_env = \<lparr>qe_parse = map_of
      [(''pairs'', JArr [pair_json ''a'' ''x'', pair_json ''b'' ''y'']),
       (''both'', JArr [pair_json ''b'' ''y'', pair_json ''a'' ''x'']),
       (''shotgun'', JArr [pair_json ''a'' ''y'', pair_json ''a'' ''x'', pair_json ''b'' ''y'']),
       (''boxes'', JArr [choice_json ''p'' ''100'', choice_json ''q'' ''0'', choice_json ''r'' ''100'']),
       (''ticked'', JArr [JStr ''r'', JStr ''p'', JStr ''r'']),
       (''unlabelled'', JArr [JObj [(''text'', JStr ''yes''), (''weight'', JNum ''100'')]])],
     qe_ToLower = id, qe_Rat = \<lambda>_. None, qe_ParseFloat = \<lambda>_. None\<rparr>"

theorem correct_answer_is_worth_most_witness:
  "autoGradeWithPoints exam_env ''matching_question'' ''pairs'' ''both'' 2 = (2, True, True) \<and>
   autoGradeWithPoints exam_env ''matching_question'' ''pairs'' ''shotgun'' 2 = (1, False, True) \<and> (0::rat) \<le> 1 \<and> (1::rat) \<le> 2"
proof -
  have t: "NormalizeQuizQuestionType ''matching_question'' \<in> set part_credit_types" by code_simp
  have b: "autoGradeWithPoints exam_env ''matching_question'' ''pairs'' ''both'' 2 = (2, True, True)" by code_simp
  have a: "autoGradeWithPoints exam_env ''matching_question'' ''pairs'' ''shotgun'' 2 = (1, False, True)" by code_simp
  show ?thesis using correct_answer_is_worth_most [OF t _ b a] b a by simp
qed

theorem checkboxes_correct_iff_exact_set_witness:
  "fst (snd (gradeMultipleAnswer exam_env ''boxes'' ''ticked'' 4))"
proof -
  define options where "options = the (unmarshal_options exam_env ''boxes'')"
  have o: "unmarshal_options exam_env ''boxes'' = Some options"
    unfolding options_def by code_simp
  have s: "submitted_doc exam_env (decode_list decode_string) (TrimSpace ''ticked'') = Some [''r'', ''p'', ''r'']" by code_simp
  have "correct_ids options = [''p'', ''r'']"
    unfolding options_def by code_simp
  moreover have "{qa_ID opt | opt. opt \<in> set options \<and> qa_Weight opt > 0} = set (correct_ids options)"
    by (auto simp: correct_ids_def)
  ultimately have "[''r'', ''p'', ''r''] \<noteq> [] \<and> set [''r'', ''p'', ''r''] = {qa_ID opt | opt. opt \<in> set options \<and> qa_Weight opt > 0}"
    by auto
  then show ?thesis by (rule checkboxes_correct_iff_exact_set [OF o s, THEN iffD2])
qed


text \<open>Without the hypothesis on the ids the statement fails: an accepted option without an id credits a blank answer in full.\<close>

lemma unlabelled_option_credits_blank: "autoGrade exam_env ''multiple_choice'' ''unlabelled'' '' '' None = (1, True, True)"
  by code_simp

end
