(* ===== verification/Quiz_Formula.thy ===== *)
theory Quiz_Formula imports Quiz_Grading begin

text \<open>
  Formula questions (\<open>internal/service/quiz_formula.go\<close>): the recursive-descent evaluator of
  author-written formulas, the values an attempt is given, the substitution of these values into the
  question text, and the grading of an answer in the context of its attempt.

  The evaluator works on any type of floating-point numbers: the arithmetic and the functions of the
  \<open>math\<close> package are parameters, since intermediate results may be infinite or not a number. Its
  result, when it is finite, is a rational as in the rest of the development. Runes are their code
  points; the character classes beyond ASCII are parameters.

  The functions of the parser call each other on what is left of the formula, so each takes fuel.
  A call that consumes nothing goes one level down, and there are six levels, so six units of fuel for each
  rune are enough; \<open>formula_evaluation_terminates\<close> is the proof.
\<close>

section \<open>Runes\<close>

definition cont :: "nat \<Rightarrow> bool" where "cont b = (128 \<le> b \<and> b < 192)"

text \<open>The rune at the start of some bytes, and its width; what is not UTF-8 is the replacement character, one byte wide.\<close>

definition bad_rune :: "nat \<times> nat" where "bad_rune = (65533, 1)"

fun decode_rune :: "nat list \<Rightarrow> nat \<times> nat" where
  "decode_rune [] = (65533, 0)"
| "decode_rune (a # bs) =
     (if a < 128 then (a, 1)
      else if a < 194 then bad_rune
      else if a < 224 then (case bs of b # _ \<Rightarrow> if cont b then ((a - 192) * 64 + (b - 128), 2) else bad_rune | _ \<Rightarrow> bad_rune)
      else if a < 240
      then (case bs of b # c # _ \<Rightarrow>
              if cont b \<and> cont c \<and> (a = 224 \<longrightarrow> 160 \<le> b) \<and> (a = 237 \<longrightarrow> b < 160)
              then ((a - 224) * 4096 + (b - 128) * 64 + (c - 128), 3) else bad_rune
            | _ \<Rightarrow> bad_rune)
      else if a < 245
      then (case bs of b # c # d # _ \<Rightarrow>
              if cont b \<and> cont c \<and> cont d \<and> (a = 240 \<longrightarrow> 144 \<le> b) \<and> (a = 244 \<longrightarrow> b < 144)
              then ((a - 240) * 262144 + (b - 128) * 4096 + (c - 128) * 64 + (d - 128), 4) else bad_rune
            | _ \<Rightarrow> bad_rune)
      else bad_rune)"

function runes_of :: "nat list \<Rightarrow> nat list" where
  "runes_of bs = (if bs = [] then [] else let (r, w) = decode_rune bs in r # runes_of (drop (max 1 w) bs))"
  by auto
termination by (relation "measure length") auto

declare runes_of.simps [simp del]

definition runes :: "string \<Rightarrow> nat list" where "runes s = runes_of (map of_char s)"

definition encode_rune :: "nat \<Rightarrow> nat list" where
  "encode_rune r =
     (if r < 128 then [r]
      else if r < 2048 then [192 + r div 64, 128 + r mod 64]
      else if r < 65536 then [224 + r div 4096, 128 + r div 64 mod 64, 128 + r mod 64]
      else [240 + r div 262144, 128 + r div 4096 mod 64, 128 + r div 64 mod 64, 128 + r mod 64])"

definition text_of :: "nat list \<Rightarrow> string" where "text_of rs = map char_of (concat (map encode_rune rs))"

section \<open>Parameters and results\<close>

record 'f formula_env =
  fe_quiz :: quiz_env
  fe_IsSpace :: "nat \<Rightarrow> bool"
  fe_IsDigit :: "nat \<Rightarrow> bool"
  fe_IsLetter :: "nat \<Rightarrow> bool"
  fe_ParseFloat :: "string \<Rightarrow> 'f option"
  fe_of :: "rat \<Rightarrow> 'f"
  fe_finite :: "'f \<Rightarrow> rat option"
  fe_isZero :: "'f \<Rightarrow> bool"
  fe_neg :: "'f \<Rightarrow> 'f"
  fe_op :: "char \<Rightarrow> 'f \<Rightarrow> 'f \<Rightarrow> 'f"
  fe_const :: "string \<Rightarrow> 'f"
  fe_math1 :: "string \<Rightarrow> 'f \<Rightarrow> 'f"
  fe_math2 :: "string \<Rightarrow> 'f \<Rightarrow> 'f \<Rightarrow> 'f"
  fe_Float64 :: "int \<Rightarrow> nat \<Rightarrow> rat"
  fe_HMAC :: "nat list \<Rightarrow> int"

text \<open>\<open>fe_math1\<close>, \<open>fe_math2\<close> and \<open>fe_const\<close> take the name a function or constant has in the \<open>math\<close> package.\<close>

datatype formula_error =
    TooLong | Unexpected nat | NotFinite | TooDeep | DivisionByZero | UnexpectedEnd | MissingParen | MissingParenAfter string
  | BadNumber string | UnknownFunction string nat | UnknownVariable string | OutOfFuel

definition is_space :: "'f formula_env \<Rightarrow> nat \<Rightarrow> bool" where
  "is_space env r = (if r < 128 then r = 32 \<or> 9 \<le> r \<and> r \<le> 13 else fe_IsSpace env r)"

definition is_digit_rune :: "'f formula_env \<Rightarrow> nat \<Rightarrow> bool" where
  "is_digit_rune env r = (if r < 128 then 48 \<le> r \<and> r \<le> 57 else fe_IsDigit env r)"

definition is_letter :: "'f formula_env \<Rightarrow> nat \<Rightarrow> bool" where
  "is_letter env r = (if r < 128 then 65 \<le> r \<and> r \<le> 90 \<or> 97 \<le> r \<and> r \<le> 122 else fe_IsLetter env r)"

text \<open>A parser returns nothing when its fuel is used up, an error, or a value and the runes that are left.\<close>

type_synonym 'a parsed = "(formula_error + 'a \<times> nat list) option"

definition fails :: "formula_error \<Rightarrow> 'a parsed" where "fails e = Some (Inl e)"

definition gives :: "'a \<Rightarrow> nat list \<Rightarrow> 'a parsed" where "gives v s = Some (Inr (v, s))"

definition next_do :: "'a parsed \<Rightarrow> ('a \<Rightarrow> nat list \<Rightarrow> 'b parsed) \<Rightarrow> 'b parsed" where
  "next_do p k = (case p of None \<Rightarrow> None | Some (Inl e) \<Rightarrow> fails e | Some (Inr (v, s)) \<Rightarrow> k v s)"

section \<open>The evaluator\<close>

definition skipSpace :: "'f formula_env \<Rightarrow> nat list \<Rightarrow> nat list" where
  "skipSpace env s = dropWhile (is_space env) s"

text \<open>The rune \<open>peek\<close> returns after it has skipped the white space; zero at the end.\<close>

definition peek :: "nat list \<Rightarrow> nat" where "peek s = (case s of [] \<Rightarrow> 0 | c # _ \<Rightarrow> c)"

abbreviation rune :: "char \<Rightarrow> nat" where "rune c \<equiv> of_char c"

definition num_char :: "'f formula_env \<Rightarrow> nat \<Rightarrow> bool" where
  "num_char env r = (is_digit_rune env r \<or> r = rune (CHR ''.''))"

definition exponent_rest :: "'f formula_env \<Rightarrow> nat list \<Rightarrow> nat list option" where
  "exponent_rest env s =
     (case s of c # t \<Rightarrow>
        if c = rune (CHR ''e'') \<or> c = rune (CHR ''E'')
        then let u = (case t of d # u \<Rightarrow> if d = rune (CHR ''+'') \<or> d = rune (CHR ''-'') then u else t | [] \<Rightarrow> t)
             in if takeWhile (is_digit_rune env) u = [] then None else Some (dropWhile (is_digit_rune env) u)
        else None
      | [] \<Rightarrow> None)"

definition parseNumber :: "'f formula_env \<Rightarrow> nat list \<Rightarrow> 'f parsed" where
  "parseNumber env s =
     (let mantissa_rest = dropWhile (num_char env) s;
          rest = (case exponent_rest env mantissa_rest of Some r \<Rightarrow> r | None \<Rightarrow> mantissa_rest);
          t = text_of (take (length s - length rest) s)
      in case fe_ParseFloat env t of None \<Rightarrow> fails (BadNumber t) | Some v \<Rightarrow> gives v rest)"

definition formulaFuncs1 :: "(string \<times> string) list" where
  "formulaFuncs1 =
     [(''abs'', ''Abs''), (''sqrt'', ''Sqrt''), (''sin'', ''Sin''), (''cos'', ''Cos''), (''tan'', ''Tan''), (''asin'', ''Asin''),
      (''acos'', ''Acos''), (''atan'', ''Atan''), (''ln'', ''Log''), (''log'', ''Log10''), (''exp'', ''Exp''), (''round'', ''Round''),
      (''floor'', ''Floor''), (''ceil'', ''Ceil'')]"

definition formulaFuncs2 :: "(string \<times> string) list" where
  "formulaFuncs2 = [(''min'', ''Min''), (''max'', ''Max''), (''pow'', ''Pow'')]"

definition call_function :: "'f formula_env \<Rightarrow> string \<Rightarrow> 'f list \<Rightarrow> formula_error + 'f" where
  "call_function env name args =
     (let lname = qe_ToLower (fe_quiz env) name
      in case (map_of formulaFuncs1 lname, map_of formulaFuncs2 lname, args) of
           (Some f, _, [x]) \<Rightarrow> Inr (fe_math1 env f x)
         | (_, Some f, [x, y]) \<Rightarrow> Inr (fe_math2 env f x y)
         | _ \<Rightarrow> Inl (UnknownFunction name (length args)))"

definition named_value :: "'f formula_env \<Rightarrow> (string \<rightharpoonup> rat) \<Rightarrow> string \<Rightarrow> formula_error + 'f" where
  "named_value env vars name =
     (case vars name of
        Some v \<Rightarrow> Inr (fe_of env v)
      | None \<Rightarrow> if qe_ToLower (fe_quiz env) name = ''pi'' then Inr (fe_const env ''Pi'')
                else if qe_ToLower (fe_quiz env) name = ''e'' then Inr (fe_const env ''E'')
                else Inl (UnknownVariable name))"

definition lift_result :: "formula_error + 'a \<Rightarrow> nat list \<Rightarrow> 'a parsed" where
  "lift_result r s = (case r of Inl e \<Rightarrow> fails e | Inr v \<Rightarrow> gives v s)"

definition divide_op :: "'f formula_env \<Rightarrow> char \<Rightarrow> 'f \<Rightarrow> 'f \<Rightarrow> formula_error + 'f" where
  "divide_op env c left right = (if fe_isZero env right then Inl DivisionByZero else Inr (fe_op env c left right))"

definition name_char :: "'f formula_env \<Rightarrow> nat \<Rightarrow> bool" where
  "name_char env r = (is_letter env r \<or> is_digit_rune env r \<or> r = rune (CHR ''_''))"

text \<open>
  The functions of the parser call each other on the runes that are left. A \<open>parser\<close> holds one version
  of each; the functions below are written over the versions they call, and \<open>parser_with\<close> ties the knot:
  the functions with \<open>n + 1\<close> units of fuel call those with \<open>n\<close>. All take the nesting depth; the two loops
  also take the value so far, and the argument loop the arguments so far.
\<close>

record 'f parser =
  pa_Expr :: "nat \<Rightarrow> nat list \<Rightarrow> 'f parsed"
  pa_ExprLoop :: "nat \<Rightarrow> 'f \<Rightarrow> nat list \<Rightarrow> 'f parsed"
  pa_Term :: "nat \<Rightarrow> nat list \<Rightarrow> 'f parsed"
  pa_TermLoop :: "nat \<Rightarrow> 'f \<Rightarrow> nat list \<Rightarrow> 'f parsed"
  pa_Unary :: "nat \<Rightarrow> nat list \<Rightarrow> 'f parsed"
  pa_Power :: "nat \<Rightarrow> nat list \<Rightarrow> 'f parsed"
  pa_Primary :: "nat \<Rightarrow> nat list \<Rightarrow> 'f parsed"
  pa_Ident :: "nat \<Rightarrow> nat list \<Rightarrow> 'f parsed"
  pa_ArgsLoop :: "nat \<Rightarrow> 'f list \<Rightarrow> nat list \<Rightarrow> 'f list parsed"

definition parseExpr :: "'f parser \<Rightarrow> nat \<Rightarrow> nat list \<Rightarrow> 'f parsed" where
  "parseExpr p depth s = (if depth > 100 then fails TooDeep else next_do (pa_Term p depth s) (pa_ExprLoop p depth))"

definition expr_loop :: "'f formula_env \<Rightarrow> 'f parser \<Rightarrow> nat \<Rightarrow> 'f \<Rightarrow> nat list \<Rightarrow> 'f parsed" where
  "expr_loop env p depth left s0 =
     (let s = skipSpace env s0; c = peek s
      in if c = rune (CHR ''+'')
         then next_do (pa_Term p depth (tl s)) (\<lambda>right. pa_ExprLoop p depth (fe_op env (CHR ''+'') left right))
         else if c = rune (CHR ''-'')
         then next_do (pa_Term p depth (tl s)) (\<lambda>right. pa_ExprLoop p depth (fe_op env (CHR ''-'') left right))
         else gives left s)"

definition parseTerm :: "'f parser \<Rightarrow> nat \<Rightarrow> nat list \<Rightarrow> 'f parsed" where
  "parseTerm p depth s = next_do (pa_Unary p depth s) (pa_TermLoop p depth)"

definition term_loop :: "'f formula_env \<Rightarrow> 'f parser \<Rightarrow> nat \<Rightarrow> 'f \<Rightarrow> nat list \<Rightarrow> 'f parsed" where
  "term_loop env p depth left s0 =
     (let s = skipSpace env s0; c = peek s
      in if c = rune (CHR ''*'')
         then next_do (pa_Unary p depth (tl s)) (\<lambda>right. pa_TermLoop p depth (fe_op env (CHR ''*'') left right))
         else if c = rune (CHR ''/'')
         then next_do (pa_Unary p depth (tl s)) (\<lambda>right t.
                next_do (lift_result (divide_op env (CHR ''/'') left right) t) (pa_TermLoop p depth))
         else if c = rune (CHR ''%'')
         then next_do (pa_Unary p depth (tl s)) (\<lambda>right t.
                next_do (lift_result (divide_op env (CHR ''%'') left right) t) (pa_TermLoop p depth))
         else gives left s)"

definition parseUnary :: "'f formula_env \<Rightarrow> 'f parser \<Rightarrow> nat \<Rightarrow> nat list \<Rightarrow> 'f parsed" where
  "parseUnary env p depth s0 =
     (let s = skipSpace env s0; c = peek s
      in if c = rune (CHR ''-'') then next_do (pa_Unary p (depth + 1) (tl s)) (\<lambda>v. gives (fe_neg env v))
         else if c = rune (CHR ''+'') then pa_Unary p (depth + 1) (tl s)
         else pa_Power p depth s)"

definition parsePower :: "'f formula_env \<Rightarrow> 'f parser \<Rightarrow> nat \<Rightarrow> nat list \<Rightarrow> 'f parsed" where
  "parsePower env p depth s =
     next_do (pa_Primary p depth s) (\<lambda>base t0.
       let t = skipSpace env t0
       in if peek t = rune (CHR ''^'')
          then next_do (pa_Unary p (depth + 1) (tl t)) (\<lambda>e. gives (fe_math2 env ''Pow'' base e))
          else gives base t)"

definition parsePrimary :: "'f formula_env \<Rightarrow> 'f parser \<Rightarrow> nat \<Rightarrow> nat list \<Rightarrow> 'f parsed" where
  "parsePrimary env p depth s0 =
     (let s = skipSpace env s0; c = peek s
      in if c = 0 then fails UnexpectedEnd
         else if c = rune (CHR ''('')
         then next_do (pa_Expr p (depth + 1) (tl s)) (\<lambda>v t0.
                let t = skipSpace env t0 in if peek t \<noteq> rune (CHR '')'') then fails MissingParen else gives v (tl t))
         else if is_digit_rune env c \<or> c = rune (CHR ''.'') then parseNumber env s
         else if is_letter env c \<or> c = rune (CHR ''_'') then pa_Ident p depth s
         else fails (Unexpected c))"

definition parseIdent :: "'f formula_env \<Rightarrow> (string \<rightharpoonup> rat) \<Rightarrow> 'f parser \<Rightarrow> nat \<Rightarrow> nat list \<Rightarrow> 'f parsed" where
  "parseIdent env vars p depth s =
     (let name = text_of (takeWhile (name_char env) s); t = skipSpace env (dropWhile (name_char env) s)
      in if peek t = rune (CHR ''('')
         then let u = skipSpace env (tl t)
              in next_do (if peek u \<noteq> rune (CHR '')'') then pa_ArgsLoop p depth [] u else gives [] u) (\<lambda>args w0.
                   let w = skipSpace env w0
                   in if peek w \<noteq> rune (CHR '')'') then fails (MissingParenAfter name)
                      else lift_result (call_function env name args) (tl w))
         else lift_result (named_value env vars name) t)"

definition args_loop :: "'f formula_env \<Rightarrow> 'f parser \<Rightarrow> nat \<Rightarrow> 'f list \<Rightarrow> nat list \<Rightarrow> 'f list parsed" where
  "args_loop env p depth args s =
     next_do (pa_Expr p (depth + 1) s) (\<lambda>v t0.
       let t = skipSpace env t0
       in if peek t = rune (CHR '','') then pa_ArgsLoop p depth (args @ [v]) (tl t) else gives (args @ [v]) t)"

definition no_fuel :: "'f parser" where
  "no_fuel = \<lparr>pa_Expr = \<lambda>_ _. None, pa_ExprLoop = \<lambda>_ _ _. None, pa_Term = \<lambda>_ _. None, pa_TermLoop = \<lambda>_ _ _. None, pa_Unary = \<lambda>_ _. None,
     pa_Power = \<lambda>_ _. None, pa_Primary = \<lambda>_ _. None, pa_Ident = \<lambda>_ _. None, pa_ArgsLoop = \<lambda>_ _ _. None\<rparr>"

definition one_more :: "'f formula_env \<Rightarrow> (string \<rightharpoonup> rat) \<Rightarrow> 'f parser \<Rightarrow> 'f parser" where
  "one_more env vars p =
     \<lparr>pa_Expr = parseExpr p, pa_ExprLoop = expr_loop env p, pa_Term = parseTerm p, pa_TermLoop = term_loop env p,
      pa_Unary = parseUnary env p, pa_Power = parsePower env p, pa_Primary = parsePrimary env p, pa_Ident = parseIdent env vars p,
      pa_ArgsLoop = args_loop env p\<rparr>"

primrec parser_with :: "'f formula_env \<Rightarrow> (string \<rightharpoonup> rat) \<Rightarrow> nat \<Rightarrow> 'f parser" where
  "parser_with env vars 0 = no_fuel"
| "parser_with env vars (Suc n) = one_more env vars (parser_with env vars n)"

definition formula_fuel :: "nat list \<Rightarrow> nat" where "formula_fuel s = 6 * length s + 6"

definition EvalFormula :: "'f formula_env \<Rightarrow> string \<Rightarrow> (string \<rightharpoonup> rat) \<Rightarrow> formula_error + rat" where
  "EvalFormula env expr vars =
     (if length expr > 2000 then Inl TooLong
      else let src = runes expr
           in case pa_Expr (parser_with env vars (formula_fuel src)) 0 src of
                None \<Rightarrow> Inl OutOfFuel
              | Some (Inl e) \<Rightarrow> Inl e
              | Some (Inr (v, s0)) \<Rightarrow>
                  let s = skipSpace env s0
                  in if s \<noteq> [] then Inl (Unexpected (hd s))
                     else case fe_finite env v of None \<Rightarrow> Inl NotFinite | Some x \<Rightarrow> Inr x)"

section \<open>Attempts of a formula question\<close>

record formula_variable =
  fm_Name :: string
  fm_Min :: rat
  fm_Max :: rat
  fm_Precision :: int

type_synonym formula_value = "string \<times> rat"

record formula_answer_set =
  fa_Variables :: "formula_value list"
  fa_Answer :: rat

record formula_config =
  fc_Formula :: string
  fc_Variables :: "formula_variable list"
  fc_Tolerance :: string
  fc_Margin :: string
  fc_AnswerPrecision :: "int option"
  fc_AnswerValue :: string
  fc_AnswerSets :: "formula_answer_set list"
  fc_Weight :: "rat option"

record formula_instance =
  fn_Values :: "formula_value list"
  fn_Expected :: rat
  fn_Margin :: string

definition into_int_ptr :: "(int option \<Rightarrow> 's \<Rightarrow> 's) \<Rightarrow> json \<Rightarrow> 's \<Rightarrow> 's option" where
  "into_int_ptr put v s =
     (case v of JNum t \<Rightarrow> map_option (\<lambda>x. put (Some x) s) (parse_int t) | JNull \<Rightarrow> Some (put None s) | _ \<Rightarrow> None)"

definition decode_variable :: "json \<Rightarrow> formula_variable option" where
  "decode_variable = decode_struct
     [(''name'', into_string (\<lambda>x s. s\<lparr>fm_Name := x\<rparr>)), (''min'', into_float (\<lambda>x s. s\<lparr>fm_Min := x\<rparr>)),
      (''max'', into_float (\<lambda>x s. s\<lparr>fm_Max := x\<rparr>)), (''precision'', into_int (\<lambda>x s. s\<lparr>fm_Precision := x\<rparr>))]
     \<lparr>fm_Name = [], fm_Min = 0, fm_Max = 0, fm_Precision = 0\<rparr>"

definition decode_value :: "json \<Rightarrow> formula_value option" where
  "decode_value = decode_struct [(''name'', into_string (\<lambda>x s. (x, snd s))), (''value'', into_float (\<lambda>x s. (fst s, x)))] ([], 0)"

definition decode_answer_set :: "json \<Rightarrow> formula_answer_set option" where
  "decode_answer_set = decode_struct
     [(''variables'', into_list decode_value (\<lambda>x s. s\<lparr>fa_Variables := x\<rparr>)), (''answer'', into_float (\<lambda>x s. s\<lparr>fa_Answer := x\<rparr>))]
     \<lparr>fa_Variables = [], fa_Answer = 0\<rparr>"

definition no_config :: formula_config where
  "no_config = \<lparr>fc_Formula = [], fc_Variables = [], fc_Tolerance = [], fc_Margin = [], fc_AnswerPrecision = None, fc_AnswerValue = [],
     fc_AnswerSets = [], fc_Weight = None\<rparr>"

definition decode_config :: "json \<Rightarrow> formula_config option" where
  "decode_config = decode_struct
     [(''formula'', into_string (\<lambda>x s. s\<lparr>fc_Formula := x\<rparr>)), (''variables'', into_list decode_variable (\<lambda>x s. s\<lparr>fc_Variables := x\<rparr>)),
      (''tolerance'', into_flex (\<lambda>x s. s\<lparr>fc_Tolerance := x\<rparr>)), (''margin'', into_flex (\<lambda>x s. s\<lparr>fc_Margin := x\<rparr>)),
      (''answer_precision'', into_int_ptr (\<lambda>x s. s\<lparr>fc_AnswerPrecision := x\<rparr>)), (''answer_value'', into_flex (\<lambda>x s. s\<lparr>fc_AnswerValue := x\<rparr>)),
      (''answer_sets'', into_list decode_answer_set (\<lambda>x s. s\<lparr>fc_AnswerSets := x\<rparr>)), (''weight'', into_float_ptr (\<lambda>x s. s\<lparr>fc_Weight := x\<rparr>))]
     no_config"

definition ParseFormulaConfig :: "quiz_env \<Rightarrow> string \<Rightarrow> formula_config option" where
  "ParseFormulaConfig env answers =
     (case Option.bind (qe_parse env (TrimSpace answers)) (decode_list decode_config) of
        Some (cfg # _) \<Rightarrow> if TrimSpace (fc_Formula cfg) = [] \<and> fc_AnswerSets cfg = [] then None else Some cfg
      | _ \<Rightarrow> None)"

definition config_margin :: "formula_config \<Rightarrow> string" where
  "config_margin c =
     (let m = (if TrimSpace (fc_Margin c) = [] then TrimSpace (fc_Tolerance c) else TrimSpace (fc_Margin c))
      in if m = ''0'' then [] else m)"

text \<open>The seed of an attempt: a keyed hash of the submission, the question and a tag.\<close>

definition FormulaSeed :: "'f formula_env \<Rightarrow> nat \<Rightarrow> nat \<Rightarrow> int" where
  "FormulaSeed env submissionID questionID = fe_HMAC env [submissionID, questionID, 240]"

definition clampPrecision :: "int \<Rightarrow> nat" where
  "clampPrecision p = (if p < 0 then 0 else if p > 10 then 10 else nat p)"

definition roundTo :: "rat \<Rightarrow> nat \<Rightarrow> rat" where
  "roundTo v places = fdiv (math_Round (fmul v (10 ^ places))) (10 ^ places)"

text \<open>Variables without a name are skipped and draw no number; the \<open>i\<close>th number drawn from the source of a seed is a parameter.\<close>

definition named_variables :: "formula_variable list \<Rightarrow> (string \<times> formula_variable) list" where
  "named_variables vs = filter (\<lambda>(n, _). n \<noteq> []) (map (\<lambda>v. (TrimSpace (fm_Name v), v)) vs)"

definition draw :: "rat \<Rightarrow> formula_variable \<Rightarrow> rat" where
  "draw u v =
     (let lo = min (fm_Min v) (fm_Max v); hi = max (fm_Min v) (fm_Max v)
      in roundTo (fadd lo (fmul u (fsub hi lo))) (clampPrecision (fm_Precision v)))"

definition drawn_values :: "(nat \<Rightarrow> rat) \<Rightarrow> formula_variable list \<Rightarrow> formula_value list" where
  "drawn_values random vs = map (\<lambda>(i, n, v). (n, draw (random i) v)) (enumerate 0 (named_variables vs))"

definition Instance :: "'f formula_env \<Rightarrow> formula_config \<Rightarrow> int \<Rightarrow> formula_error + formula_instance" where
  "Instance env c seed =
     (if fc_AnswerSets c \<noteq> []
      then let st = fc_AnswerSets c ! (nat (seed mod 2 ^ 64) mod length (fc_AnswerSets c))
           in Inr \<lparr>fn_Values = fa_Variables st, fn_Expected = fa_Answer st, fn_Margin = config_margin c\<rparr>
      else let values = drawn_values (fe_Float64 env seed) (fc_Variables c)
           in case EvalFormula env (fc_Formula c) (entry values) of
                Inl e \<Rightarrow> Inl e
              | Inr x \<Rightarrow> Inr \<lparr>fn_Values = values,
                   fn_Expected = (case fc_AnswerPrecision c of Some p \<Rightarrow> roundTo x (clampPrecision p) | None \<Rightarrow> x),
                   fn_Margin = config_margin c\<rparr>)"

definition gradeFormulaInstance :: "quiz_env \<Rightarrow> formula_instance \<Rightarrow> string \<Rightarrow> rat \<Rightarrow> rat \<Rightarrow> graded" where
  "gradeFormulaInstance env i submitted points weight =
     (if numericalMatch env submitted
          (no_option\<lparr>qa_NumericalAnswerType := ''exact_answer'', qa_Exact := FormatFloat (fn_Expected i), qa_Margin := fn_Margin i\<rparr>)
      then credit points (if weight \<le> 0 then 100 else weight) else wrong)"

definition gradeAnswerForSubmission :: "'f formula_env \<Rightarrow> nat \<Rightarrow> nat \<Rightarrow> string \<Rightarrow> string \<Rightarrow> string \<Rightarrow> rat \<Rightarrow> graded" where
  "gradeAnswerForSubmission env submissionID questionID qtype answers ans points =
     (case (if NormalizeQuizQuestionType qtype = ''formula'' then ParseFormulaConfig (fe_quiz env) answers else None) of
        Some cfg \<Rightarrow>
          (case Instance env cfg (FormulaSeed env submissionID questionID) of
             Inl _ \<Rightarrow> ungradable
           | Inr i \<Rightarrow> gradeFormulaInstance (fe_quiz env) i ans points (case fc_Weight cfg of Some w \<Rightarrow> w | None \<Rightarrow> 100))
      | None \<Rightarrow> autoGradeWithPoints (fe_quiz env) qtype answers ans points)"

text \<open>\<open>[name]\<close> in the question text stands for the value of the variable.\<close>

definition token_start :: "char \<Rightarrow> bool" where
  "token_start c = (let b = of_char c :: nat in 65 \<le> b \<and> b \<le> 90 \<or> 97 \<le> b \<and> b \<le> 122 \<or> c = CHR ''_'')"

definition token_char :: "char \<Rightarrow> bool" where
  "token_char c = (token_start c \<or> is_digit c)"

text \<open>The name of the token that starts after an opening bracket, and what follows its closing bracket.\<close>

definition token_at :: "string \<Rightarrow> (string \<times> string) option" where
  "token_at s =
     (let name = takeWhile token_char s; rest = dropWhile token_char s
      in if name \<noteq> [] \<and> token_start (hd name) \<and> rest \<noteq> [] \<and> hd rest = CHR '']'' then Some (name, tl rest) else None)"

lemma token_at_length: "token_at s = Some (name, rest) \<Longrightarrow> length rest < length s"
  using length_dropWhile_le [of token_char s] by (cases s) (auto simp: token_at_def Let_def split: if_splits)

function substitute :: "(string \<rightharpoonup> rat) \<Rightarrow> string \<Rightarrow> string" where
  "substitute vals [] = []"
| "substitute vals (c # s) =
     (case (if c = CHR ''['' then token_at s else None) of
        Some (name, rest) \<Rightarrow>
          (case vals name of Some v \<Rightarrow> FormatFloat v | None \<Rightarrow> c # name @ [CHR '']'']) @ substitute vals rest
      | None \<Rightarrow> c # substitute vals s)"
  by pat_completeness auto
termination by (relation "measure (length \<circ> snd)") (auto split: if_splits dest: token_at_length)

definition SubstituteFormulaText :: "string \<Rightarrow> formula_value list \<Rightarrow> string" where
  "SubstituteFormulaText s values = (if values = [] then s else substitute (entry values) s)"

text \<open>The question text and the instance a student sees.\<close>

definition PersonalizeFormulaQuestion ::
  "'f formula_env \<Rightarrow> string \<Rightarrow> string \<Rightarrow> string \<Rightarrow> nat \<Rightarrow> nat \<Rightarrow> string \<times> formula_instance option" where
  "PersonalizeFormulaQuestion env qtype qtext answers submissionID questionID =
     (if NormalizeQuizQuestionType qtype \<noteq> ''formula'' then (qtext, None)
      else case ParseFormulaConfig (fe_quiz env) answers of
          None \<Rightarrow> (qtext, None)
        | Some cfg \<Rightarrow>
            (case Instance env cfg (FormulaSeed env submissionID questionID) of
               Inl _ \<Rightarrow> (qtext, None)
             | Inr i \<Rightarrow> (SubstituteFormulaText qtext (fn_Values i), Some i)))"

definition all_or_error :: "('e + 'a) list \<Rightarrow> 'e + 'a list" where
  "all_or_error rs = (case find isl rs of Some (Inl e) \<Rightarrow> Inl e | _ \<Rightarrow> Inr (map projr rs))"

definition FormulaPreview :: "'f formula_env \<Rightarrow> formula_config \<Rightarrow> int \<Rightarrow> (formula_error + formula_instance list) option" where
  "FormulaPreview env cfg n0 =
     (let n = (if n0 \<le> 0 then 1 else if n0 > 20 then 20 else nat n0)
      in if TrimSpace (fc_Formula cfg) = [] \<and> fc_AnswerSets cfg = [] then None
         else Some (all_or_error (map (\<lambda>i. Instance env cfg (int (i + 1) * 7919)) [0..<n])))"

section \<open>Enough fuel\<close>

text \<open>\<open>finished m r\<close>: the fuel sufficed, and if there is a value then fewer than \<open>m\<close> runes are left.\<close>

definition finished :: "nat \<Rightarrow> 'a parsed \<Rightarrow> bool" where
  "finished m r \<longleftrightarrow> r \<noteq> None \<and> r \<noteq> Some (Inl OutOfFuel) \<and> (\<forall>v t. r = Some (Inr (v, t)) \<longrightarrow> length t < m)"

lemma finished_fails [simp]: "finished m (fails e) \<longleftrightarrow> e \<noteq> OutOfFuel"
  by (simp add: finished_def fails_def)

lemma finished_gives [simp]: "finished m (gives v t) \<longleftrightarrow> length t < m"
  by (simp add: finished_def gives_def)

lemma finished_lift_result: "length t < m \<Longrightarrow> r \<noteq> Inl OutOfFuel \<Longrightarrow> finished m (lift_result r t)"
  by (cases r) (simp_all add: lift_result_def)

lemma own_errors [simp]:
  "divide_op env c left right \<noteq> Inl OutOfFuel" "named_value env vars name \<noteq> Inl OutOfFuel"
  by (simp_all add: divide_op_def named_value_def split: option.splits)

lemma call_function_error [simp]: "call_function env name args \<noteq> Inl OutOfFuel"
  by (simp add: call_function_def Let_def split: option.splits list.splits)

lemma finished_mono: "finished m r \<Longrightarrow> m \<le> m' \<Longrightarrow> finished m' r"
  by (fastforce simp: finished_def)

lemma finished_next_do:
  assumes "finished m p" "\<And>v t. length t < m \<Longrightarrow> finished m' (k v t)"
  shows "finished m' (next_do p k)"
proof -
  from assms(1) obtain x where "p = Some x" by (auto simp: finished_def)
  with assms show ?thesis
    by (cases x) (auto simp: next_do_def finished_def [of m] split: prod.splits)
qed

lemma length_skipSpace [simp]: "length (skipSpace env s) \<le> length s"
  by (simp add: skipSpace_def length_dropWhile_le)

lemma peek_nonempty: "peek s \<noteq> 0 \<Longrightarrow> s \<noteq> []"
  by (auto simp: peek_def)

lemma peek_step:
  assumes "peek (skipSpace env s) = c" "c \<noteq> 0"
  shows "skipSpace env s \<noteq> []" "length (tl (skipSpace env s)) < length s" "0 < length s"
proof -
  show ne: "skipSpace env s \<noteq> []" using assms peek_nonempty by blast
  then have "0 < length (skipSpace env s)" by simp
  with length_skipSpace [of env s] show "length (tl (skipSpace env s)) < length s" "0 < length s"
    by (simp_all only: length_tl)
qed

lemma length_exponent_rest: "exponent_rest env s = Some r \<Longrightarrow> length r \<le> length s"
  by (auto simp: exponent_rest_def Let_def split: list.splits if_splits
      intro: order.trans [OF length_dropWhile_le] le_SucI)

lemma finished_parseNumber:
  assumes "s \<noteq> []" "num_char env (hd s)"
  shows "finished (length s) (parseNumber env s)"
proof -
  have "length (dropWhile (num_char env) s) < length s"
    using assms by (cases s) (simp_all add: less_Suc_eq_le length_dropWhile_le)
  then show ?thesis
    by (auto simp: parseNumber_def Let_def split: option.splits dest: length_exponent_rest)
qed

lemma length_name_rest:
  assumes "s \<noteq> []" "name_char env (hd s)"
  shows "length (dropWhile (name_char env) s) < length s"
  using assms by (cases s) (simp_all add: less_Suc_eq_le length_dropWhile_le)

text \<open>What \<open>n\<close> units of fuel are enough for.\<close>

definition fueled :: "'f formula_env \<Rightarrow> nat \<Rightarrow> 'f parser \<Rightarrow> bool" where
  "fueled env n p \<longleftrightarrow>
     (\<forall>d s. 6 * length s + 6 \<le> n \<longrightarrow> finished (length s) (pa_Expr p d s)) \<and>
     (\<forall>d v s. 6 * length s + 1 \<le> n \<longrightarrow> finished (Suc (length s)) (pa_ExprLoop p d v s)) \<and>
     (\<forall>d s. 6 * length s + 5 \<le> n \<longrightarrow> finished (length s) (pa_Term p d s)) \<and>
     (\<forall>d v s. 6 * length s + 1 \<le> n \<longrightarrow> finished (Suc (length s)) (pa_TermLoop p d v s)) \<and>
     (\<forall>d s. 6 * length s + 4 \<le> n \<longrightarrow> finished (length s) (pa_Unary p d s)) \<and>
     (\<forall>d s. 6 * length s + 3 \<le> n \<longrightarrow> finished (length s) (pa_Power p d s)) \<and>
     (\<forall>d s. 6 * length s + 2 \<le> n \<longrightarrow> finished (length s) (pa_Primary p d s)) \<and>
     (\<forall>d s. 6 * length s + 1 \<le> n \<longrightarrow> s \<noteq> [] \<longrightarrow> name_char env (hd s) \<longrightarrow> finished (length s) (pa_Ident p d s)) \<and>
     (\<forall>d vs s. 6 * length s + 7 \<le> n \<longrightarrow> finished (length s) (pa_ArgsLoop p d vs s))"

lemma fueledD:
  assumes "fueled env n p"
  shows fueled_Expr: "6 * length s + 6 \<le> n \<Longrightarrow> finished (length s) (pa_Expr p d s)"
    and fueled_ExprLoop: "6 * length s + 1 \<le> n \<Longrightarrow> finished (Suc (length s)) (pa_ExprLoop p d v s)"
    and fueled_Term: "6 * length s + 5 \<le> n \<Longrightarrow> finished (length s) (pa_Term p d s)"
    and fueled_TermLoop: "6 * length s + 1 \<le> n \<Longrightarrow> finished (Suc (length s)) (pa_TermLoop p d v s)"
    and fueled_Unary: "6 * length s + 4 \<le> n \<Longrightarrow> finished (length s) (pa_Unary p d s)"
    and fueled_Power: "6 * length s + 3 \<le> n \<Longrightarrow> finished (length s) (pa_Power p d s)"
    and fueled_Primary: "6 * length s + 2 \<le> n \<Longrightarrow> finished (length s) (pa_Primary p d s)"
    and fueled_Ident: "6 * length s + 1 \<le> n \<Longrightarrow> s \<noteq> [] \<Longrightarrow> name_char env (hd s) \<Longrightarrow> finished (length s) (pa_Ident p d s)"
    and fueled_ArgsLoop: "6 * length s + 7 \<le> n \<Longrightarrow> finished (length s) (pa_ArgsLoop p d vs s)"
  using assms by (simp_all only: fueled_def) metis+

lemma fueled_parseExpr:
  assumes "fueled env n p" "6 * length s + 6 \<le> Suc n"
  shows "finished (length s) (parseExpr p d s)"
  unfolding parseExpr_def
  using assms(2) by (auto intro!: finished_next_do [OF fueled_Term [OF assms(1)]] finished_mono [OF fueled_ExprLoop [OF assms(1)]])

lemma fueled_parseTerm:
  assumes "fueled env n p" "6 * length s + 5 \<le> Suc n"
  shows "finished (length s) (parseTerm p d s)"
  unfolding parseTerm_def
  using assms(2) by (auto intro!: finished_next_do [OF fueled_Unary [OF assms(1)]] finished_mono [OF fueled_TermLoop [OF assms(1)]])

text \<open>What follows an operator is shorter.\<close>

lemma fueled_after:
  assumes "fueled env n p" "6 * length s0 + 1 \<le> Suc n" "peek (skipSpace env s0) = c" "c \<noteq> 0"
  defines "s \<equiv> tl (skipSpace env s0)"
  shows "finished (length s) (pa_Term p d s)" "finished (length s) (pa_Unary p d s)"
    and "length t < length s \<Longrightarrow> finished (Suc (length s0)) (pa_ExprLoop p d v t)"
    and "length t < length s \<Longrightarrow> finished (Suc (length s0)) (pa_TermLoop p d v t)"
proof -
  have less: "length s < length s0" unfolding s_def using peek_step(2) [OF assms(3,4)] .
  show "finished (length s) (pa_Term p d s)" "finished (length s) (pa_Unary p d s)"
    using less assms(2) by (auto intro!: fueled_Term [OF assms(1)] fueled_Unary [OF assms(1)])
  show "finished (Suc (length s0)) (pa_ExprLoop p d v t)" "finished (Suc (length s0)) (pa_TermLoop p d v t)" if "length t < length s"
    using less assms(2) that by (auto intro!: finished_mono [OF fueled_ExprLoop [OF assms(1)]] finished_mono [OF fueled_TermLoop [OF assms(1)]])
qed

lemma fueled_expr_loop:
  assumes "fueled env n p" "6 * length s0 + 1 \<le> Suc n"
  shows "finished (Suc (length s0)) (expr_loop env p d v s0)"
proof -
  note after = fueled_after [OF assms _ _]
  show ?thesis
    unfolding expr_loop_def Let_def
    by (auto intro!: finished_next_do [OF after(1)] after(3) simp: less_Suc_eq_le)
qed

lemma fueled_term_loop:
  assumes "fueled env n p" "6 * length s0 + 1 \<le> Suc n"
  shows "finished (Suc (length s0)) (term_loop env p d v s0)"
proof -
  note after = fueled_after [OF assms _ _]
  have "finished (Suc (length s0)) (next_do (lift_result r t) (pa_TermLoop p d))"
    if "length t < length (tl (skipSpace env s0))" "peek (skipSpace env s0) = c" "c \<noteq> 0" "r \<noteq> Inl OutOfFuel" for r t c
    using after(4) [OF that(2,3,1)] that(4) by (cases r) (simp_all add: lift_result_def next_do_def fails_def gives_def finished_def)
  then show ?thesis
    unfolding term_loop_def Let_def
    by (auto intro!: finished_next_do [OF after(2)] after(4) simp: less_Suc_eq_le)
qed

lemma fueled_parseUnary:
  assumes "fueled env n p" "6 * length s0 + 4 \<le> Suc n"
  shows "finished (length s0) (parseUnary env p d s0)"
proof -
  have tail: "finished (length s0) (pa_Unary p d' (tl (skipSpace env s0)))" "0 < length s0"
    if "peek (skipSpace env s0) = c" "c \<noteq> 0" for c d'
    using peek_step [OF that] assms(2) by (auto intro!: finished_mono [OF fueled_Unary [OF assms(1)]])
  have power: "finished (length s0) (pa_Power p d (skipSpace env s0))"
    using length_skipSpace [of env s0] assms(2) by (intro finished_mono [OF fueled_Power [OF assms(1)]]) linarith+
  show ?thesis
    unfolding parseUnary_def Let_def
    using tail power by (auto intro!: finished_next_do [OF tail(1)])
qed

lemma fueled_parsePower:
  assumes "fueled env n p" "6 * length s + 3 \<le> Suc n"
  shows "finished (length s) (parsePower env p d s)"
  unfolding parsePower_def Let_def
proof (rule finished_next_do [OF fueled_Primary [OF assms(1)]])
  show "6 * length s + 2 \<le> n" using assms(2) by simp
  fix base and t :: "nat list"
  assume t: "length t < length s"
  have skip: "length (skipSpace env t) < length s" using t length_skipSpace [of env t] by linarith
  have "finished (length s) (pa_Unary p (d + 1) (tl (skipSpace env t)))"
    using t assms(2) skip by (auto intro!: finished_mono [OF fueled_Unary [OF assms(1)]])
  then show "finished (length s) (if peek (skipSpace env t) = rune (CHR ''^'')
      then next_do (pa_Unary p (d + 1) (tl (skipSpace env t))) (\<lambda>e. gives (fe_math2 env ''Pow'' base e))
      else gives base (skipSpace env t))"
    using skip by (auto intro: finished_next_do)
qed

lemma fueled_parsePrimary:
  assumes "fueled env n p" "6 * length s0 + 2 \<le> Suc n"
  shows "finished (length s0) (parsePrimary env p d s0)"
proof -
  let ?s = "skipSpace env s0"
  note len = length_skipSpace [of env s0]
  have paren: "finished (length s0) (next_do (pa_Expr p (d + 1) (tl ?s)) (\<lambda>v t0.
      let t = skipSpace env t0 in if peek t \<noteq> rune (CHR '')'') then fails MissingParen else gives v (tl t)))"
    if "peek ?s = rune (CHR ''('')"
  proof (rule finished_next_do)
    show "finished (length (tl ?s)) (pa_Expr p (d + 1) (tl ?s))"
      using peek_step(2) [OF that] assms(2) by (intro fueled_Expr [OF assms(1)]) simp
    fix v and t :: "nat list"
    assume "length t < length (tl ?s)"
    then have "length (tl (skipSpace env t)) < length s0"
      using peek_step(2) [OF that, simplified] length_skipSpace [of env t] unfolding length_tl by linarith
    then show "finished (length s0) (let t = skipSpace env t in if peek t \<noteq> rune (CHR '')'') then fails MissingParen else gives v (tl t))"
      by (simp add: Let_def)
  qed
  have number: "finished (length s0) (parseNumber env ?s)" if "peek ?s \<noteq> 0" "is_digit_rune env (peek ?s) \<or> peek ?s = rune (CHR ''.'')"
    using that by (intro finished_mono [OF finished_parseNumber len] peek_nonempty) (auto simp: num_char_def peek_def split: list.splits)
  have ident: "finished (length s0) (pa_Ident p d ?s)" if "peek ?s \<noteq> 0" "is_letter env (peek ?s) \<or> peek ?s = rune (CHR ''_'')"
  proof (rule finished_mono [OF fueled_Ident [OF assms(1)] len])
    show "6 * length ?s + 1 \<le> n" using len assms(2) by linarith
  qed (use that in \<open>auto simp: name_char_def peek_def split: list.splits\<close>)
  show ?thesis
    unfolding parsePrimary_def by (simp only: Let_def [of ?s] Let_def [of "peek ?s"]) (use paren number ident in auto)
qed

lemma fueled_parseIdent:
  assumes "fueled env n p" "6 * length s + 1 \<le> Suc n" "s \<noteq> []" "name_char env (hd s)"
  shows "finished (length s) (parseIdent env vars p d s)"
proof -
  let ?t = "skipSpace env (dropWhile (name_char env) s)"
  let ?u = "skipSpace env (tl ?t)"
  let ?args = "if peek ?u \<noteq> rune (CHR '')'') then pa_ArgsLoop p d [] ?u else gives [] ?u"
  have t: "length ?t < length s"
    using length_name_rest [OF assms(3,4)] length_skipSpace [of env "dropWhile (name_char env) s"] by linarith
  have args: "finished (length s) ?args" if "peek ?t = rune (CHR ''('')"
  proof -
    have "length (tl ?t) < length ?t" using that by (cases ?t) (simp_all add: peek_def)
    then have u: "length ?u + 2 \<le> length s" using t length_skipSpace [of env "tl ?t"] by linarith
    then have "6 * length ?u + 7 \<le> n" using assms(2) by linarith
    then show ?thesis using u by (auto intro!: finished_mono [OF fueled_ArgsLoop [OF assms(1)]])
  qed
  have close: "finished (length s) (let w = skipSpace env w0 in if peek w \<noteq> rune (CHR '')'') then fails e else lift_result r (tl w))"
    if "length w0 < length s" "e \<noteq> OutOfFuel" "r \<noteq> Inl OutOfFuel" for w0 e r
  proof -
    have "length (tl (skipSpace env w0)) < length s"
      using that length_skipSpace [of env w0] unfolding length_tl by linarith
    then show ?thesis using that by (simp add: Let_def finished_lift_result)
  qed
  note unfolded = parseIdent_def Let_def [of "text_of (takeWhile (name_char env) s)"] Let_def [of ?t] Let_def [of ?u]
  show ?thesis
  proof (cases "peek ?t = rune (CHR ''('')")
    case True
    then show ?thesis
      unfolding unfolded if_P [OF True] by (intro finished_next_do [OF args [OF True]] close) simp_all
  next
    case False
    then show ?thesis unfolding unfolded if_not_P [OF False] using t by (simp add: finished_lift_result)
  qed
qed

lemma fueled_args_loop:
  assumes "fueled env n p" "6 * length s + 7 \<le> Suc n"
  shows "finished (length s) (args_loop env p d vs s)"
  unfolding args_loop_def
proof (rule finished_next_do [OF fueled_Expr [OF assms(1)]])
  show "6 * length s + 6 \<le> n" using assms(2) by simp
  fix v and t0 :: "nat list"
  let ?t = "skipSpace env t0"
  assume "length t0 < length s"
  then have t: "length ?t < length s" using length_skipSpace [of env t0] by linarith
  then have tl: "length (tl ?t) < length s" unfolding length_tl by linarith
  then have "6 * length (tl ?t) + 7 \<le> n" using assms(2) by linarith
  then have "finished (length s) (pa_ArgsLoop p d (vs @ [v]) (tl ?t))"
    using tl by (intro finished_mono [OF fueled_ArgsLoop [OF assms(1)]]) simp_all
  then show "finished (length s) (let t = ?t in if peek t = rune (CHR '','') then pa_ArgsLoop p d (vs @ [v]) (tl t) else gives (vs @ [v]) t)"
    using t by (simp add: Let_def)
qed

lemma fueled_one_more: "fueled env n p \<Longrightarrow> fueled env (Suc n) (one_more env vars p)"
  unfolding fueled_def [of env "Suc n"] one_more_def parser.simps
  by (intro conjI allI impI fueled_parseExpr fueled_expr_loop fueled_parseTerm fueled_term_loop fueled_parseUnary
      fueled_parsePower fueled_parsePrimary fueled_parseIdent fueled_args_loop)

lemma fueled_parser_with: "fueled env n (parser_with env vars n)"
proof (induction n)
  case 0
  show ?case by (simp add: fueled_def)
next
  case (Suc n)
  then show ?case by (simp add: fueled_one_more)
qed

text \<open>
  C20. Every formula is evaluated to an end: on any text, any variables and any arithmetic, the parser
  returns a number or an error of the code's own, and never runs out of the fuel it is given. So no
  formula an author can write makes the recursion of the code go on for ever.
\<close>

theorem formula_evaluation_terminates: "EvalFormula env expr vars \<noteq> Inl OutOfFuel"
proof (cases "length expr > 2000")
  case False
  have "finished (length (runes expr)) (pa_Expr (parser_with env vars (formula_fuel (runes expr))) 0 (runes expr))"
    by (rule fueled_Expr [OF fueled_parser_with]) (simp add: formula_fuel_def)
  with False show ?thesis
    by (auto simp: EvalFormula_def Let_def finished_def split: option.splits sum.splits)
qed (simp add: EvalFormula_def)

end
