(* ===== verification/Quiz_Store.thy ===== *)
theory Quiz_Store imports Quiz_Formula Submission_Grading begin

text \<open>
  The state of the quiz engine: the rows of \<open>internal/domain/models/quiz*.go\<close> and the repositories of
  \<open>internal/repository/postgres/quiz*.go\<close>, as the quiz service uses them. The gradebook is the store of
  the submission service.

  Columns the engine does not read (titles of groups, comments on questions, sealed access codes,
  validation tokens) are left out. \<open>selected_questions\<close> and \<open>read_questions\<close>, which
  only the engine writes, are the lists of ids their JSON text stands for. Ids of all tables are drawn
  from one counter.
\<close>

section \<open>Rows\<close>

record quiz =
  qz_ID :: nat
  qz_CourseID :: nat
  qz_Title :: string
  qz_QuizType :: string
  qz_TimeLimit :: "int option"
  qz_AllowedAttempts :: int
  qz_DueAt :: "instant option"
  qz_UnlockAt :: "instant option"
  qz_LockAt :: "instant option"
  qz_PointsPossible :: "rat option"
  qz_ScoringPolicy :: string
  qz_OneQuestionAtATime :: bool
  qz_CantGoBack :: bool
  qz_Published :: bool
  qz_WorkflowState :: string
  qz_AssignmentID :: "nat option"
  qz_HideResults :: string
  qz_OneTimeResults :: bool
  qz_ShowCorrectAnswers :: bool
  qz_ShowCorrectAnswersLastAttempt :: bool
  qz_ShowCorrectAnswersAt :: "instant option"
  qz_HideCorrectAnswersAt :: "instant option"

record quiz_question =
  qn_ID :: nat
  qn_QuizID :: nat
  qn_GroupID :: "nat option"
  qn_Position :: int
  qn_QuestionType :: string
  qn_QuestionText :: string
  qn_PointsPossible :: "rat option"
  qn_Answers :: string
  qn_WorkflowState :: string
  qn_BankEntryID :: "nat option"

record question_group =
  qp_ID :: nat
  qp_QuizID :: nat
  qp_PickCount :: int
  qp_PointsPerItem :: "rat option"
  qp_QuestionBankID :: "nat option"
  qp_Position :: int

record question_bank =
  bk_ID :: nat
  bk_CourseID :: nat
  bk_WorkflowState :: string
  bk_AccountID :: "nat option"
  bk_SharedWithAccount :: bool

record bank_entry =
  be_ID :: nat
  be_QuestionBankID :: nat
  be_QuestionName :: string
  be_QuestionType :: string
  be_QuestionText :: string
  be_PointsPossible :: rat
  be_Answers :: string
  be_Position :: int

record quiz_submission =
  qs_ID :: nat
  qs_QuizID :: nat
  qs_UserID :: nat
  qs_SubmissionID :: "nat option"
  qs_Attempt :: int
  qs_Score :: "rat option"
  qs_KeptScore :: "rat option"
  qs_StartedAt :: "instant option"
  qs_FinishedAt :: "instant option"
  qs_EndAt :: "instant option"
  qs_TimeSpent :: int
  qs_SelectedQuestions :: "nat list option"
  qs_WorkflowState :: string
  qs_FudgePoints :: "rat option"
  qs_ScoreBeforeRegrade :: "rat option"
  qs_ReadQuestions :: "nat list"
  qs_ResultsSeenAt :: "instant option"

record quiz_answer =
  qw_ID :: nat
  qw_QuizSubmissionID :: nat
  qw_QuestionID :: nat
  qw_Answer :: string
  qw_Correct :: "bool option"
  qw_Points :: "rat option"
  qw_GradedVia :: "string option"
  qw_Comment :: string

record quiz_extension =
  qx_QuizID :: nat
  qx_UserID :: nat
  qx_ExtraAttempts :: int
  qx_ExtraTime :: int
  qx_ManuallyUnlocked :: bool

text \<open>An entry of the attempt log; the JSON payload and the client's own clock are left out.\<close>

record quiz_event =
  qv_QuizSubmissionID :: nat
  qv_Attempt :: int
  qv_EventType :: string
  qv_Source :: string

text \<open>
  \<open>qd_Enrolled\<close> is the type of a user's highest active enrollment in a course, \<open>qd_Names\<close> and
  \<open>qd_Position\<close> the name and place of the gradebook assignments, \<open>qd_FirstGroup\<close> the first assignment
  group of a course, \<open>qd_Fired\<close> the attempts whose completion callbacks have run.
\<close>

record quiz_store =
  qd_Quizzes :: "quiz list"
  qd_Questions :: "quiz_question list"
  qd_Groups :: "question_group list"
  qd_Banks :: "question_bank list"
  qd_Entries :: "bank_entry list"
  qd_Subs :: "quiz_submission list"
  qd_Answers :: "quiz_answer list"
  qd_Extensions :: "quiz_extension list"
  qd_Events :: "quiz_event list"
  qd_NextID :: nat
  qd_Fired :: "nat list"
  qd_Enrolled :: "nat \<Rightarrow> nat \<Rightarrow> string option"
  qd_Names :: "nat \<Rightarrow> string"
  qd_Position :: "nat \<Rightarrow> int"
  qd_FirstGroup :: "nat \<Rightarrow> nat option"
  qd_Gradebook :: sub_store

section \<open>Quizzes and attempts\<close>

definition IsGraded :: "quiz \<Rightarrow> bool" where
  "IsGraded q = (qz_QuizType q \<in> set [''assignment'', ''graded_survey'', []])"

definition IsSurvey :: "quiz \<Rightarrow> bool" where
  "IsSurvey q = (qz_QuizType q \<in> set [''survey'', ''graded_survey''])"

definition IsCompleted :: "quiz_submission \<Rightarrow> bool" where
  "IsCompleted s = (qs_WorkflowState s \<in> set [''complete'', ''pending_review''])"

definition in_progress :: "quiz_submission \<Rightarrow> bool" where
  "in_progress s = (qs_WorkflowState s = ''untaken'')"

definition quiz_FindByID :: "quiz_store \<Rightarrow> nat \<Rightarrow> quiz option" where
  "quiz_FindByID db i = find (\<lambda>q. qz_ID q = i) (qd_Quizzes db)"

text \<open>Newest first; ids grow with the time of creation.\<close>

definition quizzes_ListByCourseID :: "quiz_store \<Rightarrow> nat \<Rightarrow> quiz list" where
  "quizzes_ListByCourseID db cid =
     take 10000 (rev (sort_key qz_ID (filter (\<lambda>q. qz_CourseID q = cid \<and> qz_WorkflowState q \<noteq> ''deleted'') (qd_Quizzes db))))"

definition quiz_Update :: "quiz_store \<Rightarrow> quiz \<Rightarrow> quiz_store" where
  "quiz_Update db q = db\<lparr>qd_Quizzes := map (\<lambda>r. if qz_ID r = qz_ID q then q else r) (qd_Quizzes db)\<rparr>"

definition question_FindByID :: "quiz_store \<Rightarrow> nat \<Rightarrow> quiz_question option" where
  "question_FindByID db i = find (\<lambda>q. qn_ID q = i) (qd_Questions db)"

definition by_position :: "quiz_question list \<Rightarrow> quiz_question list" where
  "by_position qs = sort_key qn_Position (sort_key qn_ID qs)"

definition questions_ListByQuizID :: "quiz_store \<Rightarrow> nat \<Rightarrow> quiz_question list" where
  "questions_ListByQuizID db quizID =
     take 10000 (by_position (filter (\<lambda>q. qn_QuizID q = quizID \<and> qn_WorkflowState q \<noteq> ''deleted'') (qd_Questions db)))"

definition questions_ListByGroupID :: "quiz_store \<Rightarrow> nat \<Rightarrow> quiz_question list" where
  "questions_ListByGroupID db groupID =
     by_position (filter (\<lambda>q. qn_GroupID q = Some groupID \<and> qn_WorkflowState q \<noteq> ''deleted'') (qd_Questions db))"

definition groups_ListByQuizID :: "quiz_store \<Rightarrow> nat \<Rightarrow> question_group list" where
  "groups_ListByQuizID db quizID = sort_key qp_Position (sort_key qp_ID (filter (\<lambda>g. qp_QuizID g = quizID) (qd_Groups db)))"

definition entries_ListByBankID :: "quiz_store \<Rightarrow> nat \<Rightarrow> bank_entry list" where
  "entries_ListByBankID db bankID = sort_key be_Position (sort_key be_ID (filter (\<lambda>e. be_QuestionBankID e = bankID) (qd_Entries db)))"

text \<open>A bank may be drawn from by its own course, and by the courses of its account when it is shared.\<close>

definition course_account :: "quiz_store \<Rightarrow> nat \<Rightarrow> nat option" where
  "course_account db cid = map_option co_AccountID (find (\<lambda>c. co_ID c = cid) (sx_Courses (qd_Gradebook db)))"

definition UsableInCourse :: "quiz_store \<Rightarrow> question_bank \<Rightarrow> nat \<Rightarrow> bool" where
  "UsableInCourse db b cid =
     (bk_WorkflowState b = ''active'' \<and>
      (bk_CourseID b = cid \<or>
       bk_SharedWithAccount b \<and>
       (case (case bk_AccountID b of Some a \<Rightarrow> Some a | None \<Rightarrow> course_account db (bk_CourseID b), course_account db cid) of
          (Some a, Some c) \<Rightarrow> a = c | _ \<Rightarrow> False)))"

definition bankUsableInCourse :: "quiz_store \<Rightarrow> question_bank option \<Rightarrow> nat \<Rightarrow> bool" where
  "bankUsableInCourse db bank cid =
     (case bank of
        None \<Rightarrow> False
      | Some b \<Rightarrow>
          (if bk_WorkflowState b = ''deleted'' then False
           else if bk_CourseID b = cid then True
           else if \<not> bk_SharedWithAccount b then False
           else UsableInCourse db b cid))"

definition attempt_FindByID :: "quiz_store \<Rightarrow> nat \<Rightarrow> quiz_submission option" where
  "attempt_FindByID db i = find (\<lambda>s. qs_ID s = i) (qd_Subs db)"

text \<open>The latest attempt, and every attempt in order.\<close>

definition attempts_of :: "quiz_store \<Rightarrow> nat \<Rightarrow> nat \<Rightarrow> quiz_submission list" where
  "attempts_of db quizID uid = filter (\<lambda>s. qs_QuizID s = quizID \<and> qs_UserID s = uid) (qd_Subs db)"

definition FindByQuizAndUser :: "quiz_store \<Rightarrow> nat \<Rightarrow> nat \<Rightarrow> quiz_submission option" where
  "FindByQuizAndUser db quizID uid =
     (case sort_key (\<lambda>s. - qs_Attempt s) (sort_key qs_ID (attempts_of db quizID uid)) of [] \<Rightarrow> None | s # _ \<Rightarrow> Some s)"

definition ListByQuizAndUser :: "quiz_store \<Rightarrow> nat \<Rightarrow> nat \<Rightarrow> quiz_submission list" where
  "ListByQuizAndUser db quizID uid = sort_key qs_Attempt (sort_key qs_ID (attempts_of db quizID uid))"

definition ListCompletedByQuizID :: "quiz_store \<Rightarrow> nat \<Rightarrow> quiz_submission list" where
  "ListCompletedByQuizID db quizID =
     sort_key qs_ID (filter (\<lambda>s. qs_QuizID s = quizID \<and> qs_WorkflowState s \<in> set [''complete'', ''pending_review'']) (qd_Subs db))"

text \<open>Creating an attempt fails on the unique index of in-progress attempts.\<close>

definition attempt_Create :: "quiz_store \<Rightarrow> quiz_submission \<Rightarrow> (quiz_submission \<times> quiz_store) option" where
  "attempt_Create db s =
     (if in_progress s \<and> list_ex in_progress (attempts_of db (qs_QuizID s) (qs_UserID s)) then None
      else let s' = s\<lparr>qs_ID := qd_NextID db\<rparr>
           in Some (s', db\<lparr>qd_Subs := qd_Subs db @ [s'], qd_NextID := Suc (qd_NextID db)\<rparr>))"

definition attempt_Update :: "quiz_store \<Rightarrow> quiz_submission \<Rightarrow> quiz_store" where
  "attempt_Update db s = db\<lparr>qd_Subs := map (\<lambda>r. if qs_ID r = qs_ID s then s else r) (qd_Subs db)\<rparr>"

text \<open>The conditional updates: they write their columns only while the row is in progress, and tell whether they did.\<close>

definition update_in_progress :: "quiz_store \<Rightarrow> nat \<Rightarrow> (quiz_submission \<Rightarrow> quiz_submission) \<Rightarrow> bool \<times> quiz_store" where
  "update_in_progress db i f =
     (if list_ex (\<lambda>r. qs_ID r = i \<and> in_progress r) (qd_Subs db)
      then (True, db\<lparr>qd_Subs := map (\<lambda>r. if qs_ID r = i \<and> in_progress r then f r else r) (qd_Subs db)\<rparr>)
      else (False, db))"

definition FinalizeIfInProgress :: "quiz_store \<Rightarrow> quiz_submission \<Rightarrow> bool \<times> quiz_store" where
  "FinalizeIfInProgress db s =
     update_in_progress db (qs_ID s)
       (\<lambda>r. r\<lparr>qs_FinishedAt := qs_FinishedAt s, qs_Score := qs_Score s, qs_KeptScore := qs_KeptScore s, qs_TimeSpent := qs_TimeSpent s,
             qs_WorkflowState := qs_WorkflowState s\<rparr>)"

definition MarkResultsSeen_row :: "quiz_store \<Rightarrow> nat \<Rightarrow> instant \<Rightarrow> quiz_store" where
  "MarkResultsSeen_row db i t =
     db\<lparr>qd_Subs := map (\<lambda>r. if qs_ID r = i \<and> qs_ResultsSeenAt r = None then r\<lparr>qs_ResultsSeenAt := Some t\<rparr> else r) (qd_Subs db)\<rparr>"

definition SetEndAtIfInProgress :: "quiz_store \<Rightarrow> nat \<Rightarrow> instant \<Rightarrow> bool \<times> quiz_store" where
  "SetEndAtIfInProgress db i t = update_in_progress db i (\<lambda>r. r\<lparr>qs_EndAt := Some t\<rparr>)"

definition AppendReadQuestionIfInProgress :: "quiz_store \<Rightarrow> nat \<Rightarrow> nat \<Rightarrow> bool \<times> quiz_store" where
  "AppendReadQuestionIfInProgress db i questionID =
     update_in_progress db i
       (\<lambda>r. if questionID \<in> set (qs_ReadQuestions r) then r else r\<lparr>qs_ReadQuestions := qs_ReadQuestions r @ [questionID]\<rparr>)"

definition ListOverdueUntaken :: "quiz_store \<Rightarrow> instant \<Rightarrow> nat \<Rightarrow> quiz_submission list" where
  "ListOverdueUntaken db deadline limit =
     take limit (sort_key (\<lambda>s. case qs_EndAt s of Some t \<Rightarrow> t | None \<Rightarrow> 0) (sort_key qs_ID
       (filter (\<lambda>s. in_progress s \<and> (case qs_EndAt s of Some t \<Rightarrow> t < deadline | None \<Rightarrow> False)) (qd_Subs db))))"

section \<open>Answers, extensions, events\<close>

definition FindBySubmissionAndQuestion :: "quiz_store \<Rightarrow> nat \<Rightarrow> nat \<Rightarrow> quiz_answer option" where
  "FindBySubmissionAndQuestion db sid qid =
     (case sort_key qw_ID (filter (\<lambda>w. qw_QuizSubmissionID w = sid \<and> qw_QuestionID w = qid) (qd_Answers db)) of [] \<Rightarrow> None | w # _ \<Rightarrow> Some w)"

definition ListBySubmissionID :: "quiz_store \<Rightarrow> nat \<Rightarrow> quiz_answer list" where
  "ListBySubmissionID db sid = sort_key qw_ID (filter (\<lambda>w. qw_QuizSubmissionID w = sid) (qd_Answers db))"

definition new_answer :: "nat \<Rightarrow> nat \<Rightarrow> string \<Rightarrow> quiz_answer" where
  "new_answer sid qid t =
     \<lparr>qw_ID = 0, qw_QuizSubmissionID = sid, qw_QuestionID = qid, qw_Answer = t, qw_Correct = None, qw_Points = None, qw_GradedVia = None,
      qw_Comment = []\<rparr>"

definition answer_Create :: "quiz_store \<Rightarrow> quiz_answer \<Rightarrow> quiz_answer \<times> quiz_store" where
  "answer_Create db w =
     (let w' = w\<lparr>qw_ID := qd_NextID db\<rparr> in (w', db\<lparr>qd_Answers := qd_Answers db @ [w'], qd_NextID := Suc (qd_NextID db)\<rparr>))"

definition answer_Update :: "quiz_store \<Rightarrow> quiz_answer \<Rightarrow> quiz_store" where
  "answer_Update db w = db\<lparr>qd_Answers := map (\<lambda>r. if qw_ID r = qw_ID w then w else r) (qd_Answers db)\<rparr>"

definition no_extension :: "nat \<Rightarrow> nat \<Rightarrow> quiz_extension" where
  "no_extension quizID uid = \<lparr>qx_QuizID = quizID, qx_UserID = uid, qx_ExtraAttempts = 0, qx_ExtraTime = 0, qx_ManuallyUnlocked = False\<rparr>"

definition quizExtensionFor :: "quiz_store \<Rightarrow> nat \<Rightarrow> nat \<Rightarrow> quiz_extension" where
  "quizExtensionFor db quizID uid =
     (case find (\<lambda>x. qx_QuizID x = quizID \<and> qx_UserID x = uid) (qd_Extensions db) of Some x \<Rightarrow> x | None \<Rightarrow> no_extension quizID uid)"

definition extension_Upsert :: "quiz_store \<Rightarrow> quiz_extension \<Rightarrow> quiz_store" where
  "extension_Upsert db x =
     (let same = (\<lambda>y. qx_QuizID y = qx_QuizID x \<and> qx_UserID y = qx_UserID x)
      in db\<lparr>qd_Extensions := (if list_ex same (qd_Extensions db) then map (\<lambda>y. if same y then x else y) (qd_Extensions db)
            else qd_Extensions db @ [x])\<rparr>)"

definition recordQuizEvent :: "quiz_store \<Rightarrow> quiz_submission \<Rightarrow> string \<Rightarrow> quiz_store" where
  "recordQuizEvent db s event =
     (if qs_ID s = 0 then db
      else db\<lparr>qd_Events := qd_Events db @ [\<lparr>qv_QuizSubmissionID = qs_ID s, qv_Attempt = (if qs_Attempt s = 0 then 1 else qs_Attempt s),
        qv_EventType = event, qv_Source = ''server''\<rparr>]\<rparr>)"

definition fireOnCompleted :: "quiz_store \<Rightarrow> nat \<Rightarrow> quiz_store" where
  "fireOnCompleted db i = db\<lparr>qd_Fired := qd_Fired db @ [i]\<rparr>"

end
