(* ===== verification/Quiz_Gradebook.thy ===== *)
theory Quiz_Gradebook imports Quiz_Store begin

text \<open>
  From an attempt to the gradebook (\<open>internal/service/quiz_gradebook_sync.go\<close> and
  \<open>quiz_lifecycle_service.go\<close>): the score a policy keeps, the row of the quiz's assignment it is written
  to, the assignment a graded quiz is backed by, and the dates and attempts a student has.

  The lifecycle is wired, as in the production server. Every operation reads the clock once.
\<close>

section \<open>The submission of a quiz\<close>

record quiz_score =
  rc_UserID :: nat
  rc_Score :: rat
  rc_SubmittedAt :: instant
  rc_Attempt :: int
  rc_PendingReview :: bool
  rc_GraderID :: nat

datatype score_error = ScoreNotStudent | ScorePeriodClosed string | ScoreStoreFailed

definition QuizGradeWritable :: "instant \<Rightarrow> sub_store \<Rightarrow> assignment \<Rightarrow> nat \<Rightarrow> string option" where
  "QuizGradeWritable now db a uid = closed_period now db a uid"

definition QuizScorePosted :: "sub_store \<Rightarrow> assignment \<Rightarrow> nat \<Rightarrow> bool" where
  "QuizScorePosted db a uid =
     (if \<not> UsesManualPostPolicy a then True
      else case FindByAssignmentAndUser db (asg_ID a) uid 0 of None \<Rightarrow> False | Some s \<Rightarrow> sub_PostedAt s \<noteq> None)"

definition sameDBInstant :: "instant \<Rightarrow> instant \<Rightarrow> bool" where
  "sameDBInstant a b = (let d = time_sub a b in d > - 1000 \<and> d < 1000)"

definition score_time :: "instant \<Rightarrow> quiz_score \<Rightarrow> instant" where
  "score_time now rc = (if is_zero (rc_SubmittedAt rc) then now else rc_SubmittedAt rc)"

text \<open>The attempt is recorded on the row first, then the score unless the row is excused.\<close>

definition taken_row :: "instant \<Rightarrow> sub_store \<Rightarrow> assignment \<Rightarrow> quiz_score \<Rightarrow> submission \<Rightarrow> submission" where
  "taken_row now db a rc s =
     (let submittedAt = score_time now rc;
          due = EffectiveDueAt now (sx_Dates db) a (rc_UserID rc);
          s = s\<lparr>sub_SubmissionType := Some ''online_quiz'', sub_SubmittedAt := Some submittedAt,
                sub_Attempt := (if rc_Attempt rc > 0 then rc_Attempt rc else sub_Attempt s), sub_CachedDueDate := due\<rparr>
      in markSubmitted a s due submittedAt)"

definition auto_graded :: "quiz_score \<Rightarrow> submission \<Rightarrow> submission" where
  "auto_graded rc s =
     (let s = (if rc_GraderID rc = 0 then s\<lparr>sub_GraderID := None\<rparr> else s)
      in if rc_PendingReview rc then s\<lparr>sub_WorkflowState := ''pending_review''\<rparr> else s)"

definition scored_row :: "sub_env \<Rightarrow> instant \<Rightarrow> sub_store \<Rightarrow> assignment \<Rightarrow> quiz_score \<Rightarrow> submission \<Rightarrow> submission" where
  "scored_row env now db a rc s0 =
     (let s = taken_row now db a rc s0
      in if sub_Excused s
         then (if sub_WorkflowState s \<in> set [[], ''unsubmitted''] then s\<lparr>sub_WorkflowState := ''submitted''\<rparr> else s)
         else auto_graded rc (applyGradeGiven env db a s (rc_Score rc) [] (rc_GraderID rc) now))"

definition tells_student :: "instant \<Rightarrow> bool \<Rightarrow> quiz_score \<Rightarrow> submission \<Rightarrow> submission \<Rightarrow> bool" where
  "tells_student now isNew rc old new =
     (\<not> rc_PendingReview rc \<and>
      (rc_GraderID rc \<noteq> 0 \<or>
       \<not> isNew \<and> sub_Attempt old = sub_Attempt new \<and>
       (case sub_SubmittedAt old of Some t \<Rightarrow> sameDBInstant t (score_time now rc) | None \<Rightarrow> False)))"

definition announce_score :: "instant \<Rightarrow> sub_store \<Rightarrow> assignment \<Rightarrow> quiz_score \<Rightarrow> bool \<Rightarrow> submission \<Rightarrow> submission \<Rightarrow> sub_store" where
  "announce_score now db a rc isNew old s =
     (if sub_Excused s then db
      else let db1 = fireIfPosted (logGradeChange db a s (rc_GraderID rc) (sub_Grade old) (sub_Score old)) s
           in if tells_student now isNew rc old s
              then notifyGradeChange db1 s (sub_Grade old) (sub_Score old) (sub_PostedAt old \<noteq> None) else db1)"

definition RecordQuizScore ::
  "sub_env \<Rightarrow> instant \<Rightarrow> (nat \<Rightarrow> nat \<Rightarrow> string option) \<Rightarrow> sub_store \<Rightarrow> assignment \<Rightarrow> quiz_score \<Rightarrow> (score_error + submission) \<times> sub_store" where
  "RecordQuizScore env now enrolled db a rc =
     (if (case enrolled (rc_UserID rc) (asg_CourseID a) of Some t \<Rightarrow> t \<noteq> ''StudentEnrollment'' | None \<Rightarrow> False)
      then (Inl ScoreNotStudent, db)
      else case closed_period now db a (rc_UserID rc) of
          Some t \<Rightarrow> (Inl (ScorePeriodClosed t), db)
        | None \<Rightarrow>
            (let existing = FindByAssignmentAndUser db (asg_ID a) (rc_UserID rc) 0;
                 old = (case existing of Some s \<Rightarrow> s | None \<Rightarrow> blank_submission (asg_ID a) (rc_UserID rc) [])
             in case save_submission (existing = None) db (scored_row env now db a rc old) of
                  None \<Rightarrow> (Inl ScoreStoreFailed, db)
                | Some (s, db1) \<Rightarrow> (Inr s, announce_score now db1 a rc (existing = None) old s)))"

section \<open>Dates and attempts of a student\<close>

definition linkedAssignment :: "quiz_store \<Rightarrow> quiz \<Rightarrow> assignment option" where
  "linkedAssignment db q =
     (case qz_AssignmentID q of
        None \<Rightarrow> None
      | Some i \<Rightarrow>
          (case assignment_FindByID (qd_Gradebook db) i 0 of
             None \<Rightarrow> None
           | Some a \<Rightarrow> if asg_WorkflowState a = ''deleted'' \<or> asg_CourseID a \<noteq> qz_CourseID q then None else Some a))"

definition EffectiveQuizDates :: "instant \<Rightarrow> quiz_store \<Rightarrow> quiz \<Rightarrow> nat \<Rightarrow> dates" where
  "EffectiveQuizDates now db q uid =
     (case linkedAssignment db q of
        Some a \<Rightarrow> fst (EffectiveDatesAssigned now (sx_Dates (qd_Gradebook db)) a uid)
      | None \<Rightarrow> (qz_DueAt q, qz_UnlockAt q, qz_LockAt q))"

text \<open>-1 stands for no limit.\<close>

definition AttemptsAllowedFor :: "quiz \<Rightarrow> quiz_extension \<Rightarrow> int" where
  "AttemptsAllowedFor q x = (if qz_AllowedAttempts q \<le> 0 then - 1 else qz_AllowedAttempts q + qx_ExtraAttempts x)"

definition AttemptsLeft :: "quiz \<Rightarrow> quiz_extension \<Rightarrow> int \<Rightarrow> int" where
  "AttemptsLeft q x used =
     (let allowed = AttemptsAllowedFor q x
      in if allowed < 0 then - 1 else if allowed - used > 0 then allowed - used else 0)"

section \<open>The kept score\<close>

definition score_or_0 :: "quiz_submission \<Rightarrow> rat" where
  "score_or_0 s = (case qs_Score s of Some v \<Rightarrow> v | None \<Rightarrow> 0)"

definition newest_score :: "int \<times> rat \<Rightarrow> quiz_submission \<Rightarrow> int \<times> rat" where
  "newest_score acc s = (if qs_Attempt s > fst acc then (qs_Attempt s, score_or_0 s) else acc)"

definition KeptScore :: "string \<Rightarrow> quiz_submission list \<Rightarrow> rat option" where
  "KeptScore policy attempts =
     (let finished = filter IsCompleted attempts; scores = map score_or_0 finished
      in case scores of
           [] \<Rightarrow> None
         | v # vs \<Rightarrow>
             Some (if policy = ''keep_latest'' then snd (foldl newest_score (- 1, 0) finished)
               else if policy = ''keep_average''
               then roundScore (fdiv (foldl fadd 0 scores) (float_of_int (int (length scores))))
               else foldl (\<lambda>best w. if w > best then w else best) v vs))"

definition newest :: "quiz_submission option \<Rightarrow> quiz_submission \<Rightarrow> quiz_submission option" where
  "newest acc s = (case acc of None \<Rightarrow> Some s | Some l \<Rightarrow> if qs_Attempt s > qs_Attempt l then Some s else acc)"

definition latest_finished :: "quiz_submission list \<Rightarrow> quiz_submission option" where
  "latest_finished attempts = foldl newest None (filter IsCompleted attempts)"

text \<open>
  What happens with the kept score once it is on the latest finished attempt is a parameter here:
  the push to the gradebook may create the assignment, which refreshes every student again.
\<close>

type_synonym pusher = "quiz_store \<Rightarrow> quiz \<Rightarrow> quiz_submission \<Rightarrow> rat \<Rightarrow> nat \<Rightarrow> quiz_store"

definition refresh_with :: "pusher \<Rightarrow> quiz_store \<Rightarrow> quiz \<Rightarrow> nat \<Rightarrow> nat \<Rightarrow> quiz_store" where
  "refresh_with push db q uid grader =
     (let attempts = ListByQuizAndUser db (qz_ID q) uid
      in case KeptScore (qz_ScoringPolicy q) attempts of
           None \<Rightarrow> db
         | Some kept \<Rightarrow>
             (case latest_finished attempts of
                None \<Rightarrow> db
              | Some l \<Rightarrow>
                  (if qs_KeptScore l \<noteq> Some kept
                   then let l = l\<lparr>qs_KeptScore := Some kept\<rparr> in push (attempt_Update db l) q l kept grader
                   else push db q l kept grader)))"

definition score_record :: "instant \<Rightarrow> quiz_submission \<Rightarrow> rat \<Rightarrow> nat \<Rightarrow> quiz_score" where
  "score_record now l kept grader =
     \<lparr>rc_UserID = qs_UserID l, rc_Score = kept, rc_SubmittedAt = (case qs_FinishedAt l of Some t \<Rightarrow> t | None \<Rightarrow> now),
      rc_Attempt = qs_Attempt l, rc_PendingReview = (qs_WorkflowState l = ''pending_review''), rc_GraderID = grader\<rparr>"

definition push_to :: "sub_env \<Rightarrow> instant \<Rightarrow> assignment \<Rightarrow> quiz_store \<Rightarrow> quiz_submission \<Rightarrow> rat \<Rightarrow> nat \<Rightarrow> quiz_store" where
  "push_to env now a db l kept grader =
     (case RecordQuizScore env now (qd_Enrolled db) (qd_Gradebook db) a (score_record now l kept grader) of
        (Inl _, gb) \<Rightarrow> db\<lparr>qd_Gradebook := gb\<rparr>
      | (Inr s, gb) \<Rightarrow>
          (let db = db\<lparr>qd_Gradebook := gb\<rparr>
           in if sub_ID s \<noteq> 0 \<and> qs_SubmissionID l \<noteq> Some (sub_ID s)
              then attempt_Update db (l\<lparr>qs_SubmissionID := Some (sub_ID s)\<rparr>) else db))"

definition push_linked :: "sub_env \<Rightarrow> instant \<Rightarrow> pusher" where
  "push_linked env now db q l kept grader =
     (if \<not> IsGraded q then db
      else case linkedAssignment db q of None \<Rightarrow> db | Some a \<Rightarrow> push_to env now a db l kept grader)"

section \<open>The assignment of a quiz\<close>

definition resync_users :: "quiz_store \<Rightarrow> quiz \<Rightarrow> nat list" where
  "resync_users db q = rev (remdups (rev (map qs_UserID (ListCompletedByQuizID db (qz_ID q)))))"

definition resyncAllGradebookScores :: "sub_env \<Rightarrow> instant \<Rightarrow> quiz_store \<Rightarrow> quiz \<Rightarrow> quiz_store" where
  "resyncAllGradebookScores env now db q =
     foldl (\<lambda>db uid. refresh_with (push_linked env now) db q uid 0) db (resync_users db q)"

definition hasSubmissionType :: "string \<Rightarrow> string \<Rightarrow> bool" where
  "hasSubmissionType types want = list_ex (\<lambda>t. TrimSpace t = want) (split_on (CHR '','') types)"

definition orphanQuizAssignment :: "quiz_store \<Rightarrow> quiz \<Rightarrow> assignment option" where
  "orphanQuizAssignment db q =
     (let listed = take 10000 (sort_key (\<lambda>a. qd_Position db (asg_ID a)) (sort_key asg_ID
            (filter (\<lambda>a. asg_CourseID a = qz_CourseID q \<and> asg_WorkflowState a \<noteq> ''deleted'') (sx_Assignments (qd_Gradebook db)))));
          candidates = filter (\<lambda>a. qd_Names db (asg_ID a) = qz_Title q \<and> hasSubmissionType (asg_SubmissionTypes a) ''online_quiz'') listed;
          linked = List.map_filter (\<lambda>r. if qz_ID r \<noteq> qz_ID q then qz_AssignmentID r else None) (quizzes_ListByCourseID db (qz_CourseID q))
      in find (\<lambda>a. asg_ID a \<notin> set linked) candidates)"

definition new_assignment :: "quiz \<Rightarrow> nat option \<Rightarrow> assignment" where
  "new_assignment q gid =
     \<lparr>asg_ID = 0, asg_CourseID = qz_CourseID q, asg_DueAt = None, asg_UnlockAt = None, asg_LockAt = None, asg_PointsPossible = None,
      asg_GradingType = ''points'', asg_SubmissionTypes = [], asg_GroupID = gid, asg_WorkflowState = [], asg_Published = False,
      asg_PostPolicy = ''automatic'', asg_GroupCategoryID = None, asg_OnlyVisibleToOverrides = False, asg_GradingStandardID = None,
      asg_AllowedAttempts = None, asg_AllowedExtensions = [], asg_AnnotatableAttachmentID = None,
      asg_GradeGroupStudentsIndividually = False, asg_ModeratedGrading = False, asg_GradesPublishedAt = None,
      asg_OmitFromFinalGrade = False\<rparr>"

definition mirrored :: "quiz \<Rightarrow> nat option \<Rightarrow> assignment \<Rightarrow> assignment" where
  "mirrored q gid a =
     (let live = qz_Published q \<or> qz_WorkflowState q = ''published'';
          a = a\<lparr>asg_DueAt := qz_DueAt q, asg_UnlockAt := qz_UnlockAt q, asg_LockAt := qz_LockAt q, asg_PointsPossible := qz_PointsPossible q,
                asg_SubmissionTypes := ''online_quiz'', asg_WorkflowState := (if live then ''published'' else ''unpublished''),
                asg_Published := live\<rparr>
      in case gid of Some g \<Rightarrow> a\<lparr>asg_GroupID := Some g\<rparr> | None \<Rightarrow> a)"

text \<open>The assignments table, which the dates are resolved from as well.\<close>

definition with_tables :: "sub_store \<Rightarrow> assignment list \<Rightarrow> assignment list \<Rightarrow> sub_store" where
  "with_tables gb xs ys = gb\<lparr>sx_Assignments := xs, sx_Dates := (sx_Dates gb)\<lparr>dd_Assignments := ys\<rparr>\<rparr>"

definition assignment_Create :: "quiz_store \<Rightarrow> quiz \<Rightarrow> assignment \<Rightarrow> assignment \<times> quiz_store" where
  "assignment_Create db q a =
     (let gb = qd_Gradebook db; a = a\<lparr>asg_ID := sx_NextID gb\<rparr>;
          gb = with_tables gb (sx_Assignments gb @ [a]) (dd_Assignments (sx_Dates gb) @ [a])
      in (a, db\<lparr>qd_Gradebook := gb\<lparr>sx_NextID := Suc (sx_NextID gb)\<rparr>, qd_Names := (qd_Names db)(asg_ID a := qz_Title q)\<rparr>))"

definition assignment_Update :: "quiz_store \<Rightarrow> quiz \<Rightarrow> assignment \<Rightarrow> quiz_store" where
  "assignment_Update db q a =
     (let gb = qd_Gradebook db; save = map (\<lambda>r. if asg_ID r = asg_ID a then a else r)
      in db\<lparr>qd_Gradebook := with_tables gb (save (sx_Assignments gb)) (save (dd_Assignments (sx_Dates gb))),
            qd_Names := (qd_Names db)(asg_ID a := qz_Title q)\<rparr>)"

definition assignment_Delete :: "quiz_store \<Rightarrow> nat \<Rightarrow> quiz_store" where
  "assignment_Delete db i =
     (let gb = qd_Gradebook db; drop' = map (\<lambda>r. if asg_ID r = i then r\<lparr>asg_WorkflowState := ''deleted''\<rparr> else r)
      in db\<lparr>qd_Gradebook := with_tables gb (drop' (sx_Assignments gb)) (drop' (dd_Assignments (sx_Dates gb)))\<rparr>)"

definition unlink_quiz :: "quiz_store \<Rightarrow> quiz \<Rightarrow> quiz \<times> quiz_store" where
  "unlink_quiz db q =
     (if qz_AssignmentID q = None then (q, db)
      else let db = (case linkedAssignment db q of Some own \<Rightarrow> assignment_Delete db (asg_ID own) | None \<Rightarrow> db);
               q = q\<lparr>qz_AssignmentID := None\<rparr>
           in (q, quiz_Update db q))"

definition link_quiz :: "sub_env \<Rightarrow> instant \<Rightarrow> quiz_store \<Rightarrow> quiz \<Rightarrow> assignment \<Rightarrow> assignment option \<times> quiz \<times> quiz_store" where
  "link_quiz env now db q a =
     (let q = q\<lparr>qz_AssignmentID := Some (asg_ID a)\<rparr>
      in (Some a, q, resyncAllGradebookScores env now (quiz_Update db q) q))"

definition SyncQuizAssignment :: "sub_env \<Rightarrow> instant \<Rightarrow> quiz_store \<Rightarrow> quiz \<Rightarrow> nat option \<Rightarrow> assignment option \<times> quiz \<times> quiz_store" where
  "SyncQuizAssignment env now db q gid =
     (if \<not> (IsGraded q \<and> qz_WorkflowState q \<noteq> ''deleted'') then (let (q, db) = unlink_quiz db q in (None, q, db))
      else case linkedAssignment db q of
          Some a \<Rightarrow> (let a = mirrored q gid a in (Some a, q, assignment_Update db q a))
        | None \<Rightarrow>
            (case orphanQuizAssignment db q of
               Some a \<Rightarrow> (let a = mirrored q gid a in link_quiz env now (assignment_Update db q a) q a)
             | None \<Rightarrow>
                 (let a = mirrored q gid (new_assignment q (case gid of Some _ \<Rightarrow> None | None \<Rightarrow> qd_FirstGroup db (qz_CourseID q)));
                      (a, db) = assignment_Create db q a
                  in link_quiz env now db q a)))"

definition pushGradebookScore :: "sub_env \<Rightarrow> instant \<Rightarrow> pusher" where
  "pushGradebookScore env now db q l kept grader =
     (if \<not> IsGraded q then db
      else case linkedAssignment db q of
          Some a \<Rightarrow> push_to env now a db l kept grader
        | None \<Rightarrow> if qz_AssignmentID q \<noteq> None then db else snd (snd (SyncQuizAssignment env now db q None)))"

definition refreshKeptScore :: "sub_env \<Rightarrow> instant \<Rightarrow> quiz_store \<Rightarrow> quiz \<Rightarrow> nat \<Rightarrow> nat \<Rightarrow> quiz_store" where
  "refreshKeptScore env now = refresh_with (pushGradebookScore env now)"

text \<open>
  \<open>resyncAllGradebookScores\<close> calls \<open>refreshKeptScore\<close> with the linked quiz, for which the push
  never creates an assignment again.
\<close>

lemma refresh_of_linked_quiz:
  "qz_AssignmentID q \<noteq> None \<Longrightarrow> refreshKeptScore env now db q uid grader = refresh_with (push_linked env now) db q uid grader"
  by (simp add: refreshKeptScore_def refresh_with_def pushGradebookScore_def push_linked_def cong: if_cong option.case_cong)

section \<open>Graded quizzes without an assignment\<close>

definition unlinked_graded :: "quiz_store \<Rightarrow> quiz \<Rightarrow> bool" where
  "unlinked_graded db q =
     (qz_WorkflowState q \<noteq> ''deleted'' \<and> IsGraded q \<and>
      (case qz_AssignmentID q of
         None \<Rightarrow> True
       | Some i \<Rightarrow> \<not> list_ex (\<lambda>a. asg_ID a = i \<and> asg_CourseID a = qz_CourseID q) (sx_Assignments (qd_Gradebook db))))"

definition ListGradedWithoutAssignment :: "quiz_store \<Rightarrow> nat \<Rightarrow> nat \<Rightarrow> quiz list" where
  "ListGradedWithoutAssignment db afterID limit =
     take limit (sort_key qz_ID (filter (\<lambda>q. qz_ID q > afterID \<and> unlinked_graded db q) (qd_Quizzes db)))"

definition link_one :: "sub_env \<Rightarrow> instant \<Rightarrow> quiz_store \<times> nat \<times> nat \<Rightarrow> quiz \<Rightarrow> quiz_store \<times> nat \<times> nat" where
  "link_one env now acc q =
     (case acc of (db, linked, _) \<Rightarrow>
        (case SyncQuizAssignment env now db q None of
           (None, _, db) \<Rightarrow> (db, linked, qz_ID q)
         | (Some _, _, db) \<Rightarrow> (db, Suc linked, qz_ID q)))"

fun link_batches :: "sub_env \<Rightarrow> instant \<Rightarrow> nat \<Rightarrow> quiz_store \<Rightarrow> nat \<Rightarrow> nat \<Rightarrow> nat \<times> quiz_store" where
  "link_batches env now 0 db linked afterID = (linked, db)"
| "link_batches env now (Suc k) db linked afterID =
     (let quizzes = ListGradedWithoutAssignment db afterID 100
      in case foldl (link_one env now) (db, linked, afterID) quizzes of
           (db, linked, afterID) \<Rightarrow> (if length quizzes < 100 then (linked, db) else link_batches env now k db linked afterID))"

definition LinkGradedQuizzes :: "sub_env \<Rightarrow> instant \<Rightarrow> quiz_store \<Rightarrow> nat \<times> quiz_store" where
  "LinkGradedQuizzes env now db = link_batches env now 50 db 0 0"

definition QuizForAssignment :: "quiz_store \<Rightarrow> nat \<Rightarrow> nat \<Rightarrow> quiz option" where
  "QuizForAssignment db cid i = find (\<lambda>q. qz_AssignmentID q = Some i) (quizzes_ListByCourseID db cid)"

definition QuizLinkedAssignmentIDs :: "quiz list \<Rightarrow> nat list" where
  "QuizLinkedAssignmentIDs qs = List.map_filter (\<lambda>q. if qz_WorkflowState q \<noteq> ''deleted'' then qz_AssignmentID q else None) qs"

end
