(* ===== verification/Row_Writers.thy ===== *)
theory Row_Writers imports Submission_Steps Grade_Refresh Quiz_Gradebook begin

text \<open>
  Every writer of submission rows as one transition system: the operations of the submission
  service, the grading policy service, the quiz scores, graded discussions and the grading view, and
  steps of the other tables in between. Each step keeps the rows consistent.
\<close>

section \<open>The score of a quiz\<close>

lemma taken_row_ok [simp]: "grade_ok fair (taken_row now db a rc s) = grade_ok fair s" "same_row r (taken_row now db a rc s) = same_row r s"
  by (simp_all add: taken_row_def Let_def) (simp_all add: grade_ok_def same_row_def row_key_def)

lemma auto_graded_ok [simp]: "grade_ok fair (auto_graded rc s) = grade_ok fair s" "same_row r (auto_graded rc s) = same_row r s"
  by (auto simp: auto_graded_def Let_def grade_ok_def same_row_def row_key_def)

lemma scored_row_ok:
  assumes "policies_ok fair (sx_Policies db)" "grade_ok fair s" shows "grade_ok fair (scored_row env now db a rc s)"
proof -
  define t where "t = taken_row now db a rc s"
  have "grade_ok fair t" using assms(2) by (simp add: t_def)
  moreover have "grade_ok fair (t\<lparr>sub_WorkflowState := w\<rparr>) = grade_ok fair t" for w by (simp add: grade_ok_def)
  ultimately show ?thesis
    unfolding scored_row_def t_def[symmetric] Let_def using assms(1) by (simp add: applyGradeGiven_ok)
qed

lemma scored_row_same: "same_row r (scored_row env now db a rc s) = same_row r s"
proof -
  define t where "t = taken_row now db a rc s"
  have "same_row r t = same_row r s" by (simp add: t_def)
  moreover have "same_row r (t\<lparr>sub_WorkflowState := w\<rparr>) = same_row r t" for w by (simp add: same_row_def row_key_def)
  ultimately show ?thesis unfolding scored_row_def t_def[symmetric] Let_def by simp
qed

lemma announce_score_ok [simp]: "store_ok fair (announce_score now db a rc isNew old s) = store_ok fair db"
  by (simp add: announce_score_def Let_def sub_frame)

lemma RecordQuizScore_ok:
  assumes "store_ok fair db" shows "store_ok fair (snd (RecordQuizScore env now enrolled db a rc))"
proof -
  let ?found = "FindByAssignmentAndUser db (asg_ID a) (rc_UserID rc) 0"
  define old where "old = (case ?found of Some s \<Rightarrow> s | None \<Rightarrow> blank_submission (asg_ID a) (rc_UserID rc) [])"
  have saved: "store_ok fair db1" if "save_submission (?found = None) db (scored_row env now db a rc old) = Some (s, db1)" for s db1
    by (rule store_ok_save[OF assms that])
       (auto simp: old_def scored_row_same same_row_refl intro!: scored_row_ok store_ok_policies assms)
  show ?thesis
    unfolding RecordQuizScore_def Let_def old_def[symmetric] using assms saved by (auto split: option.split)
qed

section \<open>A refresh keeps the rows consistent\<close>

text \<open>
  A refresh works on rows it read before its loop; they are still in the table, because every write
  of the loop keeps the ids and keys of the rows.
\<close>

definition ident_of :: "submission \<Rightarrow> nat \<times> nat \<times> nat" where
  "ident_of s = (sub_ID s, row_key s)"

definition idents :: "sub_store \<Rightarrow> (nat \<times> nat \<times> nat) list" where
  "idents db = map ident_of (sx_Submissions db)"

lemma same_row_ident: "same_row r s \<longleftrightarrow> ident_of r = ident_of s"
  by (simp add: same_row_def ident_of_def)

definition settled :: "bool \<Rightarrow> sub_store \<Rightarrow> sub_store \<Rightarrow> bool" where
  "settled fair db db' = (store_ok fair db' \<and> set (idents db) \<subseteq> set (idents db') \<and> sx_Policies db' = sx_Policies db)"

lemma settled_refl: "store_ok fair db \<Longrightarrow> settled fair db db"
  by (simp add: settled_def)

lemma settled_trans: "settled fair db db1 \<Longrightarrow> settled fair db1 db2 \<Longrightarrow> settled fair db db2"
  by (auto simp: settled_def)

lemma settled_frame:
  "settled fair db (recordAttempt db1 s) = settled fair db db1" "settled fair db (recordAttemptGrade db1 s) = settled fair db db1"
  "settled fair db (logGradeChange db1 a s g og os) = settled fair db db1" "settled fair db (fireIfPosted db1 s) = settled fair db db1"
  "settled fair db (saved_grade db1 a s g og os) = settled fair db db1"
  by (simp_all add: settled_def idents_def sub_frame)

lemma settled_update:
  assumes "store_ok fair db" "ident_of s \<in> set (idents db)" "grade_ok fair s" shows "settled fair db (submission_Update db s)"
proof -
  obtain r where r: "r \<in> set (sx_Submissions db)" "same_row r s"
    using assms(2) by (auto simp: idents_def same_row_ident)
  have "ident_of (if sub_ID x = sub_ID s then s else x) = ident_of x" if x: "x \<in> set (sx_Submissions db)" for x
  proof (cases "sub_ID x = sub_ID s")
    case True
    then have "x = r" using r x assms(1) by (auto simp: store_ok_def distinct_map inj_on_def same_row_def)
    then show ?thesis using r(2) True by (simp add: same_row_ident)
  qed simp
  then have "idents (submission_Update db s) = idents db"
    unfolding idents_def rows_Update map_map o_def by (rule map_cong[OF refl])
  then show ?thesis using store_ok_update[OF assms(1) r assms(3)] by (simp add: settled_def sub_frame)
qed

lemma settled_map:
  assumes "store_ok fair db" "\<And>s. same_row s (f s)" "\<And>s. grade_ok fair s \<Longrightarrow> grade_ok fair (f s)"
    "sx_Submissions db' = map f (sx_Submissions db)" "sx_NextID db' = sx_NextID db" "sx_Policies db' = sx_Policies db"
  shows "settled fair db db'"
proof -
  have "idents db' = idents db" using assms(2) by (simp add: idents_def assms(4) same_row_ident)
  then show ?thesis using store_ok_map_rows[OF assms] assms(6) by (simp add: settled_def)
qed

lemma settled_create:
  assumes "store_ok fair db" "grade_ok fair s" "submission_Create db s = Some (r, db')" shows "settled fair db db'"
proof -
  have "sx_Policies db' = sx_Policies db" using assms(3) by (auto simp: submission_Create_def Let_def split: if_splits)
  then show ?thesis using store_ok_create[OF assms] by (auto simp: settled_def idents_def)
qed

lemma settled_CreateSubmission:
  "store_ok fair db \<Longrightarrow> grade_ok fair s \<Longrightarrow> settled fair db (snd (CreateSubmission db s))"
  by (auto simp: CreateSubmission_def settled_refl intro: settled_create split: option.split)

lemma UpdateSubmissionStatus_settled: "store_ok fair db \<Longrightarrow> settled fair db (UpdateSubmissionStatus db s)"
  by (rule settled_map[where f = "\<lambda>r. if sub_ID r = sub_ID s then r\<lparr>sub_CachedDueDate := sub_CachedDueDate s, sub_Late := sub_Late s,
       sub_Missing := sub_Missing s\<rparr> else r"]) (auto simp: UpdateSubmissionStatus_def)

lemma SetSubmissionsPostedAt_settled: "store_ok fair db \<Longrightarrow> settled fair db (SetSubmissionsPostedAt db aid ids p)"
  by (rule settled_map[where f = "\<lambda>r. if sub_AssignmentID r = aid \<and> sub_ID r \<in> set ids then r\<lparr>sub_PostedAt := p\<rparr> else r"])
     (auto simp: SetSubmissionsPostedAt_def)

lemma LateDeductionFor_nonneg:
  assumes "fair \<Longrightarrow> (\<forall>p. policy = Some p \<longrightarrow> 0 \<le> lp_LateSubmissionDeduction p)" "fair" shows "0 \<le> LateDeductionFor policy a s e due"
  using assms by (auto simp: LateDeductionFor_def split: option.split intro!: LatePointsDeducted_nonneg)

lemma reapplied_ok:
  assumes "grade_ok fair s" "fair \<Longrightarrow> (\<forall>p. policy = Some p \<longrightarrow> 0 \<le> lp_LateSubmissionDeduction p)"
    "reapplied env db a s policy due = Some s'"
  shows "grade_ok fair s'" "ident_of s' = ident_of s" "sub_Score s' \<noteq> None"
proof -
  obtain e v where ev: "sub_EnteredScore s = Some e" "sub_Score s = Some v"
    using assms(3) by (auto simp: reapplied_def split: option.splits)
  define d where "d = LateDeductionFor policy a s e due"
  have s': "s' = s\<lparr>sub_Score := Some (fsub e d),
      sub_Grade := Some (FormatGrade (se_text env) a (Some (resolveScheme env db a)) (fsub e d) (text_or_empty (sub_EnteredGrade s))),
      sub_PointsDeducted := (if d > 0 then Some d else None)\<rparr>" and "\<not> sub_Excused s"
    using assms(3) ev unfolding d_def by (auto simp: reapplied_def Let_def split: if_splits)
  then show "grade_ok fair s'"
    using explained_by_deduction[of fair d e] LateDeductionFor_nonneg[OF assms(2)] ev by (simp add: grade_ok_def d_def)
  show "ident_of s' = ident_of s" "sub_Score s' \<noteq> None" by (simp_all add: s' ident_of_def row_key_def)
qed

lemma reapplyLateDeduction_ok:
  assumes "store_ok fair db" "ident_of s \<in> set (idents db)" "grade_ok fair s"
    "fair \<Longrightarrow> (\<forall>p. policy = Some p \<longrightarrow> 0 \<le> lp_LateSubmissionDeduction p)"
    "reapplyLateDeduction env db a s policy due = (re, s', db')"
  shows "settled fair db db'" "grade_ok fair s'" "ident_of s' = ident_of s"
proof -
  have "settled fair db db' \<and> grade_ok fair s' \<and> ident_of s' = ident_of s"
  proof (cases "reapplied env db a s policy due")
    case None
    then show ?thesis using assms by (auto simp: reapplyLateDeduction_def settled_refl)
  next
    case (Some t)
    note t = reapplied_ok[OF assms(3,4) Some]
    have "settled fair db (submission_Update db t)" by (rule settled_update) (use assms(1,2) t in auto)
    then show ?thesis using assms(5) Some t by (auto simp: reapplyLateDeduction_def settled_frame)
  qed
  then show "settled fair db db'" "grade_ok fair s'" "ident_of s' = ident_of s" by blast+
qed

lemma settled_foldl:
  assumes "settled fair db0 (snd st)" "\<And>st x. settled fair db0 (snd st) \<Longrightarrow> x \<in> set xs \<Longrightarrow> settled fair (snd st) (snd (f st x))"
  shows "settled fair db0 (snd (foldl f st xs))"
  by (rule foldl_invariant[where P = "\<lambda>st. settled fair db0 (snd st)"]) (use assms settled_trans in blast)+

lemma settled_ok: "settled fair db db' \<Longrightarrow> store_ok fair db'"
  by (simp add: settled_def)

lemma settled_ident: "settled fair db db' \<Longrightarrow> i \<in> set (idents db) \<Longrightarrow> i \<in> set (idents db')"
  by (auto simp: settled_def)

lemma missing_row_ident [simp]: "ident_of (missing_row env db a s points now) = ident_of s"
  by (simp add: missing_row_def ident_of_def row_key_def posted_def Let_def)

lemma applyMissingRow_settled:
  assumes "store_ok fair db" "ident_of s \<in> set (idents db)" "\<not> sub_Excused s" "f64 points = points"
  shows "settled fair db (applyMissingRow env db a s points now)"
  using settled_update[OF assms(1), of "missing_row env db a s points now"] assms
  by (simp add: applyMissingRow_def Let_def settled_frame missing_row_ok)

lemma refreshed_status_ok [simp]:
  "grade_ok fair (refreshed_status now a dd s) = grade_ok fair s" "ident_of (refreshed_status now a dd s) = ident_of s"
  by (simp_all add: refreshed_status_def Let_def grade_ok_def ident_of_def row_key_def)

lemma refreshed_missing: "sub_Missing (refreshed_status now a dd s) \<Longrightarrow> \<not> sub_Excused (refreshed_status now a dd s)"
  by (auto simp: refreshed_status_def Let_def ComputeTardiness_def on_time_def split: if_splits)

lemma reapply_excused: "reapplyLateDeduction env db a s policy due = (re, s', db') \<Longrightarrow> sub_Excused s' = sub_Excused s"
  by (auto simp: reapplyLateDeduction_def reapplied_def Let_def split: option.splits if_splits)

definition policy_fair :: "bool \<Rightarrow> late_policy option \<Rightarrow> bool" where
  "policy_fair fair policy = (fair \<longrightarrow> (\<forall>p. policy = Some p \<longrightarrow> 0 \<le> lp_LateSubmissionDeduction p))"

lemma policy_fair_of: "store_ok fair db \<Longrightarrow> policy_fair fair (policy_of db cid)"
  by (auto simp: policy_fair_def policy_of_def store_ok_def policies_ok_def list_all_iff find_Some_iff)

lemma refresh_row_settled:
  assumes "store_ok fair (snd st)" "ident_of s \<in> set (idents (snd st))" "grade_ok fair s" "policy_fair fair policy"
  shows "settled fair (snd st) (snd (refresh_row env now policy m inp a st s))"
proof -
  obtain n db where st: "st = (n, db)" by force
  define dd where "dd = ResolveDueDates now inp (asg_ID a) (sub_UserID s)"
  define s1 where "s1 = refreshed_status now a dd s"
  define db1 where "db1 = (if s1 \<noteq> s then UpdateSubmissionStatus db s1 else db)"
  define n1 where "n1 = (if s1 \<noteq> s then Suc n else n)"
  have db1: "settled fair db db1" using assms(1) by (simp add: db1_def st UpdateSubmissionStatus_settled settled_refl)
  obtain re s2 db2 where r: "(if inClosedPeriod dd then (False, s1, db1)
      else reapplyLateDeduction env db1 a s1 policy (sub_CachedDueDate s1)) = (re, s2, db2)" by (metis prod_cases3)
  have s1: "grade_ok fair s1" "ident_of s1 = ident_of s" using assms(3) by (simp_all add: s1_def)
  have in1: "ident_of s1 \<in> set (idents db1)" using settled_ident[OF db1] assms(2) s1(2) by (simp add: st)
  have db2: "settled fair db1 db2" "ident_of s2 = ident_of s" "sub_Excused s2 = sub_Excused s1"
    using r reapplyLateDeduction_ok[OF settled_ok[OF db1] in1 s1(1), of policy] reapply_excused assms(4) settled_refl[OF settled_ok[OF db1]] s1(2)
    by (auto simp: policy_fair_def split: if_splits)
  have in2: "ident_of s2 \<in> set (idents db2)" using settled_ident[OF db2(1) in1] db2(2) s1(2) by simp
  have missed: "settled fair db2 (applyMissingRow env db2 a s2 points now)" if "sub_Missing s1" "MissingPoints policy a = Some points" for points
    using applyMissingRow_settled[OF settled_ok[OF db2(1)] in2 _ MissingPoints_f64[OF that(2)]] refreshed_missing that(1) db2(3)
    by (simp add: s1_def)
  have pair: "(if s1 \<noteq> s then (Suc n, UpdateSubmissionStatus db s1) else (n, db)) = (n1, db1)" by (simp add: n1_def db1_def)
  have upto: "settled fair db db2" using settled_trans[OF db1 db2(1)] .
  show ?thesis
    unfolding st refresh_row_def Let_def split_conv dd_def[symmetric] s1_def[symmetric] pair r snd_conv
    using upto settled_trans[OF upto missed] by (auto split: option.split)
qed

lemma missing_placeholder_ok: "grade_ok fair (missing_placeholder env now db policy a uid due)"
  by (auto simp: missing_placeholder_def Let_def blank_submission_def grade_ok_def intro!: missing_row_ok[unfolded grade_ok_def] MissingPoints_f64
      split: option.split)

lemma settled_FirePosted: "settled fair db (FirePosted db1 ids) = settled fair db db1"
  by (simp add: settled_def idents_def FirePosted_frame store_ok_cong[OF FirePosted_frame(1-3)])

lemma create_missing_row_settled:
  assumes "store_ok fair (snd st)" shows "settled fair (snd st) (snd (create_missing_row env now policy inp a st uid))"
proof -
  obtain n db where st: "st = (n, db)" by force
  have new: "settled fair db (snd (CreateSubmission db (missing_placeholder env now db policy a uid due)))" for due
    by (rule settled_CreateSubmission) (use assms st in \<open>simp_all add: missing_placeholder_ok\<close>)
  show ?thesis
    unfolding st create_missing_row_def Let_def split_conv snd_conv
    using new settled_refl assms
    by (auto simp: st settled_frame settled_FirePosted split_beta split: option.split)
qed

lemma rows_of_facts:
  assumes "store_ok fair db" "s \<in> set (rows_of db aid)" shows "ident_of s \<in> set (idents db)" "grade_ok fair s"
  using assms by (auto simp: rows_of_def idents_def store_ok_def list_all_iff)

lemma refresh_assignment_settled:
  assumes "store_ok fair (snd st)" "policy_fair fair policy"
  shows "settled fair (snd st) (snd (refresh_assignment env now policy m inp st a))"
proof -
  let ?subs = "rows_of (snd st) (asg_ID a)"
  have rows: "settled fair (snd st) (snd (foldl (refresh_row env now policy m inp a) st ?subs))"
  proof (rule settled_foldl[OF settled_refl[OF assms(1)]])
    fix st' :: "nat \<times> sub_store" and x assume st': "settled fair (snd st) (snd st')" and x: "x \<in> set ?subs"
    show "settled fair (snd st') (snd (refresh_row env now policy m inp a st' x))"
      by (rule refresh_row_settled[OF settled_ok[OF st'] settled_ident[OF st' rows_of_facts(1)[OF assms(1) x]] rows_of_facts(2)[OF assms(1) x] assms(2)])
  qed
  have "settled fair (snd st) (snd (foldl (create_missing_row env now policy inp a) (foldl (refresh_row env now policy m inp a) st ?subs) us))" for us
    by (rule settled_foldl[OF rows]) (rule create_missing_row_settled, rule settled_ok)
  then show ?thesis unfolding refresh_assignment_def Let_def using rows by (simp only: split: if_split) simp
qed

lemma refresh_settled:
  assumes "store_ok fair db" shows "settled fair db (snd (refresh env now db cid ids m))"
  unfolding refresh_def Let_def
  by (rule settled_foldl)
     (auto simp: settled_refl assms intro!: refresh_assignment_settled policy_fair_of elim: settled_ok)

lemma RefreshDueStatus_ok: "store_ok fair db \<Longrightarrow> store_ok fair (RefreshDueStatus env now db cid ids)"
  by (simp add: RefreshDueStatus_def settled_ok[OF refresh_settled])

lemma refresh_courses_ok: "store_ok fair db \<Longrightarrow> store_ok fair (refresh_courses env now db cs)"
  by (induction cs arbitrary: db) (simp_all add: RefreshDueStatus_ok)

lemma missing_course_ok: "store_ok fair (snd st) \<Longrightarrow> store_ok fair (snd (missing_course env now due st cid))"
  by (simp add: missing_course_def split_beta settled_ok[OF refresh_settled])

lemma ApplyMissingPolicy_ok: "store_ok fair db \<Longrightarrow> store_ok fair (snd (ApplyMissingPolicy env now db lookback))"
  unfolding ApplyMissingPolicy_def Let_def
  by (rule foldl_invariant[where P = "\<lambda>st. store_ok fair (snd st)"]) (simp_all add: missing_course_ok)

section \<open>Posting by section, discussions, placeholders\<close>

lemma posted_placeholder_ok: "grade_ok fair (posted_placeholder now inp a uid)"
  by (auto simp: posted_placeholder_def Let_def blank_submission_def grade_ok_def split: option.split)

lemma post_scoped_ok:
  assumes "store_ok fair db" shows "store_ok fair (snd (snd (post_scoped order now db cid a gradedOnly sections)))"
proof -
  have "store_ok fair (foldl (\<lambda>db u. snd (CreateSubmission db (posted_placeholder now inp a u))) db1 us)" if "store_ok fair db1" for inp db1 us
    by (rule foldl_invariant[where P = "store_ok fair", OF that])
       (rule settled_ok[OF settled_CreateSubmission[OF _ posted_placeholder_ok]])
  then show ?thesis
    using settled_ok[OF SetSubmissionsPostedAt_settled[OF assms]] by (simp add: post_scoped_def Let_def)
qed

lemma hide_scoped_ok: "store_ok fair db \<Longrightarrow> store_ok fair (hide_scoped now db cid a sections)"
  unfolding hide_scoped_def Let_def
  by (rule settled_ok[OF SetSubmissionsPostedAt_settled])
     (auto simp: SetAssignmentPostPolicy_def Let_def store_ok_def)

lemma discussion_row_ok [simp]: "grade_ok fair (discussion_row a s t) = grade_ok fair s" "same_row r (discussion_row a s t) = same_row r s"
  by (simp_all add: discussion_row_def grade_ok_def same_row_def row_key_def)

lemma SyncSubmissionForUser_ok:
  assumes "store_ok fair db" shows "store_ok fair (SyncSubmissionForUser db a uid first)"
proof (cases "FindByAssignmentAndUser db (asg_ID a) uid 0")
  case None
  then show ?thesis
    using assms store_ok_create(1)[OF assms, of "discussion_row a (blank_submission (asg_ID a) uid ''submitted'') t" for t]
    by (auto simp: SyncSubmissionForUser_def split: option.split)
next
  case (Some r)
  let ?gone = "r\<lparr>sub_WorkflowState := ''unsubmitted'', sub_SubmittedAt := None, sub_SubmissionType := None, sub_Late := False\<rparr>"
  have "grade_ok fair ?gone = grade_ok fair r" "same_row r ?gone" by (simp_all add: grade_ok_def same_row_def row_key_def)
  then show ?thesis
    using assms store_ok_update[OF assms FindBy_Some(1)[OF Some]] store_ok_found[OF assms Some] Some
    by (auto simp: SyncSubmissionForUser_def split: option.split)
qed

lemma EnsureSubmissionRows_ok:
  assumes "store_ok fair db" shows "store_ok fair (EnsureSubmissionRows db a students)"
  unfolding EnsureSubmissionRows_def
  by (rule foldl_invariant[where P = "store_ok fair", OF assms]) (auto dest: store_ok_create(1)[OF _ blank_ok] split: option.split)

lemma set_extra_attempts_ok:
  assumes "store_ok fair db" shows "store_ok fair (set_extra_attempts db r n)"
proof -
  have "store_ok fair (db\<lparr>sx_Submissions := map (\<lambda>x. if sub_ID x = sub_ID r then x\<lparr>sub_ExtraAttempts := Some n\<rparr> else x) (sx_Submissions db)\<rparr>)"
    by (rule store_ok_map_rows[where f = "\<lambda>x. if sub_ID x = sub_ID r then x\<lparr>sub_ExtraAttempts := Some n\<rparr> else x", OF assms])
       (auto simp: grade_ok_def same_row_def row_key_def)
  then show ?thesis using assms by (simp add: set_extra_attempts_def)
qed

section \<open>The steps of the writers\<close>

text \<open>
  \<open>refreshed\<close>, \<open>refreshed_user\<close>, \<open>missing_course\<close> and \<open>missing_job\<close> re-derive late deductions and
  score missing work; \<open>quiz_score\<close> is a score that arrives from a quiz. \<open>other_tables\<close>: between two
  operations the rest of the program may change every other table; only when \<open>fair\<close> is asked for
  must no late policy get a negative deduction.
\<close>

inductive sub_step :: "bool \<Rightarrow> sub_env \<Rightarrow> sub_store \<Rightarrow> sub_store \<Rightarrow> bool" for fair env where
  operation: "sub_step fair env db (snd (run_op env now db op))"
| mark: "r \<in> set (sx_Submissions db) \<Longrightarrow> sub_step fair env db (MarkPosted now db r)"
| post: "sub_step fair env db (snd (PostGrades now db a))"
| hide: "sub_step fair env db (HideGrades db a)"
| refreshed: "sub_step fair env db (RefreshDueStatus env now db cid ids)"
| refreshed_user: "sub_step fair env db (RefreshUserDueStatus env now db uid course)"
| missing_course: "sub_step fair env db (snd (ApplyCourseMissingPolicy env now db cid))"
| missing_job: "sub_step fair env db (snd (ApplyMissingPolicy env now db lookback))"
| post_some: "sub_step fair env db (snd (snd (post_scoped order now db cid a gradedOnly sections)))"
| hide_some: "sub_step fair env db (hide_scoped now db cid a sections)"
| quiz_score: "sub_step fair env db (snd (RecordQuizScore env now enrolled db a rc))"
| discussion: "sub_step fair env db (SyncSubmissionForUser db a uid first)"
| placeholders: "sub_step fair env db (EnsureSubmissionRows db a students)"
| extra_attempts: "sub_step fair env db (set_extra_attempts db r n)"
| other_tables: "sx_Submissions db' = sx_Submissions db \<Longrightarrow> sx_NextID db' = sx_NextID db \<Longrightarrow> policies_ok fair (sx_Policies db') \<Longrightarrow>
    sub_step fair env db db'"

lemma sub_step_ok:
  assumes "sub_step fair env db db'" "store_ok fair db" shows "store_ok fair db'"
  using assms(1)
proof cases
  case (other_tables)
  then show ?thesis using assms(2) by (simp add: store_ok_def)
qed (use assms(2) in \<open>simp_all add: run_op_ok MarkPosted_ok PostGrades_ok HideGrades_ok RefreshDueStatus_ok RefreshUserDueStatus_def
    refresh_courses_ok ApplyCourseMissingPolicy_def settled_ok[OF refresh_settled] ApplyMissingPolicy_ok post_scoped_ok hide_scoped_ok
    RecordQuizScore_ok SyncSubmissionForUser_ok EnsureSubmissionRows_ok set_extra_attempts_ok\<close>)

end
