(* ===== verification/Transitions.thy ===== *)
theory Transitions imports Models begin

text \<open>
  The workflow state machines of \<open>internal/domain/models/state_transitions.go\<close>: each model's edges
  with the roles that may take them, and the shared evaluator.
\<close>

section \<open>The evaluator\<close>

type_synonym transition_map = "(string \<times> (string \<times> string list) list) list"

datatype transition_error = NoOutgoing string | NotAllowed string string | RoleNotAllowed string string string

definition canTransition :: "transition_map \<Rightarrow> string \<Rightarrow> string \<Rightarrow> string \<Rightarrow> transition_error option" where
  "canTransition m s t role =
     (if s = t then None
      else case map_of m s of
          None \<Rightarrow> Some (NoOutgoing s)
        | Some allowed \<Rightarrow>
            (case map_of allowed t of
               None \<Rightarrow> Some (NotAllowed s t)
             | Some roles \<Rightarrow> if list_ex (\<lambda>r. r = role \<or> r = ''*'') roles then None else Some (RoleNotAllowed role s t)))"

section \<open>The machines\<close>

definition staff :: "string list" where
  "staff = [''teacher'', ''admin'', ''super_admin'']"

definition admins :: "string list" where
  "admins = [''admin'', ''super_admin'']"

definition courseTransitions :: transition_map where
  "courseTransitions =
     [(''claimed'', [(''created'', staff), (''deleted'', admins)]),
      (''created'', [(''unpublished'', staff), (''deleted'', admins)]),
      (''unpublished'', [(''available'', staff), (''deleted'', admins)]),
      (''available'', [(''unpublished'', staff), (''completed'', staff), (''deleted'', admins)]),
      (''completed'', [(''available'', admins), (''deleted'', admins)]),
      (''deleted'', [(''available'', [''super_admin''])])]"

definition discussionTopicTransitions :: transition_map where
  "discussionTopicTransitions =
     [(''unpublished'', [(''active'', staff), (''post_delayed'', staff), (''deleted'', staff)]),
      (''active'', [(''unpublished'', staff), (''locked'', staff), (''post_delayed'', staff), (''deleted'', staff)]),
      (''locked'', [(''active'', staff), (''deleted'', staff)]),
      (''post_delayed'', [(''active'', staff), (''unpublished'', staff), (''deleted'', staff)]),
      (''deleted'', [])]"

definition assignmentTransitions :: transition_map where
  "assignmentTransitions =
     [(''unpublished'', [(''published'', staff), (''deleted'', staff)]),
      (''published'', [(''unpublished'', staff), (''deleted'', staff)]),
      (''deleted'', [])]"

definition submissionTransitions :: transition_map where
  "submissionTransitions =
     [(''unsubmitted'', [(''submitted'', ''student'' # staff), (''pending_review'', staff), (''graded'', staff)]),
      (''submitted'', [(''graded'', staff), (''pending_review'', staff)]),
      (''pending_review'', [(''graded'', staff), (''submitted'', staff)]),
      (''graded'', [(''pending_review'', staff)])]"

section \<open>Reachable states\<close>

text \<open>The states a row can be moved to by callers whose roles are in \<open>R\<close>.\<close>

inductive moves :: "transition_map \<Rightarrow> string set \<Rightarrow> string \<Rightarrow> string \<Rightarrow> bool" for m R where
  stay: "moves m R s s"
| step: "moves m R s t \<Longrightarrow> role \<in> R \<Longrightarrow> canTransition m t u role = None \<Longrightarrow> moves m R s u"

inductive_cases moves_cases: "moves m R s t"

text \<open>A set of states closed under the allowed edges bounds what is reachable.\<close>

lemma moves_closed:
  assumes "moves m R s t" "s \<in> S" "\<And>x y role. x \<in> S \<Longrightarrow> role \<in> R \<Longrightarrow> canTransition m x y role = None \<Longrightarrow> y \<in> S"
  shows "t \<in> S"
  using assms(1,2) by induction (use assms(3) in blast)+

text \<open>The edges of the table a role may take.\<close>

lemma canTransition_None:
  "canTransition m s t role = None \<longleftrightarrow>
   s = t \<or> (\<exists>allowed roles. map_of m s = Some allowed \<and> map_of allowed t = Some roles \<and> (role \<in> set roles \<or> ''*'' \<in> set roles))"
  by (auto simp: canTransition_def list_ex_iff split: option.splits if_splits)

text \<open>The edges open to callers without a teaching role.\<close>

definition unprivileged :: "string set" where
  "unprivileged = {''student'', ''ta'', ''observer''}"

lemma unprivileged_submission_edge:
  assumes "role \<in> unprivileged" "canTransition submissionTransitions s t role = None"
  shows "s = t \<or> s = ''unsubmitted'' \<and> t = ''submitted''"
  using assms by (auto simp: canTransition_None submissionTransitions_def staff_def unprivileged_def split: if_splits)

lemma unprivileged_other_edge:
  assumes "role \<in> unprivileged" "m \<in> {courseTransitions, discussionTopicTransitions, assignmentTransitions}" "canTransition m s t role = None"
  shows "s = t"
  using assms(2)
proof (elim insertE emptyE)
  assume "m = courseTransitions"
  then show ?thesis using assms(1,3) by (auto simp: canTransition_None courseTransitions_def staff_def admins_def unprivileged_def split: if_splits)
next
  assume "m = discussionTopicTransitions"
  then show ?thesis using assms(1,3) by (auto simp: canTransition_None discussionTopicTransitions_def staff_def unprivileged_def split: if_splits)
next
  assume "m = assignmentTransitions"
  then show ?thesis using assms(1,3) by (auto simp: canTransition_None assignmentTransitions_def staff_def unprivileged_def split: if_splits)
qed



end
