(* ===== verification/Submission_Properties.thy ===== *)
theory Submission_Properties imports Row_Writers Transitions begin

text \<open>
  What the submission service guarantees: properties of its steps, of repeated grading, of what a
  student can hand in, and of which grades are announced.
\<close>

section \<open>Consistency and refusals\<close>

text \<open>
  C1. Consistency of the submission table is an invariant. Whatever writers of submission rows run,
  one after another in whatever order - students, graders, quiz scores, graded discussions, the
  refresh of late deductions after a change of dates or policies, the missing-work job, posting and
  hiding - and with whatever changes to the other tables in between, there is one row for each
  assignment and user; without an entered score a row has neither score nor deduction; a recorded
  deduction is positive and the final score is the entered score less it; without a recorded one the
  final score is at least the entered score; and an excused row has no grade. When moreover no
  late policy ever gets a negative deduction (\<open>fair\<close>), the final score without a recorded deduction
  is the entered score.
\<close>

theorem submission_rows_stay_consistent:
  assumes "(sub_step fair env)\<^sup>*\<^sup>* db db'" "store_ok fair db" shows "store_ok fair db'"
  using assms by (induction rule: rtranclp_induct) (auto intro: sub_step_ok)

text \<open>
  C26. An operation that reports an error - a locked, moderated or closed assignment, another
  tenant, an unreadable grade, a failed insert - leaves every table, the audit log, the attempt
  history and the fired callbacks as they were.
\<close>

theorem refused_operation_changes_nothing:
  assumes "fst (run_op env now db op) = Inl e" shows "snd (run_op env now db op) = db"
  using assms
  by (cases op) (auto simp: PublishModeratedGrade_def intro: Submit_refused Create_refused tool_refused Grade_refused
      GradeScore_refused SetExcused_refused SetLatePolicyStatus_refused gradeLoaded_refused)

section \<open>What grading can reach\<close>

text \<open>The operations a grader calls, with the assignment, the student and the tenant they name.\<close>

fun op_target :: "sub_op \<Rightarrow> (nat \<times> nat \<times> nat) option" where
  "op_target (OpGrade aid uid g account typed) = Some (aid, uid, account)"
| "op_target (OpScore aid uid g account points) = Some (aid, uid, account)"
| "op_target (OpExcuse aid uid g account e) = Some (aid, uid, account)"
| "op_target (OpStatus aid uid g account st n) = Some (aid, uid, account)"
| "op_target op = None"

definition gates_open :: "instant \<Rightarrow> sub_store \<Rightarrow> nat \<Rightarrow> nat \<Rightarrow> nat \<Rightarrow> assignment \<Rightarrow> bool" where
  "gates_open now db aid uid account a =
     (assignment_FindByID db aid account = Some a \<and> GradesPublished a \<and> closed_period now db a uid = None)"

lemma load_gradable_Inr: "load_gradable db aid account = Inr a \<longleftrightarrow> assignment_FindByID db aid account = Some a \<and> GradesPublished a"
  by (auto simp: load_gradable_def split: option.split)

lemma load_gradable_Inl: "load_gradable db aid account = Inl e \<Longrightarrow> \<not> gates_open now db aid uid account a"
  by (auto simp: load_gradable_def gates_open_def split: option.splits if_splits)

text \<open>Behind open gates an operation evolves the table; otherwise it does nothing.\<close>

definition gated :: "instant \<Rightarrow> sub_store \<Rightarrow> nat \<Rightarrow> nat \<Rightarrow> nat \<Rightarrow> sub_store \<Rightarrow> bool" where
  "gated now db aid uid account db' =
     (db' = db \<or> (\<exists>a. gates_open now db aid uid account a \<and> evolves a (graded_users db a uid) db db'))"

lemma gatedI: "gates_open now db aid uid account a \<Longrightarrow> evolves a D db db' \<Longrightarrow> D \<subseteq> graded_users db a uid \<Longrightarrow> gated now db aid uid account db'"
  unfolding gated_def using evolves_mono by blast

lemma gated_refl [simp]: "gated now db aid uid account db"
  by (simp add: gated_def)

lemma graded_user [simp]: "uid \<in> graded_users db a uid"
  by (simp add: graded_users_def)

lemma gated_SetExcused: "gated now db aid uid account (snd (SetExcused now db aid uid g account e))"
proof (cases "load_gradable db aid account")
  case (Inr a)
  have "gated now db aid uid account (snd (excuse_loaded now db a uid g account e))" if "closed_period now db a uid = None"
    using that Inr by (auto simp: load_gradable_Inr gates_open_def intro!: gatedI[OF _ evolves_excuse_loaded])
  then show ?thesis using Inr by (simp add: SetExcused_def split: option.split)
qed (simp add: SetExcused_def)

lemma gated_Grade: "gated now db aid uid account (snd (Grade env now db aid uid g account typed))"
proof (cases "load_gradable db aid account")
  case (Inr a)
  have written: "gated now db aid uid account (snd (gradeLoaded env now db a uid g account c e given))"
    if "closed_period now db a uid = None" for c e given
    using that Inr by (auto simp: load_gradable_Inr gates_open_def intro!: gatedI[OF _ evolves_gradeLoaded])
  have graded: "gated now db aid uid account (snd (case x of Inl e \<Rightarrow> (Inl (GradeRefused e), db) | Inr entered \<Rightarrow>
      (case closed_period now db a uid of Some t \<Rightarrow> (Inl (PeriodClosed t), db)
       | None \<Rightarrow> gradeLoaded env now db a uid g account c entered given)))" for x c given
    by (cases x; cases "closed_period now db a uid") (simp_all add: written)
  show ?thesis
    unfolding Grade_def Let_def Inr sum.case
    by (cases "types_excused (se_text env) (TrimSpace typed)"; simp only: if_True if_False; rule gated_SetExcused graded)
qed (simp add: Grade_def)

lemma gated_GradeScore: "gated now db aid uid account (snd (GradeScore env now db aid uid g account p))"
proof (cases "load_gradable db aid account")
  case (Inr a)
  have written: "gated now db aid uid account (snd (case gradeLoaded env now db a uid g account False (round6 p) [] of
       (Inl e, db1) \<Rightarrow> (Inl e, db1) | (Inr r, db1) \<Rightarrow> (Inr r, notifyGradeChange db1 r og os w)))"
    if "closed_period now db a uid = None" for og os w
  proof (rule gatedI)
    show "gates_open now db aid uid account a" using that Inr by (simp add: load_gradable_Inr gates_open_def)
    show "evolves a (graded_users db a uid) db (snd (case gradeLoaded env now db a uid g account False (round6 p) [] of
       (Inl e, db1) \<Rightarrow> (Inl e, db1) | (Inr r, db1) \<Rightarrow> (Inr r, notifyGradeChange db1 r og os w)))"
      using evolves_gradeLoaded[of a db uid env now g account False "round6 p" "[]"]
      by (auto simp: sub_frame split: prod.split sum.split)
  qed simp
  show ?thesis using Inr by (simp add: GradeScore_def Let_def written split: option.split)
qed (simp add: GradeScore_def)

lemma gated_SetLatePolicyStatus: "gated now db aid uid account (snd (SetLatePolicyStatus env now db aid uid g account st n))"
proof (cases "load_gradable db aid account")
  case (Inr a)
  have written: "gated now db aid uid account (snd (status_loaded env now db a uid g account st n))"
    if "closed_period now db a uid = None" for st
    using that Inr by (auto simp: load_gradable_Inr gates_open_def intro!: gatedI[OF _ evolves_status_loaded])
  show ?thesis using Inr by (auto simp: SetLatePolicyStatus_def written split: option.split)
qed (simp add: SetLatePolicyStatus_def)

text \<open>
  C5. A grading operation writes only behind its gates and only where it should: a row it leaves
  different belongs to the named assignment, which lies in the caller's tenant, is not under
  moderation and is in an open grading period for the named student; the row's user is that student
  or, when the group is graded together, an accepted member of the student's group; and under a
  manual post policy it is visible only if it already was.
\<close>

theorem grading_reaches_only_its_rows:
  assumes "op_target op = Some (aid, uid, account)" "r' \<in> set (sx_Submissions (snd (run_op env now db op)))"
    "r' \<notin> set (sx_Submissions db)"
  shows "\<exists>a. gates_open now db aid uid account a \<and> sub_AssignmentID r' = asg_ID a \<and> sub_UserID r' \<in> graded_users db a uid \<and>
    (UsesManualPostPolicy a \<and> sub_PostedAt r' \<noteq> None \<longrightarrow>
      (\<exists>r\<in>set (sx_Submissions db). same_row r r' \<and> sub_PostedAt r = sub_PostedAt r'))"
proof -
  have "gated now db aid uid account (snd (run_op env now db op))"
    using assms(1) by (cases op) (auto simp: gated_Grade gated_GradeScore gated_SetExcused gated_SetLatePolicyStatus)
  then obtain a where a: "gates_open now db aid uid account a" "evolves a (graded_users db a uid) db (snd (run_op env now db op))"
    using assms(2,3) unfolding gated_def by metis
  from a(2) assms(2,3) have "sub_AssignmentID r' = asg_ID a \<and> sub_UserID r' \<in> graded_users db a uid \<and>
    (UsesManualPostPolicy a \<and> sub_PostedAt r' \<noteq> None \<longrightarrow>
      (\<exists>r\<in>set (sx_Submissions db). same_row r r' \<and> sub_PostedAt r = sub_PostedAt r'))"
    unfolding evolves_def by (drule_tac bspec[of _ _ r']) (assumption, elim disjE, simp_all)
  with a(1) show ?thesis by (rule_tac exI[of _ a]) (rule conjI)
qed

section \<open>Grading again\<close>

definition late_inputs :: "submission \<Rightarrow> nat \<times> instant option \<times> string option \<times> int option" where
  "late_inputs s = (sub_UserID s, sub_SubmittedAt s, sub_LatePolicyStatus s, sub_SecondsLateOverride s)"

definition final_grade :: "submission \<Rightarrow> rat option \<times> string option \<times> rat option \<times> string option \<times> rat option" where
  "final_grade s = (sub_Score s, sub_Grade s, sub_EnteredScore s, sub_EnteredGrade s, sub_PointsDeducted s)"

lemma late_deduction_cong: "late_inputs s = late_inputs s' \<Longrightarrow> late_deduction now db a s e = late_deduction now db a s' e"
  by (simp add: late_inputs_def late_deduction_def latePointsDeducted_def manual_late_def)

lemma late_inputs_graded: "late_inputs (applyGradeGiven env db a s e given g now) = late_inputs s"
  by (simp add: late_inputs_def applyGradeGiven_def graded_row_def Let_def posted_def)

lemma late_inputs_id: "late_inputs (s\<lparr>sub_ID := i\<rparr>) = late_inputs s"
  by (simp add: late_inputs_def)

lemma final_grade_graded:
  "final_grade (applyGradeGiven env db a s e given g now) =
   (let d = late_deduction now db a s e; scheme = Some (resolveScheme env db a)
    in (Some (fsub e d), Some (FormatGrade (se_text env) a scheme (fsub e d) given), Some e,
        Some (FormatGrade (se_text env) a scheme e given), if d > 0 then Some d else None))"
  by (simp add: final_grade_def applyGradeGiven_def graded_row_def Let_def posted_def)

lemma final_grade_id: "final_grade (s\<lparr>sub_ID := i\<rparr>) = final_grade s"
  by (simp add: final_grade_def)

lemma key_unique:
  assumes "store_ok fair db" "r \<in> set (sx_Submissions db)" "s \<in> set (sx_Submissions db)" "row_key r = row_key s" shows "r = s"
  using assms by (auto simp: store_ok_def distinct_map inj_on_def)

lemma id_unique:
  assumes "store_ok fair db" "r \<in> set (sx_Submissions db)" "s \<in> set (sx_Submissions db)" "sub_ID r = sub_ID s" shows "r = s"
  using assms by (auto simp: store_ok_def distinct_map inj_on_def)

text \<open>Writing one user's row leaves the rows of the others.\<close>

lemma grade_member_keeps:
  assumes "store_ok fair db" "r \<in> set (sx_Submissions db)" "sub_UserID r \<noteq> m"
  shows "r \<in> set (sx_Submissions (grade_member env a scope g e given t db m))"
proof (cases "FindByAssignmentAndUser db (asg_ID a) m scope")
  case (Some x)
  let ?x = "applyGradeGiven env db a x e given g t"
  have x: "x \<in> set (sx_Submissions db)" "sub_UserID x = m" using FindBy_Some[OF Some] by (simp_all add: row_key_def)
  have "sub_ID ?x = sub_ID x" using applyGradeGiven_same(1)[of x env db a x e given g t] by (simp add: same_row_def)
  then have "sub_ID r \<noteq> sub_ID ?x" using id_unique[OF assms(1,2) x(1)] x(2) assms(3) by auto
  then show ?thesis using assms(2) Some by (auto simp: grade_member_def Let_def sub_frame rows_Update intro!: image_eqI[of r])
next
  case None
  then show ?thesis using assms(2)
    by (auto simp: grade_member_def sub_frame submission_Create_def Let_def split: option.split)
qed

lemma gradeGroupMembers_keeps:
  assumes "store_ok fair db" "r \<in> set (sx_Submissions db)" "sub_UserID r = uid"
  shows "r \<in> set (sx_Submissions (gradeGroupMembers env db a uid g e given t))"
proof -
  have "store_ok fair db' \<and> r \<in> set (sx_Submissions db')"
    if "db' = foldl (grade_member env a scope g e given t) db (getGroupMemberIDs db uid c)" for db' scope c
    unfolding that
  proof (rule foldl_invariant[where P = "\<lambda>db'. store_ok fair db' \<and> r \<in> set (sx_Submissions db')"])
    fix db' m assume db': "store_ok fair db' \<and> r \<in> set (sx_Submissions db')" and m: "m \<in> set (getGroupMemberIDs db uid c)"
    have "m \<noteq> uid" using m by (auto simp: getGroupMemberIDs_def split: option.splits)
    with db' assms(3) show "store_ok fair (grade_member env a scope g e given t db' m) \<and>
        r \<in> set (sx_Submissions (grade_member env a scope g e given t db' m))"
      by (simp add: grade_member_ok grade_member_keeps[of fair])
  qed (use assms in simp)
  then show ?thesis by (simp add: gradeGroupMembers_def)
qed

text \<open>What a successful write returns: the row it found, or a new one, with the grade.\<close>

lemma write_loaded_Inr:
  assumes "store_ok fair db" "write_loaded env now db a uid g account e given = (Inr r, db')"
  defines "found \<equiv> FindByAssignmentAndUser db (asg_ID a) uid account"
  defines "row \<equiv> (case found of Some x \<Rightarrow> x | None \<Rightarrow> blank_submission (asg_ID a) uid [])"
  shows "\<exists>i. r = (applyGradeGiven env db a row e given g now)\<lparr>sub_ID := i\<rparr>" "r \<in> set (sx_Submissions db')"
    "row_key r = (asg_ID a, uid)" "store_ok fair db'" "context_of db' = context_of db"
proof -
  let ?row' = "applyGradeGiven env db a row e given g now"
  obtain db1 where saved: "save_submission (found = None) db ?row' = Some (r, db1)"
    and db': "db' = fireIfPosted (if GradesGroupTogether a then gradeGroupMembers env (saved_grade db1 a r g (sub_Grade row) (sub_Score row)) a uid g e given now
      else saved_grade db1 a r g (sub_Grade row) (sub_Score row)) r"
    using assms(2) unfolding write_loaded_def Let_def found_def[symmetric] row_def[symmetric] by (auto split: option.splits)
  have key: "row_key ?row' = (asg_ID a, uid)"
    using FindBy_Some(2)[of db "asg_ID a" uid account] by (auto simp: row_def found_def split: option.split)
  have ok1: "store_ok fair db1"
  proof (rule write_row_ok[OF assms(1)])
    show "save_submission (FindByAssignmentAndUser db (asg_ID a) uid account = None) db ?row' = Some (r, db1)"
      using saved by (simp only: found_def)
  qed (simp_all add: row_def found_def applyGradeGiven_ok store_ok_policies[OF assms(1)])
  have "(\<exists>i. r = ?row'\<lparr>sub_ID := i\<rparr>) \<and> r \<in> set (sx_Submissions db1)"
  proof (cases found)
    case None
    then have "submission_Create db ?row' = Some (r, db1)" using saved by (simp add: save_submission_def)
    from store_ok_create(2,3)[OF assms(1) applyGradeGiven_ok[OF store_ok_policies[OF assms(1)]] this]
    show ?thesis by auto
  next
    case (Some x)
    then have r: "r = ?row'" "db1 = submission_Update db r" using saved by (auto simp: save_submission_def)
    have "x \<in> set (sx_Submissions db)" using FindBy_Some(1) Some by (simp add: found_def)
    moreover have "sub_ID x = sub_ID ?row'"
      using applyGradeGiven_same(1)[of x env db a row e given g now] Some by (simp add: same_row_def row_def)
    ultimately have "r \<in> set (sx_Submissions db1)" by (auto simp: r rows_Update intro!: image_eqI[of _ _ x])
    moreover have "r = ?row'\<lparr>sub_ID := sub_ID ?row'\<rparr>" by (simp add: r(1))
    ultimately show ?thesis by blast
  qed
  then have i: "\<exists>i. r = ?row'\<lparr>sub_ID := i\<rparr>" and r1: "r \<in> set (sx_Submissions db1)" by blast+
  show "\<exists>i. r = ?row'\<lparr>sub_ID := i\<rparr>" by (rule i)
  show keyr: "row_key r = (asg_ID a, uid)" using i key by (auto simp: row_key_def)
  show "r \<in> set (sx_Submissions db')"
    using r1 ok1 keyr by (auto simp: db' sub_frame row_key_def intro!: gradeGroupMembers_keeps)
  show "store_ok fair db'" using ok1 by (simp add: db' sub_frame gradeGroupMembers_ok)
  show "context_of db' = context_of db" using context_save[OF saved] by (simp add: db' sub_frame)
qed

text \<open>
  C6. Grading again starts from the grade as entered: after any earlier grade, by whoever and
  whenever it was written, a new grade gives the score, the grade text, the entered values and the
  late deduction that it gives on the ungraded row, so no deduction is ever taken twice.
\<close>

theorem second_grade_forgets_the_first:
  assumes "store_ok fair db"
    "gradeLoaded env now1 db a uid g1 account False e1 given1 = (Inr r1, db1)"
    "gradeLoaded env now2 db1 a uid g2 account False e2 given2 = (Inr r2, db2)"
    "gradeLoaded env now2 db a uid g2 account False e2 given2 = (Inr r, db')"
  shows "final_grade r2 = final_grade r \<and> sub_EnteredScore r2 = Some e2"
proof -
  let ?found = "\<lambda>db. FindByAssignmentAndUser db (asg_ID a) uid account"
  let ?row = "case ?found db of Some x \<Rightarrow> x | None \<Rightarrow> blank_submission (asg_ID a) uid []"
  note w1 = write_loaded_Inr[OF assms(1) assms(2)[unfolded gradeLoaded_def if_False]]
  note w2 = write_loaded_Inr[OF w1(4) assms(3)[unfolded gradeLoaded_def if_False]]
  note w3 = write_loaded_Inr[OF assms(1) assms(4)[unfolded gradeLoaded_def if_False]]
  have found1: "?found db1 = Some r1"
  proof (cases "?found db1")
    case None
    have "submission_Create db1 s = None" if "row_key s = (asg_ID a, uid)" for s
      using w1(2,3) that by (auto simp: submission_Create_def list_ex_iff row_key_def Let_def)
    then have "fst (write_loaded env now2 db1 a uid g2 account e2 given2) = Inl StoreFailed"
      using None by (simp add: write_loaded_def Let_def save_submission_def)
    then show ?thesis using assms(3) by (simp add: gradeLoaded_def)
  next
    case (Some x)
    then show ?thesis using key_unique[OF w1(4) FindBy_Some(1)[OF Some] w1(2)] FindBy_Some(2)[OF Some] w1(3) by simp
  qed
  have inputs: "late_inputs r1 = late_inputs ?row"
    using w1(1) by (auto simp: late_inputs_id late_inputs_graded)
  have "final_grade r2 = final_grade (applyGradeGiven env db1 a r1 e2 given2 g2 now2)"
    using w2(1) found1 by (auto simp: final_grade_id)
  also have "\<dots> = final_grade (applyGradeGiven env db a ?row e2 given2 g2 now2)"
    unfolding final_grade_graded late_deduction_cong[OF inputs] context_of_cong(2,3)[OF w1(5)] by (rule refl)
  also have "\<dots> = final_grade r" using w3(1) by (auto simp: final_grade_id)
  finally have "final_grade r2 = final_grade r" .
  moreover have "sub_EnteredScore r2 = Some e2"
    using w2(1) by (auto simp: applyGradeGiven_def graded_row_def Let_def posted_def)
  ultimately show ?thesis by blast
qed

section \<open>Announced grades\<close>

text \<open>
  \<open>announces F\<close>: the graded callbacks fired so far are those in \<open>F\<close> and those of rows the student can
  see.
\<close>

definition posted_ids :: "sub_store \<Rightarrow> nat set" where
  "posted_ids db = {sub_ID r | r. r \<in> set (sx_Submissions db) \<and> sub_PostedAt r \<noteq> None}"

definition announces :: "nat set \<Rightarrow> sub_store \<Rightarrow> bool" where
  "announces F db = (store_ok False db \<and> set (sx_Fired db) \<subseteq> F \<union> posted_ids db)"

lemma announces_cong:
  "sx_Submissions db' = sx_Submissions db \<Longrightarrow> sx_Fired db' = sx_Fired db \<Longrightarrow> store_ok False db' = store_ok False db \<Longrightarrow> announces F db' = announces F db"
  by (simp add: announces_def posted_ids_def)

lemma announces_side [sub_frame]:
  "announces F (recordAttempt db s) = announces F db" "announces F (recordAttemptGrade db s) = announces F db"
  "announces F (logGradeChange db a s g og os) = announces F db" "announces F (notifyGradeChange db s og os w) = announces F db"
  "announces F (saved_grade db a s g og os) = announces F db"
  by (rule announces_cong; simp add: sub_frame)+

lemma announces_fire:
  "announces F db \<Longrightarrow> r \<in> set (sx_Submissions db) \<Longrightarrow> announces F (fireIfPosted db r)"
  by (auto simp: announces_def posted_ids_def fireIfPosted_def fireOnGraded_def sub_frame store_ok_def)

lemma announces_update:
  assumes "announces F db" "r \<in> set (sx_Submissions db)" "same_row r s" "grade_ok False s"
    "sub_PostedAt r \<noteq> None \<Longrightarrow> sub_PostedAt s \<noteq> None"
  shows "announces F (submission_Update db s)" "s \<in> set (sx_Submissions (submission_Update db s))"
proof -
  have ok: "store_ok False db" using assms(1) by (simp add: announces_def)
  show s: "s \<in> set (sx_Submissions (submission_Update db s))"
    using assms(2,3) by (auto simp: rows_Update same_row_def intro!: image_eqI[of _ _ r])
  have "posted_ids db \<subseteq> posted_ids (submission_Update db s)"
  proof
    fix i assume "i \<in> posted_ids db"
    then obtain x where x: "x \<in> set (sx_Submissions db)" "sub_PostedAt x \<noteq> None" "i = sub_ID x" by (auto simp: posted_ids_def)
    show "i \<in> posted_ids (submission_Update db s)"
    proof (cases "sub_ID x = sub_ID s")
      case True
      then have "x = r" using id_unique[OF ok x(1) assms(2)] assms(3) by (simp add: same_row_def)
      then show ?thesis using s x assms(5) True unfolding posted_ids_def by blast
    next
      case False
      then have "x \<in> set (sx_Submissions (submission_Update db s))" using x(1) by (auto simp: rows_Update intro!: image_eqI[of _ _ x])
      then show ?thesis using x unfolding posted_ids_def by blast
    qed
  qed
  then show "announces F (submission_Update db s)"
    using assms(1) store_ok_update[OF ok assms(2-4)] by (auto simp: announces_def sub_frame)
qed

lemma announces_create:
  assumes "announces F db" "grade_ok False s" "submission_Create db s = Some (r, db')"
  shows "announces F db'" "r \<in> set (sx_Submissions db')"
proof -
  have ok: "store_ok False db" using assms(1) by (simp add: announces_def)
  have fired: "sx_Fired db' = sx_Fired db" using assms(3) by (auto simp: submission_Create_def Let_def split: if_splits)
  note created = store_ok_create[OF ok assms(2,3)]
  then show "r \<in> set (sx_Submissions db')" by simp
  have "posted_ids db \<subseteq> posted_ids db'" unfolding posted_ids_def created(3) by auto
  then show "announces F db'" using assms(1) created(1) by (auto simp: announces_def fired)
qed

lemma posting_kept: "keeps_posting a r s \<Longrightarrow> sub_PostedAt r \<noteq> None \<Longrightarrow> sub_PostedAt s \<noteq> None"
  by (auto simp: keeps_posting_def)

lemma announces_save:
  assumes "announces F db" "save_submission (FindByAssignmentAndUser db aid uid acc = None) db s = Some (r, db1)"
    "row = (case FindByAssignmentAndUser db aid uid acc of Some x \<Rightarrow> x | None \<Rightarrow> new)" "grade_ok False s" "same_row row s"
    "sub_PostedAt row \<noteq> None \<Longrightarrow> sub_PostedAt s \<noteq> None"
  shows "announces F db1" "r \<in> set (sx_Submissions db1)"
proof -
  have "announces F db1 \<and> r \<in> set (sx_Submissions db1)"
  proof (cases "FindByAssignmentAndUser db aid uid acc")
    case None
    then show ?thesis using announces_create[OF assms(1,4), of r db1] assms(2) by (simp add: save_submission_def)
  next
    case (Some x)
    then have "r = s" "db1 = submission_Update db s" using assms(2) by (auto simp: save_submission_def)
    then show ?thesis
      using announces_update[OF assms(1) FindBy_Some(1)[OF Some], of s] assms(3-6) Some by simp
  qed
  then show "announces F db1" "r \<in> set (sx_Submissions db1)" by blast+
qed

lemma announces_ok: "announces F db \<Longrightarrow> store_ok False db"
  by (simp add: announces_def)

lemma announces_policies: "announces F db \<Longrightarrow> policies_ok False (sx_Policies db)"
  by (simp add: announces_def store_ok_def)

lemma announces_grade_member:
  assumes "announces F db" shows "announces F (grade_member env a scope g e given t db m)"
proof (cases "FindByAssignmentAndUser db (asg_ID a) m scope")
  case (Some x)
  let ?x = "applyGradeGiven env db a x e given g t"
  have "announces F (submission_Update db ?x)" "?x \<in> set (sx_Submissions (submission_Update db ?x))"
    using announces_update[OF assms FindBy_Some(1)[OF Some], of ?x] posting_kept[of a x ?x]
    by (simp_all add: applyGradeGiven_ok announces_policies[OF assms])
  then show ?thesis using Some by (simp add: grade_member_def Let_def sub_frame announces_fire)
next
  case None
  let ?row = "applyGradeGiven env db a (blank_submission (asg_ID a) m []) e given g t"
  have "announces F (fireIfPosted (logGradeChange db1 a r g None None) r)" if "submission_Create db ?row = Some (r, db1)" for r db1
    using announces_create[OF assms applyGradeGiven_ok[OF announces_policies[OF assms]] that] by (simp add: sub_frame announces_fire)
  then show ?thesis using None assms by (auto simp: grade_member_def split: option.split)
qed

lemma announces_clear_member:
  assumes "announces F db" shows "announces F (clear_member a account g db m)"
proof (cases "FindByAssignmentAndUser db (asg_ID a) m account")
  case (Some x)
  have "announces F (submission_Update db (clearGrade x g))"
    using announces_update(1)[OF assms FindBy_Some(1)[OF Some], of "clearGrade x g"] posting_kept[of a x "clearGrade x g"] by simp
  then show ?thesis using Some assms by (simp add: clear_member_def Let_def sub_frame)
qed (simp add: clear_member_def assms)

lemma announces_foldl: "announces F db \<Longrightarrow> (\<And>db x. announces F db \<Longrightarrow> announces F (f db x)) \<Longrightarrow> announces F (foldl f db xs)"
  by (rule foldl_invariant[where P = "announces F"])

lemma announces_gradeGroupMembers: "announces F db \<Longrightarrow> announces F (gradeGroupMembers env db a uid g e given t)"
  unfolding gradeGroupMembers_def Let_def by (erule announces_foldl) (rule announces_grade_member)

lemma announces_clear_loaded:
  assumes "announces F db" shows "announces F (snd (clear_loaded db a uid g account))"
proof (cases "FindByAssignmentAndUser db (asg_ID a) uid account")
  case (Some x)
  have "announces F (submission_Update db (clearGrade x g))"
    using announces_update(1)[OF assms FindBy_Some(1)[OF Some], of "clearGrade x g"] posting_kept[of a x "clearGrade x g"] by simp
  then show ?thesis using Some by (simp add: clear_loaded_def Let_def sub_frame announces_foldl announces_clear_member)
qed (simp add: clear_loaded_def assms)

lemma announces_write_loaded:
  assumes "announces F db" shows "announces F (snd (write_loaded env now db a uid g account e given))"
proof -
  let ?found = "FindByAssignmentAndUser db (asg_ID a) uid account"
  define row where "row = (case ?found of Some x \<Rightarrow> x | None \<Rightarrow> blank_submission (asg_ID a) uid [])"
  define row' where "row' = applyGradeGiven env db a row e given g now"
  have step: "announces F (fireIfPosted (if GradesGroupTogether a then gradeGroupMembers env db2 a uid g e given now else db2) r)"
    if saved: "save_submission (?found = None) db row' = Some (r, db1)"
      and db2: "db2 = saved_grade db1 a r g (sub_Grade row) (sub_Score row)" for r db1 db2
  proof -
    have key: "row_key row' = (asg_ID a, uid)" unfolding row'_def applyGradeGiven_same row_def
      using FindBy_Some(2)[of db "asg_ID a" uid account] by (cases ?found) auto
    have "announces F db1" and r: "r \<in> set (sx_Submissions db1)"
      using announces_save[OF assms saved row_def] posting_kept[of a row row']
      by (simp_all add: row'_def applyGradeGiven_ok announces_policies[OF assms])
    then have ann: "announces F db2" and r2: "r \<in> set (sx_Submissions db2)" by (simp_all add: db2 sub_frame)
    have "sub_UserID r = uid" using saved key by (auto simp: save_submission_def submission_Create_def row_key_def Let_def split: if_splits)
    then show ?thesis
      using announces_fire ann r2 announces_gradeGroupMembers[OF ann] gradeGroupMembers_keeps[OF announces_ok[OF ann] r2] by simp
  qed
  then show ?thesis
    unfolding write_loaded_def Let_def row_def[symmetric] row'_def[symmetric]
    by (intro save_case_snd[where P = "announces F"]) (simp_all add: assms)
qed

lemma announces_gradeLoaded: "announces F db \<Longrightarrow> announces F (snd (gradeLoaded env now db a uid g account c e given))"
  by (simp add: gradeLoaded_def announces_clear_loaded announces_write_loaded)

lemma announces_excuse_loaded:
  assumes "announces F db" shows "announces F (snd (excuse_loaded now db a uid g account excused))"
proof -
  let ?found = "FindByAssignmentAndUser db (asg_ID a) uid account"
  define row where "row = (case ?found of Some x \<Rightarrow> x | None \<Rightarrow> blank_submission (asg_ID a) uid ''unsubmitted'')"
  define row' where "row' = (if excused then excused_row a row g now else unexcused_row now db a row g)"
  have "grade_ok False row" by (auto simp: row_def store_ok_found[OF announces_ok[OF assms]] split: option.split)
  then have "announces F db1" if "save_submission (?found = None) db row' = Some (r, db1)" for r db1
    using announces_save(1)[OF assms that row_def] posting_kept[of a row row'] by (simp add: row'_def)
  then show ?thesis
    unfolding excuse_loaded_def Let_def row_def[symmetric] row'_def[symmetric] using assms
    by (auto simp: sub_frame split: option.split)
qed

lemma announces_status_loaded:
  assumes "announces F db" shows "announces F (snd (status_loaded env now db a uid g account st n))"
proof -
  let ?found = "FindByAssignmentAndUser db (asg_ID a) uid account"
  define row where "row = (case ?found of Some x \<Rightarrow> x | None \<Rightarrow> blank_submission (asg_ID a) uid ''unsubmitted'')"
  define row' where "row' = status_row env now db a row g st n"
  have "grade_ok False row" by (auto simp: row_def store_ok_found[OF announces_ok[OF assms]] split: option.split)
  note row_ok = status_row_ok[OF announces_policies[OF assms] this]
  have saved: "announces F db1 \<and> r \<in> set (sx_Submissions db1)" if "save_submission (?found = None) db row' = Some (r, db1)" for r db1
    using announces_save[OF assms that row_def] posting_kept[of a row row'] by (simp add: row'_def row_ok)
  show ?thesis
    unfolding status_loaded_def Let_def row_def[symmetric] row'_def[symmetric]
    by (intro save_case_snd[where P = "announces F"]) (auto simp: assms sub_frame dest: saved intro!: announces_fire)
qed

lemma posted_attempt [simp]:
  "sub_PostedAt (next_attempt r s due t) = sub_PostedAt r" "sub_PostedAt (markSubmitted a s due t') = sub_PostedAt s"
  by (simp_all add: next_attempt_def markSubmitted_def Let_def)

text \<open>Handing work in fires nothing and keeps what is posted.\<close>

lemma announces_attempt:
  assumes "announces F db" "save_submission (FindByAssignmentAndUser db aid uid acc = None) db (markSubmitted a
      (case FindByAssignmentAndUser db aid uid acc of Some x \<Rightarrow> next_attempt x s due t | None \<Rightarrow> first) due t') = Some (r, db1)"
    "grade_ok False first"
  shows "announces F db1"
proof (cases "FindByAssignmentAndUser db aid uid acc")
  case None
  then show ?thesis using announces_create(1)[OF assms(1), of "markSubmitted a first due t'" r db1] assms(2,3) by (simp add: save_submission_def)
next
  case (Some x)
  then have "db1 = submission_Update db (markSubmitted a (next_attempt x s due t) due t')"
    using assms(2) by (auto simp: save_submission_def)
  then show ?thesis
    using announces_update(1)[OF assms(1) FindBy_Some(1)[OF Some], of "markSubmitted a (next_attempt x s due t) due t'"]
      store_ok_found[OF announces_ok[OF assms(1)] Some] by simp
qed

lemma announces_create_for_member:
  assumes "announces F db" shows "announces F (create_for_member now a s db uid)"
  using announces_attempt[where first = "member_attempt s uid (EffectiveDueAt now (sx_Dates db) a uid)", OF assms] assms
  unfolding create_for_member_def Let_def by (auto simp: sub_frame split: option.split)

lemma announces_createForAssignment:
  assumes "announces F db" "grade_ok False s" shows "announces F (snd (createForAssignment env now db a s))"
proof (cases "closed_window now db a (sub_UserID (sanitized (se_sanitize env) s))")
  case None
  define s1 where "s1 = sanitized (se_sanitize env) s"
  define due where "due = EffectiveDueAt now (sx_Dates db) a (sub_UserID s1)"
  let ?found = "FindByAssignmentAndUser db (sub_AssignmentID s1) (sub_UserID s1) 0"
  define row where "row = markSubmitted a (case ?found of Some r \<Rightarrow> next_attempt r s1 due (Some now)
    | None \<Rightarrow> first_attempt s1 due now) due now"
  have "announces F db1" if "save_submission (?found = None) db row = Some (r, db1)" for r db1
    using announces_attempt[OF assms(1) that[unfolded row_def]] assms(2) by (simp add: s1_def)
  moreover have "announces F (createGroupSubmissions now db2 a r)" if "announces F db2" for db2 r
    unfolding createGroupSubmissions_def by (rule announces_foldl[OF that]) (rule announces_create_for_member)
  ultimately show ?thesis
    unfolding createForAssignment_def Let_def s1_def[symmetric] None[folded s1_def] option.case due_def[symmetric] row_def[symmetric]
    using assms(1) by (auto simp: sub_frame split: option.split)
qed (simp add: createForAssignment_def assms(1))

lemma announces_SetExcused: "announces F db \<Longrightarrow> announces F (snd (SetExcused now db aid uid g account e))"
  by (simp add: SetExcused_def announces_excuse_loaded split: option.split sum.split)

lemma announces_Grade: "announces F db \<Longrightarrow> announces F (snd (Grade env now db aid uid g account typed))"
  by (simp add: Grade_def Let_def announces_SetExcused announces_gradeLoaded split: option.split sum.split)

lemma announces_GradeScore:
  assumes "announces F db" shows "announces F (snd (GradeScore env now db aid uid g account p))"
proof -
  have "announces F (snd (case gradeLoaded env now db a uid g account False (round6 p) [] of
       (Inl e, db1) \<Rightarrow> (Inl e, db1) | (Inr r, db1) \<Rightarrow> (Inr r, notifyGradeChange db1 r og os w)))" for a og os w
    using announces_gradeLoaded[OF assms, of env now a uid g account False "round6 p" "[]"]
    by (auto simp: sub_frame split: prod.split sum.split)
  then show ?thesis using assms by (simp add: GradeScore_def Let_def split: option.split sum.split)
qed

lemma announces_SetLatePolicyStatus: "announces F db \<Longrightarrow> announces F (snd (SetLatePolicyStatus env now db aid uid g account st n))"
  by (simp add: SetLatePolicyStatus_def announces_status_loaded split: option.split sum.split)

lemma announces_run_op: "announces F db \<Longrightarrow> announces F (snd (run_op env now db op))"
proof (cases op)
  case (OpSubmit aid uid t body url files cid account)
  assume "announces F db"
  then show ?thesis unfolding OpSubmit run_op.simps
    by (auto simp: Submit_def submit_loaded_def announces_createForAssignment check_content_ok[OF _ student_request_ok]
        split: option.split sum.split)
next
  case (OpCreate aid uid t body url files)
  assume "announces F db"
  then show ?thesis unfolding OpCreate run_op.simps by (auto simp: Create_def announces_createForAssignment split: option.split)
next
  case (OpTool a uid u)
  assume "announces F db"
  then show ?thesis unfolding OpTool run_op.simps
    by (auto simp: RecordExternalToolSubmission_def Let_def announces_createForAssignment split: option.split)
qed (simp_all add: announces_Grade announces_GradeScore announces_SetExcused announces_SetLatePolicyStatus PublishModeratedGrade_def
    announces_gradeLoaded)

text \<open>
  C18. A hidden grade is never announced: a graded callback that an operation fires - mastery paths,
  gamification and outcomes hang on it - is for a submission whose grade is posted, so a student
  cannot infer a grade a manual post policy still hides.
\<close>

theorem only_visible_grades_fire:
  assumes "store_ok fair db" "i \<in> set (sx_Fired (snd (run_op env now db op)))" "i \<notin> set (sx_Fired db)"
  shows "\<exists>r\<in>set (sx_Submissions (snd (run_op env now db op))). sub_ID r = i \<and> sub_PostedAt r \<noteq> None"
proof -
  have "announces (set (sx_Fired db)) (snd (run_op env now db op))"
    by (rule announces_run_op) (use store_ok_any[OF assms(1)] in \<open>simp add: announces_def\<close>)
  then show ?thesis using assms(2,3) unfolding announces_def posted_ids_def by blast
qed

end
