(* ===== verification/Submission_Cases.thy ===== *)
theory Submission_Cases imports Submission_Properties Scheme_Validation begin

text \<open>
  What the service accepts from a student, what a second attempt does to a graded row, and a course
  in which the properties of the service can be seen at work.
\<close>

section \<open>An accepted submission\<close>

lemma checked_request_frame:
  assumes "checked_request env a s = Inr s'"
  shows "sub_AssignmentID s' = sub_AssignmentID s" "sub_UserID s' = sub_UserID s" "sub_SubmissionType s' = sub_SubmissionType s"
    "SubmissionTypeAllowed a (text_or_empty (sub_SubmissionType s))"
  using assms
  by (auto simp: checked_request_def check_content_def check_url_def check_upload_def check_recording_def check_annotation_def
      Let_def split: if_splits option.splits)

lemma sanitized_frame:
  "sub_AssignmentID (sanitized clean s) = sub_AssignmentID s" "sub_UserID (sanitized clean s) = sub_UserID s"
  "sub_SubmissionType (sanitized clean s) = sub_SubmissionType s" "sub_URL (sanitized clean s) = sub_URL s"
  by (auto simp: sanitized_def split: option.split)

text \<open>The row of the attempt: everything but the id is set before it is saved.\<close>

definition attempt_row :: "sub_env \<Rightarrow> instant \<Rightarrow> sub_store \<Rightarrow> assignment \<Rightarrow> submission \<Rightarrow> submission" where
  "attempt_row env now db a s0 =
     (let s = sanitized (se_sanitize env) s0; due = EffectiveDueAt now (sx_Dates db) a (sub_UserID s)
      in markSubmitted a (case FindByAssignmentAndUser db (sub_AssignmentID s) (sub_UserID s) 0 of
           Some r \<Rightarrow> next_attempt r s due (Some now) | None \<Rightarrow> first_attempt s due now) due now)"

lemma createForAssignment_Inr:
  assumes "createForAssignment env now db a s = (Inr r, db')"
  shows "closed_window now db a (sub_UserID s) = None"
    "\<exists>i. r = (attempt_row env now db a s)\<lparr>sub_ID := i\<rparr>"
    "FindByAssignmentAndUser db (sub_AssignmentID s) (sub_UserID s) 0 \<noteq> None \<Longrightarrow> r = attempt_row env now db a s"
proof -
  define s1 where "s1 = sanitized (se_sanitize env) s"
  define due where "due = EffectiveDueAt now (sx_Dates db) a (sub_UserID s1)"
  let ?found = "FindByAssignmentAndUser db (sub_AssignmentID s1) (sub_UserID s1) 0"
  have row: "attempt_row env now db a s = markSubmitted a (case ?found of Some r \<Rightarrow> next_attempt r s1 due (Some now)
    | None \<Rightarrow> first_attempt s1 due now) due now"
    unfolding attempt_row_def s1_def due_def Let_def by (rule refl)
  obtain db1 where saved: "save_submission (?found = None) db (attempt_row env now db a s) = Some (r, db1)"
    and window: "closed_window now db a (sub_UserID s1) = None"
    using assms unfolding createForAssignment_def Let_def s1_def[symmetric] due_def[symmetric] row[symmetric]
    by (auto split: option.splits)
  show "closed_window now db a (sub_UserID s) = None" using window by (simp add: s1_def sanitized_frame)
  show "\<exists>i. r = (attempt_row env now db a s)\<lparr>sub_ID := i\<rparr>"
  proof (cases "?found")
    case None
    then show ?thesis using saved by (auto simp: save_submission_def submission_Create_def Let_def split: if_splits)
  next
    case (Some x)
    then have "r = (attempt_row env now db a s)\<lparr>sub_ID := sub_ID (attempt_row env now db a s)\<rparr>"
      using saved by (simp add: save_submission_def)
    then show ?thesis by (rule exI)
  qed
  show "r = attempt_row env now db a s" if "FindByAssignmentAndUser db (sub_AssignmentID s) (sub_UserID s) 0 \<noteq> None"
    using saved that by (simp add: save_submission_def s1_def sanitized_frame)
qed

lemma Submit_Inr:
  assumes "Submit env now db s cid account = (Inr r, db')"
  obtains a s' where "assignment_FindByID db (sub_AssignmentID s) account = Some a" "asg_CourseID a = cid" "IsPublished a"
    "checked_request env a s = Inr s'" "\<not> attempts_exhausted db a (sub_UserID s')"
    "createForAssignment env now db a s' = (Inr r, db')"
  using assms by (auto simp: Submit_def submit_loaded_def split: option.splits sum.splits if_splits)

lemma FindByID_id: "assignment_FindByID db i account = Some a \<Longrightarrow> asg_ID a = i"
  by (auto simp: assignment_FindByID_def find_Some_iff)

lemma attempt_row_fields:
  "sub_WorkflowState (attempt_row env now db a s) = ''submitted''" "sub_SubmittedAt (attempt_row env now db a s) = Some now"
  "\<not> sub_Missing (attempt_row env now db a s)"
  "sub_Attempt (attempt_row env now db a s) =
     (case FindByAssignmentAndUser db (sub_AssignmentID s) (sub_UserID s) 0 of Some r \<Rightarrow> wrap64 (sub_Attempt r + 1) | None \<Rightarrow> 1)"
  "sub_URL (attempt_row env now db a s) = sub_URL s"
  by (auto simp: attempt_row_def markSubmitted_def next_attempt_def first_attempt_def sanitized_frame Let_def split: option.split)

text \<open>
  C27. A submission is accepted only as the assignment allows: it is published, in the course and
  the caller's tenant, assigned to the student and inside the student's own unlock and lock dates,
  of a type the assignment takes, and an attempt is left; the row is then submitted at this moment
  and the attempt counts one more.
\<close>

theorem accepted_submission_respects_the_assignment:
  assumes "Submit env now db s cid account = (Inr r, db')"
  shows "\<exists>a. assignment_FindByID db (sub_AssignmentID s) account = Some a \<and> asg_CourseID a = cid \<and> IsPublished a \<and>
    SubmissionTypeAllowed a (text_or_empty (sub_SubmissionType s)) \<and> closed_window now db a (sub_UserID s) = None \<and>
    sub_WorkflowState r = ''submitted'' \<and> sub_SubmittedAt r = Some now \<and> \<not> sub_Missing r \<and>
    (case FindByAssignmentAndUser db (sub_AssignmentID s) (sub_UserID s) 0 of
       None \<Rightarrow> sub_Attempt r = 1
     | Some old \<Rightarrow> AttemptsRemaining a (Some old) \<noteq> 0 \<and> sub_Attempt r = wrap64 (sub_Attempt old + 1))"
proof -
  obtain a s' where a: "assignment_FindByID db (sub_AssignmentID s) account = Some a" "asg_CourseID a = cid" "IsPublished a"
    and s': "checked_request env a s = Inr s'" "\<not> attempts_exhausted db a (sub_UserID s')"
    and made: "createForAssignment env now db a s' = (Inr r, db')"
    by (rule Submit_Inr[OF assms])
  note same = checked_request_frame[OF s'(1)]
  obtain i where r: "r = (attempt_row env now db a s')\<lparr>sub_ID := i\<rparr>" using createForAssignment_Inr(2)[OF made] by blast
  have "AttemptsRemaining a (Some old) \<noteq> 0" if "FindByAssignmentAndUser db (sub_AssignmentID s) (sub_UserID s) 0 = Some old" for old
    using s'(2) that FindByID_id[OF a(1)] same(2)
    by (cases "AttemptsLimit a = 0") (auto simp: attempts_exhausted_def AttemptsRemaining_def)
  then show ?thesis
    using a same(4) createForAssignment_Inr(1)[OF made]
    by (auto simp: r attempt_row_fields same(1,2) split: option.split)
qed

text \<open>
  Only a website submission has its link checked: it is stored as the normalised http or https
  link, while a text entry, an upload or a recording is stored with whatever link the request
  carries, although the pages that show a submission render its link whatever the type is.
\<close>

theorem only_url_submissions_check_the_link:
  assumes "checked_request env a s = Inr s'"
  shows "(sub_SubmissionType s = Some ''online_url'' \<longrightarrow>
      (\<exists>link. se_http_url env (TrimSpace (text_or_empty (sub_URL s))) = Some link \<and> sub_URL s' = Some link)) \<and>
    (\<forall>t\<in>{''online_text_entry'', ''online_upload'', ''media_recording''}. sub_SubmissionType s = Some t \<longrightarrow> sub_URL s' = sub_URL s)"
  using assms
  by (auto simp: checked_request_def check_content_def check_url_def check_upload_def check_recording_def check_annotation_def
      text_or_empty_def Let_def split: if_splits option.splits)

text \<open>
  A student's new attempt takes a graded submission back to submitted, keeping its score,
  although the state machine of submissions gives no role the edge from graded to submitted.
\<close>

theorem resubmission_leaves_the_graded_state:
  assumes "FindByAssignmentAndUser db (sub_AssignmentID s) (sub_UserID s) 0 = Some old" "sub_WorkflowState old = ''graded''"
    "Submit env now db s cid account = (Inr r, db')"
  shows "sub_ID r = sub_ID old \<and> sub_WorkflowState r = ''submitted'' \<and> sub_Score r = sub_Score old \<and>
    (\<forall>role. canTransition submissionTransitions (sub_WorkflowState old) (sub_WorkflowState r) role \<noteq> None)"
proof -
  obtain a s' where s': "checked_request env a s = Inr s'" and made: "createForAssignment env now db a s' = (Inr r, db')"
    by (rule Submit_Inr[OF assms(3)])
  note same = checked_request_frame[OF s']
  have "r = attempt_row env now db a s'" using createForAssignment_Inr(3)[OF made] assms(1) by (simp add: same)
  then have "sub_ID r = sub_ID old" "sub_WorkflowState r = ''submitted''" "sub_Score r = sub_Score old"
    by (simp_all add: attempt_row_def markSubmitted_def next_attempt_def sanitized_frame same(1,2) assms(1) Let_def)
  moreover have "canTransition submissionTransitions ''graded'' ''submitted'' role = Some (NotAllowed ''graded'' ''submitted'')" for role
    by (simp add: canTransition_def submissionTransitions_def)
  ultimately show ?thesis using assms(2) by simp
qed

section \<open>A group at work\<close>

text \<open>
  A pass/fail group assignment, due on day 10 in an open grading period; student 3 has an override to
  day 2, which lies in a closed period. Students 2 and 3 form a group.
\<close>

definition group_essay :: assignment where
  "group_essay =
     \<lparr>asg_ID = 4, asg_CourseID = 1, asg_DueAt = Some 100, asg_UnlockAt = None, asg_LockAt = Some 120,
      asg_PointsPossible = Some 16, asg_GradingType = ''pass_fail'', asg_SubmissionTypes = ''online_text_entry,online_url'', asg_GroupID = None,
      asg_WorkflowState = ''published'', asg_Published = True, asg_PostPolicy = ''automatic'', asg_GroupCategoryID = Some 7,
      asg_OnlyVisibleToOverrides = False, asg_GradingStandardID = None, asg_AllowedAttempts = Some 2, asg_AllowedExtensions = [],
      asg_AnnotatableAttachmentID = None, asg_GradeGroupStudentsIndividually = False, asg_ModeratedGrading = False,
      asg_GradesPublishedAt = None, asg_OmitFromFinalGrade = False\<rparr>"

definition group_dates :: dates_db where
  "group_dates = \<lparr>dd_Assignments = [group_essay],
     dd_Overrides = [\<lparr>ov_ID = 2, ov_AssignmentID = 4, ov_DueAt = Some 20, ov_UnlockAt = None, ov_LockAt = None,
       ov_CourseSectionID = None, ov_WorkflowState = ''active''\<rparr>],
     dd_OverrideStudents = [\<lparr>os_ID = 1, os_OverrideID = 2, os_UserID = 3, os_AssignmentID = 4\<rparr>],
     dd_Enrollments = [], dd_Accommodations = []\<rparr>"

definition two_periods :: "nat \<Rightarrow> grading_period list" where
  "two_periods cid =
     [\<lparr>per_ID = 1, per_Title = ''first'', per_StartDate = 0, per_EndDate = 50, per_CloseDate = None, per_Weight = None, per_IsClosed = True,
       per_WorkflowState = ''active''\<rparr>,
      \<lparr>per_ID = 2, per_Title = ''second'', per_StartDate = 50, per_EndDate = 200, per_CloseDate = None, per_Weight = None,
       per_IsClosed = False, per_WorkflowState = ''active''\<rparr>]"

definition group_store :: sub_store where
  "group_store =
     \<lparr>sx_Courses = [\<lparr>co_ID = 1, co_AccountID = 5, co_GradingStandardID = None, co_WorkflowState = ''available''\<rparr>], sx_Assignments = [group_essay], sx_Submissions = [],
      sx_NextID = 1, sx_Policies = [], sx_Dates = group_dates, sx_Periods = two_periods, sx_Standards = [],
      sx_Groups = [\<lparr>gr_ID = 1, gr_GroupCategoryID = 7, gr_WorkflowState = ''available''\<rparr>],
      sx_Memberships = [\<lparr>gm_ID = 1, gm_GroupID = 1, gm_UserID = 2, gm_WorkflowState = ''accepted''\<rparr>,
        \<lparr>gm_ID = 2, gm_GroupID = 1, gm_UserID = 3, gm_WorkflowState = ''accepted''\<rparr>],
      sx_Versions = [], sx_Log = [], sx_Fired = [], sx_Notified = []\<rparr>"

definition sample_env :: sub_env where
  "sample_env = \<lparr>se_parse = (\<lambda>_. None), se_text = ascii_text, se_sanitize = (\<lambda>b. b),
     se_http_url = (\<lambda>u. if has_prefix u ''http://'' then Some u else None)\<rparr>"

definition grade_student_2 :: sub_op where
  "grade_student_2 = OpScore 4 2 9 5 16"

text \<open>The rows after a grade: id, user, score, grade and whether it is posted.\<close>

definition row_view :: "submission \<Rightarrow> nat \<times> nat \<times> rat option \<times> string option \<times> bool" where
  "row_view s = (sub_ID s, sub_UserID s, sub_Score s, sub_Grade s, sub_PostedAt s \<noteq> None)"

definition graded_store :: sub_store where
  "graded_store = snd (run_op sample_env 30 group_store grade_student_2)"

text \<open>A row of an assignment without groups, graded again by another grader and for less.\<close>

definition solo_essay :: assignment where "solo_essay = group_essay\<lparr>asg_GroupCategoryID := None\<rparr>"

definition regrade :: "sub_store \<Rightarrow> nat \<Rightarrow> rat \<Rightarrow> sub_result" where
  "regrade db grader points = gradeLoaded sample_env 30 db solo_essay 2 grader 5 False points []"

definition result_row :: "sub_result \<Rightarrow> submission" where
  "result_row res = (case fst res of Inr r \<Rightarrow> r | Inl _ \<Rightarrow> blank_submission 0 0 [])"

text \<open>A text entry that carries a script as its link, and a second attempt after the grade.\<close>

definition script_entry :: submission where
  "script_entry = student_request 4 2 ''online_text_entry'' (Some ''essay'') (Some ''javascript:alert(1)'') None"

definition second_attempt :: sub_result where
  "second_attempt = Submit sample_env 40 graded_store script_entry 1 5"

text \<open>The values of the example, evaluated together.\<close>

definition store_view :: "sub_store \<Rightarrow> (nat \<times> nat \<times> rat option \<times> string option \<times> bool) list \<times> nat list \<times> string option" where
  "store_view db = (map row_view (sx_Submissions db), sx_Fired db, map_option sub_WorkflowState (FindByAssignmentAndUser db 4 2 0))"

lemma group_values:
  "store_view graded_store = ([(1, 2, Some 16, Some ''complete'', True), (2, 3, Some 16, Some ''complete'', True)], [2, 1], Some ''graded'')"
  by code_simp

lemma fellow_values:
  "closed_period 30 group_store group_essay 3 = Some ''first'' \<and>
   fst (run_op sample_env 30 group_store (OpScore 4 3 9 5 16)) = Inl (PeriodClosed ''first'')"
  by code_simp

lemma regrade_values:
  "\<not> isl (fst (regrade group_store 9 16)) \<and> \<not> isl (fst (regrade (snd (regrade group_store 9 16)) 8 0)) \<and>
   \<not> isl (fst (regrade group_store 8 0))"
  by code_simp

lemma second_attempt_values:
  "\<not> isl (fst second_attempt) \<and> \<not> isl (checked_request sample_env group_essay script_entry)"
  by code_simp

lemma graded_view:
  "map row_view (sx_Submissions graded_store) = [(1, 2, Some 16, Some ''complete'', True), (2, 3, Some 16, Some ''complete'', True)]"
  and graded_fired: "sx_Fired graded_store = [2, 1]"
  and closed_for_fellow: "closed_period 30 group_store group_essay 3 = Some ''first''"
  and fellow_refused: "fst (run_op sample_env 30 group_store (OpScore 4 3 9 5 16)) = Inl (PeriodClosed ''first'')"
  and graded_state: "map_option sub_WorkflowState (FindByAssignmentAndUser graded_store 4 2 0) = Some ''graded''"
  using group_values fellow_values by (simp_all add: store_view_def)

lemma regrade_accepted:
  "\<not> isl (fst (regrade group_store 9 16))" "\<not> isl (fst (regrade (snd (regrade group_store 9 16)) 8 0))"
  "\<not> isl (fst (regrade group_store 8 0))"
  using regrade_values by blast+

lemma second_attempt_accepted: "\<not> isl (fst second_attempt)"
  using second_attempt_values by blast

text \<open>
  A closed grading period does not protect the members of a group: grading one student writes
  the grade of a fellow whose own due date lies in a closed period, although grading that fellow
  directly is refused.
\<close>

theorem group_grade_enters_closed_period:
  "closed_period 30 group_store group_essay 3 = Some ''first'' \<and>
   fst (run_op sample_env 30 group_store (OpScore 4 3 9 5 16)) = Inl (PeriodClosed ''first'') \<and>
   map row_view (sx_Submissions (snd (run_op sample_env 30 group_store (OpScore 4 2 9 5 16)))) =
     [(1, 2, Some 16, Some ''complete'', True), (2, 3, Some 16, Some ''complete'', True)]"
  using closed_for_fellow fellow_refused graded_view by (simp add: graded_store_def grade_student_2_def)

lemma group_store_ok: "store_ok fair group_store"
  by (simp add: store_ok_def group_store_def policies_ok_def)

text \<open>Witnesses.\<close>

lemma submission_rows_stay_consistent_witness: "store_ok True graded_store \<and> length (sx_Submissions graded_store) = 2"
proof -
  have "sub_step True sample_env group_store graded_store" unfolding graded_store_def by (rule sub_step.operation)
  then have "store_ok True graded_store"
    by (intro submission_rows_stay_consistent[OF _ group_store_ok]) (rule r_into_rtranclp)
  moreover have "length (sx_Submissions graded_store) = 2" using arg_cong[OF graded_view, of length] by simp
  ultimately show ?thesis by blast
qed

lemma refused_operation_changes_nothing_witness:
  "fst (run_op sample_env 30 group_store (OpScore 4 3 9 5 16)) = Inl (PeriodClosed ''first'') \<and>
   snd (run_op sample_env 30 group_store (OpScore 4 3 9 5 16)) = group_store"
proof -
  have e: "fst (run_op sample_env 30 group_store (OpScore 4 3 9 5 16)) = Inl (PeriodClosed ''first'')" by (rule fellow_refused)
  then show ?thesis using refused_operation_changes_nothing[OF e] by blast
qed

lemma grading_reaches_only_its_rows_witness:
  "\<exists>r\<in>set (sx_Submissions graded_store). row_view r = (2, 3, Some 16, Some ''complete'', True) \<and>
    (\<exists>a. gates_open 30 group_store 4 2 5 a \<and> sub_AssignmentID r = asg_ID a \<and> sub_UserID r \<in> graded_users group_store a 2)"
proof -
  have "(2, 3, Some 16, Some ''complete'', True) \<in> set (map row_view (sx_Submissions graded_store))"
    unfolding graded_view by simp
  then obtain r where r: "r \<in> set (sx_Submissions graded_store)" "row_view r = (2, 3, Some 16, Some ''complete'', True)" by auto
  have target: "op_target grade_student_2 = Some (4, 2, 5)" by (simp add: grade_student_2_def)
  have "r \<notin> set (sx_Submissions group_store)" by (simp add: group_store_def)
  from grading_reaches_only_its_rows[OF target r(1)[unfolded graded_store_def] this] r show ?thesis by blast
qed

lemma only_visible_grades_fire_witness:
  "\<exists>r\<in>set (sx_Submissions graded_store). sub_ID r = 2 \<and> sub_PostedAt r \<noteq> None"
  unfolding graded_store_def
  by (rule only_visible_grades_fire[OF group_store_ok[of True]])
    (use graded_fired in \<open>simp_all add: graded_store_def group_store_def\<close>)

lemma result_rowI: "\<not> isl (fst res) \<Longrightarrow> res = (Inr (result_row res), snd res)"
  by (cases "fst res") (auto simp: result_row_def prod_eq_iff)

lemma second_grade_forgets_the_first_witness:
  "final_grade (result_row (regrade (snd (regrade group_store 9 16)) 8 0)) = final_grade (result_row (regrade group_store 8 0)) \<and>
   sub_EnteredScore (result_row (regrade (snd (regrade group_store 9 16)) 8 0)) = Some 0"
  by (rule second_grade_forgets_the_first[OF group_store_ok[of True], where env = sample_env and a = solo_essay and uid = 2 and account = 5])
    (use regrade_accepted[THEN result_rowI] in \<open>simp_all only: regrade_def\<close>)

lemma accepted_submission_respects_the_assignment_witness:
  "\<exists>a. assignment_FindByID graded_store 4 5 = Some a \<and> IsPublished a \<and> sub_WorkflowState (result_row second_attempt) = ''submitted'' \<and>
    closed_window 40 graded_store a 2 = None"
proof -
  have "sub_AssignmentID script_entry = 4" "sub_UserID script_entry = 2"
    by (simp_all add: script_entry_def student_request_def blank_submission_def)
  then show ?thesis
    using accepted_submission_respects_the_assignment[OF result_rowI[OF second_attempt_accepted, unfolded second_attempt_def]]
    by (auto simp: second_attempt_def)
qed

lemma only_url_submissions_check_the_link_witness:
  "\<exists>s'. checked_request sample_env group_essay script_entry = Inr s' \<and> sub_URL s' = Some ''javascript:alert(1)''"
proof -
  have "\<not> isl (checked_request sample_env group_essay script_entry)" using second_attempt_values by blast
  then obtain s' where s': "checked_request sample_env group_essay script_entry = Inr s'"
    by (cases "checked_request sample_env group_essay script_entry") auto
  have "sub_SubmissionType script_entry = Some ''online_text_entry''" "sub_URL script_entry = Some ''javascript:alert(1)''"
    by (simp_all add: script_entry_def student_request_def)
  then show ?thesis using only_url_submissions_check_the_link[OF s'] s' by (intro exI[of _ s']) auto
qed

lemma resubmission_leaves_the_graded_state_witness:
  "\<exists>old. FindByAssignmentAndUser graded_store 4 2 0 = Some old \<and> sub_WorkflowState old = ''graded'' \<and>
    sub_WorkflowState (result_row second_attempt) = ''submitted'' \<and>
    (\<forall>role. canTransition submissionTransitions (sub_WorkflowState old) (sub_WorkflowState (result_row second_attempt)) role \<noteq> None)"
proof -
  have "map_option sub_WorkflowState (FindByAssignmentAndUser graded_store 4 2 0) = Some ''graded''" by (rule graded_state)
  then obtain old where old: "FindByAssignmentAndUser graded_store 4 2 0 = Some old" "sub_WorkflowState old = ''graded''" by auto
  have keys: "sub_AssignmentID script_entry = 4" "sub_UserID script_entry = 2"
    by (simp_all add: script_entry_def student_request_def blank_submission_def)
  note made = result_rowI[OF second_attempt_accepted, unfolded second_attempt_def]
  have "FindByAssignmentAndUser graded_store (sub_AssignmentID script_entry) (sub_UserID script_entry) 0 = Some old"
    using old(1) by (simp add: keys)
  from resubmission_leaves_the_graded_state[OF this old(2) made] old show ?thesis
    by (auto simp: second_attempt_def)
qed

end
