(* ===== verification/Formula_Semantics.thy ===== *)
theory Formula_Semantics imports Quiz_Formula begin

text \<open>
  What a formula means. An expression tree has a value by structural recursion, and is printed with
  parentheses only where precedence and associativity require them: the evaluator computes, from the
  printed text, the value of the tree, errors included. More fuel than the code's bound changes
  nothing, so the claims about the parser are stated for all sufficiently large fuel.
\<close>

section \<open>More fuel changes nothing\<close>

definition kept :: "'a option \<Rightarrow> 'a option \<Rightarrow> bool" where
  "kept r r' \<longleftrightarrow> r = None \<or> r' = r"

lemma kept_refl [simp, intro]: "kept r r"
  by (simp add: kept_def)

lemma kept_next_do: "kept r r' \<Longrightarrow> (\<And>v t. kept (k v t) (k' v t)) \<Longrightarrow> kept (next_do r k) (next_do r' k')"
  by (auto simp: kept_def next_do_def split: option.splits sum.splits prod.splits)

definition grows :: "'f parser \<Rightarrow> 'f parser \<Rightarrow> bool" where
  "grows p q \<longleftrightarrow>
     (\<forall>d s. kept (pa_Expr p d s) (pa_Expr q d s)) \<and> (\<forall>d v s. kept (pa_ExprLoop p d v s) (pa_ExprLoop q d v s)) \<and>
     (\<forall>d s. kept (pa_Term p d s) (pa_Term q d s)) \<and> (\<forall>d v s. kept (pa_TermLoop p d v s) (pa_TermLoop q d v s)) \<and>
     (\<forall>d s. kept (pa_Unary p d s) (pa_Unary q d s)) \<and> (\<forall>d s. kept (pa_Power p d s) (pa_Power q d s)) \<and>
     (\<forall>d s. kept (pa_Primary p d s) (pa_Primary q d s)) \<and> (\<forall>d s. kept (pa_Ident p d s) (pa_Ident q d s)) \<and>
     (\<forall>d vs s. kept (pa_ArgsLoop p d vs s) (pa_ArgsLoop q d vs s))"

lemma grows_one_more:
  assumes "grows p q"
  shows "grows (one_more env vars p) (one_more env vars q)"
proof -
  from assms have g:
    "\<And>d s. kept (pa_Expr p d s) (pa_Expr q d s)" "\<And>d v s. kept (pa_ExprLoop p d v s) (pa_ExprLoop q d v s)"
    "\<And>d s. kept (pa_Term p d s) (pa_Term q d s)" "\<And>d v s. kept (pa_TermLoop p d v s) (pa_TermLoop q d v s)"
    "\<And>d s. kept (pa_Unary p d s) (pa_Unary q d s)" "\<And>d s. kept (pa_Power p d s) (pa_Power q d s)"
    "\<And>d s. kept (pa_Primary p d s) (pa_Primary q d s)" "\<And>d s. kept (pa_Ident p d s) (pa_Ident q d s)"
    "\<And>d vs s. kept (pa_ArgsLoop p d vs s) (pa_ArgsLoop q d vs s)"
    unfolding grows_def by simp_all
  show ?thesis
    unfolding grows_def one_more_def parser.simps parseExpr_def expr_loop_def parseTerm_def term_loop_def parseUnary_def
      parsePower_def parsePrimary_def parseIdent_def args_loop_def Let_def
    by (intro conjI allI; (intro kept_next_do kept_refl g | simp add: kept_next_do g)+)
qed

lemma grows_parser_with: "grows (parser_with env vars n) (parser_with env vars (Suc n))"
proof (induction n)
  case 0
  show ?case by (simp add: grows_def no_fuel_def kept_def)
next
  case (Suc n)
  from grows_one_more [OF Suc] show ?case by simp
qed

lemma more_fuel:
  assumes "pa_Expr (parser_with env vars n) d s \<noteq> None" "n \<le> m"
  shows "pa_Expr (parser_with env vars m) d s = pa_Expr (parser_with env vars n) d s"
  using assms(2)
proof (induction m rule: dec_induct)
  case (step k)
  have "kept (pa_Expr (parser_with env vars k) d s) (pa_Expr (parser_with env vars (Suc k)) d s)"
    using grows_parser_with [of env vars k] by (simp only: grows_def)
  with step assms(1) show ?case by (auto simp: kept_def simp del: parser_with.simps)
qed simp

lemma bound_is_enough:
  assumes "\<forall>\<^sub>F n in sequentially. pa_Expr (parser_with env vars n) d s = r"
  shows "pa_Expr (parser_with env vars (formula_fuel s)) d s = r"
proof -
  from assms obtain N where "\<And>n. n \<ge> N \<Longrightarrow> pa_Expr (parser_with env vars n) d s = r"
    by (auto simp: eventually_sequentially)
  then have "pa_Expr (parser_with env vars (max N (formula_fuel s))) d s = r" by simp
  moreover have "pa_Expr (parser_with env vars (formula_fuel s)) d s \<noteq> None"
    using fueled_Expr [OF fueled_parser_with [of env "formula_fuel s" vars], of s d] by (simp add: finished_def formula_fuel_def)
  ultimately show ?thesis using more_fuel [of env vars "formula_fuel s" d s "max N (formula_fuel s)"] by simp
qed

section \<open>Expressions\<close>

datatype fexp =
    FNum string
  | FName string
  | FNeg fexp
  | FBin char fexp fexp
  | FPow fexp fexp
  | FCall1 string fexp
  | FCall2 string fexp fexp

definition arith :: "'f formula_env \<Rightarrow> char \<Rightarrow> 'f \<Rightarrow> 'f \<Rightarrow> formula_error + 'f" where
  "arith env c left right = (if c = CHR ''/'' \<or> c = CHR ''%'' then divide_op env c left right else Inr (fe_op env c left right))"

fun fexp_value :: "'f formula_env \<Rightarrow> (string \<rightharpoonup> rat) \<Rightarrow> fexp \<Rightarrow> formula_error + 'f" where
  "fexp_value env vars (FNum t) = (case fe_ParseFloat env t of Some v \<Rightarrow> Inr v | None \<Rightarrow> Inl (BadNumber t))"
| "fexp_value env vars (FName x) = named_value env vars x"
| "fexp_value env vars (FNeg e) = bind_result (fexp_value env vars e) (\<lambda>v. Inr (fe_neg env v))"
| "fexp_value env vars (FBin c a b) = bind_result (fexp_value env vars a) (\<lambda>x. bind_result (fexp_value env vars b) (arith env c x))"
| "fexp_value env vars (FPow a b) =
     bind_result (fexp_value env vars a) (\<lambda>x. bind_result (fexp_value env vars b) (\<lambda>y. Inr (fe_math2 env ''Pow'' x y)))"
| "fexp_value env vars (FCall1 f a) = bind_result (fexp_value env vars a) (\<lambda>x. call_function env f [x])"
| "fexp_value env vars (FCall2 f a b) =
     bind_result (fexp_value env vars a) (\<lambda>x. bind_result (fexp_value env vars b) (\<lambda>y. call_function env f [x, y]))"

definition parens :: "bool \<Rightarrow> string \<Rightarrow> string" where
  "parens b s = (if b then ''('' @ s @ '')'' else s)"

definition op_level :: "char \<Rightarrow> nat" where "op_level c = (if c = CHR ''+'' \<or> c = CHR ''-'' then 0 else 1)"

text \<open>Level 0 is a sum, 1 a product, 2 a signed power, 3 a power and 4 a primary expression.\<close>

fun print_at :: "nat \<Rightarrow> fexp \<Rightarrow> string" where
  "print_at l (FNum t) = t"
| "print_at l (FName x) = x"
| "print_at l (FNeg e) = parens (2 < l) (''-'' @ print_at 2 e)"
| "print_at l (FBin c a b) = parens (op_level c < l) (print_at (op_level c) a @ [c] @ print_at (Suc (op_level c)) b)"
| "print_at l (FPow a b) = parens (3 < l) (print_at 4 a @ ''^'' @ print_at 2 b)"
| "print_at l (FCall1 f a) = f @ ''('' @ print_at 0 a @ '')''"
| "print_at l (FCall2 f a b) = f @ ''('' @ print_at 0 a @ '','' @ print_at 0 b @ '')''"

definition number_text :: "string \<Rightarrow> bool" where
  "number_text t = (t \<noteq> [] \<and> list_all (\<lambda>c. is_digit c \<or> c = CHR ''.'') t)"

definition name_text :: "string \<Rightarrow> bool" where
  "name_text x = (x \<noteq> [] \<and> token_start (hd x) \<and> list_all token_char x)"

fun well_formed :: "fexp \<Rightarrow> bool" where
  "well_formed (FNum t) = number_text t"
| "well_formed (FName x) = name_text x"
| "well_formed (FNeg e) = well_formed e"
| "well_formed (FBin c a b) = (c \<in> set ''+-*/%'' \<and> well_formed a \<and> well_formed b)"
| "well_formed (FPow a b) = (well_formed a \<and> well_formed b)"
| "well_formed (FCall1 f a) = (name_text f \<and> well_formed a)"
| "well_formed (FCall2 f a b) = (name_text f \<and> well_formed a \<and> well_formed b)"

text \<open>The parser's depth counts signs, exponents, arguments and parentheses; each node adds at most two.\<close>

fun nesting :: "fexp \<Rightarrow> nat" where
  "nesting (FNum t) = 0"
| "nesting (FName x) = 0"
| "nesting (FNeg e) = nesting e + 2"
| "nesting (FBin c a b) = max (nesting a) (nesting b) + 1"
| "nesting (FPow a b) = max (nesting a) (nesting b) + 2"
| "nesting (FCall1 f a) = nesting a + 1"
| "nesting (FCall2 f a b) = max (nesting a) (nesting b) + 1"

section \<open>Texts and what the parser reads of them\<close>

definition rs :: "string \<Rightarrow> nat list" where "rs s = map of_char s"

definition ascii :: "string \<Rightarrow> bool" where "ascii s = list_all (\<lambda>c. (of_char c :: nat) < 128) s"

lemma rs_simps [simp]: "rs [] = []" "rs (c # s) = of_char c # rs s" "rs (s @ t) = rs s @ rs t"
  by (simp_all add: rs_def)

lemma runes_ascii: "ascii s \<Longrightarrow> runes s = rs s"
  unfolding runes_def rs_def ascii_def
proof (induction s)
  case Nil
  show ?case by (simp add: runes_of.simps)
next
  case (Cons c s)
  then show ?case by (subst runes_of.simps) simp
qed

lemma text_of_ascii: "ascii s \<Longrightarrow> text_of (rs s) = s"
  unfolding text_of_def rs_def ascii_def by (induction s) (simp_all add: encode_rune_def)

lemma is_digit_rune_char:
  assumes "(of_char c :: nat) < 128"
  shows "is_digit_rune env (of_char c) = is_digit c"
proof -
  have "(of_char c :: int) = int (of_char c)" by (rule of_nat_of_char [symmetric])
  then have "is_digit c = (48 \<le> int (of_char c) \<and> int (of_char c) \<le> 57)" unfolding is_digit_def by (simp only:)
  then show ?thesis using assms unfolding is_digit_rune_def by simp
qed

text \<open>A rune after which a number, a name and white space have ended.\<close>

definition stopper :: "nat list \<Rightarrow> bool" where
  "stopper s \<longleftrightarrow> s = [] \<or> hd s \<in> rune ` set ''+-*/%^),''"

lemma peek_Cons [simp]: "peek (c # s) = c"
  by (simp add: peek_def)

lemma stopper_space: "stopper s \<Longrightarrow> skipSpace env s = s"
  by (cases s) (auto simp: stopper_def skipSpace_def is_space_def)

lemma stopper_Cons [simp]: "c \<in> set ''+-*/%^),'' \<Longrightarrow> stopper (rune c # s)"
  by (auto simp: stopper_def)

text \<open>The first character of a text that is read as a primary expression.\<close>

definition opens :: "string \<Rightarrow> bool" where
  "opens t \<longleftrightarrow> t \<noteq> [] \<and> (hd t = CHR ''('' \<or> hd t = CHR ''.'' \<or> token_char (hd t))"

lemma token_char_ascii: "token_char c \<Longrightarrow> 48 \<le> (of_char c :: nat) \<and> (of_char c :: nat) < 128"
proof -
  have "(of_char c :: int) = int (of_char c)" by (rule of_nat_of_char [symmetric])
  then have "is_digit c = (48 \<le> int (of_char c) \<and> int (of_char c) \<le> 57)" unfolding is_digit_def by (simp only:)
  moreover assume "token_char c"
  ultimately show ?thesis by (auto simp: token_char_def token_start_def Let_def)
qed

lemma opens_skip:
  assumes "opens t"
  shows "skipSpace (env :: 'f formula_env) (rs t @ rest) = rs t @ rest" "peek (rs t @ rest) = of_char (hd t)"
    "peek (rs t @ rest) \<notin> {0, rune (CHR ''+''), rune (CHR ''-''), rune (CHR '')'')}"
proof -
  obtain c u where t: "t = c # u" using assms by (cases t) (auto simp: opens_def)
  have c: "c = CHR ''('' \<or> c = CHR ''.'' \<or> 48 \<le> (of_char c :: nat) \<and> (of_char c :: nat) < 128"
    using assms token_char_ascii by (auto simp: t opens_def)
  show "skipSpace env (rs t @ rest) = rs t @ rest" using c by (auto simp: t skipSpace_def is_space_def)
  show "peek (rs t @ rest) = of_char (hd t)" by (simp add: t peek_def)
  show "peek (rs t @ rest) \<notin> {0, rune (CHR ''+''), rune (CHR ''-''), rune (CHR '')'')}" using c by (auto simp: t peek_def)
qed

section \<open>What is read for all sufficiently large fuel\<close>

lemma eventually_one_more:
  "\<forall>\<^sub>F n in sequentially. P (one_more env vars (parser_with env vars n)) \<Longrightarrow> \<forall>\<^sub>F n in sequentially. P (parser_with env vars n)"
  using eventually_sequentially_Suc [of "\<lambda>n. P (parser_with env vars n)"] by simp

type_synonym 'f outcome = "formula_error + 'f"

definition reads_primary :: "'f formula_env \<Rightarrow> (string \<rightharpoonup> rat) \<Rightarrow> string \<Rightarrow> 'f outcome \<Rightarrow> nat \<Rightarrow> bool" where
  "reads_primary env vars t v k \<longleftrightarrow>
     (\<forall>d rest. k + d \<le> 100 \<longrightarrow> stopper rest \<longrightarrow>
        (\<forall>\<^sub>F n in sequentially. pa_Primary (parser_with env vars n) d (rs t @ rest) = lift_result v rest))"

definition reads_power :: "'f formula_env \<Rightarrow> (string \<rightharpoonup> rat) \<Rightarrow> string \<Rightarrow> 'f outcome \<Rightarrow> nat \<Rightarrow> bool" where
  "reads_power env vars t v k \<longleftrightarrow>
     (\<forall>d rest. k + d \<le> 100 \<longrightarrow> stopper rest \<longrightarrow> peek rest \<noteq> rune (CHR ''^'') \<longrightarrow>
        (\<forall>\<^sub>F n in sequentially. pa_Power (parser_with env vars n) d (rs t @ rest) = lift_result v rest))"

definition reads_unary :: "'f formula_env \<Rightarrow> (string \<rightharpoonup> rat) \<Rightarrow> string \<Rightarrow> 'f outcome \<Rightarrow> nat \<Rightarrow> bool" where
  "reads_unary env vars t v k \<longleftrightarrow>
     (\<forall>d rest. k + d \<le> 100 \<longrightarrow> stopper rest \<longrightarrow> peek rest \<noteq> rune (CHR ''^'') \<longrightarrow>
        (\<forall>\<^sub>F n in sequentially. pa_Unary (parser_with env vars n) d (rs t @ rest) = lift_result v rest))"

definition reads_term :: "'f formula_env \<Rightarrow> (string \<rightharpoonup> rat) \<Rightarrow> string \<Rightarrow> 'f outcome \<Rightarrow> nat \<Rightarrow> bool" where
  "reads_term env vars t v k \<longleftrightarrow>
     (\<forall>d rest r. k + d \<le> 100 \<longrightarrow> stopper rest \<longrightarrow> peek rest \<noteq> rune (CHR ''^'') \<longrightarrow>
        (\<forall>\<^sub>F n in sequentially. next_do (lift_result v rest) (pa_TermLoop (parser_with env vars n) d) = r) \<longrightarrow>
        (\<forall>\<^sub>F n in sequentially. pa_Term (parser_with env vars n) d (rs t @ rest) = r))"

definition ends_term :: "nat list \<Rightarrow> bool" where
  "ends_term rest \<longleftrightarrow> stopper rest \<and> peek rest \<notin> rune ` set ''^*/%''"

definition reads_expr :: "'f formula_env \<Rightarrow> (string \<rightharpoonup> rat) \<Rightarrow> string \<Rightarrow> 'f outcome \<Rightarrow> nat \<Rightarrow> bool" where
  "reads_expr env vars t v k \<longleftrightarrow>
     (\<forall>d rest r. k + d \<le> 100 \<longrightarrow> ends_term rest \<longrightarrow>
        (\<forall>\<^sub>F n in sequentially. next_do (lift_result v rest) (pa_ExprLoop (parser_with env vars n) d) = r) \<longrightarrow>
        (\<forall>\<^sub>F n in sequentially. pa_Expr (parser_with env vars n) d (rs t @ rest) = r))"

lemmas reads_defs = reads_primary_def reads_power_def reads_unary_def reads_term_def reads_expr_def

lemma next_do_simps [simp]:
  "next_do (fails e) k = fails e" "next_do (gives v s) k = k v s"
  "lift_result (Inl e) s = fails e" "lift_result (Inr v) s = gives v s"
  by (simp_all add: next_do_def fails_def gives_def lift_result_def)

lemma power_of_primary:
  assumes "reads_primary env vars t v k"
  shows "reads_power env vars t v k"
  unfolding reads_power_def
proof (intro allI impI)
  fix d rest
  assume *: "k + d \<le> 100" "stopper rest" "peek rest \<noteq> rune (CHR ''^'')"
  then have "\<forall>\<^sub>F n in sequentially. pa_Primary (parser_with env vars n) d (rs t @ rest) = lift_result v rest"
    using assms by (simp add: reads_primary_def)
  then have "\<forall>\<^sub>F n in sequentially. pa_Power (one_more env vars (parser_with env vars n)) d (rs t @ rest) = lift_result v rest"
    by (rule eventually_mono)
       (use * in \<open>cases v; simp add: one_more_def parsePower_def stopper_space Let_def\<close>)
  then show "\<forall>\<^sub>F n in sequentially. pa_Power (parser_with env vars n) d (rs t @ rest) = lift_result v rest"
    by (rule eventually_one_more)
qed

lemma unary_of_power:
  assumes "reads_power env vars t v k" "opens t"
  shows "reads_unary env vars t v k"
  unfolding reads_unary_def
proof (intro allI impI)
  fix d rest
  assume *: "k + d \<le> 100" "stopper rest" "peek rest \<noteq> rune (CHR ''^'')"
  then have "\<forall>\<^sub>F n in sequentially. pa_Power (parser_with env vars n) d (rs t @ rest) = lift_result v rest"
    using assms by (simp add: reads_power_def)
  then have "\<forall>\<^sub>F n in sequentially. pa_Unary (one_more env vars (parser_with env vars n)) d (rs t @ rest) = lift_result v rest"
    by (rule eventually_mono) (use opens_skip(1) [OF assms(2), of env rest] opens_skip(3) [OF assms(2), of rest] in \<open>simp add: one_more_def parseUnary_def Let_def\<close>)
  then show "\<forall>\<^sub>F n in sequentially. pa_Unary (parser_with env vars n) d (rs t @ rest) = lift_result v rest"
    by (rule eventually_one_more)
qed

lemma term_of_unary:
  assumes "reads_unary env vars t v k"
  shows "reads_term env vars t v k"
  unfolding reads_term_def
proof (intro allI impI)
  fix d rest r
  assume *: "k + d \<le> 100" "stopper rest" "peek rest \<noteq> rune (CHR ''^'')"
    and loop: "\<forall>\<^sub>F n in sequentially. next_do (lift_result v rest) (pa_TermLoop (parser_with env vars n) d) = r"
  then have "\<forall>\<^sub>F n in sequentially. pa_Unary (parser_with env vars n) d (rs t @ rest) = lift_result v rest"
    using assms by (simp add: reads_unary_def)
  with loop have "\<forall>\<^sub>F n in sequentially. pa_Term (one_more env vars (parser_with env vars n)) d (rs t @ rest) = r"
    by eventually_elim (simp add: one_more_def parseTerm_def)
  then show "\<forall>\<^sub>F n in sequentially. pa_Term (parser_with env vars n) d (rs t @ rest) = r"
    by (rule eventually_one_more)
qed

text \<open>A loop ends at a rune it does not know.\<close>

lemma term_loop_ends:
  assumes "ends_term rest"
  shows "\<forall>\<^sub>F n in sequentially. next_do (lift_result v rest) (pa_TermLoop (parser_with env vars n) d) = lift_result v rest"
proof -
  have "pa_TermLoop (one_more env vars p) d x rest = gives x rest" for p x
    using assms by (simp add: one_more_def term_loop_def Let_def stopper_space ends_term_def)
  then show ?thesis
    by (intro eventually_one_more [of "\<lambda>p. next_do (lift_result v rest) (pa_TermLoop p d) = lift_result v rest"]) (cases v; simp)
qed

lemma expr_of_term:
  assumes "reads_term env vars t v k"
  shows "reads_expr env vars t v k"
  unfolding reads_expr_def
proof (intro allI impI)
  fix d rest r
  assume *: "k + d \<le> 100" "ends_term rest"
    and loop: "\<forall>\<^sub>F n in sequentially. next_do (lift_result v rest) (pa_ExprLoop (parser_with env vars n) d) = r"
  have "\<forall>\<^sub>F n in sequentially. pa_Term (parser_with env vars n) d (rs t @ rest) = lift_result v rest"
    using assms * term_loop_ends [OF *(2), of v env vars d] by (simp add: reads_term_def ends_term_def)
  with loop have "\<forall>\<^sub>F n in sequentially. pa_Expr (one_more env vars (parser_with env vars n)) d (rs t @ rest) = r"
    by eventually_elim (use * in \<open>simp add: one_more_def parseExpr_def\<close>)
  then show "\<forall>\<^sub>F n in sequentially. pa_Expr (parser_with env vars n) d (rs t @ rest) = r"
    by (rule eventually_one_more)
qed

section \<open>The constructors\<close>

text \<open>Parentheses read a sum as a primary expression.\<close>

lemma reads_parens:
  assumes "reads_expr env vars t v k"
  shows "reads_primary env vars (''('' @ t @ '')'') v (Suc k)"
  unfolding reads_primary_def
proof (intro allI impI)
  fix d rest
  assume *: "Suc k + d \<le> 100" "stopper rest"
  let ?close = "rune (CHR '')'') # rest"
  have fin: "ends_term ?close" by (simp add: ends_term_def stopper_def peek_def)
  have "pa_ExprLoop (one_more env vars p) d' x ?close = gives x ?close" for p d' x
    by (simp add: one_more_def expr_loop_def Let_def skipSpace_def is_space_def peek_def)
  then have "\<forall>\<^sub>F n in sequentially. next_do (lift_result v ?close) (pa_ExprLoop (parser_with env vars n) (Suc d)) = lift_result v ?close"
    by (intro eventually_one_more [of "\<lambda>p. next_do (lift_result v ?close) (pa_ExprLoop p (Suc d)) = lift_result v ?close"]) (cases v; simp)
  with assms * fin have "\<forall>\<^sub>F n in sequentially. pa_Expr (parser_with env vars n) (Suc d) (rs t @ ?close) = lift_result v ?close"
    by (simp add: reads_expr_def)
  then have "\<forall>\<^sub>F n in sequentially. pa_Primary (one_more env vars (parser_with env vars n)) d (rs (''('' @ t @ '')'') @ rest) = lift_result v rest"
    by (rule eventually_mono)
       (cases v; simp add: one_more_def parsePrimary_def Let_def peek_def skipSpace_def is_space_def)
  then show "\<forall>\<^sub>F n in sequentially. pa_Primary (parser_with env vars n) d (rs (''('' @ t @ '')'') @ rest) = lift_result v rest"
    by (rule eventually_one_more)
qed

lemma stopper_not_char:
  assumes "stopper rest"
  shows "takeWhile (num_char env) rest = []" "dropWhile (num_char env) rest = rest"
    "takeWhile (name_char env) rest = []" "dropWhile (name_char env) rest = rest" "exponent_rest env rest = None"
proof -
  have "\<not> num_char env c \<and> \<not> name_char env c \<and> c \<noteq> 101 \<and> c \<noteq> 69" if "c \<in> rune ` set ''+-*/%^),''" for c
    using that by (auto simp: num_char_def name_char_def is_digit_rune_def is_letter_def)
  then show "takeWhile (num_char env) rest = []" "dropWhile (num_char env) rest = rest"
    "takeWhile (name_char env) rest = []" "dropWhile (name_char env) rest = rest" "exponent_rest env rest = None"
    using assms by (cases rest; simp add: stopper_def exponent_rest_def)+
qed

lemma number_text_chars:
  assumes "number_text t"
  shows "\<forall>r\<in>set (rs t). num_char env r" "ascii t" "opens t" "is_digit_rune env (of_char (hd t)) \<or> of_char (hd t) = rune (CHR ''.'')"
proof -
  have c: "(of_char c :: nat) < 128 \<and> (is_digit_rune env (of_char c) \<or> c = CHR ''.'')" if "is_digit c \<or> c = CHR ''.''" for c
    using that token_char_ascii [of c] is_digit_rune_char [of c env] by (auto simp: token_char_def)
  have d: "num_char env (of_char x) \<and> (of_char x :: nat) < 128" if "x \<in> set t" for x
    using c [of x] assms that unfolding number_text_def list_all_iff num_char_def by auto
  show "\<forall>r\<in>set (rs t). num_char env r" "ascii t"
    using d by (simp_all add: rs_def ascii_def list_all_iff)
  have "is_digit (hd t) \<or> hd t = CHR ''.''" "t \<noteq> []" using assms by (cases t; auto simp: number_text_def)+
  with c [of "hd t"] show "opens t" "is_digit_rune env (of_char (hd t)) \<or> of_char (hd t) = rune (CHR ''.'')"
    unfolding opens_def token_char_def by auto
qed

lemma reads_number:
  assumes "number_text t"
  shows "reads_primary env vars t (fexp_value env vars (FNum t)) 0"
  unfolding reads_primary_def
proof (intro allI impI)
  fix d rest
  assume rest: "stopper rest"
  note chars = number_text_chars(1) [OF assms, of env] number_text_chars(2,3) [OF assms] number_text_chars(4) [OF assms, of env]
  note first = opens_skip(1) [OF chars(3), of env rest] opens_skip(2,3) [OF chars(3), of rest]
  have "parseNumber env (rs t @ rest) = lift_result (fexp_value env vars (FNum t)) rest"
    using chars(1) by (simp add: parseNumber_def dropWhile_append stopper_not_char [OF rest] text_of_ascii [OF chars(2)] split: option.splits)
  then have "pa_Primary (one_more env vars p) d (rs t @ rest) = lift_result (fexp_value env vars (FNum t)) rest" for p
    using first chars(4) by (auto simp: one_more_def parsePrimary_def Let_def is_digit_rune_def)
  then show "\<forall>\<^sub>F n in sequentially. pa_Primary (parser_with env vars n) d (rs t @ rest) = lift_result (fexp_value env vars (FNum t)) rest"
    by (intro eventually_one_more [of "\<lambda>p. pa_Primary p d (rs t @ rest) = lift_result (fexp_value env vars (FNum t)) rest"]) simp
qed

lemma name_text_chars:
  assumes "name_text x"
  shows "\<forall>r\<in>set (rs x). name_char env r" "ascii x" "opens x"
    "is_letter env (of_char (hd x)) \<or> of_char (hd x) = rune (CHR ''_'')" "\<not> is_digit_rune env (of_char (hd x))" "hd x \<noteq> CHR ''.''" "hd x \<noteq> CHR ''(''"
proof -
  have c: "name_char env (of_char c) \<and> (of_char c :: nat) < 128" if "token_char c" for c
    using that token_char_ascii [OF that] is_digit_rune_char [of c env]
    by (auto simp: token_char_def token_start_def name_char_def is_letter_def Let_def)
  show "\<forall>r\<in>set (rs x). name_char env r" "ascii x"
    using assms c by (auto simp: name_text_def rs_def ascii_def list_all_iff)
  have hd: "token_start (hd x)" "token_char (hd x)" "x \<noteq> []" using assms by (auto simp: name_text_def token_char_def)
  then show "opens x" by (simp add: opens_def)
  show "is_letter env (of_char (hd x)) \<or> of_char (hd x) = rune (CHR ''_'')" "\<not> is_digit_rune env (of_char (hd x))"
    "hd x \<noteq> CHR ''.''" "hd x \<noteq> CHR ''(''"
    using hd(1) token_char_ascii [OF hd(2)] by (auto simp: token_start_def is_letter_def is_digit_rune_def Let_def)
qed

lemma primary_of_name:
  assumes "name_text x"
  shows "pa_Primary (one_more env vars p) d (rs x @ rest) = pa_Ident p d (rs x @ rest)"
  using opens_skip(1) [OF name_text_chars(3) [OF assms], of env rest] opens_skip(2,3) [OF name_text_chars(3) [OF assms], of rest] name_text_chars(4,5) [OF assms, of env] name_text_chars(6,7) [OF assms]
  by (auto simp: one_more_def parsePrimary_def Let_def is_letter_def is_digit_rune_def)

lemma ident_of_name:
  assumes "name_text x" "stopper rest \<or> (\<exists>u. rest = rune (CHR ''('') # u)"
  shows "takeWhile (name_char env) (rs x @ rest) = rs x" "dropWhile (name_char env) (rs x @ rest) = rest"
    "skipSpace env rest = rest" "text_of (rs x) = x"
proof -
  have "takeWhile (name_char env) rest = []" "dropWhile (name_char env) rest = rest" "skipSpace env rest = rest"
    using assms(2) stopper_not_char stopper_space
    by (auto simp: name_char_def is_letter_def is_digit_rune_def skipSpace_def is_space_def)
  then show "takeWhile (name_char env) (rs x @ rest) = rs x" "dropWhile (name_char env) (rs x @ rest) = rest" "skipSpace env rest = rest"
    using name_text_chars(1) [OF assms(1), of env] by (simp_all add: takeWhile_append dropWhile_append)
  show "text_of (rs x) = x" by (rule text_of_ascii [OF name_text_chars(2) [OF assms(1)]])
qed

lemma reads_name:
  assumes "name_text x"
  shows "reads_primary env vars x (named_value env vars x) 0"
  unfolding reads_primary_def
proof (intro allI impI)
  fix d rest
  assume rest: "stopper rest"
  then have "peek rest \<noteq> rune (CHR ''('')" by (cases rest) (auto simp: stopper_def peek_def)
  then have "pa_Ident (one_more env vars p) d (rs x @ rest) = lift_result (named_value env vars x) rest" for p
    using ident_of_name(1,2,3) [OF assms, where rest = rest and env = env] ident_of_name(4) [OF assms, where rest = rest] rest
    by (simp add: one_more_def parseIdent_def Let_def)
  then have "pa_Primary (one_more env vars (one_more env vars p)) d (rs x @ rest) = lift_result (named_value env vars x) rest" for p
    by (simp add: primary_of_name [OF assms])
  then show "\<forall>\<^sub>F n in sequentially. pa_Primary (parser_with env vars n) d (rs x @ rest) = lift_result (named_value env vars x) rest"
    by (intro eventually_one_more [of "\<lambda>p. pa_Primary p d (rs x @ rest) = lift_result (named_value env vars x) rest"]
        eventually_one_more [of "\<lambda>p. pa_Primary (one_more env vars p) d (rs x @ rest) = lift_result (named_value env vars x) rest"]) simp
qed

text \<open>A call reads its arguments as sums.\<close>

lemma arg_loop_ends:
  assumes "ends_term rest" "peek rest \<notin> {rune (CHR ''+''), rune (CHR ''-'')}"
  shows "\<forall>\<^sub>F n in sequentially. next_do (lift_result v rest) (pa_ExprLoop (parser_with env vars n) d) = lift_result v rest"
proof -
  have "pa_ExprLoop (one_more env vars p) d x rest = gives x rest" for p x
    using assms by (simp add: one_more_def expr_loop_def Let_def stopper_space ends_term_def)
  then show ?thesis
    by (intro eventually_one_more [of "\<lambda>p. next_do (lift_result v rest) (pa_ExprLoop p d) = lift_result v rest"]) (cases v; simp)
qed

lemma reads_argument:
  assumes "reads_expr env vars t v k" "Suc k + d \<le> 100" "c = CHR '','' \<or> c = CHR '')''"
  shows "\<forall>\<^sub>F n in sequentially. pa_Expr (parser_with env vars n) (Suc d) (rs t @ rune c # rest) = lift_result v (rune c # rest)"
proof -
  have "ends_term (rune c # rest)" "peek (rune c # rest) \<notin> {rune (CHR ''+''), rune (CHR ''-'')}"
    using assms(3) by (auto simp: ends_term_def stopper_def peek_def)
  with assms arg_loop_ends [of "rune c # rest" v env vars "Suc d"] show ?thesis
    by (simp add: reads_expr_def)
qed

lemma skip_closing: "skipSpace env (41 # rest) = 41 # rest" "skipSpace env (44 # rest) = 44 # rest" "skipSpace env (40 # rest) = 40 # rest"
  by (simp_all add: skipSpace_def is_space_def)

lemma args_loop_last:
  assumes "reads_expr env vars t v k" "Suc k + d \<le> 100"
  shows "\<forall>\<^sub>F n in sequentially. pa_ArgsLoop (parser_with env vars n) d vs (rs t @ rune (CHR '')'') # rest) =
           lift_result (bind_result v (\<lambda>x. Inr (vs @ [x]))) (rune (CHR '')'') # rest)"
proof -
  from reads_argument [OF assms, of "CHR '')''" rest]
  have "\<forall>\<^sub>F n in sequentially. pa_ArgsLoop (one_more env vars (parser_with env vars n)) d vs (rs t @ rune (CHR '')'') # rest) =
           lift_result (bind_result v (\<lambda>x. Inr (vs @ [x]))) (rune (CHR '')'') # rest)"
    by (simp, elim eventually_mono, cases v) (simp_all add: one_more_def args_loop_def Let_def skip_closing peek_def)
  then show ?thesis by (rule eventually_one_more)
qed

lemma args_loop_two:
  assumes "reads_expr env vars t v k" "reads_expr env vars u w k" "Suc k + d \<le> 100"
  shows "\<forall>\<^sub>F n in sequentially. pa_ArgsLoop (parser_with env vars n) d [] (rs t @ rune (CHR '','') # rs u @ rune (CHR '')'') # rest) =
           lift_result (bind_result v (\<lambda>x. bind_result w (\<lambda>y. Inr [x, y]))) (rune (CHR '')'') # rest)"
proof -
  let ?s = "rs u @ rune (CHR '')'') # rest"
  have "\<forall>\<^sub>F n in sequentially. pa_ArgsLoop (parser_with env vars n) d [x] ?s =
      lift_result (bind_result w (\<lambda>y. Inr [x, y])) (rune (CHR '')'') # rest)" for x
    using args_loop_last [OF assms(2,3), of "[x]" rest] by simp
  note last_arg = this
  show ?thesis
  proof (cases v)
    case (Inl e)
    from reads_argument [OF assms(1,3), of "CHR '',''" ?s] Inl
    have "\<forall>\<^sub>F n in sequentially. pa_ArgsLoop (one_more env vars (parser_with env vars n)) d [] (rs t @ rune (CHR '','') # ?s) = fails e"
      by (simp, elim eventually_mono) (simp add: one_more_def args_loop_def)
    then have "\<forall>\<^sub>F n in sequentially. pa_ArgsLoop (parser_with env vars n) d [] (rs t @ rune (CHR '','') # ?s) = fails e"
      by (rule eventually_one_more)
    then show ?thesis using Inl by simp
  next
    case (Inr x)
    have "\<forall>\<^sub>F n in sequentially. pa_Expr (parser_with env vars n) (Suc d) (rs t @ rune (CHR '','') # ?s) = gives x (rune (CHR '','') # ?s)"
      using reads_argument [OF assms(1,3), of "CHR '',''" ?s] Inr by simp
    with last_arg [of x] have "\<forall>\<^sub>F n in sequentially. pa_ArgsLoop (one_more env vars (parser_with env vars n)) d [] (rs t @ rune (CHR '','') # ?s) =
        lift_result (bind_result w (\<lambda>y. Inr [x, y])) (rune (CHR '')'') # rest)"
      by eventually_elim (simp add: one_more_def args_loop_def Let_def skip_closing peek_def)
    then have "\<forall>\<^sub>F n in sequentially. pa_ArgsLoop (parser_with env vars n) d [] (rs t @ rune (CHR '','') # ?s) =
        lift_result (bind_result w (\<lambda>y. Inr [x, y])) (rune (CHR '')'') # rest)"
      by (rule eventually_one_more)
    then show ?thesis using Inr by simp
  qed
qed

lemma reads_call:
  assumes "name_text f" "\<And>rest. skipSpace env (rs u @ rest) = rs u @ rest" "\<And>rest. peek (rs u @ rest) \<noteq> rune (CHR '')'')"
    "\<And>d rest. k + d \<le> 100 \<Longrightarrow> \<forall>\<^sub>F n in sequentially. pa_ArgsLoop (parser_with env vars n) d [] (rs u @ rune (CHR '')'') # rest) =
        lift_result args (rune (CHR '')'') # rest)"
  shows "reads_primary env vars (f @ ''('' @ u @ '')'') (bind_result args (call_function env f)) k"
  unfolding reads_primary_def
proof (intro allI impI)
  fix d rest
  assume *: "k + d \<le> 100" "stopper rest"
  let ?u = "rs u @ rune (CHR '')'') # rest"
  have whole: "rs (f @ ''('' @ u @ '')'') @ rest = rs f @ rune (CHR ''('') # ?u" by simp
  have after: "skipSpace env (rune (CHR ''('') # ?u) = rune (CHR ''('') # ?u" by (simp add: skip_closing)
  note name = ident_of_name(1,2) [OF assms(1), where rest = "rune (CHR ''('') # ?u" and env = env]
    ident_of_name(4) [OF assms(1), where rest = "rune (CHR ''('') # ?u"]
  from assms(4) [OF *(1), of rest]
  have "\<forall>\<^sub>F n in sequentially. pa_Ident (one_more env vars (parser_with env vars n)) d (rs f @ rune (CHR ''('') # ?u) =
      lift_result (bind_result args (call_function env f)) rest"
    by (rule eventually_mono)
       (cases args; use name assms(2,3) [of "rune (CHR '')'') # rest"] in
        \<open>simp add: one_more_def parseIdent_def Let_def after peek_def [of "rune (CHR ''('') # ?u"] skip_closing peek_def [of "41 # rest"]\<close>)
  then have "\<forall>\<^sub>F n in sequentially. pa_Ident (parser_with env vars n) d (rs f @ rune (CHR ''('') # ?u) =
      lift_result (bind_result args (call_function env f)) rest"
    by (rule eventually_one_more)
  then have "\<forall>\<^sub>F n in sequentially. pa_Primary (one_more env vars (parser_with env vars n)) d (rs f @ rune (CHR ''('') # ?u) =
      lift_result (bind_result args (call_function env f)) rest"
    unfolding primary_of_name [OF assms(1)] .
  then show "\<forall>\<^sub>F n in sequentially. pa_Primary (parser_with env vars n) d (rs (f @ ''('' @ u @ '')'') @ rest) =
      lift_result (bind_result args (call_function env f)) rest"
    unfolding whole by (rule eventually_one_more)
qed

lemma reads_neg:
  assumes "reads_unary env vars t v k"
  shows "reads_unary env vars (''-'' @ t) (bind_result v (\<lambda>x. Inr (fe_neg env x))) (Suc k)"
  unfolding reads_unary_def
proof (intro allI impI)
  fix d rest
  assume *: "Suc k + d \<le> 100" "stopper rest" "peek rest \<noteq> rune (CHR ''^'')"
  then have "\<forall>\<^sub>F n in sequentially. pa_Unary (parser_with env vars n) (Suc d) (rs t @ rest) = lift_result v rest"
    using assms by (simp add: reads_unary_def)
  then have "\<forall>\<^sub>F n in sequentially. pa_Unary (one_more env vars (parser_with env vars n)) d (rs (''-'' @ t) @ rest) =
      lift_result (bind_result v (\<lambda>x. Inr (fe_neg env x))) rest"
    by (rule eventually_mono) (cases v; simp add: one_more_def parseUnary_def Let_def skipSpace_def is_space_def)
  then show "\<forall>\<^sub>F n in sequentially. pa_Unary (parser_with env vars n) d (rs (''-'' @ t) @ rest) =
      lift_result (bind_result v (\<lambda>x. Inr (fe_neg env x))) rest"
    by (rule eventually_one_more)
qed

lemma reads_pow:
  assumes "reads_primary env vars t v k" "reads_unary env vars u w m"
  shows "reads_power env vars (t @ ''^'' @ u) (bind_result v (\<lambda>x. bind_result w (\<lambda>y. Inr (fe_math2 env ''Pow'' x y)))) (max k (Suc m))"
    (is "reads_power env vars ?t ?v _")
  unfolding reads_power_def
proof (intro allI impI)
  fix d rest
  assume *: "max k (Suc m) + d \<le> 100" "stopper rest" "peek rest \<noteq> rune (CHR ''^'')"
  let ?s = "rune (CHR ''^'') # rs u @ rest"
  have "\<forall>\<^sub>F n in sequentially. pa_Primary (parser_with env vars n) d (rs t @ ?s) = lift_result v ?s"
    using assms(1) * by (simp add: reads_primary_def stopper_def)
  moreover have "\<forall>\<^sub>F n in sequentially. pa_Unary (parser_with env vars n) (Suc d) (rs u @ rest) = lift_result w rest"
    using assms(2) * by (simp add: reads_unary_def)
  ultimately have "\<forall>\<^sub>F n in sequentially. pa_Power (one_more env vars (parser_with env vars n)) d (rs ?t @ rest) = lift_result ?v rest"
    by eventually_elim (cases v; cases w; simp add: one_more_def parsePower_def Let_def skipSpace_def is_space_def)
  then show "\<forall>\<^sub>F n in sequentially. pa_Power (parser_with env vars n) d (rs ?t @ rest) = lift_result ?v rest"
    by (rule eventually_one_more)
qed

lemma reads_product:
  assumes "reads_term env vars t v k" "reads_unary env vars u w m" "c \<in> set ''*/%''"
  shows "reads_term env vars (t @ [c] @ u) (bind_result v (\<lambda>x. bind_result w (arith env c x))) (max k m)"
    (is "reads_term env vars ?t ?v _")
  unfolding reads_term_def
proof (intro allI impI)
  fix d rest r
  assume *: "max k m + d \<le> 100" "stopper rest" "peek rest \<noteq> rune (CHR ''^'')"
    and loop: "\<forall>\<^sub>F n in sequentially. next_do (lift_result ?v rest) (pa_TermLoop (parser_with env vars n) d) = r"
  let ?s = "rune c # rs u @ rest"
  have s: "stopper ?s" "peek ?s \<noteq> rune (CHR ''^'')" using assms(3) by (auto simp: stopper_def)
  have "\<forall>\<^sub>F n in sequentially. next_do (lift_result v ?s) (pa_TermLoop (parser_with env vars n) d) = r"
  proof (cases v)
    case (Inl e)
    then show ?thesis using loop by auto
  next
    case (Inr x)
    have "\<forall>\<^sub>F n in sequentially. pa_Unary (parser_with env vars n) d (rs u @ rest) = lift_result w rest"
      using assms(2) * by (simp add: reads_unary_def)
    with loop have "\<forall>\<^sub>F n in sequentially. pa_TermLoop (one_more env vars (parser_with env vars n)) d x ?s = r"
      by eventually_elim
         (use Inr assms(3) in \<open>cases w; auto simp: one_more_def term_loop_def Let_def skipSpace_def is_space_def arith_def\<close>)
    then have "\<forall>\<^sub>F n in sequentially. pa_TermLoop (parser_with env vars n) d x ?s = r" by (rule eventually_one_more)
    then show ?thesis using Inr by simp
  qed
  then show "\<forall>\<^sub>F n in sequentially. pa_Term (parser_with env vars n) d (rs ?t @ rest) = r"
    using assms(1) * s by (simp add: reads_term_def)
qed

lemma reads_sum:
  assumes "reads_expr env vars t v k" "reads_term env vars u w m" "c \<in> set ''+-''"
  shows "reads_expr env vars (t @ [c] @ u) (bind_result v (\<lambda>x. bind_result w (arith env c x))) (max k m)"
    (is "reads_expr env vars ?t ?v _")
  unfolding reads_expr_def
proof (intro allI impI)
  fix d rest r
  assume *: "max k m + d \<le> 100" "ends_term rest"
    and loop: "\<forall>\<^sub>F n in sequentially. next_do (lift_result ?v rest) (pa_ExprLoop (parser_with env vars n) d) = r"
  let ?s = "rune c # rs u @ rest"
  have s: "ends_term ?s" using assms(3) by (auto simp: ends_term_def stopper_def)
  have "\<forall>\<^sub>F n in sequentially. next_do (lift_result v ?s) (pa_ExprLoop (parser_with env vars n) d) = r"
  proof (cases v)
    case (Inl e)
    then show ?thesis using loop by auto
  next
    case (Inr x)
    have "\<forall>\<^sub>F n in sequentially. pa_Term (parser_with env vars n) d (rs u @ rest) = lift_result w rest"
      using assms(2) * term_loop_ends [OF *(2), of w env vars d] by (simp add: reads_term_def ends_term_def)
    with loop have "\<forall>\<^sub>F n in sequentially. pa_ExprLoop (one_more env vars (parser_with env vars n)) d x ?s = r"
      by eventually_elim
         (use Inr assms(3) in \<open>cases w; auto simp: one_more_def expr_loop_def Let_def skipSpace_def is_space_def arith_def\<close>)
    then have "\<forall>\<^sub>F n in sequentially. pa_ExprLoop (parser_with env vars n) d x ?s = r" by (rule eventually_one_more)
    then show ?thesis using Inr by simp
  qed
  then show "\<forall>\<^sub>F n in sequentially. pa_Expr (parser_with env vars n) d (rs ?t @ rest) = r"
    using assms(1) * s by (simp add: reads_expr_def)
qed

lemma reads_weaken:
  assumes "k \<le> k'"
  shows "reads_primary env vars t v k \<Longrightarrow> reads_primary env vars t v k'" "reads_power env vars t v k \<Longrightarrow> reads_power env vars t v k'"
    "reads_unary env vars t v k \<Longrightarrow> reads_unary env vars t v k'" "reads_term env vars t v k \<Longrightarrow> reads_term env vars t v k'"
    "reads_expr env vars t v k \<Longrightarrow> reads_expr env vars t v k'"
  using assms by (simp_all add: reads_defs)

section \<open>Printed expressions\<close>

definition reads_all :: "'f formula_env \<Rightarrow> (string \<rightharpoonup> rat) \<Rightarrow> fexp \<Rightarrow> 'f outcome \<Rightarrow> nat \<Rightarrow> bool" where
  "reads_all env vars e v k \<longleftrightarrow>
     reads_expr env vars (print_at 0 e) v k \<and> reads_term env vars (print_at 1 e) v k \<and> reads_unary env vars (print_at 2 e) v k \<and>
     reads_power env vars (print_at 3 e) v k \<and> reads_primary env vars (print_at 4 e) v k"

lemma lower_levels:
  assumes "reads_primary env vars t v k" "opens t"
  shows "reads_power env vars t v k \<and> reads_unary env vars t v k \<and> reads_term env vars t v k \<and> reads_expr env vars t v k"
  using assms power_of_primary unary_of_power term_of_unary expr_of_term by blast

lemma opens_append: "opens t \<Longrightarrow> opens (t @ u)"
  by (cases t) (simp_all add: opens_def)

lemma opens_print: "well_formed e \<Longrightarrow> opens (print_at 4 e)"
proof (induction e)
  case (FCall1 f e)
  then show ?case using opens_append [OF name_text_chars(3)] by simp
next
  case (FCall2 f a b)
  then show ?case using opens_append [OF name_text_chars(3)] by simp
next
  case (FNum t)
  then show ?case using number_text_chars(3) by simp
next
  case (FName x)
  then show ?case using name_text_chars(3) by simp
qed (simp_all add: parens_def op_level_def opens_def)

lemma opens_start:
  assumes "opens t"
  shows "\<exists>c u. t = c # u \<and> (of_char c :: nat) \<noteq> 41 \<and> (of_char c :: nat) < 128 \<and> 32 < (of_char c :: nat)"
proof -
  obtain c u where t: "t = c # u" using assms by (cases t) (auto simp: opens_def)
  then have "c = CHR ''('' \<or> c = CHR ''.'' \<or> token_char c" using assms by (simp add: opens_def)
  then show ?thesis using token_char_ascii [of c] t by auto
qed

lemma starts_text:
  assumes "well_formed e"
  shows "\<exists>c u. print_at l e = c # u \<and> (of_char c :: nat) \<noteq> 41 \<and> (of_char c :: nat) < 128 \<and> 32 < (of_char c :: nat)"
  using assms
proof (induction e arbitrary: l)
  case (FNum t)
  then show ?case using opens_start [OF number_text_chars(3)] by simp
next
  case (FName x)
  then show ?case using opens_start [OF name_text_chars(3)] by simp
next
  case (FCall1 f a)
  then show ?case using opens_start [OF opens_append [OF name_text_chars(3) [of f]]] by simp
next
  case (FCall2 f a b)
  then show ?case using opens_start [OF opens_append [OF name_text_chars(3) [of f]]] by simp
next
  case (FBin c a b)
  then have "\<exists>c' u. print_at (op_level c) a = c' # u \<and> (of_char c' :: nat) \<noteq> 41 \<and> (of_char c' :: nat) < 128 \<and> 32 < (of_char c' :: nat)" by simp
  then show ?case by (cases "op_level c < l") (auto simp: parens_def)
next
  case (FPow a b)
  then have "\<exists>c' u. print_at 4 a = c' # u \<and> (of_char c' :: nat) \<noteq> 41 \<and> (of_char c' :: nat) < 128 \<and> 32 < (of_char c' :: nat)" by simp
  then show ?case by (cases "3 < l") (auto simp: parens_def)
qed (simp add: parens_def)

lemma reads_printed:
  "well_formed e \<Longrightarrow> reads_all env vars e (fexp_value env vars e) (nesting e)"
proof (induction e)
  case (FNum t)
  then have t: "number_text t" by simp
  show ?case
    using reads_number [OF t, of env vars] lower_levels [OF reads_number [OF t, of env vars] number_text_chars(3) [OF t]]
    by (simp add: reads_all_def)
next
  case (FName x)
  then have x: "name_text x" by simp
  show ?case
    using reads_name [OF x, of env vars] lower_levels [OF reads_name [OF x, of env vars] name_text_chars(3) [OF x]]
    by (simp add: reads_all_def)
next
  case (FNeg e)
  have u: "reads_unary env vars (print_at 2 (FNeg e)) (fexp_value env vars (FNeg e)) (Suc (nesting e))"
    using FNeg reads_neg [of env vars "print_at 2 e"] by (simp add: reads_all_def parens_def)
  have p: "reads_primary env vars (print_at 4 (FNeg e)) (fexp_value env vars (FNeg e)) (nesting (FNeg e))"
    using reads_parens [OF expr_of_term [OF term_of_unary [OF u]]] by (simp add: parens_def)
  have k: "Suc (nesting e) \<le> nesting (FNeg e)" by simp
  note w = reads_weaken(3) [OF k u]
  show ?case
    using w term_of_unary [OF w] expr_of_term [OF term_of_unary [OF w]] lower_levels [OF p opens_print [OF FNeg.prems]] p
    by (simp add: reads_all_def parens_def)
next
  case (FPow a b)
  have u: "reads_power env vars (print_at 3 (FPow a b)) (fexp_value env vars (FPow a b)) (max (nesting a) (Suc (nesting b)))"
    using FPow reads_pow [of env vars "print_at 4 a" _ _ "print_at 2 b"] by (simp add: reads_all_def parens_def)
  have o: "opens (print_at 3 (FPow a b))"
    using opens_append [OF opens_print [of a]] FPow.prems by (simp add: parens_def)
  note unary = unary_of_power [OF u o]
  have p: "reads_primary env vars (print_at 4 (FPow a b)) (fexp_value env vars (FPow a b)) (nesting (FPow a b))"
    using reads_weaken(1) [OF _ reads_parens [OF expr_of_term [OF term_of_unary [OF unary]]], of "nesting (FPow a b)"]
    by (simp add: parens_def)
  have k: "max (nesting a) (Suc (nesting b)) \<le> nesting (FPow a b)" by (simp add: le_max_iff_disj) linarith
  note w = reads_weaken(3) [OF k unary]
  show ?case
    using reads_weaken(2) [OF k u] w term_of_unary [OF w] expr_of_term [OF term_of_unary [OF w]] p
    by (simp add: reads_all_def parens_def)
next
  case (FCall1 f a)
  then have f: "name_text f" and a: "reads_expr env vars (print_at 0 a) (fexp_value env vars a) (nesting a)"
    by (simp_all add: reads_all_def)
  obtain c u where c: "print_at 0 a = c # u" "(of_char c :: nat) \<noteq> 41" "(of_char c :: nat) < 128" "32 < (of_char c :: nat)"
    using starts_text [of a 0] FCall1.prems by auto
  have "reads_primary env vars (f @ ''('' @ print_at 0 a @ '')'')
      (bind_result (bind_result (fexp_value env vars a) (\<lambda>x. Inr ([] @ [x]))) (call_function env f)) (nesting (FCall1 f a))"
  proof (rule reads_call [OF f])
    show "skipSpace env (rs (print_at 0 a) @ rest) = rs (print_at 0 a) @ rest" "peek (rs (print_at 0 a) @ rest) \<noteq> rune (CHR '')'')" for rest
      using c by (simp_all add: skipSpace_def is_space_def)
  qed (rule args_loop_last [OF a], simp)
  then have p: "reads_primary env vars (print_at 4 (FCall1 f a)) (fexp_value env vars (FCall1 f a)) (nesting (FCall1 f a))"
    by (cases "fexp_value env vars a") simp_all
  show ?case using p lower_levels [OF p opens_print [OF FCall1.prems]] by (simp add: reads_all_def)
next
  case (FCall2 f a b)
  let ?k = "max (nesting a) (nesting b)"
  have f: "name_text f" using FCall2.prems by simp
  have a: "reads_expr env vars (print_at 0 a) (fexp_value env vars a) ?k"
    using FCall2 by (intro reads_weaken(5) [of "nesting a" ?k]) (simp_all add: reads_all_def)
  have b: "reads_expr env vars (print_at 0 b) (fexp_value env vars b) ?k"
    using FCall2 by (intro reads_weaken(5) [of "nesting b" ?k]) (simp_all add: reads_all_def)
  obtain c u where c: "print_at 0 a = c # u" "(of_char c :: nat) \<noteq> 41" "(of_char c :: nat) < 128" "32 < (of_char c :: nat)"
    using starts_text [of a 0] FCall2.prems by auto
  have "reads_primary env vars (f @ ''('' @ (print_at 0 a @ '','' @ print_at 0 b) @ '')'')
      (bind_result (bind_result (fexp_value env vars a) (\<lambda>x. bind_result (fexp_value env vars b) (\<lambda>y. Inr [x, y]))) (call_function env f))
      (nesting (FCall2 f a b))"
  proof (rule reads_call [OF f])
    show "skipSpace env (rs (print_at 0 a @ '','' @ print_at 0 b) @ rest) = rs (print_at 0 a @ '','' @ print_at 0 b) @ rest"
      "peek (rs (print_at 0 a @ '','' @ print_at 0 b) @ rest) \<noteq> rune (CHR '')'')" for rest
      using c by (simp_all add: skipSpace_def is_space_def)
  qed (use args_loop_two [OF a b] in simp)
  then have p: "reads_primary env vars (print_at 4 (FCall2 f a b)) (fexp_value env vars (FCall2 f a b)) (nesting (FCall2 f a b))"
    by (cases "fexp_value env vars a"; cases "fexp_value env vars b") simp_all
  show ?case using p lower_levels [OF p opens_print [OF FCall2.prems]] by (simp add: reads_all_def)
next
  case (FBin c a b)
  let ?e = "FBin c a b" and ?k = "max (nesting a) (nesting b)"
  from FBin have ab: "reads_all env vars a (fexp_value env vars a) (nesting a)" "reads_all env vars b (fexp_value env vars b) (nesting b)"
    by simp_all
  have k: "?k \<le> nesting ?e" by (simp add: le_SucI)
  show ?case
  proof (cases "c \<in> set ''+-''")
    case True
    then have l: "op_level c = 0" by (auto simp: op_level_def)
    have u: "reads_expr env vars (print_at 0 ?e) (fexp_value env vars ?e) ?k"
      using reads_sum [where env = env and vars = vars, OF _ _ True] ab by (simp add: reads_all_def l parens_def)
    have p: "reads_primary env vars (print_at 4 ?e) (fexp_value env vars ?e) (nesting ?e)"
      using reads_parens [OF u] by (simp add: l parens_def)
    show ?thesis
      using reads_weaken(5) [OF k u] lower_levels [OF p opens_print [OF FBin.prems]] p by (simp add: reads_all_def l parens_def)
  next
    case False
    then have c: "c \<in> set ''*/%''" and l: "op_level c = 1" using FBin.prems by (auto simp: op_level_def)
    have u: "reads_term env vars (print_at 1 ?e) (fexp_value env vars ?e) ?k"
      using reads_product [where env = env and vars = vars, OF _ _ c] ab by (simp add: reads_all_def l parens_def numeral_2_eq_2)
    have p: "reads_primary env vars (print_at 4 ?e) (fexp_value env vars ?e) (nesting ?e)"
      using reads_parens [OF expr_of_term [OF u]] by (simp add: l parens_def)
    show ?thesis
      using reads_weaken(4) [OF k u] expr_of_term [OF reads_weaken(4) [OF k u]] lower_levels [OF p opens_print [OF FBin.prems]] p
      by (simp add: reads_all_def l parens_def)
  qed
qed

lemma ascii_print: "well_formed e \<Longrightarrow> ascii (print_at l e)"
  by (induction e arbitrary: l)
     (auto simp: parens_def ascii_def dest!: name_text_chars(2) number_text_chars(2))

definition finite_result :: "'f formula_env \<Rightarrow> 'f outcome \<Rightarrow> formula_error + rat" where
  "finite_result env v = bind_result v (\<lambda>x. case fe_finite env x of None \<Rightarrow> Inl NotFinite | Some q \<Rightarrow> Inr q)"

text \<open>
  C19. A formula means what its expression tree means: printed with parentheses only where the usual
  precedence (sums, products, signs, powers) and associativity need them (sums and products to the
  left, powers to the right), any expression evaluates to the value of its tree, and the evaluator
  reports the tree's first error from the left. The bounds are the code's own: at most 2000 bytes, and
  nesting at most 100.
\<close>

theorem formula_means_its_tree:
  assumes "well_formed e" "nesting e \<le> 100" "length (print_at 0 e) \<le> 2000"
  shows "EvalFormula env (print_at 0 e) vars = finite_result env (fexp_value env vars e)"
proof -
  let ?v = "fexp_value env vars e"
  have "pa_ExprLoop (one_more env vars p) 0 x [] = gives x []" for p x
    by (simp add: one_more_def expr_loop_def skipSpace_def peek_def)
  then have "\<forall>\<^sub>F n in sequentially. next_do (lift_result ?v []) (pa_ExprLoop (parser_with env vars n) 0) = lift_result ?v []"
    by (intro eventually_one_more [of "\<lambda>p. next_do (lift_result ?v []) (pa_ExprLoop p 0) = lift_result ?v []"]) (cases ?v; simp)
  moreover have "reads_expr env vars (print_at 0 e) ?v (nesting e)"
    using reads_printed [OF assms(1), of env vars] by (simp add: reads_all_def)
  ultimately have "\<forall>\<^sub>F n in sequentially. pa_Expr (parser_with env vars n) 0 (rs (print_at 0 e)) = lift_result ?v []"
    using assms(2) unfolding reads_expr_def by (force simp: ends_term_def stopper_def peek_def)
  from bound_is_enough [OF this] show ?thesis
    using assms(3)
    by (cases ?v) (simp_all add: EvalFormula_def runes_ascii [OF ascii_print [OF assms(1)]] finite_result_def fails_def gives_def skipSpace_def)
qed

text \<open>A calculator over the rationals.\<close>

definition calculator :: "rat formula_env" where
  "calculator = \<lparr>fe_quiz = exam_env, fe_IsSpace = \<lambda>_. False, fe_IsDigit = \<lambda>_. False, fe_IsLetter = \<lambda>_. False,
     fe_ParseFloat = parse_float, fe_of = id, fe_finite = Some, fe_isZero = (\<lambda>x. x = 0), fe_neg = uminus,
     fe_op = (\<lambda>c x y. if c = CHR ''+'' then x + y else if c = CHR ''-'' then x - y else if c = CHR ''*'' then x * y else x / y),
     fe_const = \<lambda>_. 0, fe_math1 = \<lambda>_ x. \<bar>x\<bar>, fe_math2 = \<lambda>_ x y. x ^ nat \<lfloor>y\<rfloor>, fe_Float64 = \<lambda>_ _. 0, fe_HMAC = \<lambda>_. 0\<rparr>"

theorem formula_means_its_tree_witness:
  "EvalFormula calculator ''7-(2-x)*abs(-2)^2'' [''x'' \<mapsto> 1] = Inr 3"
proof -
  let ?e = "FBin (CHR ''-'') (FNum ''7'') (FBin (CHR ''*'') (FBin (CHR ''-'') (FNum ''2'') (FName ''x''))
      (FPow (FCall1 ''abs'' (FNeg (FNum ''2''))) (FNum ''2'')))"
  have wf: "well_formed ?e" and nest: "nesting ?e \<le> 100" by code_simp+
  have printed: "print_at 0 ?e = ''7-(2-x)*abs(-2)^2''" by code_simp
  have val: "fexp_value calculator [''x'' \<mapsto> 1] ?e = Inr 3"
  proof -
    have "parse_float ''7'' = Some 7" "parse_float ''2'' = Some 2" by code_simp+
    then show ?thesis by (simp add: calculator_def exam_env_def arith_def named_value_def call_function_def Let_def formulaFuncs1_def formulaFuncs2_def)
  qed
  show ?thesis
    using formula_means_its_tree [OF wf nest, of calculator "[''x'' \<mapsto> 1]"] unfolding printed val
    by (simp add: finite_result_def calculator_def)
qed

end
