(* ===== verification/Quiz_Attempts.thy ===== *)
theory Quiz_Attempts imports Quiz_Gradebook begin

text \<open>
  Taking a quiz (\<open>internal/service/quiz_attempts_service.go\<close>, \<open>quiz_delivery.go\<close>, \<open>quiz_formula.go\<close>):
  starting an attempt, its questions and its deadline, answering, the questions a student may not go
  back to, and turning the attempt in.

  The draws of \<open>rand.Shuffle\<close> are a parameter: \<open>rnd k n\<close> lists the swaps of the \<open>k\<close>-th call, on
  \<open>n\<close> elements. The clock is read once per operation.
\<close>

record 'f attempt_env =
  ne_Sub :: sub_env
  ne_Formula :: "'f formula_env"
  ne_PlainText :: "string \<Rightarrow> string"
  ne_Order :: "nat list \<Rightarrow> nat list"

datatype quiz_error =
  QuizNotFound | QuizNotYetAvailable | QuizLocked | AttemptsReached | SliceOutOfRange | AttemptNotCreated | AttemptNotFound |
  AttemptNotInProgress | TimeExpired | QuestionNotInSubmission | QuestionIsLocked | NotYourAttempt | AttemptNotFinished |
  QuizPeriodClosed string | InvalidExtension | InvalidRegradeOption | InvalidQuizEvent

section \<open>The questions of an attempt\<close>

definition groupItemPoints :: "question_group \<Rightarrow> rat \<Rightarrow> rat" where
  "groupItemPoints g questionPoints =
     (case qp_PointsPerItem g of
        Some p \<Rightarrow> p
      | None \<Rightarrow> (case qp_QuestionBankID g of Some b \<Rightarrow> if b \<noteq> 0 then 1 else questionPoints | None \<Rightarrow> questionPoints))"

definition group_FindByID :: "quiz_store \<Rightarrow> nat \<Rightarrow> question_group option" where
  "group_FindByID db i = find (\<lambda>g. qp_ID g = i) (qd_Groups db)"

definition effectiveQuestionPoints :: "quiz_store \<Rightarrow> quiz_question \<Rightarrow> rat" where
  "effectiveQuestionPoints db q =
     (let pts = (case qn_PointsPossible q of Some p \<Rightarrow> p | None \<Rightarrow> 1)
      in case qn_GroupID q of
           None \<Rightarrow> pts
         | Some i \<Rightarrow>
             (if i = 0 then pts
              else case group_FindByID db i of
                  None \<Rightarrow> pts
                | Some g \<Rightarrow> if qp_QuizID g \<noteq> qn_QuizID q then pts else groupItemPoints g pts))"

definition materialized_question :: "nat \<Rightarrow> question_group \<Rightarrow> bank_entry \<Rightarrow> quiz_question" where
  "materialized_question quizID g e =
     \<lparr>qn_ID = 0, qn_QuizID = quizID, qn_GroupID = Some (qp_ID g), qn_Position = be_Position e,
      qn_QuestionType = NormalizeQuizQuestionType (be_QuestionType e),
      qn_QuestionText = (if be_QuestionText e = [] then be_QuestionName e else be_QuestionText e),
      qn_PointsPossible = Some (groupItemPoints g (be_PointsPossible e)),
      qn_Answers = (if be_Answers e = [] then ''[]'' else be_Answers e), qn_WorkflowState = ''active'', qn_BankEntryID = Some (be_ID e)\<rparr>"

definition materializeBankEntry :: "quiz_store \<Rightarrow> nat \<Rightarrow> question_group \<Rightarrow> bank_entry \<Rightarrow> nat \<times> quiz_store" where
  "materializeBankEntry db quizID g e =
     (let i = qd_NextID db
      in (i, db\<lparr>qd_Questions := qd_Questions db @ [(materialized_question quizID g e)\<lparr>qn_ID := i\<rparr>], qd_NextID := Suc i\<rparr>))"

text \<open>An entry of a group's pool: a question of the quiz, or a bank entry still to be copied into it.\<close>

datatype pool_entry = PoolQuestion nat | PoolBank bank_entry

definition bank_pool :: "quiz_store \<Rightarrow> nat \<Rightarrow> question_group \<Rightarrow> quiz_question list \<Rightarrow> pool_entry list" where
  "bank_pool db quizID g questions =
     (case qp_QuestionBankID g of
        None \<Rightarrow> []
      | Some b \<Rightarrow>
          (let cid = (case quiz_FindByID db quizID of Some q \<Rightarrow> qz_CourseID q | None \<Rightarrow> 0);
               materialized = map_of (rev (List.map_filter (\<lambda>q. map_option (\<lambda>e. (e, qn_ID q)) (qn_BankEntryID q)) questions))
           in if bankUsableInCourse db (find (\<lambda>k. bk_ID k = b) (qd_Banks db)) cid
              then map (\<lambda>e. case materialized (be_ID e) of Some i \<Rightarrow> PoolQuestion i | None \<Rightarrow> PoolBank e)
                     (filter (\<lambda>e. be_QuestionBankID e = b) (entries_ListByBankID db b))
              else []))"

definition group_questions :: "quiz_store \<Rightarrow> nat \<Rightarrow> question_group \<Rightarrow> quiz_question list" where
  "group_questions db quizID g = filter (\<lambda>q. qn_QuizID q = quizID) (questions_ListByGroupID db (qp_ID g))"

definition group_pool :: "quiz_store \<Rightarrow> nat \<Rightarrow> question_group \<Rightarrow> pool_entry list" where
  "group_pool db quizID g =
     (let questions = group_questions db quizID g
      in bank_pool db quizID g questions @ map (\<lambda>q. PoolQuestion (qn_ID q)) (filter (\<lambda>q. qn_BankEntryID q = None) questions))"

definition swap_at :: "'a list \<Rightarrow> nat \<times> nat \<Rightarrow> 'a list" where
  "swap_at xs p = (case p of (i, j) \<Rightarrow> if i < length xs \<and> j < length xs then xs[i := xs ! j, j := xs ! i] else xs)"

type_synonym draws = "nat \<Rightarrow> nat \<Rightarrow> (nat \<times> nat) list"

definition shuffle_with :: "draws \<Rightarrow> nat \<Rightarrow> 'a list \<Rightarrow> 'a list" where
  "shuffle_with rnd k xs = foldl swap_at xs (rnd k (length xs))"

definition take_pool :: "nat \<Rightarrow> question_group \<Rightarrow> quiz_store \<times> nat list \<Rightarrow> pool_entry \<Rightarrow> quiz_store \<times> nat list" where
  "take_pool quizID g acc p =
     (case (acc, p) of
        ((db, sel), PoolQuestion i) \<Rightarrow> (db, sel @ [i])
      | ((db, sel), PoolBank e) \<Rightarrow> (case materializeBankEntry db quizID g e of (i, db) \<Rightarrow> (db, sel @ [i])))"

text \<open>A negative pick count is a slice bound out of range.\<close>

fun draw_groups :: "draws \<Rightarrow> nat \<Rightarrow> nat \<Rightarrow> question_group list \<Rightarrow> quiz_store \<Rightarrow> nat list \<Rightarrow> (nat list \<times> quiz_store) option" where
  "draw_groups rnd k quizID [] db sel = Some (sel, db)"
| "draw_groups rnd k quizID (g # gs) db sel =
     (let pool = group_pool db quizID g
      in if pool = [] then draw_groups rnd k quizID gs db sel
         else if qp_PickCount g < 0 then None
         else case foldl (take_pool quizID g) (db, sel) (take (nat (qp_PickCount g)) (shuffle_with rnd k pool)) of
             (db, sel) \<Rightarrow> draw_groups rnd (Suc k) quizID gs db sel)"

definition ungrouped_ids :: "quiz_store \<Rightarrow> nat \<Rightarrow> question_group list \<Rightarrow> nat list" where
  "ungrouped_ids db quizID groups =
     map qn_ID (filter (\<lambda>q. \<not> list_ex (\<lambda>g. list_ex (\<lambda>r. qn_ID r = qn_ID q) (group_questions db quizID g)) groups \<and> qn_BankEntryID q = None \<and>
         (case qn_GroupID q of None \<Rightarrow> True | Some i \<Rightarrow> i = 0 \<or> i \<notin> set (map qp_ID groups)))
       (questions_ListByQuizID db quizID))"

definition authored_ids :: "quiz_store \<Rightarrow> nat \<Rightarrow> nat list" where
  "authored_ids db quizID = map qn_ID (filter (\<lambda>q. qn_BankEntryID q = None) (questions_ListByQuizID db quizID))"

definition generateSelectedQuestions :: "draws \<Rightarrow> quiz_store \<Rightarrow> nat \<Rightarrow> (nat list \<times> quiz_store) option" where
  "generateSelectedQuestions rnd db quizID =
     (case groups_ListByQuizID db quizID of
        [] \<Rightarrow> Some (authored_ids db quizID, db)
      | gs \<Rightarrow> map_option (\<lambda>(sel, db'). (sel @ ungrouped_ids db quizID gs, db')) (draw_groups rnd 0 quizID gs db []))"

section \<open>Starting\<close>

definition better_multiplier :: "rat \<times> bool \<Rightarrow> accommodation \<Rightarrow> rat \<times> bool" where
  "better_multiplier best a = (case ac_TimeMultiplier a of Some m \<Rightarrow> if m > fst best then (m, True) else best | None \<Rightarrow> best)"

definition ApplyAccommodationsToQuiz :: "instant \<Rightarrow> dates_db \<Rightarrow> nat \<Rightarrow> nat \<Rightarrow> int \<Rightarrow> int option" where
  "ApplyAccommodationsToQuiz now dates uid cid limit =
     (case foldl better_multiplier (1, False) (filter (in_effect now) (ListByUserAndCourse now dates uid cid)) of
        (best, found) \<Rightarrow> if found then Some (int_conv (math_Ceil (fmul (float_of_int limit) best))) else None)"

definition time_limit :: "instant \<Rightarrow> quiz_store \<Rightarrow> quiz \<Rightarrow> nat \<Rightarrow> int option \<Rightarrow> int option" where
  "time_limit now db q uid given =
     (let limit = (case given of Some t \<Rightarrow> Some t | None \<Rightarrow> (case qz_TimeLimit q of Some t \<Rightarrow> if t > 0 then Some t else None | None \<Rightarrow> None))
      in case limit of
           None \<Rightarrow> None
         | Some t \<Rightarrow>
             (if t > 0
              then case ApplyAccommodationsToQuiz now (sx_Dates (qd_Gradebook db)) uid (qz_CourseID q) t of Some t' \<Rightarrow> Some t' | None \<Rightarrow> Some t
              else Some t))"

definition deadline_of :: "instant \<Rightarrow> int option \<Rightarrow> quiz_extension \<Rightarrow> instant option \<Rightarrow> instant option" where
  "deadline_of now limit x lockAt =
     (let endAt = (case limit of Some t \<Rightarrow> if t > 0 then Some (now + dur_mul (t + qx_ExtraTime x) minute) else None | None \<Rightarrow> None)
      in case lockAt of
           None \<Rightarrow> endAt
         | Some l \<Rightarrow>
             (if \<not> qx_ManuallyUnlocked x \<and> (case endAt of None \<Rightarrow> True | Some e \<Rightarrow> l < e) then Some l else endAt))"

definition new_attempt :: "instant \<Rightarrow> nat \<Rightarrow> nat \<Rightarrow> int \<Rightarrow> instant option \<Rightarrow> nat list \<Rightarrow> quiz_submission" where
  "new_attempt now quizID uid n endAt selected =
     \<lparr>qs_ID = 0, qs_QuizID = quizID, qs_UserID = uid, qs_SubmissionID = None, qs_Attempt = n, qs_Score = None, qs_KeptScore = None,
      qs_StartedAt = Some now, qs_FinishedAt = None, qs_EndAt = endAt, qs_TimeSpent = 0,
      qs_SelectedQuestions = (if selected = [] then None else Some selected), qs_WorkflowState = ''untaken'', qs_FudgePoints = None,
      qs_ScoreBeforeRegrade = None, qs_ReadQuestions = [], qs_ResultsSeenAt = None\<rparr>"

definition window_error :: "instant \<Rightarrow> quiz_extension \<Rightarrow> instant option \<Rightarrow> instant option \<Rightarrow> quiz_error option" where
  "window_error now x unlockAt lockAt =
     (if qx_ManuallyUnlocked x then None
      else if (case unlockAt of Some t \<Rightarrow> now < t | None \<Rightarrow> False) then Some QuizNotYetAvailable
      else if (case lockAt of Some t \<Rightarrow> now > t | None \<Rightarrow> False) then Some QuizLocked else None)"

definition next_number :: "quiz_submission option \<Rightarrow> int" where
  "next_number existing = (case existing of Some s \<Rightarrow> qs_Attempt s + 1 | None \<Rightarrow> 1)"

text \<open>
  What a request to start reads before it inserts: an error, the attempt to resume, or the row to
  insert. Requests of the same student interleave between the two halves.
\<close>

definition prepare_attempt ::
  "draws \<Rightarrow> instant \<Rightarrow> quiz_store \<Rightarrow> quiz \<Rightarrow> quiz_extension \<Rightarrow> instant option \<Rightarrow> nat \<Rightarrow> int option \<Rightarrow> int \<Rightarrow>
     quiz_error + quiz_submission \<times> quiz_store" where
  "prepare_attempt rnd now db q x lockAt uid given n =
     (let endAt = deadline_of now (time_limit now db q uid given) x lockAt
      in case generateSelectedQuestions rnd db (qz_ID q) of
           None \<Rightarrow> Inl SliceOutOfRange
         | Some (selected, db') \<Rightarrow> Inr (new_attempt now (qz_ID q) uid n endAt selected, db'))"

definition start_decide ::
  "draws \<Rightarrow> instant \<Rightarrow> quiz_store \<Rightarrow> nat \<Rightarrow> nat \<Rightarrow> int option \<Rightarrow> quiz_error + (quiz_submission + quiz_submission \<times> quiz_store)" where
  "start_decide rnd now db quizID uid given =
     (case quiz_FindByID db quizID of
        None \<Rightarrow> Inl QuizNotFound
      | Some q \<Rightarrow>
          (if qz_WorkflowState q = ''deleted'' then Inl QuizNotFound
           else let x = quizExtensionFor db quizID uid;
                    (_, unlockAt, lockAt) = EffectiveQuizDates now db q uid;
                    existing = FindByQuizAndUser db quizID uid;
                    n = next_number existing;
                    allowed = AttemptsAllowedFor q x
                in case window_error now x unlockAt lockAt of
                     Some e \<Rightarrow> Inl e
                   | None \<Rightarrow>
                       (if (case existing of Some s \<Rightarrow> in_progress s | None \<Rightarrow> False) then Inr (Inl (the existing))
                        else if allowed > 0 \<and> n > allowed then Inl AttemptsReached
                        else map_sum id Inr (prepare_attempt rnd now db q x lockAt uid given n))))"

definition start_insert :: "quiz_store \<Rightarrow> quiz_submission \<Rightarrow> (quiz_error + quiz_submission) \<times> quiz_store" where
  "start_insert db row =
     (case attempt_Create db row of
        Some (s, db') \<Rightarrow> (Inr s, recordQuizEvent db' s ''session_started'')
      | None \<Rightarrow>
          (case FindByQuizAndUser db (qs_QuizID row) (qs_UserID row) of
             Some w \<Rightarrow> if in_progress w then (Inr w, db) else (Inl AttemptNotCreated, db)
           | None \<Rightarrow> (Inl AttemptNotCreated, db)))"

definition StartSubmission ::
  "draws \<Rightarrow> instant \<Rightarrow> quiz_store \<Rightarrow> nat \<Rightarrow> nat \<Rightarrow> int option \<Rightarrow> (quiz_error + quiz_submission) \<times> quiz_store" where
  "StartSubmission rnd now db quizID uid given =
     (case start_decide rnd now db quizID uid given of
        Inl e \<Rightarrow> (Inl e, db)
      | Inr (Inl s) \<Rightarrow> (Inr s, db)
      | Inr (Inr (row, db')) \<Rightarrow> start_insert db' row)"

section \<open>Answering\<close>

definition belongs :: "quiz_submission \<Rightarrow> quiz_question \<Rightarrow> bool" where
  "belongs s q =
     (qn_QuizID q = qs_QuizID s \<and> (case qs_SelectedQuestions s of None \<Rightarrow> True | Some ids \<Rightarrow> qn_ID q \<in> set ids))"

definition CantGoBackActive :: "quiz \<Rightarrow> bool" where
  "CantGoBackActive q = (qz_OneQuestionAtATime q \<and> qz_CantGoBack q)"

definition question_locked :: "quiz_store \<Rightarrow> quiz_submission \<Rightarrow> nat \<Rightarrow> bool" where
  "question_locked db s questionID =
     (questionID \<in> set (qs_ReadQuestions s) \<and>
      (case quiz_FindByID db (qs_QuizID s) of Some q \<Rightarrow> CantGoBackActive q | None \<Rightarrow> False))"

definition answer_event :: "string \<Rightarrow> string" where
  "answer_event answer = (if answer = [] then ''question_unanswered'' else ''question_answered'')"

text \<open>The gates of \<open>AnswerQuestion\<close>, in the order of the code.\<close>

definition answer_error :: "instant \<Rightarrow> quiz_store \<Rightarrow> quiz_submission \<Rightarrow> nat \<Rightarrow> quiz_error option" where
  "answer_error now db s questionID =
     (if \<not> in_progress s then Some AttemptNotInProgress
      else if (case qs_EndAt s of Some t \<Rightarrow> now > t | None \<Rightarrow> False) then Some TimeExpired
      else case question_FindByID db questionID of
          None \<Rightarrow> Some QuestionNotInSubmission
        | Some q \<Rightarrow>
            (if qn_WorkflowState q = ''deleted'' \<or> \<not> belongs s q then Some QuestionNotInSubmission
             else if question_locked db s questionID then Some QuestionIsLocked else None))"

definition upsert_answer :: "quiz_store \<Rightarrow> nat \<Rightarrow> nat \<Rightarrow> string \<Rightarrow> quiz_answer \<times> quiz_store" where
  "upsert_answer db sid questionID answer =
     (case FindBySubmissionAndQuestion db sid questionID of
        Some w \<Rightarrow> (let w = w\<lparr>qw_Answer := answer, qw_Correct := None, qw_Points := None\<rparr> in (w, answer_Update db w))
      | None \<Rightarrow> answer_Create db (new_answer sid questionID answer))"

definition AnswerQuestion :: "instant \<Rightarrow> quiz_store \<Rightarrow> nat \<Rightarrow> nat \<Rightarrow> string \<Rightarrow> (quiz_error + quiz_answer) \<times> quiz_store" where
  "AnswerQuestion now db sid questionID answer =
     (case attempt_FindByID db sid of
        None \<Rightarrow> (Inl AttemptNotFound, db)
      | Some s \<Rightarrow>
          (case answer_error now db s questionID of
             Some e \<Rightarrow> (Inl e, db)
           | None \<Rightarrow>
               (case upsert_answer db sid questionID answer of (w, db') \<Rightarrow> (Inr w, recordQuizEvent db' s (answer_event answer)))))"

text \<open>\<open>MarkQuestionRead\<close> and the file-upload gate work on the attempt row the handler loaded.\<close>

definition MarkQuestionRead :: "quiz_store \<Rightarrow> quiz_submission \<Rightarrow> nat \<Rightarrow> (quiz_error + nat list) \<times> quiz_store" where
  "MarkQuestionRead db s questionID =
     (if \<not> in_progress s then (Inl AttemptNotInProgress, db)
      else case question_FindByID db questionID of
          None \<Rightarrow> (Inl QuestionNotInSubmission, db)
        | Some q \<Rightarrow>
            (if \<not> belongs s q then (Inl QuestionNotInSubmission, db)
             else case quiz_FindByID db (qs_QuizID s) of
                 None \<Rightarrow> (Inl QuizNotFound, db)
               | Some quiz \<Rightarrow>
                   (if \<not> CantGoBackActive quiz \<or> questionID \<in> set (qs_ReadQuestions s) then (Inr (qs_ReadQuestions s), db)
                    else case AppendReadQuestionIfInProgress db (qs_ID s) questionID of
                        (False, db') \<Rightarrow> (Inl AttemptNotInProgress, db')
                      | (True, db') \<Rightarrow>
                          (Inr (case attempt_FindByID db' (qs_ID s) of Some r \<Rightarrow> qs_ReadQuestions r | None \<Rightarrow> []), db'))))"

definition FileUploadQuestionForSubmission :: "quiz_store \<Rightarrow> quiz_submission \<Rightarrow> nat \<Rightarrow> quiz_error + quiz_question" where
  "FileUploadQuestionForSubmission db s questionID =
     (case question_FindByID db questionID of
        None \<Rightarrow> Inl QuestionNotInSubmission
      | Some q \<Rightarrow>
          (if \<not> belongs s q \<or> NormalizeQuizQuestionType (qn_QuestionType q) \<noteq> ''file_upload'' then Inl QuestionNotInSubmission
           else if question_locked db s questionID then Inl QuestionIsLocked else Inr q))"

section \<open>Turning in\<close>

text \<open>
  The grading loop over the stored answers: the total, whether an answer waits for a grader, and
  the answers that were scored. A question counts once.
\<close>

definition scored_answer :: "'f attempt_env \<Rightarrow> quiz_store \<Rightarrow> quiz_submission \<Rightarrow> quiz_question \<Rightarrow> quiz_answer \<Rightarrow> rat option \<times> quiz_answer" where
  "scored_answer env db s q w =
     (case gradeAnswerForSubmission (ne_Formula env) (qs_ID s) (qn_ID q) (qn_QuestionType q) (qn_Answers q) (qw_Answer w)
             (effectiveQuestionPoints db q) of
        (points, correct, gradable) \<Rightarrow>
          (if gradable then (Some points, w\<lparr>qw_Correct := Some correct, qw_Points := Some points, qw_GradedVia := Some ''auto''\<rparr>)
           else (None, w\<lparr>qw_Points := Some 0\<rparr>)))"

fun grade_loop ::
  "'f attempt_env \<Rightarrow> quiz_store \<Rightarrow> quiz_submission \<Rightarrow> nat set \<Rightarrow> quiz_answer list \<Rightarrow> rat \<Rightarrow> bool \<Rightarrow> rat \<times> bool \<times> quiz_answer list" where
  "grade_loop env db s seen [] tally review = (tally, review, [])"
| "grade_loop env db s seen (w # ws) tally review =
     (case question_FindByID db (qw_QuestionID w) of
        None \<Rightarrow> grade_loop env db s seen ws tally review
      | Some q \<Rightarrow>
          (if \<not> belongs s q \<or> qn_ID q \<in> seen then grade_loop env db s seen ws tally review
           else case scored_answer env db s q w of
               (Some points, w') \<Rightarrow>
                 (case grade_loop env db s (insert (qn_ID q) seen) ws (fadd tally points) review of (t, r, ws') \<Rightarrow> (t, r, w' # ws'))
             | (None, w') \<Rightarrow>
                 (case grade_loop env db s (insert (qn_ID q) seen) ws tally True of (t, r, ws') \<Rightarrow> (t, r, w' # ws'))))"

definition survey_answer :: "quiz_answer \<Rightarrow> quiz_answer" where
  "survey_answer w = w\<lparr>qw_Correct := None, qw_Points := Some 0, qw_GradedVia := Some ''auto''\<rparr>"

definition survey_total :: "quiz \<Rightarrow> rat" where
  "survey_total q = (if qz_QuizType q = ''graded_survey'' then (case qz_PointsPossible q of Some p \<Rightarrow> p | None \<Rightarrow> 0) else 0)"

definition applySurveySemantics :: "quiz option \<Rightarrow> rat \<times> bool \<times> quiz_answer list \<Rightarrow> rat \<times> bool \<times> quiz_answer list" where
  "applySurveySemantics quiz g =
     (case quiz of
        None \<Rightarrow> g
      | Some q \<Rightarrow> if IsSurvey q then (survey_total q, False, map survey_answer (snd (snd g))) else g)"

definition time_spent :: "quiz_submission \<Rightarrow> instant \<Rightarrow> int" where
  "time_spent s finishAt =
     (case qs_StartedAt s of None \<Rightarrow> qs_TimeSpent s | Some t \<Rightarrow> int_conv (dur_seconds (time_sub finishAt t)))"

definition finished_attempt :: "quiz_submission \<Rightarrow> instant \<Rightarrow> rat \<Rightarrow> bool \<Rightarrow> quiz_submission" where
  "finished_attempt s finishAt tally review =
     s\<lparr>qs_FinishedAt := Some finishAt, qs_Score := Some tally, qs_KeptScore := Some tally, qs_TimeSpent := time_spent s finishAt,
       qs_WorkflowState := (if review then ''pending_review'' else ''complete'')\<rparr>"

definition finalizeAttempt ::
  "'f attempt_env \<Rightarrow> instant \<Rightarrow> quiz_store \<Rightarrow> quiz_submission \<Rightarrow> instant \<Rightarrow> string \<Rightarrow> (quiz_error + quiz_submission) \<times> quiz_store" where
  "finalizeAttempt env now db s finishAt event =
     (let quiz = quiz_FindByID db (qs_QuizID s)
      in case applySurveySemantics quiz (grade_loop env db s {} (ListBySubmissionID db (qs_ID s)) 0 False) of
           (tally, review, scored) \<Rightarrow>
             (let db1 = foldl answer_Update db scored;
                  s' = finished_attempt s finishAt tally review
              in case FinalizeIfInProgress db1 s' of
                   (False, db2) \<Rightarrow> (Inl AttemptNotInProgress, db2)
                 | (True, db2) \<Rightarrow>
                     (let db3 = recordQuizEvent db2 s' event;
                          db4 = (case quiz of Some q \<Rightarrow> refreshKeptScore (ne_Sub env) now db3 q (qs_UserID s) 0 | None \<Rightarrow> db3)
                      in (Inr s', fireOnCompleted db4 (qs_ID s)))))"

text \<open>The recorded finish is at most five minutes past the deadline.\<close>

definition finish_time :: "instant \<Rightarrow> quiz_submission \<Rightarrow> instant" where
  "finish_time now s =
     (case qs_EndAt s of
        None \<Rightarrow> now
      | Some t \<Rightarrow> if now > t then (let grace = t + 5 * minute in if now < grace then now else grace) else now)"

definition CompleteSubmission :: "'f attempt_env \<Rightarrow> instant \<Rightarrow> quiz_store \<Rightarrow> nat \<Rightarrow> nat \<Rightarrow> (quiz_error + quiz_submission) \<times> quiz_store" where
  "CompleteSubmission env now db sid uid =
     (case attempt_FindByID db sid of
        None \<Rightarrow> (Inl AttemptNotFound, db)
      | Some s \<Rightarrow>
          (if qs_UserID s \<noteq> uid then (Inl NotYourAttempt, db)
           else if \<not> in_progress s then (Inl AttemptNotInProgress, db)
           else finalizeAttempt env now db s (finish_time now s) ''submission_submitted''))"

section \<open>Reading\<close>

definition GetSubmissionQuestions :: "quiz_store \<Rightarrow> nat \<Rightarrow> quiz_error + quiz_question list" where
  "GetSubmissionQuestions db sid =
     (case attempt_FindByID db sid of
        None \<Rightarrow> Inl AttemptNotFound
      | Some s \<Rightarrow>
          Inr (case qs_SelectedQuestions s of
                 Some ids \<Rightarrow> List.map_filter (question_FindByID db) ids
               | None \<Rightarrow> filter (\<lambda>q. qn_BankEntryID q = None) (questions_ListByQuizID db (qs_QuizID s))))"

definition ListSubmissionAnswers :: "quiz_store \<Rightarrow> nat \<Rightarrow> bool \<Rightarrow> quiz_error + quiz_answer list" where
  "ListSubmissionAnswers db sid viewerIsStaff =
     (case attempt_FindByID db sid of
        None \<Rightarrow> Inl AttemptNotFound
      | Some s \<Rightarrow> if in_progress s \<and> \<not> viewerIsStaff then Inl AttemptNotInProgress else Inr (ListBySubmissionID db sid))"

section \<open>Events of the take page\<close>

definition clientQuizEventTypes :: "string list" where
  "clientQuizEventTypes =
     [''page_blurred'', ''page_focused'', ''question_viewed'', ''question_flagged'', ''session_resumed'', ''question_unanswered'']"

text \<open>The payload of a client event: absent or \<open>null\<close>, or the text of an object of at most 2048 bytes.\<close>

definition event_data_ok :: "(string \<Rightarrow> json option) \<Rightarrow> string \<Rightarrow> bool" where
  "event_data_ok parse raw =
     (raw = [] \<or> raw = ''null'' \<or>
      length raw \<le> 2048 \<and> (case parse raw of Some (JObj _) \<Rightarrow> True | Some JNull \<Rightarrow> True | _ \<Rightarrow> False))"

definition RecordClientQuizEvents ::
  "(string \<Rightarrow> json option) \<Rightarrow> quiz_store \<Rightarrow> quiz_submission \<Rightarrow> (string \<times> string) list \<Rightarrow> (quiz_error + nat) \<times> quiz_store" where
  "RecordClientQuizEvents parse db s events =
     (if \<not> in_progress s then (Inl AttemptNotInProgress, db)
      else if length events > 100 \<or> \<not> list_all (\<lambda>(t, raw). t \<in> set clientQuizEventTypes \<and> event_data_ok parse raw) events
      then (Inl InvalidQuizEvent, db)
      else (Inr (length events),
            db\<lparr>qd_Events := qd_Events db @ map (\<lambda>(t, _). \<lparr>qv_QuizSubmissionID = qs_ID s,
              qv_Attempt = (if qs_Attempt s = 0 then 1 else qs_Attempt s), qv_EventType = t, qv_Source = ''client''\<rparr>) events\<rparr>))"

end
