(* ===== verification/Quiz_Moderation.thy ===== *)
theory Quiz_Moderation imports Quiz_Attempts begin

text \<open>
  Moderating a quiz, the overdue job, manual grading, regrades and what a student may see
  (\<open>internal/service/quiz_moderation.go\<close>, \<open>quiz_manual_grading.go\<close>, \<open>quiz_regrade.go\<close>,
  \<open>quiz_results_policy.go\<close>).

  Where the code walks a Go map, the order it visits the keys in is a parameter: the updates of a
  grader are a list, and \<open>ne_Order\<close> reorders the questions of an attempt.
\<close>

section \<open>Extensions\<close>

record extension_input =
  xi_UserID :: nat
  xi_ExtraAttempts :: "int option"
  xi_ExtraTime :: "int option"
  xi_ManuallyUnlocked :: "bool option"
  xi_ExtendFromNow :: "int option"
  xi_ExtendFromEndAt :: "int option"

definition boundedNonNegative :: "int option \<Rightarrow> int \<Rightarrow> bool" where
  "boundedNonNegative v m = (case v of None \<Rightarrow> True | Some n \<Rightarrow> 0 \<le> n \<and> n \<le> m)"

definition extends_within :: "int option \<Rightarrow> bool" where
  "extends_within v = (case v of None \<Rightarrow> True | Some n \<Rightarrow> \<not> (n \<le> 0 \<or> n > 10080))"

definition extension_valid :: "extension_input \<Rightarrow> bool" where
  "extension_valid inp =
     (boundedNonNegative (xi_ExtraAttempts inp) 1000 \<and> boundedNonNegative (xi_ExtraTime inp) 10080 \<and>
      extends_within (xi_ExtendFromNow inp) \<and> extends_within (xi_ExtendFromEndAt inp))"

definition given_or :: "'a option \<Rightarrow> 'a \<Rightarrow> 'a" where
  "given_or v d = (case v of Some x \<Rightarrow> x | None \<Rightarrow> d)"

definition changed_extension :: "quiz_store \<Rightarrow> quiz \<Rightarrow> extension_input \<Rightarrow> quiz_extension" where
  "changed_extension db q inp =
     (let x = quizExtensionFor db (qz_ID q) (xi_UserID inp)
      in \<lparr>qx_QuizID = qz_ID q, qx_UserID = xi_UserID inp, qx_ExtraAttempts = given_or (xi_ExtraAttempts inp) (qx_ExtraAttempts x),
          qx_ExtraTime = given_or (xi_ExtraTime inp) (qx_ExtraTime x),
          qx_ManuallyUnlocked = given_or (xi_ManuallyUnlocked inp) (qx_ManuallyUnlocked x)\<rparr>)"

text \<open>The new deadline of an attempt whose deadline is \<open>old\<close>.\<close>

definition extended_end :: "instant \<Rightarrow> extension_input \<Rightarrow> instant \<Rightarrow> instant" where
  "extended_end now inp old =
     (case xi_ExtendFromNow inp of
        Some m \<Rightarrow> now + dur_mul m minute
      | None \<Rightarrow> (if old > now then old else now) + dur_mul (given_or (xi_ExtendFromEndAt inp) 0) minute)"

definition SetQuizExtension ::
  "instant \<Rightarrow> quiz_store \<Rightarrow> quiz \<Rightarrow> extension_input \<Rightarrow> (quiz_error + quiz_extension \<times> quiz_submission option) \<times> quiz_store" where
  "SetQuizExtension now db0 q inp =
     (if \<not> extension_valid inp then (Inl InvalidExtension, db0)
      else let x = changed_extension db0 q inp; db = extension_Upsert db0 x
           in if xi_ExtendFromNow inp = None \<and> xi_ExtendFromEndAt inp = None then (Inr (x, None), db)
              else case FindByQuizAndUser db (qz_ID q) (xi_UserID inp) of
                  None \<Rightarrow> (Inr (x, None), db)
                | Some l \<Rightarrow>
                    (if \<not> in_progress l then (Inr (x, None), db)
                     else case qs_EndAt l of
                         None \<Rightarrow> (Inr (x, None), db)
                       | Some old \<Rightarrow>
                           (let t = extended_end now inp old; l' = l\<lparr>qs_EndAt := Some t\<rparr>
                            in case SetEndAtIfInProgress db (qs_ID l) t of
                                 (False, db') \<Rightarrow> (Inr (x, None), db')
                               | (True, db') \<Rightarrow> (Inr (x, Some l'), recordQuizEvent db' l' ''attempt_extended''))))"

section \<open>Where students stand\<close>

definition attempts_used :: "quiz_submission list \<Rightarrow> int" where
  "attempts_used attempts = int (length (filter IsCompleted attempts))"

record moderation_row =
  mr_UserID :: nat
  mr_AttemptsUsed :: int
  mr_AttemptsLeft :: int
  mr_KeptScore :: "rat option"
  mr_LatestState :: string
  mr_InProgressID :: nat
  mr_InProgressEndAt :: "instant option"
  mr_ExtraAttempts :: int
  mr_ExtraTime :: int
  mr_ManuallyUnlocked :: bool

definition moderation_row_of :: "quiz_store \<Rightarrow> quiz \<Rightarrow> nat \<Rightarrow> moderation_row" where
  "moderation_row_of db q uid =
     (let x = quizExtensionFor db (qz_ID q) uid;
          mine = ListByQuizAndUser db (qz_ID q) uid;
          used = attempts_used mine;
          open = filter in_progress mine
      in \<lparr>mr_UserID = uid, mr_AttemptsUsed = used, mr_AttemptsLeft = AttemptsLeft q x used, mr_KeptScore = KeptScore (qz_ScoringPolicy q) mine,
          mr_LatestState = (case foldl newest None mine of Some l \<Rightarrow> qs_WorkflowState l | None \<Rightarrow> []),
          mr_InProgressID = (if open = [] then 0 else qs_ID (last open)),
          mr_InProgressEndAt = (if open = [] then None else qs_EndAt (last open)),
          mr_ExtraAttempts = qx_ExtraAttempts x, mr_ExtraTime = qx_ExtraTime x, mr_ManuallyUnlocked = qx_ManuallyUnlocked x\<rparr>)"

text \<open>\<open>students\<close> are the active students of the course.\<close>

definition QuizModerationRoster :: "quiz_store \<Rightarrow> quiz \<Rightarrow> nat list \<Rightarrow> moderation_row list" where
  "QuizModerationRoster db q students = map (moderation_row_of db q) students"

record attempt_status =
  at_AttemptsUsed :: int
  at_AllowedAttempts :: int
  at_AttemptsLeft :: int
  at_ExtraTime :: int
  at_ManuallyUnlocked :: bool
  at_KeptScore :: "rat option"
  at_Dates :: dates

definition AttemptStatusFor :: "instant \<Rightarrow> quiz_store \<Rightarrow> quiz \<Rightarrow> nat \<Rightarrow> bool \<Rightarrow> attempt_status" where
  "AttemptStatusFor now db q uid includeScore =
     (let x = quizExtensionFor db (qz_ID q) uid; attempts = ListByQuizAndUser db (qz_ID q) uid; used = attempts_used attempts
      in \<lparr>at_AttemptsUsed = used, at_AllowedAttempts = AttemptsAllowedFor q x, at_AttemptsLeft = AttemptsLeft q x used,
          at_ExtraTime = qx_ExtraTime x, at_ManuallyUnlocked = qx_ManuallyUnlocked x,
          at_KeptScore = (if includeScore then KeptScore (qz_ScoringPolicy q) attempts else None),
          at_Dates = EffectiveQuizDates now db q uid\<rparr>)"

section \<open>Overdue attempts\<close>

definition quizAutoSubmitGrace :: duration where "quizAutoSubmitGrace = minute"

definition auto_submit_one :: "'f attempt_env \<Rightarrow> instant \<Rightarrow> quiz_store \<times> nat \<Rightarrow> quiz_submission \<Rightarrow> quiz_store \<times> nat" where
  "auto_submit_one env now acc s =
     (case (acc, qs_EndAt s) of
        ((db, n), None) \<Rightarrow> (db, n)
      | ((db, n), Some t) \<Rightarrow>
          (case finalizeAttempt env now db s t ''submission_auto_submitted'' of
             (Inl _, db) \<Rightarrow> (db, n)
           | (Inr _, db) \<Rightarrow> (db, Suc n)))"

fun auto_submit_batches :: "'f attempt_env \<Rightarrow> instant \<Rightarrow> nat \<Rightarrow> quiz_store \<Rightarrow> nat \<Rightarrow> nat \<times> quiz_store" where
  "auto_submit_batches env now 0 db count = (count, db)"
| "auto_submit_batches env now (Suc k) db count =
     (case ListOverdueUntaken db (now - quizAutoSubmitGrace) 200 of
        [] \<Rightarrow> (count, db)
      | subs \<Rightarrow>
          (case foldl (auto_submit_one env now) (db, 0) subs of
             (db, progressed) \<Rightarrow>
               (if progressed = 0 then (count, db) else auto_submit_batches env now k db (count + progressed))))"

definition AutoSubmitOverdueAttempts :: "'f attempt_env \<Rightarrow> instant \<Rightarrow> quiz_store \<Rightarrow> nat \<times> quiz_store" where
  "AutoSubmitOverdueAttempts env now db = auto_submit_batches env now 50 db 0"

section \<open>Manual grading\<close>

definition attemptQuestions :: "quiz_store \<Rightarrow> quiz_submission \<Rightarrow> quiz_error + quiz_question list" where
  "attemptQuestions db s =
     (case GetSubmissionQuestions db (qs_ID s) of
        Inl e \<Rightarrow> Inl e
      | Inr qs \<Rightarrow> Inr (filter (\<lambda>q. qn_QuizID q = qs_QuizID s) qs))"

definition question_in :: "quiz_question list \<Rightarrow> nat \<Rightarrow> quiz_question option" where
  "question_in qs i = find (\<lambda>q. qn_ID q = i) (rev qs)"

definition needsManualScore :: "'f attempt_env \<Rightarrow> quiz_question \<Rightarrow> bool" where
  "needsManualScore env q =
     (case autoGradeWithPoints (fe_quiz (ne_Formula env)) (qn_QuestionType q) (qn_Answers q) [] 0 of (_, _, gradable) \<Rightarrow> \<not> gradable)"

definition quizGradeWritable :: "instant \<Rightarrow> quiz_store \<Rightarrow> quiz \<Rightarrow> nat \<Rightarrow> string option" where
  "quizGradeWritable now db q uid =
     (if \<not> IsGraded q then None
      else case linkedAssignment db q of
          None \<Rightarrow> None
        | Some a \<Rightarrow> QuizGradeWritable now (qd_Gradebook db) a uid)"

text \<open>The answer a question is scored from: the first of the attempt.\<close>

definition answer_of :: "quiz_answer list \<Rightarrow> nat \<Rightarrow> quiz_answer option" where
  "answer_of ws i = find (\<lambda>w. qw_QuestionID w = i) ws"

definition score_step :: "'f attempt_env \<Rightarrow> quiz_answer list \<Rightarrow> quiz_question list \<Rightarrow> rat \<times> bool \<Rightarrow> nat \<Rightarrow> rat \<times> bool" where
  "score_step env ws qs acc i =
     (case (acc, question_in qs i, answer_of ws i) of
        ((tally, pending), Some q, Some w) \<Rightarrow>
          ((case qw_Points w of Some p \<Rightarrow> fadd tally p | None \<Rightarrow> tally),
           pending \<or> needsManualScore env q \<and> qw_GradedVia w \<noteq> Some ''manual'')
      | _ \<Rightarrow> acc)"

definition rescoreAttempt :: "'f attempt_env \<Rightarrow> quiz \<Rightarrow> quiz_question list \<Rightarrow> quiz_answer list \<Rightarrow> quiz_submission \<Rightarrow> quiz_submission" where
  "rescoreAttempt env q qs ws s =
     (case foldl (score_step env ws qs) (0, False) (ne_Order env (remdups (map qn_ID qs))) of
        (tally, pending) \<Rightarrow>
          (let tally = roundScore (case qs_FudgePoints s of Some f \<Rightarrow> fadd tally f | None \<Rightarrow> tally);
               tally = (if qz_QuizType q = ''graded_survey'' then (case qz_PointsPossible q of Some p \<Rightarrow> p | None \<Rightarrow> tally) else tally)
           in s\<lparr>qs_Score := Some tally,
                qs_WorkflowState := (if pending \<and> \<not> IsSurvey q then ''pending_review'' else ''complete'')\<rparr>))"

type_synonym score_change = "nat \<times> rat option \<times> string option"

definition graded_answer :: "'f attempt_env \<Rightarrow> quiz_store \<Rightarrow> quiz_question \<Rightarrow> rat option \<Rightarrow> string option \<Rightarrow> quiz_answer \<Rightarrow> quiz_answer" where
  "graded_answer env db q score note w =
     (let w = (case score of
            None \<Rightarrow> w
          | Some v \<Rightarrow>
              (let pts = roundScore v; possible = effectiveQuestionPoints db q
               in w\<lparr>qw_Points := Some pts, qw_Correct := Some (possible > 0 \<and> pts \<ge> possible), qw_GradedVia := Some ''manual''\<rparr>))
      in case note of None \<Rightarrow> w | Some c \<Rightarrow> w\<lparr>qw_Comment := ne_PlainText env c\<rparr>)"

definition apply_change :: "'f attempt_env \<Rightarrow> nat \<Rightarrow> quiz_question list \<Rightarrow> quiz_store \<Rightarrow> score_change \<Rightarrow> quiz_store" where
  "apply_change env sid qs db c =
     (case c of
        (i, score, note) \<Rightarrow>
          (case question_in qs i of
             None \<Rightarrow> db
           | Some q \<Rightarrow>
               (case answer_of (ListBySubmissionID db sid) i of
                  Some w \<Rightarrow> answer_Update db (graded_answer env db q score note w)
                | None \<Rightarrow> (case answer_Create db (new_answer sid i []) of (w, db) \<Rightarrow> answer_Update db (graded_answer env db q score note w)))))"

definition fudged :: "rat option \<Rightarrow> quiz_submission \<Rightarrow> quiz_submission" where
  "fudged f s =
     (case f of None \<Rightarrow> s | Some v \<Rightarrow> s\<lparr>qs_FudgePoints := (let v = roundScore v in if v = 0 then None else Some v)\<rparr>)"

definition UpdateQuizScores ::
  "'f attempt_env \<Rightarrow> instant \<Rightarrow> quiz_store \<Rightarrow> quiz \<Rightarrow> quiz_submission \<Rightarrow> rat option \<Rightarrow> score_change list \<Rightarrow> nat \<Rightarrow>
     (quiz_error + quiz_submission) \<times> quiz_store" where
  "UpdateQuizScores env now db q s fudge changes grader =
     (if \<not> IsCompleted s then (Inl AttemptNotFinished, db)
      else case quizGradeWritable now db q (qs_UserID s) of
          Some t \<Rightarrow> (Inl (QuizPeriodClosed t), db)
        | None \<Rightarrow>
            (case attemptQuestions db s of
               Inl e \<Rightarrow> (Inl e, db)
             | Inr qs \<Rightarrow>
                 (if \<not> list_all (\<lambda>c. question_in qs (fst c) \<noteq> None) changes then (Inl QuestionNotInSubmission, db)
                  else let db1 = foldl (apply_change env (qs_ID s) qs) db changes;
                           s' = rescoreAttempt env q qs (ListBySubmissionID db1 (qs_ID s)) (fudged fudge s);
                           db2 = recordQuizEvent (attempt_Update db1 s') s' ''manually_graded''
                       in (Inr s', refreshKeptScore (ne_Sub env) now db2 q (qs_UserID s) grader))))"

section \<open>Regrading a question\<close>

text \<open>The run is returned as its two counts; its row in \<open>quiz_question_regrades\<close> is left out.\<close>

definition validRegradeOptions :: "string list" where
  "validRegradeOptions = [''current_correct_only'', ''current_and_previous_correct'', ''full_credit'', ''no_regrade'']"

definition answer_points :: "quiz_answer option \<Rightarrow> rat option" where
  "answer_points ans = Option.bind ans qw_Points"

text \<open>The points and the mark a regrade gives one attempt; \<open>None\<close> leaves the attempt alone.\<close>

definition regraded_points :: "'f attempt_env \<Rightarrow> quiz_question \<Rightarrow> string \<Rightarrow> rat \<Rightarrow> quiz_answer option \<Rightarrow> (rat \<times> bool) option" where
  "regraded_points env q choice possible ans =
     (if choice = ''full_credit'' then Some (possible, True)
      else if needsManualScore env q \<or> Option.bind ans qw_GradedVia = Some ''manual'' then None
      else case autoGradeWithPoints (fe_quiz (ne_Formula env)) (qn_QuestionType q) (qn_Answers q)
                  (case ans of Some w \<Rightarrow> qw_Answer w | None \<Rightarrow> []) possible of
          (pts, ok, gradable) \<Rightarrow>
            (let old = given_or (answer_points ans) 0
             in if \<not> gradable then None
                else if choice = ''current_and_previous_correct'' \<and> old > pts
                then Some (old, Option.bind ans qw_Correct = Some True) else Some (pts, ok)))"

definition regrade_via :: "'f attempt_env \<Rightarrow> quiz_question \<Rightarrow> quiz_answer \<Rightarrow> string" where
  "regrade_via env q w = (if needsManualScore env q \<or> qw_GradedVia w = Some ''manual'' then ''manual'' else ''auto'')"

definition rescoreFromStore :: "'f attempt_env \<Rightarrow> quiz_store \<Rightarrow> quiz \<Rightarrow> quiz_submission \<Rightarrow> quiz_error + quiz_submission" where
  "rescoreFromStore env db q s =
     (case attemptQuestions db s of
        Inl e \<Rightarrow> Inl e
      | Inr qs \<Rightarrow> Inr (rescoreAttempt env q qs (ListBySubmissionID db (qs_ID s)) s))"

record regrade_run =
  rr_Store :: quiz_store
  rr_Regraded :: nat
  rr_Changed :: nat
  rr_Users :: "nat list"

definition write_regrade ::
  "'f attempt_env \<Rightarrow> quiz \<Rightarrow> quiz_question \<Rightarrow> quiz_submission \<Rightarrow> quiz_answer option \<Rightarrow> rat \<Rightarrow> bool \<Rightarrow> regrade_run \<Rightarrow>
     quiz_error option \<times> regrade_run" where
  "write_regrade env quiz q s ans pts correct acc =
     (case (case ans of Some w \<Rightarrow> (w, rr_Store acc) | None \<Rightarrow> answer_Create (rr_Store acc) (new_answer (qs_ID s) (qn_ID q) [])) of
        (w, db) \<Rightarrow>
          (let db = answer_Update db (w\<lparr>qw_Points := Some pts, qw_Correct := Some correct, qw_GradedVia := Some (regrade_via env q w)\<rparr>);
               s = (if qs_ScoreBeforeRegrade s = None then s\<lparr>qs_ScoreBeforeRegrade := Some (score_or_0 s)\<rparr> else s)
           in case rescoreFromStore env db quiz s of
                Inl e \<Rightarrow> (Some e, acc\<lparr>rr_Store := db\<rparr>)
              | Inr s \<Rightarrow>
                  (None, acc\<lparr>rr_Store := recordQuizEvent (attempt_Update db s) s ''regraded'', rr_Changed := Suc (rr_Changed acc),
                           rr_Users := List.insert (qs_UserID s) (rr_Users acc)\<rparr>)))"

fun regrade_loop ::
  "'f attempt_env \<Rightarrow> quiz \<Rightarrow> quiz_question \<Rightarrow> string \<Rightarrow> rat \<Rightarrow> quiz_submission list \<Rightarrow> regrade_run \<Rightarrow> quiz_error option \<times> regrade_run" where
  "regrade_loop env quiz q choice possible [] acc = (None, acc)"
| "regrade_loop env quiz q choice possible (s # ss) acc =
     (if \<not> belongs s q then regrade_loop env quiz q choice possible ss acc
      else let acc = acc\<lparr>rr_Regraded := Suc (rr_Regraded acc)\<rparr>;
               ans = FindBySubmissionAndQuestion (rr_Store acc) (qs_ID s) (qn_ID q)
           in case regraded_points env q choice possible ans of
                None \<Rightarrow> regrade_loop env quiz q choice possible ss acc
              | Some (pts, correct) \<Rightarrow>
                  (let pts = roundScore pts
                   in if answer_points ans = Some pts then regrade_loop env quiz q choice possible ss acc
                      else case write_regrade env quiz q s ans pts correct acc of
                          (Some e, acc) \<Rightarrow> (Some e, acc)
                        | (None, acc) \<Rightarrow> regrade_loop env quiz q choice possible ss acc))"

definition RegradeQuizQuestion ::
  "'f attempt_env \<Rightarrow> instant \<Rightarrow> quiz_store \<Rightarrow> quiz \<Rightarrow> quiz_question \<Rightarrow> string \<Rightarrow> (quiz_error + nat \<times> nat) \<times> quiz_store" where
  "RegradeQuizQuestion env now db quiz q choice =
     (if choice \<notin> set validRegradeOptions then (Inl InvalidRegradeOption, db)
      else if qn_QuizID q \<noteq> qz_ID quiz then (Inl QuestionNotInSubmission, db)
      else if choice = ''no_regrade'' then (Inr (0, 0), db)
      else case regrade_loop env quiz q choice (effectiveQuestionPoints db q) (ListCompletedByQuizID db (qz_ID quiz))
                  \<lparr>rr_Store = db, rr_Regraded = 0, rr_Changed = 0, rr_Users = []\<rparr> of
          (Some e, acc) \<Rightarrow> (Inl e, rr_Store acc)
        | (None, acc) \<Rightarrow>
            (Inr (rr_Regraded acc, rr_Changed acc),
             foldl (\<lambda>db uid. refreshKeptScore (ne_Sub env) now db quiz uid 0) (rr_Store acc) (ne_Order env (rr_Users acc))))"

section \<open>What a student may see\<close>

record results_view =
  rv_Score :: bool
  rv_Results :: bool
  rv_AnswerKey :: bool

definition view_of :: "bool \<Rightarrow> bool \<Rightarrow> bool \<Rightarrow> results_view" where
  "view_of score results key = \<lparr>rv_Score = score, rv_Results = results, rv_AnswerKey = key\<rparr>"

definition OneTimeResultsWindow :: duration where "OneTimeResultsWindow = 15 * minute"

definition key_released :: "quiz \<Rightarrow> int \<Rightarrow> instant \<Rightarrow> bool" where
  "key_released q attemptsLeft now =
     (if \<not> qz_ShowCorrectAnswers q then False
      else if qz_ShowCorrectAnswersLastAttempt q then attemptsLeft = 0
      else if qz_OneTimeResults q then True
      else if (case qz_HideCorrectAnswersAt q of Some t \<Rightarrow> now > t | None \<Rightarrow> False) then False
      else if (case qz_ShowCorrectAnswersAt q of Some t \<Rightarrow> \<not> now > t | None \<Rightarrow> False) then False else True)"

definition QuizResultsPolicy :: "quiz \<Rightarrow> quiz_submission \<Rightarrow> int \<Rightarrow> bool \<Rightarrow> instant \<Rightarrow> results_view" where
  "QuizResultsPolicy q s attemptsLeft isPosted now =
     (if \<not> IsCompleted s \<or> \<not> isPosted then view_of False False False
      else if qz_HideResults q = ''always'' then view_of True False False
      else if qz_HideResults q = ''until_after_last_attempt'' \<and> attemptsLeft \<noteq> 0 then view_of True False False
      else if qz_OneTimeResults q \<and> (case qs_ResultsSeenAt s of Some t \<Rightarrow> now > t + OneTimeResultsWindow | None \<Rightarrow> False)
      then view_of True False False
      else view_of True True (key_released q attemptsLeft now))"

definition StudentResultsView :: "quiz_store \<Rightarrow> quiz \<Rightarrow> quiz_submission \<Rightarrow> instant \<Rightarrow> results_view" where
  "StudentResultsView db q s now =
     (let x = quizExtensionFor db (qz_ID q) (qs_UserID s);
          used = attempts_used (ListByQuizAndUser db (qz_ID q) (qs_UserID s));
          isPosted = (case linkedAssignment db q of Some a \<Rightarrow> QuizScorePosted (qd_Gradebook db) a (qs_UserID s) | None \<Rightarrow> True)
      in QuizResultsPolicy q s (AttemptsLeft q x used) isPosted now)"

definition MarkResultsSeen :: "quiz_store \<Rightarrow> quiz \<Rightarrow> quiz_submission \<Rightarrow> instant \<Rightarrow> quiz_store" where
  "MarkResultsSeen db q s now =
     (if \<not> qz_OneTimeResults q \<or> qs_ResultsSeenAt s \<noteq> None \<or> \<not> IsCompleted s then db else MarkResultsSeen_row db (qs_ID s) now)"

end
