(* ===== verification/Quiz_Steps.thy ===== *)
theory Quiz_Steps imports Quiz_Moderation Row_Writers Tables "HOL-Library.Sublist" begin

text \<open>
  The quiz engine as a transition system. Attempts and answers are tables that grow: an attempt keeps
  its identity, a finished one stays finished, and the text of its answers is not written again. The
  rows of the gradebook stay consistent through every operation of the engine.
\<close>

section \<open>Later versions of a row\<close>

definition attempt_id :: "quiz_submission \<Rightarrow> nat \<times> nat \<times> nat \<times> int \<times> instant option \<times> nat list option" where
  "attempt_id s = (qs_ID s, qs_QuizID s, qs_UserID s, qs_Attempt s, qs_StartedAt s, qs_SelectedQuestions s)"

definition finish_of :: "quiz_submission \<Rightarrow> instant option \<times> instant option \<times> int" where
  "finish_of s = (qs_FinishedAt s, qs_EndAt s, qs_TimeSpent s)"

text \<open>A row is in progress and has no result, or it is turned in and has one.\<close>

definition attempt_ok :: "quiz_submission \<Rightarrow> bool" where
  "attempt_ok s =
     (in_progress s \<and> qs_FinishedAt s = None \<and> qs_Score s = None \<and> qs_KeptScore s = None \<or>
      IsCompleted s \<and> qs_FinishedAt s \<noteq> None \<and> qs_Score s \<noteq> None \<and> qs_KeptScore s \<noteq> None)"

text \<open>An attempt in progress changes, or is turned in, only when it is one of \<open>free\<close>.\<close>

definition later_attempt :: "nat set \<Rightarrow> quiz_submission \<Rightarrow> quiz_submission \<Rightarrow> bool" where
  "later_attempt free r s =
     (attempt_id s = attempt_id r \<and> (attempt_ok r \<longrightarrow> attempt_ok s) \<and>
      (in_progress s \<longrightarrow> in_progress r) \<and> (in_progress r \<longrightarrow> qs_ID r \<notin> free \<longrightarrow> s = r) \<and>
      (IsCompleted r \<longrightarrow> IsCompleted s \<and> finish_of s = finish_of r))"

definition answer_key :: "quiz_answer \<Rightarrow> nat \<times> nat \<times> nat" where
  "answer_key w = (qw_ID w, qw_QuizSubmissionID w, qw_QuestionID w)"

text \<open>The text of an answer may change for the attempts of \<open>free\<close> only.\<close>

definition later_answer :: "nat set \<Rightarrow> quiz_answer \<Rightarrow> quiz_answer \<Rightarrow> bool" where
  "later_answer free w v = (answer_key v = answer_key w \<and> (qw_QuizSubmissionID w \<notin> free \<longrightarrow> qw_Answer v = qw_Answer w))"

definition blank_unless :: "nat set \<Rightarrow> quiz_answer \<Rightarrow> bool" where
  "blank_unless free w = (qw_QuizSubmissionID w \<notin> free \<longrightarrow> qw_Answer w = [])"

lemma later_attempt_mono: "later_attempt free r s \<Longrightarrow> free \<subseteq> free' \<Longrightarrow> later_attempt free' r s"
  by (auto simp: later_attempt_def)

lemma later_attempt_same: "later_attempt free r s \<Longrightarrow> in_progress r \<Longrightarrow> qs_ID r \<notin> free \<Longrightarrow> s = r"
  unfolding later_attempt_def by blast

lemma later_attempt_id: "later_attempt free r s \<Longrightarrow> qs_ID s = qs_ID r"
  by (simp add: later_attempt_def attempt_id_def)

lemma later_attempt_trans:
  assumes "later_attempt free r s" "later_attempt free s t" shows "later_attempt free r t"
proof (cases "in_progress r \<and> qs_ID r \<notin> free")
  case True
  then show ?thesis using later_attempt_same[OF assms(1)] assms(2) by blast
next
  case False
  have "attempt_id t = attempt_id r" using assms unfolding later_attempt_def by (elim conjE) (rule trans)
  moreover have "attempt_ok r \<longrightarrow> attempt_ok t" "in_progress t \<longrightarrow> in_progress r" "IsCompleted r \<longrightarrow> IsCompleted t"
    using assms unfolding later_attempt_def by blast+
  moreover have "IsCompleted r \<longrightarrow> finish_of t = finish_of r" using assms unfolding later_attempt_def by (metis (no_types))
  ultimately show ?thesis using False unfolding later_attempt_def by blast
qed

lemma later_attempt_refl: "later_attempt free r r"
  unfolding later_attempt_def by blast

interpretation attempts: row_versions qs_ID "later_attempt free" for free
  by unfold_locales (rule later_attempt_refl, rule later_attempt_trans, assumption+, rule later_attempt_id)

interpretation answers: row_versions qw_ID "later_answer free" for free
  by unfold_locales (auto simp: later_answer_def answer_key_def)

lemma not_both [simp]: "in_progress s \<Longrightarrow> \<not> IsCompleted s"
  by (simp add: in_progress_def IsCompleted_def)

section \<open>Consistent stores\<close>

definition seat :: "quiz_submission \<Rightarrow> nat \<times> nat" where
  "seat s = (qs_QuizID s, qs_UserID s)"

definition attempts_ok :: "quiz_submission list \<Rightarrow> nat \<Rightarrow> bool" where
  "attempts_ok xs n =
     (distinct (map qs_ID xs) \<and> distinct (map seat (filter in_progress xs)) \<and> (\<forall>s \<in> set xs. 0 < qs_ID s \<and> qs_ID s < n \<and> attempt_ok s))"

definition answers_ok :: "quiz_answer list \<Rightarrow> nat \<Rightarrow> bool" where
  "answers_ok ws n = (distinct (map qw_ID ws) \<and> (\<forall>w \<in> set ws. qw_ID w < n))"

definition quiz_ok :: "quiz_store \<Rightarrow> bool" where
  "quiz_ok db =
     (0 < qd_NextID db \<and> attempts_ok (qd_Subs db) (qd_NextID db) \<and> answers_ok (qd_Answers db) (qd_NextID db) \<and>
      store_ok False (qd_Gradebook db))"

definition answers_grown :: "nat set \<Rightarrow> quiz_answer list \<Rightarrow> quiz_answer list \<Rightarrow> bool" where
  "answers_grown free xs ys = (grown (later_answer free) xs ys \<and> (\<forall>w \<in> set (drop (length xs) ys). blank_unless free w))"

text \<open>What an operation does to a consistent store, apart from starting an attempt.\<close>

definition moves_to :: "nat set \<Rightarrow> quiz_store \<Rightarrow> quiz_store \<Rightarrow> bool" where
  "moves_to free db db' =
     (quiz_ok db \<longrightarrow>
        quiz_ok db' \<and> list_all2 (later_attempt free) (qd_Subs db) (qd_Subs db') \<and> answers_grown free (qd_Answers db) (qd_Answers db') \<and>
        qd_NextID db \<le> qd_NextID db')"

lemma answers_grown_refl [simp]: "answers_grown free xs xs"
  by (simp add: answers_grown_def answers.grown_refl)

lemma answers_grown_trans:
  assumes "answers_grown free xs ys" "answers_grown free ys zs" shows "answers_grown free xs zs"
proof -
  have "blank_unless free w" if w: "w \<in> set (drop (length xs) zs)" for w
  proof -
    obtain i where i: "w = zs ! (length xs + i)" "length xs + i < length zs"
      using w by (auto simp: in_set_conv_nth)
    show ?thesis
    proof (cases "length xs + i < length ys")
      case True
      then have "ys ! (length xs + i) \<in> set (drop (length xs) ys)" by (auto simp: in_set_conv_nth intro!: exI[of _ i])
      moreover have "later_answer free (ys ! (length xs + i)) w"
        using assms(2) True i by (auto simp: answers_grown_def grown_def list_all2_conv_all_nth)
      ultimately show ?thesis using assms(1) by (auto simp: answers_grown_def later_answer_def blank_unless_def answer_key_def)
    next
      case False
      then have "w \<in> set (drop (length ys) zs)"
        using i by (auto simp: in_set_conv_nth intro!: exI[of _ "length xs + i - length ys"])
      then show ?thesis using assms(2) by (auto simp: answers_grown_def)
    qed
  qed
  then show ?thesis using assms answers.grown_trans by (auto simp: answers_grown_def)
qed

lemma later_attempts_refl [simp]: "list_all2 (later_attempt free) xs xs"
  by (simp add: list_all2_refl attempts.becomes_refl)

lemma later_attempts_trans: "list_all2 (later_attempt free) xs ys \<Longrightarrow> list_all2 (later_attempt free) ys zs \<Longrightarrow> list_all2 (later_attempt free) xs zs"
  by (rule list_all2_trans[of "later_attempt free"]) (rule attempts.becomes_trans)

lemma moves_refl [simp, intro]: "moves_to free db db"
  by (simp add: moves_to_def)

lemma moves_trans [trans]: "moves_to free db db1 \<Longrightarrow> moves_to free db1 db2 \<Longrightarrow> moves_to free db db2"
  by (auto simp: moves_to_def intro: later_attempts_trans answers_grown_trans)

lemma moves_ok: "moves_to free db db' \<Longrightarrow> quiz_ok db \<Longrightarrow> quiz_ok db'"
  by (simp add: moves_to_def)

lemma moves_weaken: "moves_to free db db' \<Longrightarrow> free \<subseteq> free' \<Longrightarrow> moves_to free' db db'"
proof -
  assume M: "moves_to free db db'" and sub: "free \<subseteq> free'"
  have "later_answer free w v \<Longrightarrow> later_answer free' w v" for w v using sub by (auto simp: later_answer_def)
  then have "answers_grown free xs ys \<Longrightarrow> answers_grown free' xs ys" for xs ys
    using sub by (auto simp: answers_grown_def grown_def blank_unless_def elim: list.rel_mono_strong)
  with M show ?thesis using later_attempt_mono[OF _ sub] by (auto simp: moves_to_def elim: list.rel_mono_strong)
qed

lemma moves_foldl: "(\<And>db x. x \<in> set xs \<Longrightarrow> moves_to free db (f db x)) \<Longrightarrow> moves_to free db (foldl f db xs)"
proof (induction xs arbitrary: db)
  case (Cons x xs)
  then show ?case using moves_trans[of free db "f db x"] by simp
qed simp

lemma subseq_distinct: "subseq xs ys \<Longrightarrow> distinct ys \<Longrightarrow> distinct xs"
  by (induction rule: list_emb.induct) (auto dest: list_emb_set)

lemma list_all2_origin: "list_all2 P xs ys \<Longrightarrow> y \<in> set ys \<Longrightarrow> \<exists>x \<in> set xs. P x y"
  by (induction rule: list_all2_induct) auto

lemma list_all2_image: "list_all2 P xs ys \<Longrightarrow> x \<in> set xs \<Longrightarrow> \<exists>y \<in> set ys. P x y"
  by (induction rule: list_all2_induct) auto

lemma later_attempts_keep:
  assumes "list_all2 (later_attempt free) xs ys"
  shows "map attempt_id ys = map attempt_id xs" "subseq (map seat (filter in_progress ys)) (map seat (filter in_progress xs))"
  using assms by (induction rule: list_all2_induct) (auto simp: later_attempt_def attempt_id_def seat_def)

lemma attempts_ok_later:
  assumes "attempts_ok xs n" "list_all2 (later_attempt free) xs ys" "n \<le> m" shows "attempts_ok ys m"
proof -
  have ids: "map qs_ID ys = map qs_ID xs"
    using later_attempts_keep(1)[OF assms(2)] by (metis (no_types, lifting) attempt_id_def comp_def fst_conv list.map_comp map_cong)
  have "0 < qs_ID s \<and> qs_ID s < m \<and> attempt_ok s" if s: "s \<in> set ys" for s
  proof -
    obtain r where "r \<in> set xs" "later_attempt free r s"
      using list_all2_origin[OF assms(2) s] by blast
    then show ?thesis using assms(1,3) by (auto simp: attempts_ok_def later_attempt_def attempt_id_def)
  qed
  moreover have "distinct (map seat (filter in_progress ys))"
    using later_attempts_keep(2)[OF assms(2)] assms(1) subseq_distinct by (auto simp: attempts_ok_def)
  ultimately show ?thesis using assms(1) ids by (simp add: attempts_ok_def)
qed

lemma moves_rows:
  assumes "quiz_ok db \<Longrightarrow> list_all2 (later_attempt free) (qd_Subs db) (qd_Subs db')" "qd_Answers db' = qd_Answers db" "qd_NextID db' = qd_NextID db"
    "store_ok False (qd_Gradebook db) \<Longrightarrow> store_ok False (qd_Gradebook db')"
  shows "moves_to free db db'"
  using assms attempts_ok_later by (fastforce simp: moves_to_def quiz_ok_def)

text \<open>Operations on the other tables.\<close>

lemma moves_aside:
  assumes "qd_Subs db' = qd_Subs db" "qd_Answers db' = qd_Answers db" "qd_NextID db \<le> qd_NextID db'"
    "store_ok False (qd_Gradebook db) \<Longrightarrow> store_ok False (qd_Gradebook db')"
  shows "moves_to free db db'"
  using assms by (auto simp: moves_to_def quiz_ok_def attempts_ok_def answers_ok_def)

section \<open>Writes to the tables\<close>

lemma quiz_ok_parts:
  "quiz_ok db \<Longrightarrow> distinct (map qs_ID (qd_Subs db))" "quiz_ok db \<Longrightarrow> distinct (map qw_ID (qd_Answers db))"
  "quiz_ok db \<Longrightarrow> store_ok False (qd_Gradebook db)" "quiz_ok db \<Longrightarrow> s \<in> set (qd_Subs db) \<Longrightarrow> attempt_ok s \<and> 0 < qs_ID s"
  by (auto simp: quiz_ok_def attempts_ok_def answers_ok_def)

lemma same_id_row: "quiz_ok db \<Longrightarrow> r \<in> set (qd_Subs db) \<Longrightarrow> s \<in> set (qd_Subs db) \<Longrightarrow> qs_ID r = qs_ID s \<Longrightarrow> r = s"
  by (auto simp: quiz_ok_def attempts_ok_def distinct_map dest: inj_onD)

lemma moves_map:
  assumes "\<And>r. quiz_ok db \<Longrightarrow> r \<in> set (qd_Subs db) \<Longrightarrow> later_attempt free r (f r)" "db' = db\<lparr>qd_Subs := map f (qd_Subs db)\<rparr>"
  shows "moves_to free db db'"
  by (rule moves_rows) (use assms in \<open>auto simp: list_all2_conv_all_nth\<close>)

lemma moves_attempt_Update:
  assumes "r \<in> set (qd_Subs db)" "later_attempt free r s" shows "moves_to free db (attempt_Update db s)"
proof (rule moves_map[OF _ attempt_Update_def])
  fix x assume x: "quiz_ok db" "x \<in> set (qd_Subs db)"
  have "qs_ID s = qs_ID r" using assms(2) by (rule attempts.becomes_ident)
  then show "later_attempt free x (if qs_ID x = qs_ID s then s else x)"
    using same_id_row[OF x(1,2) assms(1)] assms(2) by (auto intro: attempts.becomes_refl)
qed

lemma moves_update_in_progress:
  assumes "\<And>r. r \<in> set (qd_Subs db) \<Longrightarrow> qs_ID r = i \<Longrightarrow> in_progress r \<Longrightarrow> attempt_ok r \<Longrightarrow> later_attempt free r (f r)"
  shows "moves_to free db (snd (update_in_progress db i f))"
proof (cases "list_ex (\<lambda>r. qs_ID r = i \<and> in_progress r) (qd_Subs db)")
  case True
  show ?thesis
    by (rule moves_map[where f = "\<lambda>r. if qs_ID r = i \<and> in_progress r then f r else r"])
       (use True in \<open>auto simp: update_in_progress_def intro: assms attempts.becomes_refl dest: quiz_ok_parts(4)\<close>)
qed (simp add: update_in_progress_def)

definition open_attempts :: "quiz_store \<Rightarrow> nat set" where
  "open_attempts db = qs_ID ` {s \<in> set (qd_Subs db). in_progress s}"

lemma later_edit:
  assumes "in_progress r" "in_progress s" "qs_ID r \<in> free" "attempt_id s = attempt_id r" "attempt_ok r \<Longrightarrow> attempt_ok s"
  shows "later_attempt free r s"
  using assms by (auto simp: later_attempt_def)

lemma edited [simp]:
  "in_progress (r\<lparr>qs_EndAt := t\<rparr>) = in_progress r" "attempt_id (r\<lparr>qs_EndAt := t\<rparr>) = attempt_id r"
  "attempt_ok (r\<lparr>qs_EndAt := t\<rparr>) = attempt_ok r" "in_progress (r\<lparr>qs_ReadQuestions := l\<rparr>) = in_progress r"
  "attempt_id (r\<lparr>qs_ReadQuestions := l\<rparr>) = attempt_id r" "attempt_ok (r\<lparr>qs_ReadQuestions := l\<rparr>) = attempt_ok r"
  "in_progress (r\<lparr>qs_ResultsSeenAt := t\<rparr>) = in_progress r" "IsCompleted (r\<lparr>qs_ResultsSeenAt := t\<rparr>) = IsCompleted r"
  "attempt_id (r\<lparr>qs_ResultsSeenAt := t\<rparr>) = attempt_id r" "attempt_ok (r\<lparr>qs_ResultsSeenAt := t\<rparr>) = attempt_ok r"
  "finish_of (r\<lparr>qs_ResultsSeenAt := t\<rparr>) = finish_of r"
  by (simp_all add: in_progress_def attempt_id_def attempt_ok_def IsCompleted_def finish_of_def)

lemma in_open_attempts: "r \<in> set (qd_Subs db) \<Longrightarrow> in_progress r \<Longrightarrow> qs_ID r \<in> open_attempts db"
  by (simp add: open_attempts_def)

lemma moves_SetEndAt: "moves_to (open_attempts db) db (snd (SetEndAtIfInProgress db i t))"
  unfolding SetEndAtIfInProgress_def by (rule moves_update_in_progress) (auto intro: later_edit in_open_attempts)

lemma moves_AppendRead: "moves_to (open_attempts db) db (snd (AppendReadQuestionIfInProgress db i q))"
  unfolding AppendReadQuestionIfInProgress_def
  by (rule moves_update_in_progress) (auto intro: later_edit in_open_attempts attempts.becomes_refl)

lemma moves_Finalize:
  assumes "IsCompleted s" "qs_FinishedAt s \<noteq> None" "qs_Score s \<noteq> None" "qs_KeptScore s \<noteq> None"
  shows "moves_to (open_attempts db \<inter> {qs_ID s}) db (snd (FinalizeIfInProgress db s))"
  unfolding FinalizeIfInProgress_def
proof (rule moves_update_in_progress)
  fix r assume "r \<in> set (qd_Subs db)" "qs_ID r = qs_ID s" "in_progress r" "attempt_ok r"
  then show "later_attempt (open_attempts db \<inter> {qs_ID s}) r (r\<lparr>qs_FinishedAt := qs_FinishedAt s, qs_Score := qs_Score s,
      qs_KeptScore := qs_KeptScore s, qs_TimeSpent := qs_TimeSpent s, qs_WorkflowState := qs_WorkflowState s\<rparr>)"
    using assms in_open_attempts[of r db] by (auto simp: later_attempt_def attempt_id_def attempt_ok_def in_progress_def IsCompleted_def)
qed

lemma moves_seen: "moves_to (open_attempts db) db (MarkResultsSeen_row db i t)"
proof (rule moves_map[OF _ MarkResultsSeen_row_def])
  fix r assume "r \<in> set (qd_Subs db)"
  then show "later_attempt (open_attempts db) r (if qs_ID r = i \<and> qs_ResultsSeenAt r = None then r\<lparr>qs_ResultsSeenAt := Some t\<rparr> else r)"
    using in_open_attempts[of r db] by (auto simp: later_attempt_def)
qed

lemma moves_event [simp]: "moves_to free db (recordQuizEvent db s e)" "moves_to free db (fireOnCompleted db i)"
  "moves_to free db (quiz_Update db q)" "moves_to free db (extension_Upsert db x)" "moves_to free db (db\<lparr>qd_Events := es\<rparr>)"
  by (rule moves_aside; simp add: recordQuizEvent_def fireOnCompleted_def quiz_Update_def extension_Upsert_def Let_def)+

lemma moves_gradebook: "(store_ok False (qd_Gradebook db) \<Longrightarrow> store_ok False gb) \<Longrightarrow> moves_to free db (db\<lparr>qd_Gradebook := gb\<rparr>)"
  by (rule moves_aside) simp_all

lemma moves_answer_Update:
  assumes "v \<in> set (qd_Answers db)" "later_answer free v w" shows "moves_to free db (answer_Update db w)"
proof -
  let ?put = "map (\<lambda>r. if qw_ID r = qw_ID w then w else r)"
  have grown: "grown (later_answer free) (qd_Answers db) (?put (qd_Answers db))" if "quiz_ok db"
  proof (rule answers.grown_put)
    fix x assume x: "x \<in> set (qd_Answers db)" "qw_ID x = qw_ID w"
    have "qw_ID v = qw_ID w" using answers.becomes_ident[OF assms(2)] by simp
    then have "x = v" using x assms(1) quiz_ok_parts(2)[OF that] by (auto simp: distinct_map inj_on_def)
    then show "later_answer free x w" using assms(2) by simp
  qed
  have "qw_ID w = qw_ID v" using answers.becomes_ident[OF assms(2)] .
  then have "answers_ok (?put (qd_Answers db)) (qd_NextID db)" if "quiz_ok db"
    using that assms(1) by (auto simp: quiz_ok_def answers_ok_def o_def if_distrib cong: if_cong map_cong)
  with grown show ?thesis
    by (auto simp: moves_to_def answer_Update_def quiz_ok_def answers_grown_def)
qed

lemma moves_answer_Create:
  assumes "blank_unless free w" shows "moves_to free db (snd (answer_Create db w))"
proof -
  have "blank_unless free (w\<lparr>qw_ID := i\<rparr>)" for i using assms by (simp add: blank_unless_def)
  then show ?thesis
    by (auto simp: moves_to_def answer_Create_def Let_def quiz_ok_def attempts_ok_def answers_ok_def answers_grown_def answers.grown_new)
qed

lemma store_ok_tables: "store_ok False db \<Longrightarrow> sx_NextID db \<le> n \<Longrightarrow> store_ok False ((with_tables db xs ys)\<lparr>sx_NextID := n\<rparr>)"
  by (auto simp: store_ok_def with_tables_def list_all_iff)

lemma moves_assignment [simp]:
  "moves_to free db (snd (assignment_Create db q a))" "moves_to free db (assignment_Update db q a)" "moves_to free db (assignment_Delete db i)"
proof -
  let ?gb = "qd_Gradebook db"
  have same: "with_tables ?gb xs ys = (with_tables ?gb xs ys)\<lparr>sx_NextID := sx_NextID ?gb\<rparr>" for xs ys
    by (simp add: with_tables_def)
  show "moves_to free db (snd (assignment_Create db q a))"
    by (rule moves_aside) (auto simp: assignment_Create_def Let_def with_tables_def store_ok_def list_all_iff)
  show "moves_to free db (assignment_Update db q a)" "moves_to free db (assignment_Delete db i)"
    by (rule moves_aside; simp add: assignment_Update_def assignment_Delete_def Let_def; subst same; auto intro: store_ok_tables)+
qed

section \<open>The kept score\<close>

lemma foldl_newest:
  "foldl newest acc xs = Some l \<Longrightarrow> l \<in> set xs \<or> acc = Some l"
  by (induction xs arbitrary: acc) (fastforce simp: newest_def split: option.splits if_splits)+

lemma latest_finished_Some: "latest_finished xs = Some l \<Longrightarrow> l \<in> set xs \<and> IsCompleted l"
  unfolding latest_finished_def by (drule foldl_newest) auto

lemma set_ListByQuizAndUser: "set (ListByQuizAndUser db q u) = {s \<in> set (qd_Subs db). qs_QuizID s = q \<and> qs_UserID s = u}"
  by (auto simp: ListByQuizAndUser_def attempts_of_def)

definition good_push :: "pusher \<Rightarrow> bool" where
  "good_push push = (\<forall>free db q l kept grader. l \<in> set (qd_Subs db) \<longrightarrow> IsCompleted l \<longrightarrow> moves_to free db (push db q l kept grader))"

lemma put_in_table: "r \<in> set (qd_Subs db) \<Longrightarrow> qs_ID l = qs_ID r \<Longrightarrow> l \<in> set (qd_Subs (attempt_Update db l))"
  by (force simp: attempt_Update_def)

lemma later_kept: "later_attempt free l (l\<lparr>qs_KeptScore := Some k\<rparr>)" if "IsCompleted l" for k
  using that by (auto simp: later_attempt_def attempt_id_def attempt_ok_def in_progress_def IsCompleted_def finish_of_def)

lemma later_linked: "later_attempt free l (l\<lparr>qs_SubmissionID := k\<rparr>)" if "IsCompleted l"
  using that by (auto simp: later_attempt_def attempt_id_def attempt_ok_def in_progress_def IsCompleted_def finish_of_def)

lemma moves_refresh_with:
  assumes "good_push push" shows "moves_to free db (refresh_with push db q uid grader)"
proof (cases "latest_finished (ListByQuizAndUser db (qz_ID q) uid)")
  case (Some l)
  then have l: "l \<in> set (qd_Subs db)" "IsCompleted l"
    using latest_finished_Some set_ListByQuizAndUser by blast+
  have "moves_to free db (push (attempt_Update db (l\<lparr>qs_KeptScore := Some k\<rparr>)) q (l\<lparr>qs_KeptScore := Some k\<rparr>) k grader)" for k
  proof -
    let ?l = "l\<lparr>qs_KeptScore := Some k\<rparr>"
    have "?l \<in> set (qd_Subs (attempt_Update db ?l))" by (rule put_in_table[OF l(1)]) simp
    moreover have "IsCompleted ?l" using l(2) by (simp add: IsCompleted_def)
    ultimately have "moves_to free (attempt_Update db ?l) (push (attempt_Update db ?l) q ?l k grader)"
      using assms by (simp add: good_push_def)
    with moves_attempt_Update[OF l(1) later_kept[OF l(2)]] show ?thesis by (rule moves_trans)
  qed
  then show ?thesis using assms l Some by (auto simp: refresh_with_def Let_def good_push_def split: option.split)
qed (simp add: refresh_with_def Let_def split: option.split)

lemma moves_push_to:
  assumes "l \<in> set (qd_Subs db)" "IsCompleted l" shows "moves_to free db (push_to env now a db l kept grader)"
proof -
  obtain res gb where R: "RecordQuizScore env now (qd_Enrolled db) (qd_Gradebook db) a (score_record now l kept grader) = (res, gb)"
    by fastforce
  have gb: "moves_to free db (db\<lparr>qd_Gradebook := gb\<rparr>)"
    by (rule moves_gradebook) (metis R RecordQuizScore_ok snd_conv)
  have "moves_to free db (attempt_Update (db\<lparr>qd_Gradebook := gb\<rparr>) (l\<lparr>qs_SubmissionID := k\<rparr>))" for k
    using assms by (intro moves_trans[OF gb] moves_attempt_Update[OF _ later_linked]) simp_all
  with gb show ?thesis by (simp add: push_to_def R Let_def split: sum.split)
qed

lemma good_push_linked: "good_push (push_linked env now)"
  by (auto simp: good_push_def push_linked_def moves_push_to split: option.split)

lemma moves_resync: "moves_to free db (resyncAllGradebookScores env now db q)"
  unfolding resyncAllGradebookScores_def by (rule moves_foldl) (rule moves_refresh_with[OF good_push_linked])

lemma moves_unlink: "moves_to free db (snd (unlink_quiz db q))"
  by (auto simp: unlink_quiz_def Let_def intro!: moves_trans[OF moves_assignment(3) moves_event(3)] split: option.split)

lemma moves_link: "moves_to free db (snd (snd (link_quiz env now db q a)))"
  by (simp add: link_quiz_def Let_def) (rule moves_trans[OF moves_event(3) moves_resync])

lemma moves_Sync: "moves_to free db (snd (snd (SyncQuizAssignment env now db q gid)))"
proof -
  have created: "moves_to free db (snd (snd (case assignment_Create db q a of (b, db') \<Rightarrow> link_quiz env now db' q b)))" for a
    using moves_assignment(1)[of free db q a] by (cases "assignment_Create db q a") (auto intro: moves_trans[OF _ moves_link])
  then show ?thesis
    using moves_unlink[of free db q] moves_trans[OF moves_assignment(2) moves_link]
    by (auto simp: SyncQuizAssignment_def Let_def split: option.split prod.split)
qed

lemma good_push_gradebook: "good_push (pushGradebookScore env now)"
  by (auto simp: good_push_def pushGradebookScore_def moves_push_to moves_Sync split: option.split)

lemma moves_refresh: "moves_to free db (refreshKeptScore env now db q uid grader)"
  unfolding refreshKeptScore_def by (rule moves_refresh_with[OF good_push_gradebook])

section \<open>Turning in and grading\<close>

text \<open>A version of a stored answer that differs in its grading only.\<close>

definition known_answer :: "quiz_store \<Rightarrow> quiz_answer \<Rightarrow> bool" where
  "known_answer db w = (\<exists>v \<in> set (qd_Answers db). later_answer {} v w)"

lemma known_answer_mono: "known_answer db w \<Longrightarrow> quiz_ok db \<Longrightarrow> moves_to {} db db' \<Longrightarrow> known_answer db' w"
proof -
  assume "known_answer db w" "quiz_ok db" "moves_to {} db db'"
  then obtain v where "v \<in> set (qd_Answers db)" "later_answer {} v w" "grown (later_answer {}) (qd_Answers db) (qd_Answers db')"
    by (auto simp: known_answer_def moves_to_def answers_grown_def)
  moreover from this(3,1) obtain u where "u \<in> set (qd_Answers db')" "later_answer {} v u"
    using answers.grown_member by blast
  ultimately show ?thesis by (auto simp: known_answer_def later_answer_def intro!: bexI[of _ u])
qed

lemma moves_known_Update: "known_answer db w \<Longrightarrow> moves_to {} db (answer_Update db w)"
  by (auto simp: known_answer_def intro: moves_answer_Update)

lemma moves_known_Updates: "(\<And>w. w \<in> set ws \<Longrightarrow> known_answer db w) \<Longrightarrow> moves_to {} db (foldl answer_Update db ws)"
proof (induction ws arbitrary: db)
  case (Cons w ws)
  have first: "moves_to {} db (answer_Update db w)" by (rule moves_known_Update) (simp add: Cons.prems)
  have "moves_to {} (answer_Update db w) (foldl answer_Update (answer_Update db w) ws)" if "quiz_ok db"
    by (rule Cons.IH) (use Cons.prems first that known_answer_mono in auto)
  then show ?case using moves_trans[OF first] by (auto simp: moves_to_def)
qed simp

lemma scored_answer_later: "scored_answer env db s q w = (p, w') \<Longrightarrow> later_answer {} w w'"
  by (auto simp: scored_answer_def later_answer_def answer_key_def split: prod.splits if_splits)

lemma grade_loop_later:
  "grade_loop env db s seen ws tally review = (t, r, vs) \<Longrightarrow> v \<in> set vs \<Longrightarrow> \<exists>w \<in> set ws. later_answer {} w v"
proof (induction ws arbitrary: seen tally review t r vs)
  case (Cons w ws)
  from Cons.prems consider
      "\<exists>seen tally review. grade_loop env db s seen ws tally review = (t, r, vs)"
    | p w' seen' tally' review' ws' q where "scored_answer env db s q w = (p, w')"
        "grade_loop env db s seen' ws tally' review' = (t, r, ws')" "vs = w' # ws'"
    by (auto split: option.splits if_splits prod.splits)
  then show ?case
  proof cases
    case 1
    then show ?thesis using Cons.IH Cons.prems(2) by fastforce
  next
    case 2
    then show ?thesis using Cons.IH[OF 2(2)] Cons.prems(2) scored_answer_later[OF 2(1)] by auto
  qed
qed simp

lemma survey_later: "later_answer {} w v \<Longrightarrow> later_answer {} w (survey_answer v)"
  by (simp add: later_answer_def answer_key_def survey_answer_def)

lemma set_ListBySubmissionID: "set (ListBySubmissionID db i) = {w \<in> set (qd_Answers db). qw_QuizSubmissionID w = i}"
  by (auto simp: ListBySubmissionID_def)

lemma graded_answers_known:
  assumes "applySurveySemantics quiz (grade_loop env db s {} (ListBySubmissionID db i) 0 False) = (t, r, vs)" "v \<in> set vs"
  shows "known_answer db v"
proof -
  obtain t0 r0 vs0 where loop: "grade_loop env db s {} (ListBySubmissionID db i) 0 False = (t0, r0, vs0)"
    by (cases "grade_loop env db s {} (ListBySubmissionID db i) 0 False") auto
  have "\<exists>w \<in> set (ListBySubmissionID db i). later_answer {} w v"
  proof (cases "v \<in> set vs0")
    case False
    then obtain x where "x \<in> set vs0" "v = survey_answer x"
      using assms by (auto simp: applySurveySemantics_def loop split: option.splits if_splits)
    then show ?thesis using grade_loop_later[OF loop] survey_later by blast
  qed (rule grade_loop_later[OF loop])
  then show ?thesis by (auto simp: known_answer_def set_ListBySubmissionID)
qed

lemma finished_attempt_done: "IsCompleted (finished_attempt s t v r)"
  by (simp add: finished_attempt_def IsCompleted_def)

lemma finished_attempt_row [simp]:
  "qs_FinishedAt (finished_attempt s t v r) \<noteq> None" "qs_Score (finished_attempt s t v r) \<noteq> None"
  "qs_KeptScore (finished_attempt s t v r) \<noteq> None" "qs_ID (finished_attempt s t v r) = qs_ID s"
  by (simp_all add: finished_attempt_def)

lemma answer_Updates_Subs [simp]: "qd_Subs (foldl answer_Update db ws) = qd_Subs db"
  by (induction ws arbitrary: db) (simp_all add: answer_Update_def)

lemma moves_finalize: "moves_to (open_attempts db \<inter> {qs_ID s}) db (snd (finalizeAttempt env now db s t e))"
proof -
  let ?i = "open_attempts db \<inter> {qs_ID s}"
  let ?quiz = "quiz_FindByID db (qs_QuizID s)"
  obtain tally review vs where
    G: "applySurveySemantics ?quiz (grade_loop env db s {} (ListBySubmissionID db (qs_ID s)) 0 False) = (tally, review, vs)"
    by (metis prod_cases3)
  let ?s = "finished_attempt s t tally review"
  let ?db1 = "foldl answer_Update db vs"
  obtain won db2 where F: "FinalizeIfInProgress ?db1 ?s = (won, db2)" by fastforce
  have "moves_to ?i db ?db1" by (rule moves_weaken[OF moves_known_Updates]) (use graded_answers_known[OF G] in auto)
  moreover have "moves_to ?i ?db1 (snd (FinalizeIfInProgress ?db1 ?s))"
    using moves_Finalize[OF finished_attempt_done finished_attempt_row(1-3), of ?db1 s t tally review] by (simp add: open_attempts_def)
  ultimately have won: "moves_to ?i db db2" unfolding F snd_conv by (rule moves_trans)
  let ?db3 = "recordQuizEvent db2 ?s e"
  let ?db4 = "case ?quiz of Some q \<Rightarrow> refreshKeptScore (ne_Sub env) now ?db3 q (qs_UserID s) 0 | None \<Rightarrow> ?db3"
  have "moves_to ?i ?db3 ?db4" by (simp add: moves_refresh split: option.split)
  with moves_trans[OF won moves_event(1)] have "moves_to ?i db ?db4" by (rule moves_trans)
  then have "moves_to ?i db (fireOnCompleted ?db4 (qs_ID s))" by (rule moves_trans) (rule moves_event(2))
  with won show ?thesis by (simp add: finalizeAttempt_def Let_def G F split: bool.split)
qed

lemma moves_Complete: "moves_to (open_attempts db) db (snd (CompleteSubmission env now db sid uid))"
  by (auto simp: CompleteSubmission_def intro: moves_weaken[OF moves_finalize] split: option.split)

lemma open_shrinks: "quiz_ok db \<Longrightarrow> moves_to free db db' \<Longrightarrow> open_attempts db' \<subseteq> open_attempts db"
  by (auto simp: moves_to_def open_attempts_def later_attempt_def attempt_id_def image_iff dest!: list_all2_origin)

lemma moves_open_trans:
  assumes "moves_to (open_attempts db) db db1" "moves_to (open_attempts db1) db1 db2" shows "moves_to (open_attempts db) db db2"
proof (cases "quiz_ok db")
  case True
  show ?thesis by (rule moves_trans[OF assms(1) moves_weaken[OF assms(2) open_shrinks[OF True assms(1)]]])
qed (simp add: moves_to_def)

lemma moves_auto_submit_one: "moves_to (open_attempts (fst acc)) (fst acc) (fst (auto_submit_one env now acc s))"
  using moves_weaken[OF moves_finalize[of "fst acc" s env now "the (qs_EndAt s)" "''submission_auto_submitted''"], of "open_attempts (fst acc)"]
  by (auto simp: auto_submit_one_def split: prod.splits option.splits sum.splits)

lemma moves_auto_submits: "moves_to (open_attempts (fst acc)) (fst acc) (fst (foldl (auto_submit_one env now) acc ss))"
proof (induction ss arbitrary: acc)
  case (Cons s ss)
  show ?case using moves_open_trans[OF moves_auto_submit_one[of acc env now s] Cons.IH] by simp
qed simp

lemma moves_auto_submit_batches: "moves_to (open_attempts db) db (snd (auto_submit_batches env now k db n))"
proof (induction k arbitrary: db n)
  case (Suc k)
  let ?subs = "ListOverdueUntaken db (now - quizAutoSubmitGrace) 200"
  obtain db1 p where F: "foldl (auto_submit_one env now) (db, 0) ?subs = (db1, p)" by fastforce
  have "moves_to (open_attempts db) db db1" using moves_auto_submits[of "(db, 0)" env now ?subs] by (simp add: F)
  then show ?case using Suc F by (auto simp: moves_open_trans split: list.split)
qed simp

lemma moves_AutoSubmit: "moves_to (open_attempts db) db (snd (AutoSubmitOverdueAttempts env now db))"
  by (simp add: AutoSubmitOverdueAttempts_def moves_auto_submit_batches)

lemma moves_Extension: "moves_to (open_attempts db) db (snd (SetQuizExtension now db q inp))"
proof -
  have set: "moves_to (open_attempts db) db db'" if "SetEndAtIfInProgress (extension_Upsert db x) i t = (w, db')" for x i t w db'
  proof -
    have "open_attempts (extension_Upsert db x) = open_attempts db" by (simp add: open_attempts_def extension_Upsert_def Let_def)
    then have "moves_to (open_attempts db) (extension_Upsert db x) db'" using moves_SetEndAt[of "extension_Upsert db x" i t] that by simp
    then show ?thesis by (rule moves_trans[OF moves_event(4)])
  qed
  then show ?thesis
    by (auto simp: SetQuizExtension_def Let_def split: option.split prod.split bool.split dest!: set intro: moves_trans[OF _ moves_event(1)])
qed

text \<open>A row as some earlier request read it.\<close>

definition version_of_row :: "quiz_store \<Rightarrow> quiz_submission \<Rightarrow> bool" where
  "version_of_row db s = (\<exists>r \<in> set (qd_Subs db). later_attempt UNIV s r \<and> attempt_ok s)"

lemma graded_answer_later: "later_answer {} w (graded_answer env db q score note w)"
  by (auto simp: graded_answer_def Let_def later_answer_def answer_key_def split: option.split)

lemma known_listed: "w \<in> set (qd_Answers db) \<Longrightarrow> later_answer {} w v \<Longrightarrow> known_answer db v"
  by (auto simp: known_answer_def)

lemma answer_of_Some: "answer_of ws i = Some w \<Longrightarrow> w \<in> set ws"
  by (auto simp: answer_of_def find_Some_iff)

text \<open>A new blank answer, graded at once.\<close>

lemma moves_graded_new:
  assumes "answer_Create db (new_answer sid i []) = (w, db')" "later_answer {} w v"
  shows "moves_to {} db (answer_Update db' v)"
proof -
  have "moves_to {} db db'"
    using moves_answer_Create[of "{}" "new_answer sid i []" db] assms(1) by (simp add: blank_unless_def new_answer_def)
  moreover have "w \<in> set (qd_Answers db')" using assms(1) by (auto simp: answer_Create_def Let_def)
  then have "moves_to {} db' (answer_Update db' v)" using assms(2) by (intro moves_known_Update known_listed)
  ultimately show ?thesis by (rule moves_trans)
qed

lemma moves_apply_change: "moves_to {} db (apply_change env sid qs db c)"
proof -
  obtain i score cm where c: "c = (i, score, cm)" by (cases c)
  have old: "moves_to {} db (answer_Update db (graded_answer env db q score cm w))"
    if "answer_of (ListBySubmissionID db sid) i = Some w" for q w
    using answer_of_Some[OF that]
    by (intro moves_known_Update known_listed[of w]) (auto simp: set_ListBySubmissionID graded_answer_later)
  show ?thesis unfolding c apply_change_def
    by (auto intro: old moves_graded_new[OF _ graded_answer_later] split: option.split prod.split)
qed

lemma rescored_frame:
  "attempt_id (rescoreAttempt env q qs ws s) = attempt_id s" "finish_of (rescoreAttempt env q qs ws s) = finish_of s"
  "qs_KeptScore (rescoreAttempt env q qs ws s) = qs_KeptScore s" "qs_Score (rescoreAttempt env q qs ws s) \<noteq> None"
  "IsCompleted (rescoreAttempt env q qs ws s)"
  by (simp_all add: rescoreAttempt_def Let_def attempt_id_def finish_of_def IsCompleted_def split: prod.split)

lemma fudged_frame:
  "attempt_id (fudged f s) = attempt_id s" "finish_of (fudged f s) = finish_of s" "qs_KeptScore (fudged f s) = qs_KeptScore s"
  by (auto simp: fudged_def attempt_id_def finish_of_def split: option.split)

text \<open>Saving a whole completed row over its current version.\<close>

lemma moves_save_completed:
  assumes "version_of_row db s" "IsCompleted s"
    "attempt_id t = attempt_id s" "finish_of t = finish_of s" "IsCompleted t" "qs_Score t \<noteq> None" "qs_KeptScore t = qs_KeptScore s"
  shows "moves_to free db (attempt_Update db t)"
proof -
  obtain r where r: "r \<in> set (qd_Subs db)" "later_attempt UNIV s r" "attempt_ok s" using assms(1) by (auto simp: version_of_row_def)
  then have "IsCompleted r" "attempt_id r = attempt_id s" "finish_of r = finish_of s" "qs_FinishedAt s \<noteq> None" "qs_KeptScore s \<noteq> None"
    using assms(2) by (auto simp: later_attempt_def attempt_ok_def)
  moreover have "qs_FinishedAt t = qs_FinishedAt s" using assms(4) by (simp add: finish_of_def)
  moreover have "\<not> in_progress t" "\<not> in_progress r" using assms(5) calculation(1) not_both by blast+
  ultimately have "later_attempt free r t" using assms(3-7) by (simp add: later_attempt_def attempt_ok_def)
  then show ?thesis by (rule moves_attempt_Update[OF r(1)])
qed

lemma version_mono: "version_of_row db s \<Longrightarrow> quiz_ok db \<Longrightarrow> moves_to free db db' \<Longrightarrow> version_of_row db' s"
proof -
  assume "version_of_row db s" "quiz_ok db" "moves_to free db db'"
  then obtain r where r: "r \<in> set (qd_Subs db)" "later_attempt UNIV s r" "attempt_ok s" "list_all2 (later_attempt free) (qd_Subs db) (qd_Subs db')"
    by (auto simp: version_of_row_def moves_to_def)
  obtain t where t: "t \<in> set (qd_Subs db')" "later_attempt free r t" using list_all2_image[OF r(4,1)] by blast
  have "later_attempt UNIV s t" by (rule attempts.becomes_trans[OF r(2) later_attempt_mono[OF t(2)]]) simp
  with r(3) t(1) show ?thesis unfolding version_of_row_def by blast
qed

lemma moves_then:
  assumes "moves_to free db db1" "quiz_ok db \<Longrightarrow> moves_to free db1 db2" shows "moves_to free db db2"
proof (cases "quiz_ok db")
  case True
  show ?thesis by (rule moves_trans[OF assms(1) assms(2)[OF True]])
qed (simp add: moves_to_def)

lemma moves_UpdateQuizScores:
  assumes "version_of_row db s" shows "moves_to {} db (snd (UpdateQuizScores env now db q s fudge changes grader))"
proof (cases "IsCompleted s")
  case True
  have "moves_to {} db (refreshKeptScore e now (recordQuizEvent (attempt_Update db1 s') s' ev) q u g)"
    if db1: "db1 = foldl (apply_change env (qs_ID s) qs) db changes" and s': "s' = rescoreAttempt env q qs ws (fudged fudge s)"
    for e db1 s' ev u g qs ws
  proof -
    have changes: "moves_to {} db db1" unfolding db1 by (rule moves_foldl) (rule moves_apply_change)
    have "moves_to {} db1 (attempt_Update db1 s')" if "quiz_ok db"
      by (rule moves_save_completed[OF version_mono[OF assms that changes] True])
         (simp_all add: s' rescored_frame fudged_frame)
    then have "moves_to {} db (attempt_Update db1 s')" by (rule moves_then[OF changes])
    then show ?thesis by (rule moves_trans[OF moves_trans[OF _ moves_event(1)] moves_refresh])
  qed
  then show ?thesis by (auto simp: UpdateQuizScores_def Let_def split: option.split sum.split)
qed (simp add: UpdateQuizScores_def)

section \<open>Regrading\<close>

lemma FindBySubmissionAndQuestion_Some:
  "FindBySubmissionAndQuestion db sid i = Some w \<Longrightarrow> w \<in> set (qd_Answers db) \<and> qw_QuizSubmissionID w = sid \<and> qw_QuestionID w = i"
proof -
  assume F: "FindBySubmissionAndQuestion db sid i = Some w"
  let ?ws = "sort_key qw_ID (filter (\<lambda>w. qw_QuizSubmissionID w = sid \<and> qw_QuestionID w = i) (qd_Answers db))"
  have "w \<in> set ?ws" using F unfolding FindBySubmissionAndQuestion_def by (cases ?ws) auto
  then show ?thesis by simp
qed

lemma graded_by_regrade: "later_answer {} w (w\<lparr>qw_Points := p, qw_Correct := c, qw_GradedVia := v\<rparr>)"
  by (simp add: later_answer_def answer_key_def)

lemma marked_frame:
  "attempt_id (if b then s\<lparr>qs_ScoreBeforeRegrade := x\<rparr> else s) = attempt_id s"
  "finish_of (if b then s\<lparr>qs_ScoreBeforeRegrade := x\<rparr> else s) = finish_of s"
  "qs_KeptScore (if b then s\<lparr>qs_ScoreBeforeRegrade := x\<rparr> else s) = qs_KeptScore s"
  by (simp_all add: attempt_id_def finish_of_def)

lemma moves_write_regrade:
  assumes "version_of_row (rr_Store acc) s" "IsCompleted s" "\<And>w. ans = Some w \<Longrightarrow> w \<in> set (qd_Answers (rr_Store acc))"
  shows "moves_to {} (rr_Store acc) (rr_Store (snd (write_regrade env quiz q s ans pts correct acc)))"
proof -
  let ?src = "case ans of Some w \<Rightarrow> (w, rr_Store acc) | None \<Rightarrow> answer_Create (rr_Store acc) (new_answer (qs_ID s) (qn_ID q) [])"
  obtain w db0 where src: "?src = (w, db0)" by fastforce
  let ?v = "w\<lparr>qw_Points := Some pts, qw_Correct := Some correct, qw_GradedVia := Some (regrade_via env q w)\<rparr>"
  let ?db = "answer_Update db0 ?v"
  have written: "moves_to {} (rr_Store acc) ?db"
  proof (cases ans)
    case None
    then show ?thesis using moves_graded_new[OF _ graded_by_regrade] src by simp
  next
    case (Some w')
    then have "w = w'" "db0 = rr_Store acc" using src by simp_all
    then show ?thesis using Some assms(3) by (auto intro: moves_known_Update known_listed graded_by_regrade)
  qed
  let ?s = "if qs_ScoreBeforeRegrade s = None then s\<lparr>qs_ScoreBeforeRegrade := Some (score_or_0 s)\<rparr> else s"
  have saved: "moves_to {} (rr_Store acc) (recordQuizEvent (attempt_Update ?db t) t e)"
    if "t = rescoreAttempt env quiz qs ws ?s" for t qs ws e
  proof -
    have "moves_to {} ?db (attempt_Update ?db t)" if ok: "quiz_ok (rr_Store acc)"
      by (rule moves_save_completed[OF version_mono[OF assms(1) ok written] assms(2)])
         (simp_all add: \<open>t = _\<close> rescored_frame marked_frame)
    then have "moves_to {} (rr_Store acc) (attempt_Update ?db t)" by (rule moves_then[OF written])
    then show ?thesis by (rule moves_trans) (rule moves_event(1))
  qed
  then show ?thesis
    using written unfolding write_regrade_def src prod.case Let_def rescoreFromStore_def
    by (auto split: sum.split)
qed

lemma moves_regrade_loop:
  assumes "\<And>s. s \<in> set ss \<Longrightarrow> version_of_row (rr_Store acc) s \<and> IsCompleted s" "quiz_ok (rr_Store acc)"
  shows "moves_to {} (rr_Store acc) (rr_Store (snd (regrade_loop env quiz q choice possible ss acc)))"
  using assms
proof (induction ss arbitrary: acc)
  case (Cons s ss)
  let ?acc = "acc\<lparr>rr_Regraded := Suc (rr_Regraded acc)\<rparr>"
  let ?ans = "FindBySubmissionAndQuestion (rr_Store acc) (qs_ID s) (qn_ID q)"
  have skip: "moves_to {} (rr_Store acc) (rr_Store (snd (regrade_loop env quiz q choice possible ss acc)))"
    "moves_to {} (rr_Store acc) (rr_Store (snd (regrade_loop env quiz q choice possible ss ?acc)))"
    using Cons.IH[of acc] Cons.IH[of ?acc] Cons.prems by simp_all
  have wrote: "moves_to {} (rr_Store acc) (rr_Store acc')"
    if "write_regrade env quiz q s ?ans pts correct ?acc = (e, acc')" for pts correct e acc'
    using moves_write_regrade[of ?acc s ?ans env quiz q pts correct] Cons.prems(1) that FindBySubmissionAndQuestion_Some by simp
  have rest: "moves_to {} (rr_Store acc) (rr_Store (snd (regrade_loop env quiz q choice possible ss acc')))"
    if "write_regrade env quiz q s ?ans pts correct ?acc = (e, acc')" for pts correct e acc'
  proof (rule moves_trans[OF wrote[OF that]], rule Cons.IH)
    show "quiz_ok (rr_Store acc')" using moves_ok[OF wrote[OF that] Cons.prems(2)] .
    show "version_of_row (rr_Store acc') x \<and> IsCompleted x" if "x \<in> set ss" for x
      using Cons.prems that version_mono[OF _ Cons.prems(2) wrote[OF \<open>write_regrade _ _ _ _ _ _ _ _ = _\<close>]] by simp
  qed
  show ?case
    by (auto simp: Let_def intro: skip wrote rest split: option.split prod.split)
qed simp

lemma moves_Regrade: "moves_to {} db (snd (RegradeQuizQuestion env now db quiz q choice))"
proof (cases "quiz_ok db")
  case True
  let ?subs = "ListCompletedByQuizID db (qz_ID quiz)"
  let ?acc = "\<lparr>rr_Store = db, rr_Regraded = 0, rr_Changed = 0, rr_Users = []\<rparr>"
  have "version_of_row (rr_Store ?acc) s \<and> IsCompleted s" if "s \<in> set ?subs" for s
    using that quiz_ok_parts(4)[OF True] attempts.becomes_refl
    by (auto simp: ListCompletedByQuizID_def version_of_row_def IsCompleted_def)
  then have loop: "moves_to {} db (rr_Store (snd (regrade_loop env quiz q choice (effectiveQuestionPoints db q) ?subs ?acc)))"
    using moves_regrade_loop[of ?subs ?acc] True by simp
  have "moves_to {} db (foldl (\<lambda>db uid. refreshKeptScore (ne_Sub env) now db quiz uid 0) db' us)" if "moves_to {} db db'" for db' us
    by (rule moves_trans[OF that moves_foldl]) (rule moves_refresh)
  with loop show ?thesis
    by (auto simp: RegradeQuizQuestion_def split: option.split prod.splits)
qed (simp add: moves_to_def)

section \<open>The remaining operations\<close>

lemma moves_link_one: "moves_to free (fst acc) (fst (link_one env now acc q))"
  using moves_Sync[of free "fst acc" env now q None] by (auto simp: link_one_def split: prod.splits option.splits)

lemma moves_link_all: "moves_to free (fst acc) (fst (foldl (link_one env now) acc qs))"
proof (induction qs arbitrary: acc)
  case (Cons q qs)
  show ?case using moves_trans[OF moves_link_one[of free acc env now q] Cons.IH] by simp
qed simp

lemma moves_link_batches: "moves_to free db (snd (link_batches env now k db n i))"
proof (induction k arbitrary: db n i)
  case (Suc k)
  let ?qs = "ListGradedWithoutAssignment db i 100"
  obtain db1 m j where F: "foldl (link_one env now) (db, n, i) ?qs = (db1, m, j)" by (metis prod_cases3)
  have "moves_to free db db1" using moves_link_all[of free "(db, n, i)" env now ?qs] by (simp add: F)
  then show ?case using Suc F by (auto simp: Let_def moves_trans)
qed simp

lemma moves_LinkGraded: "moves_to free db (snd (LinkGradedQuizzes env now db))"
  by (simp add: LinkGradedQuizzes_def moves_link_batches)

lemma moves_MarkRead: "moves_to (open_attempts db) db (snd (MarkQuestionRead db s i))"
  using moves_AppendRead[of db "qs_ID s" i]
  by (auto simp: MarkQuestionRead_def split: option.split prod.split bool.split)

lemma moves_MarkSeen: "moves_to (open_attempts db) db (MarkResultsSeen db q s now)"
  by (simp add: MarkResultsSeen_def moves_seen)

lemma moves_ClientEvents: "moves_to free db (snd (RecordClientQuizEvents parse db s es))"
  by (simp add: RecordClientQuizEvents_def)

text \<open>Answering writes the answers of its own attempt, which is in progress.\<close>

lemma moves_upsert: "moves_to {sid} db (snd (upsert_answer db sid i t))"
proof (cases "FindBySubmissionAndQuestion db sid i")
  case None
  then show ?thesis using moves_answer_Create[of "{sid}" "new_answer sid i t" db]
    by (simp add: upsert_answer_def blank_unless_def new_answer_def)
next
  case (Some w)
  show ?thesis
    using FindBySubmissionAndQuestion_Some[OF Some] moves_answer_Update[of w db "{sid}"]
    by (simp add: upsert_answer_def Some Let_def later_answer_def answer_key_def)
qed

lemma attempt_FindByID_Some: "attempt_FindByID db i = Some s \<Longrightarrow> s \<in> set (qd_Subs db) \<and> qs_ID s = i"
  by (auto simp: attempt_FindByID_def find_Some_iff)

lemma moves_AnswerQuestion: "moves_to (open_attempts db) db (snd (AnswerQuestion now db sid i t))"
proof -
  have "moves_to (open_attempts db) db (recordQuizEvent (snd (upsert_answer db sid i t)) s e)"
    if "attempt_FindByID db sid = Some s" "in_progress s" for s e
    using attempt_FindByID_Some[OF that(1)] that(2)
    by (intro moves_trans[OF moves_weaken[OF moves_upsert] moves_event(1)]) (auto simp: open_attempts_def)
  then show ?thesis
    by (auto simp: AnswerQuestion_def answer_error_def split: option.split prod.split if_splits)
qed

section \<open>Starting an attempt\<close>

lemma take_pool_frame:
  "qd_Subs (fst (take_pool quizID g acc p)) = qd_Subs (fst acc)" "qd_Answers (fst (take_pool quizID g acc p)) = qd_Answers (fst acc)"
  "qd_Gradebook (fst (take_pool quizID g acc p)) = qd_Gradebook (fst acc)" "qd_NextID (fst acc) \<le> qd_NextID (fst (take_pool quizID g acc p))"
  by (auto simp: take_pool_def materializeBankEntry_def Let_def split: prod.split pool_entry.split)

lemma moves_take_pool: "moves_to free (fst acc) (fst (take_pool quizID g acc p))"
  by (rule moves_aside) (simp_all add: take_pool_frame)

lemma moves_take_all: "moves_to free (fst acc) (fst (foldl (take_pool quizID g) acc ps))"
proof (induction ps arbitrary: acc)
  case (Cons p ps)
  show ?case using moves_trans[OF moves_take_pool[of free acc quizID g p] Cons.IH] by simp
qed simp

lemma take_all_Subs: "qd_Subs (fst (foldl (take_pool quizID g) acc ps)) = qd_Subs (fst acc)"
  by (induction ps arbitrary: acc) (simp_all add: take_pool_frame)

lemma draw_groups_moves:
  "draw_groups rnd k quizID gs db sel = Some (sel', db') \<Longrightarrow> moves_to free db db' \<and> qd_Subs db' = qd_Subs db"
proof (induction gs arbitrary: k db sel)
  case (Cons g gs)
  let ?ps = "take (nat (qp_PickCount g)) (shuffle_with rnd k (group_pool db quizID g))"
  obtain db1 sel1 where F: "foldl (take_pool quizID g) (db, sel) ?ps = (db1, sel1)" by fastforce
  have "moves_to free db db1" "qd_Subs db1 = qd_Subs db"
    using moves_take_all[of free "(db, sel)" quizID g ?ps] take_all_Subs[of quizID g "(db, sel)" ?ps] by (simp_all add: F)
  then show ?case using Cons F by (auto simp: Let_def intro: moves_trans split: if_splits)
qed simp

lemma generate_moves:
  "generateSelectedQuestions rnd db quizID = Some (sel, db') \<Longrightarrow> moves_to free db db' \<and> qd_Subs db' = qd_Subs db"
  by (auto simp: generateSelectedQuestions_def simp del: draw_groups.simps dest: draw_groups_moves split: list.splits)

text \<open>What a request to start hands to the insert.\<close>

lemma start_decide_row:
  assumes "start_decide rnd now db quizID uid given = Inr (Inr (row, db'))"
  shows "moves_to free db db'" "qd_Subs db' = qd_Subs db" "in_progress row" "attempt_ok row" "qs_QuizID row = quizID" "qs_UserID row = uid"
    "qs_Attempt row = next_number (FindByQuizAndUser db quizID uid)"
  using assms generate_moves[of rnd db quizID _ db' free]
  by (auto simp: start_decide_def prepare_attempt_def Let_def new_attempt_def in_progress_def attempt_ok_def quiz_FindByID_def find_Some_iff
      split: option.splits if_splits prod.splits)

lemma attempts_ok_insert:
  assumes "attempts_ok xs n" "attempt_ok s" "in_progress s" "\<not> list_ex in_progress (filter (\<lambda>r. qs_QuizID r = qs_QuizID s \<and> qs_UserID r = qs_UserID s) xs)"
    "0 < n"
  shows "attempts_ok (xs @ [s\<lparr>qs_ID := n\<rparr>]) (Suc n)"
proof -
  have "attempt_ok (s\<lparr>qs_ID := n\<rparr>)" using assms(2) by (simp add: attempt_ok_def in_progress_def IsCompleted_def)
  moreover have "in_progress (s\<lparr>qs_ID := n\<rparr>)" "seat (s\<lparr>qs_ID := n\<rparr>) = seat s" using assms(3) by (simp_all add: in_progress_def seat_def)
  moreover have "seat s \<notin> seat ` {r \<in> set xs. in_progress r}" using assms(4) by (auto simp: seat_def list_ex_iff)
  ultimately show ?thesis using assms(1,5) by (auto simp: attempts_ok_def)
qed

lemma start_insert_cases:
  assumes "quiz_ok db" "in_progress row" "attempt_ok row" "start_insert db row = (res, db')"
  obtains "qd_Subs db' = qd_Subs db" "quiz_ok db'" "qd_Answers db' = qd_Answers db"
  | s where "res = Inr s" "s = row\<lparr>qs_ID := qd_NextID db\<rparr>" "qd_Subs db' = qd_Subs db @ [s]" "quiz_ok db'" "qd_Answers db' = qd_Answers db"
proof (cases "attempt_Create db row")
  case None
  then have "db' = db" using assms(4) by (auto simp: start_insert_def split: option.splits if_splits)
  then show ?thesis using assms(1) that(1) by simp
next
  case (Some p)
  obtain s db1 where p: "p = (s, db1)" by fastforce
  have s: "s = row\<lparr>qs_ID := qd_NextID db\<rparr>"
    and db1: "db1 = db\<lparr>qd_Subs := qd_Subs db @ [s], qd_NextID := Suc (qd_NextID db)\<rparr>"
    and free: "\<not> list_ex in_progress (attempts_of db (qs_QuizID row) (qs_UserID row))"
    using Some assms(2) by (auto simp: p attempt_Create_def Let_def split: if_splits)
  have db': "db' = recordQuizEvent db1 s ''session_started''" "res = Inr s" using assms(4) Some by (simp_all add: start_insert_def p)
  have "quiz_ok db1"
    using assms(1) attempts_ok_insert[OF _ assms(3,2) free[unfolded attempts_of_def]]
    by (auto simp: quiz_ok_def db1 s answers_ok_def)
  then have "quiz_ok db'" unfolding db'(1) by (rule moves_ok[OF moves_event(1)])
  then show ?thesis using that(2)[OF db'(2) s] by (simp add: db'(1) recordQuizEvent_def db1)
qed

end
