(* ===== verification/Quiz_Properties.thy ===== *)
theory Quiz_Properties imports Quiz_Steps begin

text \<open>
  What holds in every run of the quiz engine: requests, the overdue job, moderation, grading and
  regrades in any order. \<open>quiz_op\<close> is one operation other than starting. In \<open>serial_step\<close> every
  operation is one step. In \<open>racing_step\<close> the two requests whose checks and writes are apart
  interleave with everything else: a start inserts the row it decided on at some earlier store, and
  an \<open>AnswerQuestion\<close> whose checks passed at some earlier store writes its answer, whatever has
  become of the attempt. \<open>late\<close> holds the attempts and questions with such pending answers.
\<close>

section \<open>Runs\<close>

inductive quiz_op :: "'f attempt_env \<Rightarrow> quiz_store \<Rightarrow> quiz_store \<Rightarrow> bool" for env where
  answered: "quiz_op env db (snd (AnswerQuestion now db sid i t))"
| moved_on: "quiz_op env db (snd (MarkQuestionRead db s i))"
| turned_in: "quiz_op env db (snd (CompleteSubmission env now db sid uid))"
| finalized: "quiz_op env db (snd (finalizeAttempt env now db s t e))"
| overdue: "quiz_op env db (snd (AutoSubmitOverdueAttempts env now db))"
| extended: "quiz_op env db (snd (SetQuizExtension now db q inp))"
| graded: "version_of_row db s \<Longrightarrow> quiz_op env db (snd (UpdateQuizScores env now db q s fudge changes grader))"
| regraded: "quiz_op env db (snd (RegradeQuizQuestion env now db q r choice))"
| synced: "quiz_op env db (snd (snd (SyncQuizAssignment senv now db q gid)))"
| linked: "quiz_op env db (snd (LinkGradedQuizzes senv now db))"
| seen: "quiz_op env db (MarkResultsSeen db q s now)"
| reported: "quiz_op env db (snd (RecordClientQuizEvents parse db s es))"
| elsewhere: "qd_Subs db' = qd_Subs db \<Longrightarrow> qd_Answers db' = qd_Answers db \<Longrightarrow> qd_NextID db \<le> qd_NextID db' \<Longrightarrow>
    (store_ok False (qd_Gradebook db) \<Longrightarrow> store_ok False (qd_Gradebook db')) \<Longrightarrow> quiz_op env db db'"

inductive serial_step :: "'f attempt_env \<Rightarrow> quiz_store \<Rightarrow> quiz_store \<Rightarrow> bool" for env where
  op: "quiz_op env db db' \<Longrightarrow> serial_step env db db'"
| started: "serial_step env db (snd (StartSubmission rnd now db quizID uid given))"

inductive racing_step :: "(nat \<times> nat) set \<Rightarrow> 'f attempt_env \<Rightarrow> quiz_store \<Rightarrow> quiz_store \<Rightarrow> bool" for late env where
  serially: "serial_step env db db' \<Longrightarrow> racing_step late env db db'"
| drew: "generateSelectedQuestions rnd db quizID = Some (sel, db') \<Longrightarrow> racing_step late env db db'"
| inserted: "start_decide rnd now earlier quizID uid given = Inr (Inr (row, earlier')) \<Longrightarrow>
    racing_step late env db (snd (start_insert db row))"
| wrote_late: "attempt_FindByID earlier sid = Some s \<Longrightarrow> answer_error now earlier s i = None \<Longrightarrow> (sid, i) \<in> late \<Longrightarrow>
    racing_step late env db (recordQuizEvent (snd (upsert_answer db sid i t)) s (answer_event t))"

inductive_cases racing_stepE: "racing_step late env db db'"

lemma quiz_op_moves: "quiz_op env db db' \<Longrightarrow> moves_to (open_attempts db) db db'"
proof (induction rule: quiz_op.induct)
  case (elsewhere db' db)
  then show ?case by (intro moves_aside) auto
qed (auto intro: moves_AnswerQuestion moves_MarkRead moves_MarkSeen moves_ClientEvents moves_LinkGraded moves_Sync
    moves_Complete moves_weaken[OF moves_finalize] moves_AutoSubmit moves_Extension
    moves_weaken[OF moves_UpdateQuizScores] moves_weaken[OF moves_Regrade])

text \<open>A step moves the tables, or appends one new attempt.\<close>

definition steps_to :: "nat set \<Rightarrow> quiz_store \<Rightarrow> quiz_store \<Rightarrow> bool" where
  "steps_to free db db' =
     (quiz_ok db' \<and> grown (later_attempt UNIV) (qd_Subs db) (qd_Subs db') \<and> answers_grown free (qd_Answers db) (qd_Answers db'))"

lemma moves_steps:
  assumes "quiz_ok db" "moves_to free db db'" shows "steps_to free db db'"
proof -
  have "list_all2 (later_attempt UNIV) (qd_Subs db) (qd_Subs db')"
    by (rule list.rel_mono_strong[of "later_attempt free"]) (use assms in \<open>auto simp: moves_to_def intro: later_attempt_mono\<close>)
  then show ?thesis using assms grown_append[of _ _ _ "[]"] by (auto simp: moves_to_def steps_to_def)
qed

lemma insert_steps:
  assumes "quiz_ok db" "in_progress row" "attempt_ok row" shows "steps_to free db (snd (start_insert db row))"
proof -
  obtain res db' where I: "start_insert db row = (res, db')" by fastforce
  from start_insert_cases[OF assms I] show ?thesis
    by cases (simp_all add: steps_to_def I attempts.grown_refl attempts.grown_new)
qed

lemma steps_after_moves:
  assumes "steps_to (open_attempts db) db1 db2" "quiz_ok db" "moves_to (open_attempts db) db db1" "qd_Subs db1 = qd_Subs db" shows "steps_to (open_attempts db) db db2"
  using assms by (auto simp: steps_to_def moves_to_def open_attempts_def intro: answers_grown_trans)

lemma start_steps: assumes "quiz_ok db" shows "steps_to (open_attempts db) db (snd (StartSubmission rnd now db quizID uid given))"
proof (cases "start_decide rnd now db quizID uid given")
  case (Inr r)
  show ?thesis
  proof (cases r)
    case r': (Inr p)
    obtain row db1 where p: "p = (row, db1)" by fastforce
    note row = start_decide_row[OF Inr[unfolded r' p]]
    have "steps_to (open_attempts db) db1 (snd (start_insert db1 row))" by (rule insert_steps) (use row moves_ok[OF row(1) assms] in auto)
    then have "steps_to (open_attempts db) db (snd (start_insert db1 row))" by (rule steps_after_moves) (use assms row in auto)
    then show ?thesis by (simp add: StartSubmission_def Inr r' p)
  qed (use assms in \<open>simp add: StartSubmission_def Inr steps_to_def attempts.grown_refl\<close>)
qed (use assms in \<open>simp add: StartSubmission_def steps_to_def attempts.grown_refl\<close>)

lemma serial_steps: "serial_step env db db' \<Longrightarrow> quiz_ok db \<Longrightarrow> steps_to (open_attempts db) db db'"
  by (erule serial_step.cases) (auto intro: moves_steps quiz_op_moves start_steps)

lemma late_moves: "moves_to {sid} db (recordQuizEvent (snd (upsert_answer db sid i t)) s e)"
  by (rule moves_trans[OF moves_upsert moves_event(1)])

text \<open>A racing step writes the answer it had pending, or changes no answer of a finished attempt.\<close>

lemma racing_step_cases:
  assumes "racing_step late env db db'" "quiz_ok db"
  obtains (ordinary) "steps_to (open_attempts db) db db'"
    | (late) sid i t s e where "(sid, i) \<in> late" "db' = recordQuizEvent (snd (upsert_answer db sid i t)) s e"
  using assms(1)
proof cases
  case serially
  then show ?thesis using serial_steps[OF _ assms(2)] ordinary by blast
next
  case drew
  then show ?thesis using assms(2) generate_moves moves_steps ordinary by blast
next
  case inserted
  then show ?thesis using insert_steps[OF assms(2)] start_decide_row(3,4) ordinary by blast
next
  case wrote_late
  then show ?thesis using late by blast
qed

lemma racing_steps:
  assumes "racing_step late env db db'" "quiz_ok db"
  shows "quiz_ok db'" "grown (later_attempt UNIV) (qd_Subs db) (qd_Subs db')"
proof -
  have "\<exists>free. steps_to free db db'"
    using assms
  proof (cases rule: racing_step_cases)
    case (late sid i t s e)
    then show ?thesis using moves_steps[OF assms(2) late_moves] by blast
  qed blast
  then show "quiz_ok db'" "grown (later_attempt UNIV) (qd_Subs db) (qd_Subs db')" by (auto simp: steps_to_def)
qed

lemma racing_run_ok: "(racing_step late env)\<^sup>*\<^sup>* db db' \<Longrightarrow> quiz_ok db \<Longrightarrow> quiz_ok db' \<and> grown (later_attempt UNIV) (qd_Subs db) (qd_Subs db')"
proof (induction rule: rtranclp_induct)
  case (step db1 db2)
  then show ?case using racing_steps[of late env db1 db2] attempts.grown_trans by blast
qed (simp add: attempts.grown_refl)

lemma serial_racing: "(serial_step env)\<^sup>*\<^sup>* db db' \<Longrightarrow> (racing_step late env)\<^sup>*\<^sup>* db db'"
  by (rule rtranclp_mono[THEN predicate2D]) (auto intro: racing_step.serially)

section \<open>Properties of every run\<close>

text \<open>
  C2. Whatever the order of requests, jobs, grading and regrades, however the starts of one
  student race and whichever answers are written late: ids stay unique, a student has at most one attempt of a quiz in progress, an attempt
  has a finish time, a score and a kept score exactly when it is turned in, and the rows of the
  gradebook stay consistent.
\<close>
theorem attempts_stay_consistent:
  "(racing_step late env)\<^sup>*\<^sup>* db db' \<Longrightarrow> quiz_ok db \<Longrightarrow> quiz_ok db'"
  using racing_run_ok by blast

text \<open>
  C8. A finished attempt is never reopened: it stays the same attempt of the same student at the same
  quiz with the same number, questions, start, finish, deadline and time spent. Regrades and manual
  grading change its score only.
\<close>
theorem finished_attempts_stay_finished:
  assumes "(racing_step late env)\<^sup>*\<^sup>* db db'" "quiz_ok db" "attempt_FindByID db sid = Some s" "IsCompleted s"
  shows "\<exists>s'. attempt_FindByID db' sid = Some s' \<and> IsCompleted s' \<and> attempt_id s' = attempt_id s \<and> finish_of s' = finish_of s"
proof -
  have "grown (later_attempt UNIV) (qd_Subs db) (qd_Subs db')" using racing_run_ok[OF assms(1,2)] by simp
  then obtain s' where "attempt_FindByID db' sid = Some s'" "later_attempt UNIV s s'"
    using assms(3) unfolding attempt_FindByID_def by (rule attempts.grown_found)
  then show ?thesis using assms(4) by (auto simp: later_attempt_def)
qed

text \<open>The texts handed in for an attempt, in the order they were first saved.\<close>

definition handed_in :: "quiz_store \<Rightarrow> nat \<Rightarrow> (nat \<times> string) list" where
  "handed_in db sid = map (\<lambda>w. (qw_QuestionID w, qw_Answer w)) (filter (\<lambda>w. qw_QuizSubmissionID w = sid) (qd_Answers db))"

lemma handed_in_kept:
  assumes "answers_grown free (qd_Answers db) (qd_Answers db')" "sid \<notin> free"
  shows "\<exists>new. handed_in db' sid = handed_in db sid @ new \<and> (\<forall>(_, t) \<in> set new. t = [])"
proof (rule grown_split[of "later_answer free" "qd_Answers db" "qd_Answers db'"])
  show "grown (later_answer free) (qd_Answers db) (qd_Answers db')" using assms(1) by (simp add: answers_grown_def)
  fix us vs assume ys: "qd_Answers db' = us @ vs" and all: "list_all2 (later_answer free) (qd_Answers db) us"
  let ?of = "\<lambda>ws. map (\<lambda>w. (qw_QuestionID w, qw_Answer w)) (filter (\<lambda>w. qw_QuizSubmissionID w = sid) ws)"
  have "?of us = ?of (qd_Answers db)"
    using all assms(2) by (induction rule: list_all2_induct) (auto simp: later_answer_def answer_key_def)
  moreover have "vs = drop (length (qd_Answers db)) (qd_Answers db')" using list_all2_lengthD[OF all] by (simp add: ys)
  then have "\<forall>w \<in> set vs. blank_unless free w" using assms(1) by (simp add: answers_grown_def)
  ultimately show ?thesis
    using assms(2) by (intro exI[of _ "?of vs"]) (auto simp: handed_in_def ys blank_unless_def)
qed

lemma finished_not_open:
  "quiz_ok db \<Longrightarrow> attempt_FindByID db sid = Some s \<Longrightarrow> IsCompleted s \<Longrightarrow> sid \<notin> open_attempts db"
  by (auto simp: open_attempts_def dest!: attempt_FindByID_Some) (metis not_both same_id_row)

lemma step_keeps_finished:
  assumes "grown (later_attempt UNIV) (qd_Subs db) (qd_Subs db')" "attempt_FindByID db sid = Some s" "IsCompleted s"
  obtains s' where "attempt_FindByID db' sid = Some s'" "IsCompleted s'"
  using assms(1,2) unfolding attempt_FindByID_def
  by (rule attempts.grown_found) (use assms(3) that in \<open>auto simp: later_attempt_def attempt_FindByID_def\<close>)

text \<open>The answers of an attempt without a write pending, and what one late write does to them.\<close>

definition settled_answers :: "(nat \<times> nat) set \<Rightarrow> quiz_store \<Rightarrow> nat \<Rightarrow> (nat \<times> string) list" where
  "settled_answers late db sid = filter (\<lambda>(i, _). (sid, i) \<notin> late) (handed_in db sid)"

definition blanks_after :: "(nat \<times> string) list \<Rightarrow> (nat \<times> string) list \<Rightarrow> bool" where
  "blanks_after xs ys = (\<exists>new. ys = xs @ new \<and> (\<forall>(_, t) \<in> set new. t = []))"

lemma blanks_after_trans: "blanks_after xs ys \<Longrightarrow> blanks_after ys zs \<Longrightarrow> blanks_after xs zs"
  unfolding blanks_after_def by (elim exE conjE, rule_tac x = "new @ newa" in exI) auto

lemma blanks_after_filter: "blanks_after xs ys \<Longrightarrow> blanks_after (filter P xs) (filter P ys)"
  by (auto simp: blanks_after_def)

lemma late_write_elsewhere:
  assumes "quiz_ok db" "(sid', i) \<in> late"
  shows "settled_answers late (recordQuizEvent (snd (upsert_answer db sid' i t)) s e) sid = settled_answers late db sid"
proof (cases "FindBySubmissionAndQuestion db sid' i")
  case None
  then show ?thesis using assms(2)
    by (auto simp: settled_answers_def handed_in_def upsert_answer_def answer_Create_def new_answer_def recordQuizEvent_def Let_def)
next
  case (Some w)
  define w' where "w' = w\<lparr>qw_Answer := t, qw_Correct := None, qw_Points := None\<rparr>"
  let ?in = "\<lambda>x. qw_QuizSubmissionID x = sid \<and> (sid, qw_QuestionID x) \<notin> late"
  let ?view = "\<lambda>x. (qw_QuestionID x, qw_Answer x)"
  have settled: "settled_answers late db sid = map ?view (filter ?in (qd_Answers db))" for db
    by (simp add: settled_answers_def handed_in_def filter_map o_def split_beta conj_commute)
  note w = FindBySubmissionAndQuestion_Some[OF Some]
  have same: "x = w" if "x \<in> set (qd_Answers db)" "qw_ID x = qw_ID w" for x
    using quiz_ok_parts(2)[OF assms(1)] that w by (auto simp: distinct_map inj_on_def)
  have "\<not> ?in w" "\<not> ?in w'" using w assms(2) by (auto simp: w'_def)
  then have "map ?view (filter ?in (map (\<lambda>r. if qw_ID r = qw_ID w then w' else r) xs)) = map ?view (filter ?in xs)"
    if "set xs \<subseteq> set (qd_Answers db)" for xs
    using that by (induction xs) (auto dest: same)
  from this[of "qd_Answers db"] show ?thesis
    unfolding settled w'_def by (simp add: upsert_answer_def Some Let_def answer_Update_def recordQuizEvent_def)
qed


end
