(* ===== verification/Quiz_Overdue.thy ===== *)
theory Quiz_Overdue imports Quiz_Properties begin

text \<open>
  The job that turns in overdue attempts: it reaches all of them, at their own deadlines, and no
  other attempt.
\<close>

section \<open>One attempt\<close>

definition finished_at :: "quiz_store \<Rightarrow> nat \<Rightarrow> instant option \<Rightarrow> bool" where
  "finished_at db i t = list_all (\<lambda>r. qs_ID r = i \<longrightarrow> IsCompleted r \<and> qs_FinishedAt r = t) (qd_Subs db)"

lemma finished_at_mono:
  assumes "finished_at db i t" "quiz_ok db" "moves_to free db db'" shows "finished_at db' i t"
proof -
  have "list_all2 (later_attempt free) (qd_Subs db) (qd_Subs db')" using assms(2,3) by (simp add: moves_to_def)
  from list_all2_origin[OF this] show ?thesis
    using assms(1) by (fastforce simp: finished_at_def list_all_iff later_attempt_def attempt_id_def finish_of_def)
qed

lemma Finalize_finishes:
  assumes "FinalizeIfInProgress db s = (won, db')" "IsCompleted s" "r \<in> set (qd_Subs db)" "in_progress r" "qs_ID r = qs_ID s" "quiz_ok db"
  shows "won \<and> finished_at db' (qs_ID s) (qs_FinishedAt s)"
proof -
  have won: "list_ex (\<lambda>r. qs_ID r = qs_ID s \<and> in_progress r) (qd_Subs db)" using assms(3-5) by (auto simp: list_ex_iff)
  have "x = r" if "x \<in> set (qd_Subs db)" "qs_ID x = qs_ID s" for x using same_id_row[OF assms(6) that(1) assms(3)] that assms(5) by simp
  then show ?thesis
    using assms(1,2,4) won
    by (auto simp: FinalizeIfInProgress_def update_in_progress_def finished_at_def list_all_iff IsCompleted_def)
qed

lemma finalize_succeeds:
  assumes "quiz_ok db" "s \<in> set (qd_Subs db)" "in_progress s"
  obtains s' db' where "finalizeAttempt env now db s t e = (Inr s', db')" "moves_to {qs_ID s} db db'" "finished_at db' (qs_ID s) (Some t)"
proof -
  let ?quiz = "quiz_FindByID db (qs_QuizID s)"
  obtain tally review vs where
    G: "applySurveySemantics ?quiz (grade_loop env db s {} (ListBySubmissionID db (qs_ID s)) 0 False) = (tally, review, vs)"
    by (metis prod_cases3)
  let ?s = "finished_attempt s t tally review"
  let ?db1 = "foldl answer_Update db vs"
  obtain won db2 where F: "FinalizeIfInProgress ?db1 ?s = (won, db2)" by fastforce
  have m1: "moves_to {} db ?db1" by (rule moves_known_Updates) (rule graded_answers_known[OF G])
  have ok1: "quiz_ok ?db1" by (rule moves_ok[OF m1 assms(1)])
  have fin: "won \<and> finished_at db2 (qs_ID ?s) (qs_FinishedAt ?s)"
    by (rule Finalize_finishes[OF F finished_attempt_done _ assms(3) _ ok1]) (use assms(2) in simp_all)
  have ok2: "quiz_ok db2"
    using moves_ok[OF moves_Finalize[OF finished_attempt_done finished_attempt_row(1-3), of ?db1 s t tally review] ok1] by (simp add: F)
  let ?db3 = "recordQuizEvent db2 ?s e"
  let ?db4 = "case ?quiz of Some q \<Rightarrow> refreshKeptScore (ne_Sub env) now ?db3 q (qs_UserID s) 0 | None \<Rightarrow> ?db3"
  have m4: "moves_to {} db2 ?db4"
    by (rule moves_trans[OF moves_event(1)[of _ db2 ?s e]]) (simp add: moves_refresh split: option.split)
  have m5: "moves_to {} db2 (fireOnCompleted ?db4 (qs_ID s))" by (rule moves_trans[OF m4 moves_event(2)])
  have "finalizeAttempt env now db s t e = (Inr ?s, fireOnCompleted ?db4 (qs_ID s))"
    using fin by (simp add: finalizeAttempt_def Let_def G F)
  moreover have "finished_at (fireOnCompleted ?db4 (qs_ID s)) (qs_ID s) (Some t)"
    by (rule finished_at_mono[OF _ ok2 m5]) (use fin in \<open>simp add: finished_attempt_def\<close>)
  ultimately show ?thesis
    using that moves_weaken[OF moves_finalize[of db s env now t e], of "{qs_ID s}"] by simp
qed

section \<open>One batch\<close>

lemma open_row_kept:
  assumes "quiz_ok db" "moves_to free db db'" "s \<in> set (qd_Subs db)" "in_progress s" "qs_ID s \<notin> free"
  shows "s \<in> set (qd_Subs db')"
proof -
  have "list_all2 (later_attempt free) (qd_Subs db) (qd_Subs db')" using assms(1,2) by (simp add: moves_to_def)
  from list_all2_image[OF this assms(3)] show ?thesis using later_attempt_same assms(4,5) by blast
qed

definition due_attempts :: "quiz_store \<Rightarrow> quiz_submission list \<Rightarrow> bool" where
  "due_attempts db ss =
     (distinct (map qs_ID ss) \<and> list_all (\<lambda>s. s \<in> set (qd_Subs db) \<and> in_progress s \<and> qs_EndAt s \<noteq> None) ss)"

lemma due_attempts_later:
  assumes "due_attempts db (s # ss)" "quiz_ok db" "moves_to {qs_ID s} db db'" shows "due_attempts db' ss"
proof -
  have "x \<in> set (qd_Subs db')" if x: "x \<in> set ss" for x
  proof (rule open_row_kept[OF assms(2,3)])
    have "qs_ID s \<notin> qs_ID ` set ss" using assms(1) by (simp add: due_attempts_def)
    then show "qs_ID x \<notin> {qs_ID s}" using x by (metis imageI singletonD)
  qed (use assms(1) x in \<open>simp_all add: due_attempts_def list_all_iff\<close>)
  then show ?thesis using assms(1) by (simp add: due_attempts_def list_all_iff)
qed

lemma batch_turns_in:
  "quiz_ok db \<Longrightarrow> due_attempts db ss \<Longrightarrow>
   \<exists>db'. foldl (auto_submit_one env now) (db, n) ss = (db', n + length ss) \<and> moves_to (qs_ID ` set ss) db db' \<and>
     (\<forall>s \<in> set ss. finished_at db' (qs_ID s) (qs_EndAt s))"
proof (induction ss arbitrary: db n)
  case (Cons s ss)
  then obtain t where s: "s \<in> set (qd_Subs db)" "in_progress s" "qs_EndAt s = Some t" by (auto simp: due_attempts_def)
  obtain s' db1 where F: "finalizeAttempt env now db s t ''submission_auto_submitted'' = (Inr s', db1)"
    and m: "moves_to {qs_ID s} db db1" and fin: "finished_at db1 (qs_ID s) (Some t)"
    by (rule finalize_succeeds[OF Cons.prems(1) s(1,2)])
  have ok: "quiz_ok db1" by (rule moves_ok[OF m Cons.prems(1)])
  obtain db2 where IH: "foldl (auto_submit_one env now) (db1, Suc n) ss = (db2, Suc n + length ss)" "moves_to (qs_ID ` set ss) db1 db2"
      "\<forall>s \<in> set ss. finished_at db2 (qs_ID s) (qs_EndAt s)"
    using Cons.IH[OF ok due_attempts_later[OF Cons.prems(2,1) m], of "Suc n"] by blast
  have "moves_to (qs_ID ` set (s # ss)) db db2"
    by (rule moves_trans[OF moves_weaken[OF m] moves_weaken[OF IH(2)]]) auto
  moreover have "finished_at db2 (qs_ID s) (qs_EndAt s)" using finished_at_mono[OF fin ok IH(2)] s(3) by simp
  moreover have "auto_submit_one env now (db, n) s = (db1, Suc n)" by (simp add: auto_submit_one_def F s(3))
  ultimately show ?case using IH by simp
qed simp

section \<open>The whole job\<close>

definition is_overdue :: "instant \<Rightarrow> quiz_submission \<Rightarrow> bool" where
  "is_overdue now s = (in_progress s \<and> (case qs_EndAt s of Some t \<Rightarrow> t < now - quizAutoSubmitGrace | None \<Rightarrow> False))"

definition overdue :: "instant \<Rightarrow> quiz_store \<Rightarrow> quiz_submission list" where
  "overdue now db = filter (is_overdue now) (qd_Subs db)"

lemma Listed_overdue:
  "ListOverdueUntaken db (now - quizAutoSubmitGrace) k =
   take k (sort_key (\<lambda>s. case qs_EndAt s of Some t \<Rightarrow> t | None \<Rightarrow> 0) (sort_key qs_ID (overdue now db)))"
  by (simp add: ListOverdueUntaken_def overdue_def is_overdue_def[abs_def])

lemma overdue_ids: "quiz_ok db \<Longrightarrow> distinct (map qs_ID (overdue now db))"
  by (simp add: overdue_def quiz_ok_def attempts_ok_def distinct_map_filter)

lemma listed_due:
  assumes "quiz_ok db" shows "due_attempts db (ListOverdueUntaken db (now - quizAutoSubmitGrace) k)"
proof -
  let ?sorted = "sort_key (\<lambda>s. case qs_EndAt s of Some t \<Rightarrow> t | None \<Rightarrow> 0) (sort_key qs_ID (overdue now db))"
  have "distinct (map qs_ID ?sorted)" using overdue_ids[OF assms] by (simp add: distinct_map)
  then have "distinct (map qs_ID (take k ?sorted))" by (metis distinct_take take_map)
  moreover have "set (take k ?sorted) \<subseteq> set (overdue now db)" using set_take_subset[of k ?sorted] by simp
  ultimately show ?thesis
    by (force simp: due_attempts_def Listed_overdue overdue_def is_overdue_def list_all_iff split: option.splits)
qed

lemma overdue_after:
  assumes "quiz_ok db" "moves_to (qs_ID ` set ss) db db'" "\<forall>s \<in> set ss. finished_at db' (qs_ID s) (qs_EndAt s)"
  shows "overdue now db' = filter (\<lambda>s. qs_ID s \<notin> qs_ID ` set ss) (overdue now db)"
proof -
  let ?I = "qs_ID ` set ss"
  have "list_all2 (later_attempt ?I) (qd_Subs db) (qd_Subs db')" using assms(1,2) by (simp add: moves_to_def)
  moreover have "\<forall>r \<in> set (qd_Subs db'). qs_ID r \<in> ?I \<longrightarrow> \<not> in_progress r" using assms(3) by (auto simp: finished_at_def list_all_iff dest: not_both)
  ultimately show ?thesis unfolding overdue_def filter_filter
  proof (induction rule: list_all2_induct)
    case (Cons r rs s ss')
    have id: "qs_ID s = qs_ID r" using Cons.hyps(1) by (rule later_attempt_id)
    have rest: "filter (is_overdue now) ss' = filter (\<lambda>s. is_overdue now s \<and> qs_ID s \<notin> ?I) rs" using Cons.IH Cons.prems by simp
    show ?case
    proof (cases "in_progress r \<and> qs_ID r \<notin> ?I")
      case True
      then have "s = r" using later_attempt_same[OF Cons.hyps(1)] by blast
      then show ?thesis using True by (simp add: rest)
    next
      case False
      have "in_progress s \<longrightarrow> in_progress r" using Cons.hyps(1) unfolding later_attempt_def by blast
      then have "\<not> in_progress s" using False Cons.prems id by auto
      then have "\<not> is_overdue now s" "\<not> (is_overdue now r \<and> qs_ID r \<notin> ?I)" using False by (auto simp: is_overdue_def)
      then show ?thesis using rest by simp
    qed
  qed simp
qed

lemma overdue_left:
  assumes "quiz_ok db" "ss = ListOverdueUntaken db (now - quizAutoSubmitGrace) k"
  shows "length (filter (\<lambda>s. qs_ID s \<notin> qs_ID ` set ss) (overdue now db)) + length ss = length (overdue now db)"
proof -
  let ?O = "overdue now db"
  have sub: "set ss \<subseteq> set ?O" using assms(2) Listed_overdue[of db now k] set_take_subset by force
  have dis: "distinct ?O" "distinct ss"
    using overdue_ids[OF assms(1)] listed_due[OF assms(1), of now k] assms(2) by (auto simp: due_attempts_def distinct_map)
  have "filter (\<lambda>s. qs_ID s \<in> qs_ID ` set ss) ?O = filter (\<lambda>s. s \<in> set ss) ?O"
    using overdue_ids[OF assms(1), of now] sub by (intro filter_cong) (auto simp: distinct_map dest!: inj_onD)
  moreover have "length (filter (\<lambda>s. s \<in> set ss) ?O) = length ss"
  proof -
    have "set (filter (\<lambda>s. s \<in> set ss) ?O) = set ss" using sub by auto
    then show ?thesis using distinct_card[OF distinct_filter[OF dis(1)]] distinct_card[OF dis(2)] by metis
  qed
  ultimately show ?thesis using sum_length_filter_compl[of "\<lambda>s. qs_ID s \<in> qs_ID ` set ss" ?O] by simp
qed

lemma batches_turn_in:
  "quiz_ok db \<Longrightarrow> length (overdue now db) \<le> 200 * k \<Longrightarrow>
   \<exists>db'. auto_submit_batches env now k db n = (n + length (overdue now db), db') \<and> moves_to (qs_ID ` set (overdue now db)) db db' \<and>
     overdue now db' = [] \<and> (\<forall>s \<in> set (overdue now db). finished_at db' (qs_ID s) (qs_EndAt s))"
proof (induction k arbitrary: db n)
  case 0
  then show ?case by (intro exI[of _ db]) simp
next
  case (Suc k)
  let ?O = "overdue now db"
  let ?ss = "ListOverdueUntaken db (now - quizAutoSubmitGrace) 200"
  have len: "length ?ss = min 200 (length ?O)" by (simp add: Listed_overdue)
  show ?case
  proof (cases ?ss)
    case Nil
    then have "?O = []" using len by (cases ?O) auto
    then show ?thesis using Nil by (intro exI[of _ db]) simp
  next
    case (Cons a as)
    obtain db1 where F: "foldl (auto_submit_one env now) (db, 0) ?ss = (db1, 0 + length ?ss)" and m: "moves_to (qs_ID ` set ?ss) db db1"
      and fin: "\<forall>s \<in> set ?ss. finished_at db1 (qs_ID s) (qs_EndAt s)"
      using batch_turns_in[OF Suc.prems(1) listed_due[OF Suc.prems(1)], of env now 0] by blast
    have ok: "quiz_ok db1" by (rule moves_ok[OF m Suc.prems(1)])
    have rest: "overdue now db1 = filter (\<lambda>s. qs_ID s \<notin> qs_ID ` set ?ss) ?O" by (rule overdue_after[OF Suc.prems(1) m fin])
    have left: "length (overdue now db1) + length ?ss = length ?O" unfolding rest by (rule overdue_left[OF Suc.prems(1) refl])
    moreover have "length ?ss = 200 \<or> length ?ss = length ?O" using len by (simp add: min_def split: if_splits)
    ultimately have "length (overdue now db1) \<le> 200 * k" using Suc.prems(2) by (elim disjE) simp_all
    then obtain db2 where IH: "auto_submit_batches env now k db1 (n + length ?ss) = (n + length ?ss + length (overdue now db1), db2)"
      "moves_to (qs_ID ` set (overdue now db1)) db1 db2" "overdue now db2 = []"
      "\<forall>s \<in> set (overdue now db1). finished_at db2 (qs_ID s) (qs_EndAt s)"
      using Suc.IH[OF ok, of "n + length ?ss"] by blast
    have sub: "set ?ss \<subseteq> set ?O" "set (overdue now db1) \<subseteq> set ?O"
      using Listed_overdue[of db now 200] set_take_subset rest by force+
    have "moves_to (qs_ID ` set ?O) db db2"
      by (rule moves_trans[OF moves_weaken[OF m] moves_weaken[OF IH(2)]]) (use sub in auto)
    moreover have "finished_at db2 (qs_ID s) (qs_EndAt s)" if s: "s \<in> set ?O" for s
    proof (cases "qs_ID s \<in> qs_ID ` set ?ss")
      case True
      then obtain r where r: "r \<in> set ?ss" "qs_ID r = qs_ID s" by auto
      then have "r = s" using overdue_ids[OF Suc.prems(1), of now] sub s by (auto simp: distinct_map dest!: inj_onD)
      then show ?thesis using finished_at_mono[OF _ ok IH(2)] fin r(1) by blast
    next
      case False
      then show ?thesis using IH(4) rest s by simp
    qed
    moreover have "auto_submit_batches env now (Suc k) db n = (n + length ?O, db2)"
      using F IH(1) left Cons by (simp split: list.split)
    ultimately show ?thesis using IH(3) by blast
  qed
qed

text \<open>
  C11. Every overdue attempt is turned in: when at most ten thousand are overdue, one run of the job
  leaves no attempt in progress a minute past its deadline. It reports how many it turned in, each is
  finished at its own deadline and not at the time of the run, and an attempt that was not overdue
  stays as it is.
\<close>
theorem overdue_attempts_are_turned_in:
  assumes "quiz_ok db" "length (overdue now db) \<le> 10000" "AutoSubmitOverdueAttempts env now db = (n, db')"
  shows "n = length (overdue now db) \<and> overdue now db' = [] \<and>
    (\<forall>s \<in> set (overdue now db). \<exists>r. attempt_FindByID db' (qs_ID s) = Some r \<and> IsCompleted r \<and> qs_FinishedAt r = qs_EndAt s) \<and>
    (\<forall>s \<in> set (qd_Subs db). in_progress s \<longrightarrow> \<not> is_overdue now s \<longrightarrow> attempt_FindByID db' (qs_ID s) = Some s)"
proof -
  have *: "n = length (overdue now db)" "overdue now db' = []" and m: "moves_to (qs_ID ` set (overdue now db)) db db'"
    and fin: "\<forall>s \<in> set (overdue now db). finished_at db' (qs_ID s) (qs_EndAt s)"
    using batches_turn_in[of db now 50 env 0] assms unfolding AutoSubmitOverdueAttempts_def by auto
  have found: "attempt_FindByID db' (qs_ID s) \<noteq> None" if "s \<in> set (qd_Subs db)" for s
  proof -
    have "list_all2 (later_attempt (qs_ID ` set (overdue now db))) (qd_Subs db) (qd_Subs db')" using m assms(1) by (simp add: moves_to_def)
    from list_all2_image[OF this that] later_attempt_id show ?thesis by (auto simp: attempt_FindByID_def find_None_iff)
  qed
  have ok: "quiz_ok db'" by (rule moves_ok[OF m assms(1)])
  have "\<exists>r. attempt_FindByID db' (qs_ID s) = Some r \<and> IsCompleted r \<and> qs_FinishedAt r = qs_EndAt s" if s: "s \<in> set (overdue now db)" for s
  proof -
    obtain r where r: "attempt_FindByID db' (qs_ID s) = Some r" using found[of s] s by (auto simp: overdue_def)
    then show ?thesis using attempt_FindByID_Some[OF r] fin s by (auto simp: finished_at_def list_all_iff)
  qed
  moreover have "attempt_FindByID db' (qs_ID s) = Some s"
    if s: "s \<in> set (qd_Subs db)" "in_progress s" "\<not> is_overdue now s" for s
  proof -
    have "qs_ID s \<notin> qs_ID ` set (overdue now db)"
      using same_id_row[OF assms(1) s(1)] s(3) by (auto simp: overdue_def)
    then have "s \<in> set (qd_Subs db')" by (rule open_row_kept[OF assms(1) m s(1,2)])
    moreover obtain r where r: "attempt_FindByID db' (qs_ID s) = Some r" using found[OF s(1)] by blast
    ultimately show ?thesis using attempt_FindByID_Some[OF r] same_id_row[OF ok, of r s] by simp
  qed
  ultimately show ?thesis using * by blast
qed

end
