(* ===== verification/Quiz_Numbers.thy ===== *)
theory Quiz_Numbers imports Quiz_Properties begin

text \<open>
  The numbers attempts get when starts do not overlap, and what becomes of them when they do.
\<close>

section \<open>Attempt numbers\<close>

definition numbered :: "quiz_store \<Rightarrow> bool" where
  "numbered db = (\<forall>q u. map qs_Attempt (attempts_of db q u) = map int [1..<Suc (length (attempts_of db q u))])"

text \<open>The identity and the number of the attempts, in the order they were created.\<close>

definition roll :: "quiz_submission list \<Rightarrow> (nat \<times> nat \<times> nat \<times> int \<times> instant option \<times> nat list option) list" where
  "roll xs = map attempt_id xs"

lemma roll_attempts:
  "map qs_Attempt (filter (\<lambda>s. qs_QuizID s = q \<and> qs_UserID s = u) xs) =
   map (\<lambda>(_, _, _, n, _, _). n) (filter (\<lambda>(_, q', u', _, _, _). q' = q \<and> u' = u) (roll xs))"
  by (induction xs) (auto simp: roll_def attempt_id_def)

lemma numbered_cong:
  assumes "roll (qd_Subs db') = roll (qd_Subs db)" shows "numbered db' = numbered db"
proof -
  have "map qs_Attempt (attempts_of db' q u) = map qs_Attempt (attempts_of db q u)" for q u
    unfolding attempts_of_def roll_attempts assms by (rule refl)
  moreover from this have "length (attempts_of db' q u) = length (attempts_of db q u)" for q u by (metis length_map)
  ultimately show ?thesis by (simp add: numbered_def)
qed

lemma moves_roll: "quiz_ok db \<Longrightarrow> moves_to free db db' \<Longrightarrow> roll (qd_Subs db') = roll (qd_Subs db)"
  unfolding roll_def moves_to_def using later_attempts_keep(1) by blast

lemma sort_key_hd: "sort_key f xs = y # ys \<Longrightarrow> y \<in> set xs \<and> (\<forall>x \<in> set xs. f y \<le> f x)"
  by (metis list.set_intros(1) list.simps(9) set_ConsD set_sort sorted_simps(2) sorted_sort_key image_eqI list.set_map order_refl)

lemma latest_number:
  assumes "numbered db" shows "next_number (FindByQuizAndUser db q u) = int (Suc (length (attempts_of db q u)))"
proof (cases "FindByQuizAndUser db q u")
  case None
  then have "attempts_of db q u = []"
    unfolding FindByQuizAndUser_def by (auto split: list.splits dest!: arg_cong[of _ _ set])
  then show ?thesis by (simp add: None next_number_def)
next
  case (Some l)
  let ?xs = "attempts_of db q u"
  obtain ys where "sort_key (\<lambda>s. - qs_Attempt s) (sort_key qs_ID ?xs) = l # ys"
    using Some by (auto simp: FindByQuizAndUser_def split: list.splits)
  from sort_key_hd[OF this] have l: "l \<in> set ?xs" "\<forall>x \<in> set ?xs. qs_Attempt x \<le> qs_Attempt l" by auto
  have nums: "qs_Attempt ` set ?xs = int ` {1..length ?xs}"
    using assms unfolding numbered_def by (metis list.set_map set_upt atLeastLessThanSuc_atLeastAtMost)
  from imageI[OF l(1), of qs_Attempt] have "qs_Attempt l \<le> int (length ?xs)" unfolding nums by auto
  moreover have "0 < length ?xs" using l(1) by (cases ?xs) auto
  then have "int (length ?xs) \<in> qs_Attempt ` set ?xs" unfolding nums by (intro imageI) (simp add: Suc_le_eq)
  then have "int (length ?xs) \<le> qs_Attempt l" using l(2) by auto
  ultimately show ?thesis by (simp add: Some next_number_def)
qed

lemma attempts_of_snoc:
  "qd_Subs db' = qd_Subs db @ [s] \<Longrightarrow>
   attempts_of db' q u = attempts_of db q u @ (if qs_QuizID s = q \<and> qs_UserID s = u then [s] else [])"
  by (simp add: attempts_of_def)

lemma numbered_insert:
  assumes "numbered db" "qd_Subs db' = qd_Subs db @ [s]" "qs_Attempt s = int (Suc (length (attempts_of db (qs_QuizID s) (qs_UserID s))))"
  shows "numbered db'"
  using assms(1,3) by (auto simp: numbered_def attempts_of_snoc[OF assms(2)])

text \<open>A start either leaves the attempts alone or appends the attempt it returns.\<close>

lemma latest_is_stored:
  assumes "FindByQuizAndUser db q u = Some s" shows "s \<in> set (qd_Subs db)"
proof -
  obtain ys where "sort_key (\<lambda>s. - qs_Attempt s) (sort_key qs_ID (attempts_of db q u)) = s # ys"
    using assms by (auto simp: FindByQuizAndUser_def split: list.splits)
  from sort_key_hd[OF this] show ?thesis by (auto simp: attempts_of_def)
qed

lemma not_resumed: "map_sum id Inr x \<noteq> Inr (Inl s)"
  by (cases x) auto

lemma start_decide_resumed:
  assumes "start_decide rnd now db quizID uid given = Inr (Inl s)" shows "s \<in> set (qd_Subs db)"
  by (rule latest_is_stored[of db quizID uid])
     (use assms in \<open>auto simp: start_decide_def Let_def not_resumed split: option.splits if_splits prod.splits\<close>)

lemma start_insert_stored:
  assumes "start_insert db row = (Inr s, db')" "qd_Subs db' = qd_Subs db" shows "s \<in> set (qd_Subs db)"
proof (cases "attempt_Create db row")
  case None
  then have "FindByQuizAndUser db (qs_QuizID row) (qs_UserID row) = Some s"
    using assms(1) by (auto simp: start_insert_def split: option.splits if_splits)
  then show ?thesis by (rule latest_is_stored)
next
  case (Some p)
  then have "length (qd_Subs db') = Suc (length (qd_Subs db))"
    using assms(1) by (auto simp: start_insert_def attempt_Create_def Let_def recordQuizEvent_def split: if_splits)
  then show ?thesis using assms(2) by simp
qed

lemma StartSubmission_cases:
  assumes "quiz_ok db" "StartSubmission rnd now db quizID uid given = (res, db')"
  obtains (kept) "qd_Subs db' = qd_Subs db" "\<And>s. res = Inr s \<Longrightarrow> s \<in> set (qd_Subs db)"
  | (new) row db1 n where "start_decide rnd now db quizID uid given = Inr (Inr (row, db1))" "res = Inr (row\<lparr>qs_ID := n\<rparr>)"
      "qd_Subs db' = qd_Subs db @ [row\<lparr>qs_ID := n\<rparr>]"
proof (cases "start_decide rnd now db quizID uid given")
  case (Inl e)
  then show ?thesis using assms(2) by (intro kept) (auto simp: StartSubmission_def)
next
  case (Inr r)
  show ?thesis
  proof (cases r)
    case (Inl s)
    then show ?thesis using assms(2) Inr start_decide_resumed[of rnd now db quizID uid given s] by (intro kept) (auto simp: StartSubmission_def)
  next
    case r: (Inr p)
    obtain row db1 where p: "p = (row, db1)" by fastforce
    note D = Inr[unfolded r p]
    note row = start_decide_row[OF D]
    have I: "start_insert db1 row = (res, db')" using assms(2) D by (simp add: StartSubmission_def)
    show ?thesis
    proof (rule start_insert_cases[OF moves_ok[OF row(1) assms(1)] row(3,4) I])
      assume same: "qd_Subs db' = qd_Subs db1"
      show ?thesis using start_insert_stored[of db1 row _ db'] I same row(2) by (intro kept) auto
    next
      fix s assume "res = Inr s" "s = row\<lparr>qs_ID := qd_NextID db1\<rparr>" "qd_Subs db' = qd_Subs db1 @ [s]"
      then show ?thesis using D row(2) by (intro new) auto
    qed
  qed
qed

lemma serial_numbered:
  assumes "serial_step env db db'" "quiz_ok db" "numbered db" shows "quiz_ok db' \<and> numbered db'"
proof -
  have "quiz_ok db'" by (rule racing_steps(1)[OF racing_step.serially[OF assms(1)] assms(2)])
  moreover from assms(1) have "numbered db'"
  proof cases
    case op
    then show ?thesis using numbered_cong[OF moves_roll[OF assms(2) quiz_op_moves]] assms(3) by blast
  next
    case (started rnd now quizID uid given)
    obtain res where S: "StartSubmission rnd now db quizID uid given = (res, db')" using started by (metis prod.collapse)
    show ?thesis
    proof (cases rule: StartSubmission_cases[OF assms(2) S, case_names kept new])
      case kept
      then show ?thesis using numbered_cong[of db' db] assms(3) by simp
    next
      case (new row db1 n)
      show ?thesis
        by (rule numbered_insert[OF assms(3) new(3)])
           (use start_decide_row(5-7)[OF new(1)] latest_number[OF assms(3)] in simp)
    qed
  qed
  ultimately show ?thesis by simp
qed

lemma serial_run_numbered: "(serial_step env)\<^sup>*\<^sup>* db db' \<Longrightarrow> quiz_ok db \<Longrightarrow> numbered db \<Longrightarrow> quiz_ok db' \<and> numbered db'"
  by (induction rule: rtranclp_induct) (auto dest: serial_numbered)

lemma start_within_limit:
  assumes "start_decide rnd now db quizID uid given = Inr (Inr (row, db'))" "quiz_FindByID db quizID = Some q"
    "0 < AttemptsAllowedFor q (quizExtensionFor db quizID uid)"
  shows "qs_Attempt row \<le> AttemptsAllowedFor q (quizExtensionFor db quizID uid)"
  using assms start_decide_row(7)[OF assms(1)] by (auto simp: start_decide_def Let_def split: option.splits if_splits prod.splits)

text \<open>
  C12. When starts do not overlap, the attempts of a student at a quiz are numbered 1, 2, 3, ... without
  gaps or repeats, and a start that opens a new attempt gives it the next number, which is within
  the limit of the quiz and the student's extension.
\<close>
theorem attempts_numbered_within_limit:
  assumes "(serial_step env)\<^sup>*\<^sup>* db0 db" "quiz_ok db0" "numbered db0"
    "StartSubmission rnd now db quizID uid given = (Inr s, db')" "s \<notin> set (qd_Subs db)" "quiz_FindByID db quizID = Some q"
  shows "map qs_Attempt (attempts_of db' quizID uid) = map int [1..<Suc (length (attempts_of db quizID uid) + 1)] \<and>
    qs_Attempt s = int (length (attempts_of db quizID uid)) + 1 \<and>
    (0 < AttemptsAllowedFor q (quizExtensionFor db quizID uid) \<longrightarrow> qs_Attempt s \<le> AttemptsAllowedFor q (quizExtensionFor db quizID uid))"
proof -
  have ok: "quiz_ok db" "numbered db" using serial_run_numbered[OF assms(1-3)] by auto
  show ?thesis
  proof (cases rule: StartSubmission_cases[OF ok(1) assms(4), case_names kept new])
    case kept
    then show ?thesis using assms(5) by simp
  next
    case (new row db1 n)
    note row = start_decide_row[OF new(1)]
    have s: "s = row\<lparr>qs_ID := n\<rparr>" using new(2) by simp
    then show ?thesis
      using new(3) row(5-7) latest_number[OF ok(2)] ok(2) start_within_limit[OF new(1) assms(6)]
      by (simp add: numbered_def attempts_of_snoc[OF new(3)])
  qed
qed

section \<open>Overlapping starts\<close>

text \<open>
  The number of an attempt is the one its request read before it inserted: when the student has
  started and turned in other attempts since, the insert still goes through, because the
  database refuses a second attempt in progress only. The new attempt repeats a number, and the limit of
  attempts is not checked again.
\<close>
theorem racing_start_repeats_a_number:
  assumes "start_decide rnd now earlier quizID uid given = Inr (Inr (row, earlier'))"
    "\<not> list_ex in_progress (attempts_of db quizID uid)"
  shows "(\<exists>s. fst (start_insert db row) = Inr s) \<and>
    map qs_Attempt (attempts_of (snd (start_insert db row)) quizID uid) =
      map qs_Attempt (attempts_of db quizID uid) @ [next_number (FindByQuizAndUser earlier quizID uid)]"
  using start_decide_row(3,5-7)[OF assms(1)] assms(2)
  by (simp add: start_insert_def attempt_Create_def Let_def recordQuizEvent_def attempts_of_def)

end
