(* ===== verification/Quiz_Scores.thy ===== *)
theory Quiz_Scores imports Quiz_Properties Submission_Properties begin

text \<open>
  What an attempt counts for: the score a policy keeps of a student's attempts, and the way of that score
  into the gradebook when an attempt is turned in.
\<close>

section \<open>The kept score\<close>

lemma newest_score_stays:
  "(\<forall>r \<in> set xs. qs_Attempt r \<le> fst acc) \<Longrightarrow> foldl newest_score acc xs = acc"
  by (induction xs) (auto simp: newest_score_def)

lemma newest_score_top:
  "s \<in> set xs \<Longrightarrow> fst acc < qs_Attempt s \<Longrightarrow>
   (\<forall>r \<in> set xs. qs_Attempt r < qs_Attempt s \<or> qs_Attempt r = qs_Attempt s \<and> score_or_0 r = score_or_0 s) \<Longrightarrow>
   foldl newest_score acc xs = (qs_Attempt s, score_or_0 s)"
proof (induction xs arbitrary: acc)
  case (Cons x xs)
  show ?case
  proof (cases "qs_Attempt x = qs_Attempt s")
    case True
    then have "newest_score acc x = (qs_Attempt s, score_or_0 s)" using Cons.prems by (auto simp: newest_score_def)
    then show ?thesis using Cons.prems(3) by (auto intro!: newest_score_stays)
  next
    case False
    then have "s \<in> set xs" "fst (newest_score acc x) < qs_Attempt s" using Cons.prems by (auto simp: newest_score_def)
    then show ?thesis using Cons.IH Cons.prems(3) by simp
  qed
qed simp

lemma best_score:
  "foldl (\<lambda>best w. if w > best then w else best) (v :: rat) vs \<in> set (v # vs)"
  "w \<in> set (v # vs) \<Longrightarrow> w \<le> foldl (\<lambda>best w. if w > best then w else best) v vs"
proof (induction vs arbitrary: v w)
  case (Cons x xs)
  case 1
  show ?case using Cons.IH(1)[of v] Cons.IH(1)[of x] by auto
  case 2
  have "v \<le> foldl (\<lambda>best w. if w > best then w else best) v xs" "x \<le> foldl (\<lambda>best w. if w > best then w else best) x xs"
    by (rule Cons.IH(2), simp)+
  then show ?case using 2 Cons.IH(2)[of w v] Cons.IH(2)[of w x] by auto
qed simp_all

text \<open>
  C13. The kept score is what the policy promises: there is one exactly when an attempt is finished; the
  latest is the score of the finished attempt with the highest number, and any policy but latest and
  average keeps a score that some finished attempt has and none exceeds. Scores of attempts in progress
  never count.
\<close>
theorem kept_score_follows_the_policy:
  "(KeptScore policy attempts = None \<longleftrightarrow> \<not> list_ex IsCompleted attempts) \<and>
   (KeptScore ''keep_latest'' (filter IsCompleted attempts) = KeptScore ''keep_latest'' attempts) \<and>
   (\<forall>s \<in> set attempts. IsCompleted s \<longrightarrow> 0 \<le> qs_Attempt s \<longrightarrow>
      (\<forall>r \<in> set attempts. IsCompleted r \<longrightarrow> r = s \<or> qs_Attempt r < qs_Attempt s) \<longrightarrow>
      KeptScore ''keep_latest'' attempts = Some (score_or_0 s)) \<and>
   (policy \<noteq> ''keep_latest'' \<longrightarrow> policy \<noteq> ''keep_average'' \<longrightarrow>
      (\<forall>k. KeptScore policy attempts = Some k \<longrightarrow>
        (\<exists>s \<in> set attempts. IsCompleted s \<and> score_or_0 s = k) \<and> (\<forall>s \<in> set attempts. IsCompleted s \<longrightarrow> score_or_0 s \<le> k)))"
proof (intro conjI)
  have "KeptScore policy attempts = None \<longleftrightarrow> filter IsCompleted attempts = []"
    by (cases "filter IsCompleted attempts") (simp_all add: KeptScore_def Let_def)
  then show "KeptScore policy attempts = None \<longleftrightarrow> \<not> list_ex IsCompleted attempts" by (auto simp: filter_empty_conv list_ex_iff)
  show "KeptScore ''keep_latest'' (filter IsCompleted attempts) = KeptScore ''keep_latest'' attempts" by (simp add: KeptScore_def)
  show "\<forall>s \<in> set attempts. IsCompleted s \<longrightarrow> 0 \<le> qs_Attempt s \<longrightarrow>
      (\<forall>r \<in> set attempts. IsCompleted r \<longrightarrow> r = s \<or> qs_Attempt r < qs_Attempt s) \<longrightarrow>
      KeptScore ''keep_latest'' attempts = Some (score_or_0 s)"
  proof (intro ballI impI)
    fix s assume s: "s \<in> set attempts" "IsCompleted s" "0 \<le> qs_Attempt s"
      "\<forall>r \<in> set attempts. IsCompleted r \<longrightarrow> r = s \<or> qs_Attempt r < qs_Attempt s"
    have "foldl newest_score (- 1, 0) (filter IsCompleted attempts) = (qs_Attempt s, score_or_0 s)"
      by (rule newest_score_top) (use s in auto)
    moreover have "filter IsCompleted attempts \<noteq> []" using s(1,2) by (auto simp: filter_empty_conv)
    ultimately show "KeptScore ''keep_latest'' attempts = Some (score_or_0 s)"
      by (cases "filter IsCompleted attempts") (simp_all add: KeptScore_def)
  qed
  show "policy \<noteq> ''keep_latest'' \<longrightarrow> policy \<noteq> ''keep_average'' \<longrightarrow>
      (\<forall>k. KeptScore policy attempts = Some k \<longrightarrow>
        (\<exists>s \<in> set attempts. IsCompleted s \<and> score_or_0 s = k) \<and> (\<forall>s \<in> set attempts. IsCompleted s \<longrightarrow> score_or_0 s \<le> k))"
  proof (intro impI allI)
    fix k assume p: "policy \<noteq> ''keep_latest''" "policy \<noteq> ''keep_average''" and k: "KeptScore policy attempts = Some k"
    obtain v vs where vs: "map score_or_0 (filter IsCompleted attempts) = v # vs"
      using k by (cases "map score_or_0 (filter IsCompleted attempts)") (auto simp: KeptScore_def)
    have "k = foldl (\<lambda>best w. if w > best then w else best) v vs" using k p vs by (auto simp: KeptScore_def Let_def)
    then have "k \<in> set (v # vs)" "\<forall>w \<in> set (v # vs). w \<le> k" using best_score[where v = v and vs = vs] by blast+
    then have "k \<in> score_or_0 ` set (filter IsCompleted attempts)" "\<forall>w \<in> score_or_0 ` set (filter IsCompleted attempts). w \<le> k"
      using vs by (metis list.set_map)+
    then show "(\<exists>s \<in> set attempts. IsCompleted s \<and> score_or_0 s = k) \<and> (\<forall>s \<in> set attempts. IsCompleted s \<longrightarrow> score_or_0 s \<le> k)" by auto
  qed
qed

section \<open>Into the gradebook\<close>

lemma found_row:
  assumes "store_ok False db" "r \<in> set (sx_Submissions db)" "row_key r = (aid, uid)" shows "FindByAssignmentAndUser db aid uid 0 = Some r"
proof -
  have "FindByAssignmentAndUser db aid uid 0 \<noteq> None"
    using assms(2,3) by (auto simp: FindByAssignmentAndUser_def find_None_iff row_key_def)
  then obtain x where x: "FindByAssignmentAndUser db aid uid 0 = Some x" by blast
  from FindBy_Some[OF x] have "x = r" using key_unique[OF assms(1) _ assms(2)] assms(3) by simp
  with x show ?thesis by simp
qed

lemma announce_score_rows [simp]: "sx_Submissions (announce_score now db a rc isNew old s) = sx_Submissions db"
  by (simp add: announce_score_def Let_def sub_frame)

lemma scored_row_key: "row_key (scored_row env now db a rc s) = row_key s"
  using scored_row_same[of s env now db a rc s] by (simp add: same_row_def)

lemma RecordQuizScore_succeeds:
  assumes "store_ok False db" "enrolled (rc_UserID rc) (asg_CourseID a) \<in> {None, Some ''StudentEnrollment''}" "closed_period now db a (rc_UserID rc) = None"
  defines "found \<equiv> FindByAssignmentAndUser db (asg_ID a) (rc_UserID rc) 0"
  defines "old \<equiv> (case found of Some s \<Rightarrow> s | None \<Rightarrow> blank_submission (asg_ID a) (rc_UserID rc) [])"
  obtains i db' where "RecordQuizScore env now enrolled db a rc = (Inr ((scored_row env now db a rc old)\<lparr>sub_ID := i\<rparr>), db')"
    "FindByAssignmentAndUser db' (asg_ID a) (rc_UserID rc) 0 = Some ((scored_row env now db a rc old)\<lparr>sub_ID := i\<rparr>)"
proof -
  let ?row = "scored_row env now db a rc old"
  have key: "row_key ?row = (asg_ID a, rc_UserID rc)"
    unfolding scored_row_key old_def found_def
    by (cases "FindByAssignmentAndUser db (asg_ID a) (rc_UserID rc) 0") (auto simp: row_key_def blank_submission_def dest: FindBy_Some(2))
  have "\<exists>i db1. save_submission (found = None) db ?row = Some (?row\<lparr>sub_ID := i\<rparr>, db1) \<and> ?row\<lparr>sub_ID := i\<rparr> \<in> set (sx_Submissions db1)"
  proof (cases found)
    case None
    then have "\<not> list_ex (\<lambda>r. sub_AssignmentID r = asg_ID a \<and> sub_UserID r = rc_UserID rc) (sx_Submissions db)"
      using found_row[OF assms(1)] by (fastforce simp: found_def list_ex_iff row_key_def)
    then show ?thesis using None key by (simp add: save_submission_def submission_Create_def row_key_def Let_def) (metis in_set_conv_decomp)
  next
    case (Some s)
    have s: "s \<in> set (sx_Submissions db)" using FindBy_Some(1) Some by (simp add: found_def)
    have "sub_ID ?row = sub_ID s" using scored_row_same[of s env now db a rc s] by (simp add: old_def Some same_row_def)
    then have "?row \<in> set (sx_Submissions (submission_Update db ?row))" using s by (force simp: submission_Update_def)
    then show ?thesis using Some by (intro exI[of _ "sub_ID ?row"] exI[of _ "submission_Update db ?row"]) (simp add: save_submission_def)
  qed
  then obtain i db1 where saved: "save_submission (found = None) db ?row = Some (?row\<lparr>sub_ID := i\<rparr>, db1)" "?row\<lparr>sub_ID := i\<rparr> \<in> set (sx_Submissions db1)"
    by blast
  let ?db' = "announce_score now db1 a rc (found = None) old (?row\<lparr>sub_ID := i\<rparr>)"
  have R: "RecordQuizScore env now enrolled db a rc = (Inr (?row\<lparr>sub_ID := i\<rparr>), ?db')"
    using assms(2,3) saved(1) unfolding RecordQuizScore_def Let_def found_def[symmetric] old_def[symmetric] by (auto split: option.split)
  have "store_ok False ?db'" using RecordQuizScore_ok[OF assms(1), of env now enrolled a rc] by (simp add: R)
  then have "FindByAssignmentAndUser ?db' (asg_ID a) (rc_UserID rc) 0 = Some (?row\<lparr>sub_ID := i\<rparr>)"
    by (rule found_row) (use saved(2) key in \<open>simp_all add: row_key_def\<close>)
  with R that show ?thesis by blast
qed

lemma taken_row_fields:
  "sub_SubmittedAt (taken_row now db a rc s) = Some (score_time now rc)"
  "sub_Attempt (taken_row now db a rc s) = (if rc_Attempt rc > 0 then rc_Attempt rc else sub_Attempt s)"
  "sub_Excused (taken_row now db a rc s) = sub_Excused s"
  by (simp_all add: taken_row_def markSubmitted_def Let_def)

lemma scored_row_fields:
  "sub_SubmittedAt (scored_row env now db a rc s) = Some (score_time now rc)"
  "sub_Attempt (scored_row env now db a rc s) = (if rc_Attempt rc > 0 then rc_Attempt rc else sub_Attempt s)"
  "\<not> sub_Excused s \<Longrightarrow> sub_EnteredScore (scored_row env now db a rc s) = Some (rc_Score rc)"
  "\<not> sub_Excused s \<Longrightarrow> sub_WorkflowState (scored_row env now db a rc s) = (if rc_PendingReview rc then ''pending_review'' else ''graded'')"
  by (simp_all add: scored_row_def Let_def taken_row_fields auto_graded_def applyGradeGiven_def graded_row_def posted_def)

section \<open>What the kept score reads\<close>

text \<open>The columns the kept score depends on; saving the kept score or the gradebook link leaves them alone.\<close>

type_synonym score_columns = "nat \<times> nat \<times> nat \<times> int \<times> rat option \<times> instant option \<times> string"

definition score_key :: "quiz_submission \<Rightarrow> score_columns" where
  "score_key s = (qs_ID s, qs_QuizID s, qs_UserID s, qs_Attempt s, qs_Score s, qs_FinishedAt s, qs_WorkflowState s)"

lemma score_key_eq:
  "score_key r = score_key s \<longleftrightarrow> qs_ID r = qs_ID s \<and> qs_QuizID r = qs_QuizID s \<and> qs_UserID r = qs_UserID s \<and> qs_Attempt r = qs_Attempt s \<and>
     qs_Score r = qs_Score s \<and> qs_FinishedAt r = qs_FinishedAt s \<and> qs_WorkflowState r = qs_WorkflowState s"
  by (auto simp: score_key_def)

lemma same_keys_insort:
  assumes "\<And>x y. score_key x = score_key y \<Longrightarrow> f x = f y" "score_key x = score_key y" "map score_key xs = map score_key ys"
  shows "map score_key (insort_key f x xs) = map score_key (insort_key (f :: _ \<Rightarrow> 'k :: linorder) y ys)"
  using assms(3)
proof (induction xs arbitrary: ys)
  case (Cons a xs)
  then obtain b zs where ys: "ys = b # zs" "score_key a = score_key b" "map score_key xs = map score_key zs" by (cases ys) auto
  moreover have "f x = f y" "f a = f b" using assms(1,2) ys(2) by blast+
  ultimately show ?case using Cons.IH[of zs] assms(2) by simp
qed (use assms(2) in simp)

lemma same_keys_sort:
  assumes "\<And>x y. score_key x = score_key y \<Longrightarrow> f x = f y" "map score_key xs = map score_key ys"
  shows "map score_key (sort_key (f :: _ \<Rightarrow> 'k :: linorder) xs) = map score_key (sort_key f ys)"
  using assms(2)
proof (induction xs arbitrary: ys)
  case (Cons a xs)
  then obtain b zs where ys: "ys = b # zs" "score_key a = score_key b" "map score_key xs = map score_key zs" by (cases ys) auto
  then show ?case using same_keys_insort[of f a b, OF assms(1) ys(2) Cons.IH[OF ys(3)]] by simp
qed simp

lemma same_keys_filter:
  assumes "\<And>x y. score_key x = score_key y \<Longrightarrow> P x = P y" "map score_key xs = map score_key ys"
  shows "map score_key (filter P xs) = map score_key (filter P ys)"
  using assms(2)
proof (induction xs arbitrary: ys)
  case (Cons a xs)
  then obtain b zs where "ys = b # zs" "score_key a = score_key b" "map score_key xs = map score_key zs" by (cases ys) auto
  then show ?case using Cons.IH[of zs] assms(1)[of a b] by simp
qed simp

lemma same_keys_listed:
  assumes "map score_key (qd_Subs db) = map score_key (qd_Subs db')"
  shows "map score_key (ListByQuizAndUser db q u) = map score_key (ListByQuizAndUser db' q u)"
  unfolding ListByQuizAndUser_def attempts_of_def
  by (intro same_keys_sort same_keys_filter) (auto simp: assms score_key_eq)

lemma same_keys_kept:
  assumes "map score_key xs = map score_key ys" shows "KeptScore p xs = KeptScore p ys"
proof -
  have fin: "map score_key (filter IsCompleted xs) = map score_key (filter IsCompleted ys)"
    by (rule same_keys_filter[OF _ assms]) (simp add: score_key_eq IsCompleted_def)
  have scores: "map score_or_0 (filter IsCompleted zs) = map (\<lambda>(_, _, _, _, v, _, _). case v of Some w \<Rightarrow> w | None \<Rightarrow> 0) (map score_key (filter IsCompleted zs))" for zs
    by (simp add: score_or_0_def score_key_def)
  have newest: "foldl newest_score acc zs = foldl (\<lambda>acc (_, _, _, n, v, _, _). if n > fst acc then (n, case v of Some w \<Rightarrow> w | None \<Rightarrow> 0) else acc) acc (map score_key zs)" for acc zs
    by (induction zs arbitrary: acc) (simp_all add: newest_score_def score_or_0_def score_key_def)
  show ?thesis unfolding KeptScore_def Let_def scores newest fin by (rule refl)
qed

lemma newest_cong:
  assumes "score_key u = score_key v" "map_option score_key acc = map_option score_key acc'"
  shows "map_option score_key (newest acc u) = map_option score_key (newest acc' v)"
proof (cases acc)
  case None
  then show ?thesis using assms by (simp add: newest_def)
next
  case (Some a)
  then obtain b where b: "acc' = Some b" "score_key a = score_key b" using assms(2) by (cases acc') auto
  have "qs_Attempt a = qs_Attempt b" "qs_Attempt u = qs_Attempt v" using assms(1) b(2) by (simp_all add: score_key_eq)
  then show ?thesis unfolding Some b(1) newest_def using assms(1) b(2) by simp
qed

lemma same_keys_latest:
  assumes "map score_key xs = map score_key ys" shows "map_option score_key (latest_finished xs) = map_option score_key (latest_finished ys)"
proof -
  have run: "map_option score_key (foldl newest acc us) = map_option score_key (foldl newest acc' vs)"
    if "map score_key us = map score_key vs" "map_option score_key acc = map_option score_key acc'" for us vs acc acc'
    using that
  proof (induction us arbitrary: vs acc acc')
    case (Cons u us)
    then obtain v ws where vs: "vs = v # ws" "score_key u = score_key v" "map score_key us = map score_key ws" by (cases vs) auto
    from newest_cong[OF vs(2) Cons.prems(2)]
    show ?case unfolding vs(1) foldl_Cons by (rule Cons.IH[OF vs(3)])
  qed auto
  have "map score_key (filter IsCompleted xs) = map score_key (filter IsCompleted ys)"
    by (rule same_keys_filter[OF _ assms]) (simp add: score_key_eq IsCompleted_def)
  then show ?thesis unfolding latest_finished_def by (rule run) (rule refl)
qed

section \<open>Turning in\<close>

lemma keeps_keys:
  assumes "\<forall>k \<in> set (map score_key (qd_Subs db)). fst k = qs_ID t \<longrightarrow> k = score_key t"
  shows "map score_key (qd_Subs (attempt_Update db t)) = map score_key (qd_Subs db)"
  using assms by (auto simp: attempt_Update_def score_key_def)

lemma push_keeps_keys:
  assumes "\<forall>k \<in> set (map score_key (qd_Subs db)). fst k = qs_ID l \<longrightarrow> k = score_key l"
  shows "map score_key (qd_Subs (push_to env now a db l kept grader)) = map score_key (qd_Subs db)"
proof -
  have "map score_key (qd_Subs (attempt_Update (db\<lparr>qd_Gradebook := gb\<rparr>) (l\<lparr>qs_SubmissionID := i\<rparr>))) = map score_key (qd_Subs db)" for gb i
    using keeps_keys[of "db\<lparr>qd_Gradebook := gb\<rparr>" "l\<lparr>qs_SubmissionID := i\<rparr>"] assms by (simp add: score_key_def)
  then show ?thesis by (simp add: push_to_def Let_def split: prod.split sum.split)
qed

lemma push_gradebook:
  "qd_Gradebook (push_to env now a db l kept grader) = snd (RecordQuizScore env now (qd_Enrolled db) (qd_Gradebook db) a (score_record now l kept grader))"
  by (simp add: push_to_def Let_def attempt_Update_def split: prod.split sum.split)

lemma linked_cong: assumes "qd_Gradebook db' = qd_Gradebook db" shows "linkedAssignment db' q = linkedAssignment db q"
  unfolding linkedAssignment_def assms by (rule refl)

lemma refresh_linked:
  assumes "quiz_ok db" "KeptScore (qz_ScoringPolicy q) (ListByQuizAndUser db (qz_ID q) uid) = Some k"
    "latest_finished (ListByQuizAndUser db (qz_ID q) uid) = Some l" "IsGraded q" "linkedAssignment db q = Some a"
  shows "qd_Gradebook (refreshKeptScore env now db q uid grader) =
      snd (RecordQuizScore env now (qd_Enrolled db) (qd_Gradebook db) a (score_record now l k grader))"
    "map score_key (qd_Subs (refreshKeptScore env now db q uid grader)) = map score_key (qd_Subs db)"
proof -
  let ?l = "l\<lparr>qs_KeptScore := Some k\<rparr>"
  let ?db = "attempt_Update db ?l"
  have l: "l \<in> set (qd_Subs db)" using latest_finished_Some[OF assms(3)] set_ListByQuizAndUser by blast
  have keys: "\<forall>x \<in> set (map score_key (qd_Subs db)). fst x = qs_ID l \<longrightarrow> x = score_key l"
    using same_id_row[OF assms(1) _ l] by (auto simp: score_key_def)
  then have upd: "map score_key (qd_Subs ?db) = map score_key (qd_Subs db)" using keeps_keys[of db ?l] by (simp add: score_key_def)
  have same: "qd_Enrolled ?db = qd_Enrolled db" "qd_Gradebook ?db = qd_Gradebook db" by (simp_all add: attempt_Update_def)
  note link = linked_cong[OF same(2), of q, unfolded assms(5)] same
  have rc: "score_record now ?l k grader = score_record now l k grader" by (simp add: score_record_def)
  have R: "refreshKeptScore env now db q uid grader = (if qs_KeptScore l \<noteq> Some k then push_to env now a ?db ?l k grader else push_to env now a db l k grader)"
    using assms(2-5) link(1) by (simp add: refreshKeptScore_def refresh_with_def pushGradebookScore_def Let_def)
  show "qd_Gradebook (refreshKeptScore env now db q uid grader) =
      snd (RecordQuizScore env now (qd_Enrolled db) (qd_Gradebook db) a (score_record now l k grader))"
    unfolding R by (simp add: push_gradebook link rc)
  have "map score_key (qd_Subs (push_to env now a ?db ?l k grader)) = map score_key (qd_Subs ?db)"
    by (rule push_keeps_keys) (use keys upd in \<open>simp add: score_key_def\<close>)
  then show "map score_key (qd_Subs (refreshKeptScore env now db q uid grader)) = map score_key (qd_Subs db)"
    unfolding R using upd push_keeps_keys[OF keys] by simp
qed

lemma latest_exists:
  assumes "filter IsCompleted xs \<noteq> []" shows "\<exists>l. latest_finished xs = Some l"
proof -
  have "\<exists>l. foldl newest (Some a) ys = Some l" for a ys
  proof (induction ys arbitrary: a)
    case (Cons y ys)
    obtain b where "newest (Some a) y = Some b" by (cases "qs_Attempt y > qs_Attempt a") (auto simp: newest_def)
    then show ?case using Cons.IH by simp
  qed simp
  then show ?thesis using assms by (cases "filter IsCompleted xs") (auto simp: latest_finished_def newest_def)
qed

text \<open>The store between the conditional update of the attempt and the refresh of the kept score.\<close>

lemma finalize_parts:
  assumes "quiz_ok db" "s \<in> set (qd_Subs db)" "in_progress s" "quiz_FindByID db (qs_QuizID s) = Some q"
    "finalizeAttempt env now db s t e = (Inr s', db')"
  obtains db1 r where "quiz_ok db1" "qd_Gradebook db1 = qd_Gradebook db" "qd_Enrolled db1 = qd_Enrolled db"
    "r \<in> set (ListByQuizAndUser db1 (qs_QuizID s) (qs_UserID s))" "IsCompleted r"
    "db' = fireOnCompleted (refreshKeptScore (ne_Sub env) now db1 q (qs_UserID s) 0) (qs_ID s)"
proof -
  obtain tally review vs where
    G: "applySurveySemantics (Some q) (grade_loop env db s {} (ListBySubmissionID db (qs_ID s)) 0 False) = (tally, review, vs)"
    by (metis prod_cases3)
  let ?s = "finished_attempt s t tally review"
  let ?db0 = "foldl answer_Update db vs"
  obtain won db2 where F: "FinalizeIfInProgress ?db0 ?s = (won, db2)" by fastforce
  let ?db1 = "recordQuizEvent db2 ?s e"
  have m0: "moves_to {} db ?db0" by (rule moves_known_Updates) (rule graded_answers_known[of "Some q", OF G])
  have "quiz_ok db2"
    using moves_ok[OF moves_Finalize[OF finished_attempt_done finished_attempt_row(1-3), of ?db0 s t tally review] moves_ok[OF m0 assms(1)]]
    by (simp add: F)
  then have ok: "quiz_ok ?db1" by (rule moves_ok[OF moves_event(1)])
  have frame: "qd_Gradebook ?db0 = qd_Gradebook db \<and> qd_Enrolled ?db0 = qd_Enrolled db"
    by (induction vs arbitrary: db) (simp_all add: answer_Update_def)
  then have keep: "qd_Gradebook ?db1 = qd_Gradebook db" "qd_Enrolled ?db1 = qd_Enrolled db"
    using F by (auto simp: FinalizeIfInProgress_def update_in_progress_def recordQuizEvent_def split: if_splits)
  let ?f = "\<lambda>r. r\<lparr>qs_FinishedAt := qs_FinishedAt ?s, qs_Score := qs_Score ?s, qs_KeptScore := qs_KeptScore ?s, qs_TimeSpent := qs_TimeSpent ?s,
             qs_WorkflowState := qs_WorkflowState ?s\<rparr>"
  have "list_ex (\<lambda>r. qs_ID r = qs_ID ?s \<and> in_progress r) (qd_Subs ?db0)" using assms(2,3) by (auto simp: list_ex_iff)
  then have won: won "qd_Subs db2 = map (\<lambda>r. if qs_ID r = qs_ID ?s \<and> in_progress r then ?f r else r) (qd_Subs db)"
    using F by (auto simp: FinalizeIfInProgress_def update_in_progress_def)
  then have "?f s \<in> set (qd_Subs ?db1)" using assms(2,3) by (force simp: recordQuizEvent_def)
  moreover have "IsCompleted (?f s)" using finished_attempt_done by (simp add: IsCompleted_def)
  moreover have "db' = fireOnCompleted (refreshKeptScore (ne_Sub env) now ?db1 q (qs_UserID s) 0) (qs_ID s)"
    using assms(5) won(1) by (auto simp: finalizeAttempt_def assms(4) G F Let_def)
  ultimately show ?thesis using that[OF ok keep, of "?f s"] by (simp add: set_ListByQuizAndUser)
qed

text \<open>
  C9. A quiz that is turned in reaches the gradebook: for a graded quiz linked to its assignment, a
  student who may be graded and a row that is not excused, the student's row of that assignment holds
  the score the quiz's policy keeps of all finished attempts, with the number of the latest finished
  attempt, and waits for review exactly when that attempt does.
\<close>
theorem turned_in_score_reaches_the_gradebook:
  assumes "quiz_ok db" "CompleteSubmission env now db sid uid = (Inr s, db')"
    "quiz_FindByID db (qs_QuizID s) = Some q" "IsGraded q" "linkedAssignment db q = Some a"
    "qd_Enrolled db uid (asg_CourseID a) \<in> {None, Some ''StudentEnrollment''}" "closed_period now (qd_Gradebook db) a uid = None"
    "\<And>r. FindByAssignmentAndUser (qd_Gradebook db) (asg_ID a) uid 0 = Some r \<Longrightarrow> \<not> sub_Excused r"
  shows "\<exists>r l k. FindByAssignmentAndUser (qd_Gradebook db') (asg_ID a) uid 0 = Some r \<and>
    KeptScore (qz_ScoringPolicy q) (ListByQuizAndUser db' (qz_ID q) uid) = Some k \<and> sub_EnteredScore r = Some k \<and>
    latest_finished (ListByQuizAndUser db' (qz_ID q) uid) = Some l \<and> (0 < qs_Attempt l \<longrightarrow> sub_Attempt r = qs_Attempt l) \<and>
    sub_WorkflowState r = (if qs_WorkflowState l = ''pending_review'' then ''pending_review'' else ''graded'')"
proof -
  obtain s0 where s0: "attempt_FindByID db sid = Some s0" "qs_UserID s0 = uid" "in_progress s0"
      "finalizeAttempt env now db s0 (finish_time now s0) ''submission_submitted'' = (Inr s, db')"
    using assms(2) by (auto simp: CompleteSubmission_def split: option.splits if_splits)
  have same: "qs_QuizID s = qs_QuizID s0"
    using s0(4) by (auto simp: finalizeAttempt_def Let_def finished_attempt_def split: prod.splits bool.splits)
  have q: "quiz_FindByID db (qs_QuizID s0) = Some q" using assms(3) same by simp
  then have qid: "qz_ID q = qs_QuizID s0" by (auto simp: quiz_FindByID_def find_Some_iff)
  obtain db1 x where ok: "quiz_ok db1" and keep: "qd_Gradebook db1 = qd_Gradebook db" "qd_Enrolled db1 = qd_Enrolled db"
    and x: "x \<in> set (ListByQuizAndUser db1 (qs_QuizID s0) (qs_UserID s0))" "IsCompleted x"
    and db': "db' = fireOnCompleted (refreshKeptScore (ne_Sub env) now db1 q (qs_UserID s0) 0) (qs_ID s0)"
    using finalize_parts[OF assms(1) _ s0(3) q s0(4)] attempt_FindByID_Some[OF s0(1)] by blast
  let ?xs = "ListByQuizAndUser db1 (qz_ID q) uid"
  have fin: "filter IsCompleted ?xs \<noteq> []" using x by (auto simp: filter_empty_conv qid s0(2))
  then obtain k where k: "KeptScore (qz_ScoringPolicy q) ?xs = Some k"
    by (cases "filter IsCompleted ?xs") (simp_all add: KeptScore_def Let_def)
  obtain l where l: "latest_finished ?xs = Some l" using latest_exists[OF fin] by blast
  have link: "linkedAssignment db1 q = Some a" using linked_cong[OF keep(1)] assms(5) by simp
  note push = refresh_linked[OF ok k l assms(4) link, of "ne_Sub env" now 0]
  let ?rc = "score_record now l k 0"
  have "l \<in> set ?xs" using latest_finished_Some[OF l] by blast
  then have user: "rc_UserID ?rc = uid" by (simp add: set_ListByQuizAndUser score_record_def)
  let ?old = "case FindByAssignmentAndUser (qd_Gradebook db1) (asg_ID a) uid 0 of Some s \<Rightarrow> s | None \<Rightarrow> blank_submission (asg_ID a) uid []"
  let ?row = "scored_row (ne_Sub env) now (qd_Gradebook db1) a ?rc ?old"
  have "store_ok False (qd_Gradebook db1)" using ok by (simp add: quiz_ok_def)
  then obtain i gb where R: "RecordQuizScore (ne_Sub env) now (qd_Enrolled db1) (qd_Gradebook db1) a ?rc = (Inr (?row\<lparr>sub_ID := i\<rparr>), gb)"
    and found: "FindByAssignmentAndUser gb (asg_ID a) uid 0 = Some (?row\<lparr>sub_ID := i\<rparr>)"
    using RecordQuizScore_succeeds[of "qd_Gradebook db1" "qd_Enrolled db1" ?rc a now "ne_Sub env"] assms(6,7) unfolding user keep by blast
  have "\<not> sub_Excused ?old" using assms(8) by (auto simp: keep blank_submission_def split: option.split)
  then have row: "sub_EnteredScore ?row = Some k" "0 < qs_Attempt l \<longrightarrow> sub_Attempt ?row = qs_Attempt l"
    "sub_WorkflowState ?row = (if qs_WorkflowState l = ''pending_review'' then ''pending_review'' else ''graded'')"
    by (simp_all add: scored_row_fields score_record_def)
  have gb: "qd_Gradebook db' = gb" using push(1) R by (simp add: db' s0(2) fireOnCompleted_def)
  have "map score_key (qd_Subs db') = map score_key (qd_Subs db1)" using push(2) by (simp add: db' s0(2) fireOnCompleted_def)
  note listed = same_keys_listed[OF this, of "qz_ID q" uid]
  from same_keys_latest[OF listed] l obtain l' where l': "latest_finished (ListByQuizAndUser db' (qz_ID q) uid) = Some l'" "score_key l' = score_key l"
    by auto
  then have "qs_Attempt l' = qs_Attempt l" "qs_WorkflowState l' = qs_WorkflowState l" by (simp_all add: score_key_eq)
  then show ?thesis using found row l'(1) same_keys_kept[OF listed] k unfolding gb by auto
qed

end
