(* ===== verification/Quiz_Cases.thy ===== *)
theory Quiz_Cases imports Quiz_Overdue Quiz_Numbers Quiz_Scores Formula_Semantics Submission_Cases begin

text \<open>
  A graded quiz with one essay question, two attempts of thirty minutes, and a student who takes it:
  the properties of the quiz engine at work, and the two races the code leaves open.
\<close>

section \<open>The quiz\<close>

definition quiz_work :: assignment where
  "quiz_work = group_essay\<lparr>asg_SubmissionTypes := ''online_quiz'', asg_GradingType := ''points'', asg_GroupCategoryID := None,
     asg_DueAt := None, asg_LockAt := None, asg_PointsPossible := Some 5\<rparr>"

definition sample_quiz :: quiz where
  "sample_quiz =
     \<lparr>qz_ID = 1, qz_CourseID = 1, qz_Title = ''Quiz'', qz_QuizType = ''assignment'', qz_TimeLimit = Some 30, qz_AllowedAttempts = 2,
      qz_DueAt = None, qz_UnlockAt = None, qz_LockAt = None, qz_PointsPossible = Some 5, qz_ScoringPolicy = ''keep_highest'',
      qz_OneQuestionAtATime = False, qz_CantGoBack = False, qz_Published = True, qz_WorkflowState = ''available'',
      qz_AssignmentID = Some 4, qz_HideResults = [], qz_OneTimeResults = False, qz_ShowCorrectAnswers = True,
      qz_ShowCorrectAnswersLastAttempt = False, qz_ShowCorrectAnswersAt = None, qz_HideCorrectAnswersAt = None\<rparr>"

definition essay_question :: quiz_question where
  "essay_question =
     \<lparr>qn_ID = 2, qn_QuizID = 1, qn_GroupID = None, qn_Position = 1, qn_QuestionType = ''essay_question'', qn_QuestionText = ''Why?'',
      qn_PointsPossible = Some 5, qn_Answers = ''[]'', qn_WorkflowState = ''active'', qn_BankEntryID = None\<rparr>"

definition quiz_gradebook :: sub_store where
  "quiz_gradebook = group_store\<lparr>sx_Assignments := [quiz_work],
     sx_Dates := \<lparr>dd_Assignments = [quiz_work], dd_Overrides = [], dd_OverrideStudents = [], dd_Enrollments = [], dd_Accommodations = []\<rparr>\<rparr>"

definition quiz_db :: quiz_store where
  "quiz_db =
     \<lparr>qd_Quizzes = [sample_quiz], qd_Questions = [essay_question], qd_Groups = [], qd_Banks = [], qd_Entries = [], qd_Subs = [],
      qd_Answers = [], qd_Extensions = [], qd_Events = [], qd_NextID = 10, qd_Fired = [],
      qd_Enrolled = (\<lambda>_ _. Some ''StudentEnrollment''), qd_Names = (\<lambda>_. ''Quiz''), qd_Position = (\<lambda>_. 1), qd_FirstGroup = (\<lambda>_. None),
      qd_Gradebook = quiz_gradebook\<rparr>"

definition exam_room :: "rat attempt_env" where
  "exam_room = \<lparr>ne_Sub = sample_env, ne_Formula = calculator, ne_PlainText = (\<lambda>t. t), ne_Order = (\<lambda>is. is)\<rparr>"

definition no_draws :: draws where "no_draws k n = []"

text \<open>The student starts, answers, turns in; a grader scores the essay.\<close>

definition started_db :: quiz_store where
  "started_db = snd (StartSubmission no_draws 100 quiz_db 1 7 None)"

definition answered_db :: quiz_store where
  "answered_db = snd (AnswerQuestion 200 started_db 10 2 ''because'')"

definition turned_in_db :: quiz_store where
  "turned_in_db = snd (CompleteSubmission exam_room 300 answered_db 10 7)"

definition graded_db :: quiz_store where
  "graded_db = snd (UpdateQuizScores exam_room 400 turned_in_db sample_quiz (the (attempt_FindByID turned_in_db 10)) None [(2, Some 4, None)] 9)"

definition attempt_view :: "quiz_submission \<Rightarrow> nat \<times> int \<times> rat option \<times> instant option \<times> string" where
  "attempt_view s = (qs_ID s, qs_Attempt s, qs_KeptScore s, qs_FinishedAt s, qs_WorkflowState s)"

definition store_facts :: "quiz_store \<Rightarrow> (nat \<times> string) list \<times> nat \<times> bool \<times> int" where
  "store_facts db = (handed_in db 10, length (attempts_of db 1 7), quiz_FindByID db 1 = Some sample_quiz,
     AttemptsAllowedFor sample_quiz (quizExtensionFor db 1 7))"

definition quiz_view :: "quiz_store \<Rightarrow> (nat \<times> int \<times> rat option \<times> instant option \<times> string) list \<times> instant option list \<times> (nat \<times> string) list \<times> nat \<times> bool \<times> int" where
  "quiz_view db = (map attempt_view (qd_Subs db), map qs_EndAt (qd_Subs db), store_facts db)"


lemma quiz_db_ok: "quiz_ok quiz_db" "numbered quiz_db"
  using group_store_ok
  by (simp_all add: quiz_ok_def attempts_ok_def answers_ok_def quiz_db_def quiz_gradebook_def store_ok_def numbered_def attempts_of_def)

lemma taking_the_quiz:
  "serial_step exam_room quiz_db started_db" "serial_step exam_room started_db answered_db" "serial_step exam_room answered_db turned_in_db"
  unfolding started_db_def answered_db_def turned_in_db_def
  by (rule serial_step.started, rule serial_step.op[OF quiz_op.answered], rule serial_step.op[OF quiz_op.turned_in])

lemma quiz_taken: "(serial_step exam_room)\<^sup>*\<^sup>* quiz_db started_db" "(serial_step exam_room)\<^sup>*\<^sup>* quiz_db turned_in_db"
  using taking_the_quiz by (auto intro: rtranclp.rtrancl_into_rtrancl)

text \<open>Everything that is evaluated, at once.\<close>

definition restarted :: "(quiz_error + quiz_submission) \<times> quiz_store" where
  "restarted = StartSubmission no_draws 500 turned_in_db 1 7 None"

definition slow_row :: quiz_submission where
  "slow_row = new_attempt 100 1 7 1 (Some (100 + 30 * minute)) [2]"

definition gradable_work :: "quiz_store \<Rightarrow> bool" where
  "gradable_work db =
     (quiz_FindByID db 1 = Some sample_quiz \<and> linkedAssignment db sample_quiz = Some quiz_work \<and>
      qd_Enrolled db 7 1 = Some ''StudentEnrollment'' \<and> closed_period 300 (qd_Gradebook db) quiz_work 7 = None \<and>
      FindByAssignmentAndUser (qd_Gradebook db) 4 7 0 = None)"

type_synonym quiz_values =
  "((nat \<times> int \<times> rat option \<times> instant option \<times> string) list \<times> instant option list \<times> (nat \<times> string) list \<times> nat \<times> bool \<times> int) list \<times>
   (quiz_error + nat) \<times> (quiz_error + (nat \<times> int \<times> rat option \<times> instant option \<times> string)) \<times> bool \<times> quiz_error option \<times> (nat \<times> string) list"

definition values_turned_in :: "quiz_store \<Rightarrow> quiz_store \<Rightarrow> (quiz_error + quiz_submission) \<times> quiz_store \<Rightarrow> quiz_values" where
  "values_turned_in started answered result =
     ([quiz_view started, quiz_view (snd result)], map_sum id qs_QuizID (fst result),
      map_sum id attempt_view (fst (StartSubmission no_draws 500 (snd result) 1 7 None)), gradable_work answered,
      answer_error 250 answered (the (attempt_FindByID answered 10)) 2,
      handed_in (snd (upsert_answer (snd result) 10 2 ''late'')) 10)"

definition values_answered :: "quiz_store \<Rightarrow> quiz_store \<Rightarrow> quiz_values" where
  "values_answered started answered = values_turned_in started answered (CompleteSubmission exam_room 300 answered 10 7)"

definition values_started :: "quiz_store \<Rightarrow> quiz_values" where
  "values_started started = values_answered started (snd (AnswerQuestion 200 started 10 2 ''because''))"

lemma values_evaluated:
  "(values_started (snd (StartSubmission no_draws 100 quiz_db 1 7 None)),
    map_sum id (map_sum id fst) (start_decide no_draws 100 quiz_db 1 7 None)) =
   (([([(10, 1, None, None, ''untaken'')], [Some (100 + 30 * minute)], [], 1, True, 2),
      ([(10, 1, Some 0, Some 300, ''pending_review'')], [Some (100 + 30 * minute)], [(2, ''because'')], 1, True, 2)],
     Inr 1, Inr (12, 2, None, None, ''untaken''), True, None, [(2, ''late'')]),
    Inr (Inr slow_row))"
  by code_simp

lemma quiz_values:
  "quiz_view started_db = ([(10, 1, None, None, ''untaken'')], [Some (100 + 30 * minute)], [], 1, True, 2)"
  "quiz_view turned_in_db = ([(10, 1, Some 0, Some 300, ''pending_review'')], [Some (100 + 30 * minute)], [(2, ''because'')], 1, True, 2)"
  "map_sum id attempt_view (fst restarted) = Inr (12, 2, None, None, ''untaken'')"
  "gradable_work answered_db" "map_sum id qs_QuizID (fst (CompleteSubmission exam_room 300 answered_db 10 7)) = Inr 1"
  "map_sum id (map_sum id fst) (start_decide no_draws 100 quiz_db 1 7 None) = Inr (Inr slow_row)"
  "answer_error 250 answered_db (the (attempt_FindByID answered_db 10)) 2 = None"
  "handed_in (snd (upsert_answer turned_in_db 10 2 ''late'')) 10 = [(2, ''late'')]"
  using values_evaluated
  by (simp_all only: values_started_def values_answered_def values_turned_in_def started_db_def answered_db_def turned_in_db_def
      restarted_def prod.inject list.inject simp_thms)

lemma started_view: "map attempt_view (qd_Subs started_db) = [(10, 1, None, None, ''untaken'')]" "map qs_EndAt (qd_Subs started_db) = [Some (100 + 30 * minute)]"
  using quiz_values by (simp_all add: quiz_view_def)

lemma turned_in_view: "map attempt_view (qd_Subs turned_in_db) = [(10, 1, Some 0, Some 300, ''pending_review'')]"
  "handed_in turned_in_db 10 = [(2, ''because'')]" "length (attempts_of turned_in_db 1 7) = 1" "quiz_FindByID turned_in_db 1 = Some sample_quiz"
  "AttemptsAllowedFor sample_quiz (quizExtensionFor turned_in_db 1 7) = 2"
  using quiz_values by (simp_all add: quiz_view_def store_facts_def)

lemma turned_in_ok: "quiz_ok turned_in_db" "numbered turned_in_db" "quiz_ok started_db"
  using serial_run_numbered[OF quiz_taken(2) quiz_db_ok] serial_run_numbered[OF quiz_taken(1) quiz_db_ok] by auto

lemma the_attempt:
  obtains s where "attempt_FindByID turned_in_db 10 = Some s" "s \<in> set (qd_Subs turned_in_db)" "IsCompleted s" "qs_FinishedAt s = Some 300"
proof -
  obtain s where "qd_Subs turned_in_db = [s]" "attempt_view s = (10, 1, Some 0, Some 300, ''pending_review'')"
    using turned_in_view(1) by (cases "qd_Subs turned_in_db") auto
  then show ?thesis using that by (auto simp: attempt_FindByID_def attempt_view_def IsCompleted_def)
qed

lemma grading_step: "quiz_op exam_room turned_in_db graded_db"
proof -
  obtain s where s: "attempt_FindByID turned_in_db 10 = Some s" "s \<in> set (qd_Subs turned_in_db)" by (rule the_attempt)
  have "version_of_row turned_in_db s"
    unfolding version_of_row_def using s(2) quiz_ok_parts(4)[OF turned_in_ok(1) s(2)] later_attempt_refl by blast
  then show ?thesis unfolding graded_db_def s(1) option.sel by (rule quiz_op.graded)
qed

lemma quiz_graded: "(racing_step late exam_room)\<^sup>*\<^sup>* turned_in_db graded_db"
  by (rule r_into_rtranclp) (rule racing_step.serially[OF serial_step.op[OF grading_step]])

section \<open>Witnesses\<close>

lemma attempts_stay_consistent_witness: "quiz_ok turned_in_db \<and> length (qd_Subs turned_in_db) = 1"
  using attempts_stay_consistent[OF serial_racing[OF quiz_taken(2)] quiz_db_ok(1)] arg_cong[OF turned_in_view(1), of length] by simp

lemma finished_attempts_stay_finished_witness:
  "\<exists>s. attempt_FindByID graded_db 10 = Some s \<and> IsCompleted s \<and> qs_FinishedAt s = Some 300"
proof -
  obtain s where s: "attempt_FindByID turned_in_db 10 = Some s" "IsCompleted s" "qs_FinishedAt s = Some 300" by (rule the_attempt)
  from finished_attempts_stay_finished[OF quiz_graded[of "{}"] turned_in_ok(1) s(1,2)] s(3) show ?thesis by (auto simp: finish_of_def)
qed


text \<open>The second start, once the first attempt is turned in.\<close>

lemma restarted_view: "map_sum id attempt_view (fst restarted) = Inr (12, 2, None, None, ''untaken'')"
  using quiz_values by simp

lemma attempts_numbered_within_limit_witness:
  "\<exists>s. fst restarted = Inr s \<and> qs_Attempt s = 2 \<and> map qs_Attempt (attempts_of (snd restarted) 1 7) = [1, 2] \<and>
    qs_Attempt s \<le> AttemptsAllowedFor sample_quiz (quizExtensionFor turned_in_db 1 7)"
proof -
  obtain s where s: "fst restarted = Inr s" "attempt_view s = (12, 2, None, None, ''untaken'')"
    using restarted_view by (cases "fst restarted") auto
  have S: "StartSubmission no_draws 500 turned_in_db 1 7 None = (Inr s, snd restarted)" using s(1) by (simp add: restarted_def prod_eq_iff)
  have new: "s \<notin> set (qd_Subs turned_in_db)" using s(2) turned_in_view(1) by (auto simp: attempt_view_def)
  show ?thesis
    using attempts_numbered_within_limit[OF quiz_taken(2) quiz_db_ok S new turned_in_view(4), unfolded turned_in_view(3,5)] s(1) turned_in_view(5)
    by (simp add: upt_rec)
qed

lemma overdue_attempts_are_turned_in_witness:
  "\<exists>s r. overdue (40 * minute) started_db = [s] \<and> attempt_FindByID (snd (AutoSubmitOverdueAttempts exam_room (40 * minute) started_db)) 10 = Some r \<and>
    IsCompleted r \<and> qs_FinishedAt r = Some (100 + 30 * minute)"
proof -
  obtain s where s: "qd_Subs started_db = [s]" "attempt_view s = (10, 1, None, None, ''untaken'')" "qs_EndAt s = Some (100 + 30 * minute)"
    using started_view by (cases "qd_Subs started_db") auto
  have O: "overdue (40 * minute) started_db = [s]"
    using s by (simp add: overdue_def is_overdue_def in_progress_def attempt_view_def quizAutoSubmitGrace_def minute_def second_def)
  obtain n db' where A: "AutoSubmitOverdueAttempts exam_room (40 * minute) started_db = (n, db')" by fastforce
  have "length (overdue (40 * minute) started_db) \<le> 10000" by (simp add: O)
  from overdue_attempts_are_turned_in[OF turned_in_ok(3) this A] s O A show ?thesis by (auto simp: attempt_view_def)
qed

text \<open>What turning in the first attempt needs, and that it succeeds.\<close>

lemma gradable_values: "gradable_work answered_db"
  using quiz_values by simp

lemma complete_values: "map_sum id qs_QuizID (fst (CompleteSubmission exam_room 300 answered_db 10 7)) = Inr 1"
  using quiz_values by simp

lemma turned_in_score_reaches_the_gradebook_witness:
  "\<exists>r. FindByAssignmentAndUser (qd_Gradebook turned_in_db) 4 7 0 = Some r \<and> sub_Attempt r = 1 \<and> sub_WorkflowState r = ''pending_review'' \<and>
    sub_EnteredScore r = KeptScore ''keep_highest'' (ListByQuizAndUser turned_in_db 1 7)"
proof -
  obtain s where s: "fst (CompleteSubmission exam_room 300 answered_db 10 7) = Inr s" "qs_QuizID s = 1"
    using complete_values by (cases "fst (CompleteSubmission exam_room 300 answered_db 10 7)") auto
  have C: "CompleteSubmission exam_room 300 answered_db 10 7 = (Inr s, turned_in_db)" using s(1) by (simp add: turned_in_db_def prod_eq_iff)
  have ok: "quiz_ok answered_db"
    using racing_run_ok[OF serial_racing, of exam_room quiz_db answered_db] quiz_db_ok taking_the_quiz(1,2) by (auto intro: rtranclp.rtrancl_into_rtrancl)
  have q: "quiz_FindByID answered_db (qs_QuizID s) = Some sample_quiz" and a: "linkedAssignment answered_db sample_quiz = Some quiz_work"
    and gate: "qd_Enrolled answered_db 7 1 = Some ''StudentEnrollment''" "closed_period 300 (qd_Gradebook answered_db) quiz_work 7 = None"
      "FindByAssignmentAndUser (qd_Gradebook answered_db) 4 7 0 = None"
    using gradable_values s(2) by (simp_all add: gradable_work_def)
  have work: "asg_ID quiz_work = 4" "asg_CourseID quiz_work = 1" "IsGraded sample_quiz" "qz_ID sample_quiz = 1"
    "qz_ScoringPolicy sample_quiz = ''keep_highest''"
    by (simp_all add: quiz_work_def group_essay_def sample_quiz_def IsGraded_def)
  obtain x where x: "qd_Subs turned_in_db = [x]" "attempt_view x = (10, 1, Some 0, Some 300, ''pending_review'')"
    using turned_in_view(1) by (cases "qd_Subs turned_in_db") auto
  obtain r l k where R: "FindByAssignmentAndUser (qd_Gradebook turned_in_db) 4 7 0 = Some r"
    "KeptScore ''keep_highest'' (ListByQuizAndUser turned_in_db 1 7) = Some k" "sub_EnteredScore r = Some k"
    "latest_finished (ListByQuizAndUser turned_in_db 1 7) = Some l" "0 < qs_Attempt l \<longrightarrow> sub_Attempt r = qs_Attempt l"
    "sub_WorkflowState r = (if qs_WorkflowState l = ''pending_review'' then ''pending_review'' else ''graded'')"
    using turned_in_score_reaches_the_gradebook[OF ok C q work(3) a] gate work by auto
  have "l = x" using latest_finished_Some[OF R(4)] x(1) by (simp add: set_ListByQuizAndUser)
  then show ?thesis using R x(2) by (simp add: attempt_view_def)
qed

text \<open>Three attempts, the last one in progress: the best of the finished ones counts, or the second.\<close>

definition scored_attempt :: "int \<Rightarrow> rat \<Rightarrow> quiz_submission" where
  "scored_attempt n v = finished_attempt (new_attempt 100 1 7 n None []) 300 v False"

definition three_attempts :: "quiz_submission list" where
  "three_attempts = [scored_attempt 1 5, scored_attempt 2 3, new_attempt 400 1 7 3 None []]"

lemma scored_attempt_fields [simp]:
  "IsCompleted (scored_attempt n v)" "qs_Attempt (scored_attempt n v) = n" "score_or_0 (scored_attempt n v) = v"
  "\<not> IsCompleted (new_attempt t q u m e [])"
  by (simp_all add: scored_attempt_def finished_attempt_def new_attempt_def IsCompleted_def score_or_0_def)

lemma kept_score_follows_the_policy_witness:
  "KeptScore ''keep_latest'' three_attempts = Some 3 \<and> KeptScore ''keep_highest'' three_attempts = Some 5"
proof
  have two: "scored_attempt 2 3 \<in> set three_attempts" "0 \<le> qs_Attempt (scored_attempt 2 3)"
    "\<forall>r \<in> set three_attempts. IsCompleted r \<longrightarrow> r = scored_attempt 2 3 \<or> qs_Attempt r < qs_Attempt (scored_attempt 2 3)"
    by (simp_all add: three_attempts_def)
  note policy = kept_score_follows_the_policy[of "''keep_highest''" three_attempts]
  note latest = policy[THEN conjunct2, THEN conjunct2, THEN conjunct1, rule_format]
  note highest = policy[THEN conjunct2, THEN conjunct2, THEN conjunct2, rule_format]
  have "KeptScore ''keep_latest'' three_attempts = Some (score_or_0 (scored_attempt 2 3))"
    by (rule latest[OF two(1) scored_attempt_fields(1) two(2)]) (use two(3) in blast)
  then show "KeptScore ''keep_latest'' three_attempts = Some 3" by (simp only: scored_attempt_fields)
  have "list_ex IsCompleted three_attempts" by (simp add: three_attempts_def)
  then obtain k where k: "KeptScore ''keep_highest'' three_attempts = Some k" using policy[THEN conjunct1] by blast
  have other: "''keep_highest'' \<noteq> ''keep_latest''" "''keep_highest'' \<noteq> ''keep_average''" by simp_all
  have "k = 5 \<or> k = 3" using highest[OF other k, THEN conjunct1] by (auto simp: three_attempts_def)
  moreover have "score_or_0 (scored_attempt 1 5) \<le> k"
    by (rule highest[OF other k, THEN conjunct2, rule_format]) (simp_all add: three_attempts_def)
  ultimately show "KeptScore ''keep_highest'' three_attempts = Some 5" using k by auto
qed

section \<open>The two races\<close>

text \<open>
  A request that decided on the first attempt before the student started and turned it in: its insert
  goes through, and the quiz has two attempts with the number one.
\<close>

lemma slow_values: "map_sum id (map_sum id fst) (start_decide no_draws 100 quiz_db 1 7 None) = Inr (Inr slow_row)"
  using quiz_values by simp

lemma slow_decision: obtains db where "start_decide no_draws 100 quiz_db 1 7 None = Inr (Inr (slow_row, db))"
  using slow_values by (cases "start_decide no_draws 100 quiz_db 1 7 None" rule: sum.exhaust; cases "projr (start_decide no_draws 100 quiz_db 1 7 None)") auto

lemma racing_start_repeats_a_number_witness:
  "map qs_Attempt (attempts_of (snd (start_insert turned_in_db slow_row)) 1 7) = [1, 1]"
proof -
  obtain s where s: "qd_Subs turned_in_db = [s]" "attempt_view s = (10, 1, Some 0, Some 300, ''pending_review'')"
    using turned_in_view(1) by (cases "qd_Subs turned_in_db") auto
  have "\<not> list_ex in_progress (attempts_of turned_in_db 1 7)" using s by (simp add: attempts_of_def attempt_view_def in_progress_def)
  moreover obtain db where "start_decide no_draws 100 quiz_db 1 7 None = Inr (Inr (slow_row, db))" by (rule slow_decision)
  ultimately have "map qs_Attempt (attempts_of (snd (start_insert turned_in_db slow_row)) 1 7) =
      map qs_Attempt (attempts_of turned_in_db 1 7) @ [next_number (FindByQuizAndUser quiz_db 1 7)]"
    using racing_start_repeats_a_number[of no_draws 100 quiz_db 1 7 None slow_row db turned_in_db] by blast
  then show ?thesis
    using s turned_in_view(3) by (auto simp: attempts_of_def attempt_view_def FindByQuizAndUser_def quiz_db_def next_number_def split: if_splits)
qed

text \<open>
  An answer that passes its checks before the attempt is turned in and is written after it: the text
  the attempt was graded on is replaced.
\<close>

lemma late_answer_replaces_the_graded_one:
  "answer_error 250 answered_db (the (attempt_FindByID answered_db 10)) 2 = None \<and>
   handed_in turned_in_db 10 = [(2, ''because'')] \<and>
   handed_in (snd (upsert_answer turned_in_db 10 2 ''late'')) 10 = [(2, ''late'')]"
  using quiz_values turned_in_view(2) by simp

end
