(* ===== verification/Spec2Isabelle.thy ===== *)
theory Spec2Isabelle imports Cooldown Grade_Calc Module_Progress Scheme_Validation Submission_Cases Formula_Semantics Quiz_Cases begin

text \<open>
  A verification development for the core of Paper LMS, a learning management system written in Go.

  PARTS OF THE PROGRAM. HTTP handlers (\<open>internal/api/v1/handlers\<close>) call services (\<open>internal/service\<close>),
  services keep rows (\<open>internal/domain/models\<close>) through repositories over Postgres
  (\<open>internal/repository/postgres\<close>). Three subsystems carry logic of their own and are modelled:

  GAMIFICATION (\<open>internal/service/gamification\<close>). Events are checked by the FERPA guard and dispatched to
  the rules indexed by their type; a rule is a JSON document of predicates and effects that is
  validated when it is stored; a predicate is evaluated on a snapshot of a student's facts; effects move
  currencies in a ledger and award badges, and an awarded badge is an event again.
    \<^item> Mastery: the calculators of \<open>mastery/*.go\<close>.
    \<^item> Predicates: the predicate types, their needs and traces (\<open>predicates/*.go\<close>).
    \<^item> Rule_Codec, Rule_Service: \<open>predicates/factory.go\<close>, \<open>effects/factory.go\<close>, \<open>rule_service.go\<close>, \<open>vocabulary.go\<close>.
    \<^item> Wallet: \<open>gamification_wallet.go\<close> with its duplicate index. Snapshot: \<open>snapshot.go\<close> and its queries.
      Ferpa: \<open>ferpa_guard.go\<close>.
    \<^item> Dispatch: \<open>rule_index.go\<close>, \<open>cooldown.go\<close>, \<open>dispatcher.go\<close>, \<open>effects/*.go\<close> and the emission of badge
      events. Cooldown: what the cooldown gate guarantees over whole histories.

  GRADES AND COURSE STRUCTURE (\<open>internal/service\<close>). An assignment has dates and grading rules; a student hands
  work in, a grader writes a score, a late policy deducts from it, and the calculator folds the scores of
  a course into one grade. Modules open item by item.
    \<^item> Models: the rows these components share. Transitions: \<open>state_transitions.go\<close>.
    \<^item> Drop_Rules, Grade_Calc: \<open>grade_calculator.go\<close>. Grading_Scheme, Scheme_Validation: \<open>grading_scheme.go\<close>.
    \<^item> Due_Dates: \<open>due_dates.go\<close> and its bulk twin in \<open>grading_policy.go\<close>. Late_Policy: \<open>submission_status.go\<close>,
      \<open>late_policy_service.go\<close>. Module_Progress: \<open>module_progression_eval.go\<close>.
    \<^item> Submission_Store, Submissions, Submission_Grading: the tables of \<open>SubmissionService\<close>, handing in and
      grading (\<open>submission_service.go\<close>). Submission_Steps: one step per operation (\<open>sub_op\<close>, \<open>run_op\<close>,
      \<open>sub_step\<close>). Submission_Properties, Submission_Cases: what the service guarantees.

  THE QUIZ ENGINE (\<open>internal/service/quiz*.go\<close>). A student starts an attempt, answers and turns it in; it is
  graded automatically, by hand or by a regrade; the score its policy keeps goes to the gradebook row
  of the quiz's assignment, which is a row of the submission store.
    \<^item> Quiz_Grading: the automatic graders of \<open>quiz_grading_service.go\<close>. Quiz_Formula: the parser and evaluator
      of \<open>quiz_formula.go\<close>. Formula_Semantics: the value of an expression tree.
    \<^item> Quiz_Store: tables and repositories (\<open>quiz_store\<close>). Quiz_Gradebook: \<open>quiz_gradebook_sync.go\<close>,
      \<open>quiz_lifecycle_service.go\<close>. Quiz_Attempts: \<open>quiz_attempts_service.go\<close>, \<open>quiz_delivery.go\<close>.
      Quiz_Moderation: \<open>quiz_moderation.go\<close>, \<open>quiz_manual_grading.go\<close>, \<open>quiz_regrade.go\<close>, \<open>quiz_results_policy.go\<close>.
    \<^item> Quiz_Steps: what every operation does to attempts and answers (\<open>moves_to\<close>). Quiz_Properties: runs
      (\<open>serial_step\<close>, and \<open>racing_step\<close> where the two halves of a start interleave with everything else).
      Quiz_Numbers, Quiz_Overdue, Quiz_Scores: attempt numbers, the overdue job, kept scores and the
      gradebook. Quiz_Cases: a quiz that is taken and graded.

  SHARED LIBRARY. Prelude: lists, maps, Go's integers and the collections of facts. Tables: locales for tables
  keyed by an id (interpreted at the rule table) and for rows that only move on (\<open>row_versions\<close>,
  interpreted at attempts and answers). Locales also state what the mastery calculators, the evaluators
  of predicates, the ledger and rounding promise, each interpreted at the code's model. Binary64: finite \<open>float64\<close> as
  rationals with correctly rounded operations. Go_Strings, Go_Time, Go_Json: the parts of \<open>strings\<close>, \<open>time\<close>
  and \<open>encoding/json\<close> the program uses.

  HOW THE MODEL CORRESPONDS TO THE CODE. A struct is a record with the columns the modelled code reads or
  writes; a table is a list of rows, an auto-increment id a counter; an operation is a function of the
  same name on the store that returns a result and the new store; every error return is a value of the
  component's error datatype. Code outside the repository is an argument: the JSON scanner, Unicode
  tables, \<open>net/url\<close>, the HTML sanitiser, \<open>strconv.ParseFloat\<close>, \<open>big.Rat\<close>, \<open>math\<close>, \<open>math/rand\<close>, HMAC. Where Go
  walks a map, the order is an argument (or the result is shown not to depend on it).

  WHAT THE LEMMAS SHOW. Steps keep the stores consistent (submissions, quizzes, ledger, rules), and finished
  attempts and handed-in answers are final in every interleaving. Optimised or twin code agrees with a
  reference: the bulk date resolver, the module evaluation, the predicate evaluator, the formula
  parser, the grade calculator without the work that does not count. Errors leave the store as it was.
  Grades stay within their bounds, lateness never pays, schemes are monotone. Overdue attempts are all
  turned in, and a turned-in quiz reaches the gradebook.

  BOUNDS AND FUEL. The formula parser runs with fuel linear in the number of runes (\<open>EvalFormula\<close>), which is
  shown never to run out. Badge events emit events recursively; the recursion is shown to end
  with one unit of fuel more than there are badges the actor has not earned. Module evaluation repeats at most as often
  as there are modules plus one. The drop-rule search makes at most the code's hundred iterations. The
  overdue job makes the code's 50 rounds of 200 attempts and the linking of graded quizzes its 50 rounds of
  100; the theorem on overdue attempts is stated for up to ten thousand. Balances of wallets are 64-bit;
  counters that cannot reach their width are plain numbers.

  ATOMICITY. An operation is one step, except that a start of an attempt may be split between its decision and
  its insert. The writes that the code guards by a condition in the update (turning in, deadlines, read
  questions) are conditional in the model too. \<open>AnswerQuestion\<close> checks first and writes without a
  condition: that it is one step is an assumption of the runs, and Quiz_Cases shows what happens
  without it. The same theory shows that overlapping starts can repeat an attempt number.

  NOT MODELLED, AND WHY. Infinities, NaN and negative zero (only the formula evaluator can meet them, and there
  the arithmetic is a parameter); fused multiply-add; failures of the database other than unique indexes;
  the microsecond precision of stored times and the reformatting of \<open>jsonb\<close> columns; time zones (days
  are UTC days); clock readings within one operation (one per operation). Of the modelled services:
  listings, pagination, wording, logging, history rows of regrades, access codes and address filters of
  quizzes. Handlers, routing, authentication, GraphQL, LTI, SIS, QTI and IMSCC packages, discussions,
  portfolios, blueprint and course copies, calendar, files, notifications, reports and the scheduler are
  left out: they are protocol glue over third-party code or row management without invariants of their
  own.
\<close>

end
